(* ===== verification/Prelude.thy ===== *)
theory Prelude
  imports Main "HOL-Library.Sublist"
begin

text \<open>
  Shared vocabulary of the development.

  The file holds the JavaScript values the components exchange (\<open>json\<close>,
  \<open>js_number\<close>), the string operations of the language that the source uses
  (\<open>trim\<close>, \<open>split\<close>, \<open>slice\<close>, \<open>startsWith\<close>, decimal rendering), the reading of a
  database table as a list of rows in insertion order, and the generic lemmas on
  lists of rows that the component theories share.

  Conventions of the whole development:
  \<^item> a string is a \<open>char list\<close>; \<open>undefined\<close> and \<open>null\<close> are \<open>None\<close>;
  \<^item> an operation that can throw returns \<open>exn + 'a\<close>, \<open>Inl\<close> being the exception;
  \<^item> a stateful operation takes the state and returns the state after the call, also
    when it throws, because a JavaScript \<open>throw\<close> undoes nothing;
  \<^item> times are \<open>int\<close>: milliseconds since the epoch, as \<open>Date.now()\<close> counts them.
\<close>

named_theorems row_simps \<open>rewriting of lookups in tables\<close>
named_theorems inv_intros \<open>preservation of component invariants\<close>

section \<open>Values\<close>

text \<open>A JSON document, with the members of an object in order.\<close>

datatype json =
    JNull
  | JBool bool
  | JNum int
  | JStr string
  | JArr "json list"
  | JObj "(string \<times> json) list"

text \<open>
  A JavaScript number as \<open>Number.isInteger\<close> sees it: a mathematical integer, or
  anything else (a fraction, \<open>NaN\<close>, an infinity).
\<close>

datatype js_number = JInt int | JOther

fun is_integer :: "js_number \<Rightarrow> bool" where
  "is_integer (JInt _) = True"
| "is_integer JOther = False"

text \<open>\<open>{ ...base, [k]: v }\<close>: an existing member keeps its place and takes the new content.\<close>

fun obj_put :: "'k \<Rightarrow> 'v \<Rightarrow> ('k \<times> 'v) list \<Rightarrow> ('k \<times> 'v) list" where
  "obj_put k v [] = [(k, v)]"
| "obj_put k v ((k', v') # ms) = (if k = k' then (k, v) # ms else (k', v') # obj_put k v ms)"

lemma map_of_obj_put [simp]: "map_of (obj_put k v ms) = (map_of ms)(k \<mapsto> v)"
  by (induction ms) (auto simp: fun_eq_iff)

text \<open>
  A route's metadata on the handler and on its class; \<open>getAllAndOverride\<close> takes the first
  that is set.
\<close>

definition get_all_and_override :: "'a option \<Rightarrow> 'a option \<Rightarrow> 'a option" where
  "get_all_and_override handler cls = (case handler of Some x \<Rightarrow> Some x | None \<Rightarrow> cls)"

text \<open>An empty string is falsy, as is one that is absent.\<close>

definition truthy :: "string option \<Rightarrow> string option" where
  "truthy x = (case x of Some s \<Rightarrow> (if s = [] then None else Some s) | None \<Rightarrow> None)"

section \<open>Strings\<close>

definition is_space :: "char \<Rightarrow> bool" where
  "is_space c \<longleftrightarrow> c \<in> {CHR '' '', CHR 0x09, CHR 0x0A, CHR 0x0B, CHR 0x0C, CHR 0x0D}"

text \<open>\<open>String.prototype.trim\<close>, on the ASCII white space.\<close>

definition trim :: "string \<Rightarrow> string" where
  "trim s = rev (dropWhile is_space (rev (dropWhile is_space s)))"

text \<open>\<open>toLowerCase\<close>, on the ASCII letters.\<close>

definition lower_char :: "char \<Rightarrow> char" where
  "lower_char c =
     (if 65 \<le> (of_char c :: nat) \<and> (of_char c :: nat) \<le> 90
      then char_of (of_char c + (32 :: nat)) else c)"

text \<open>\<open>String.prototype.startsWith\<close> and the remainder after the prefix.\<close>

fun starts_with :: "string \<Rightarrow> string \<Rightarrow> bool" where
  "starts_with [] s = True"
| "starts_with (p # ps) [] = False"
| "starts_with (p # ps) (c # cs) = (p = c \<and> starts_with ps cs)"

lemma starts_with_prefix: "starts_with p s \<longleftrightarrow> prefix p s"
  by (induction p s rule: starts_with.induct) auto

lemma starts_with_append [simp]: "starts_with p (p @ s)"
  by (simp add: starts_with_prefix)

text \<open>The decimal rendering of a number, as template literals and \<open>String(n)\<close> produce it.\<close>

function show_digits :: "int \<Rightarrow> string" where
  "show_digits n =
     (if n < 10 then [''0123456789'' ! nat n]
      else show_digits (n div 10) @ [''0123456789'' ! nat (n mod 10)])"
  by auto
termination by (relation "measure nat") auto

declare show_digits.simps [simp del]

definition show_int :: "int \<Rightarrow> string" where
  "show_int n = (if n < 0 then CHR ''-'' # show_digits (- n) else show_digits n)"

text \<open>\<open>Number(text)\<close> on a decimal integer.\<close>

definition digit_of :: "char \<Rightarrow> nat option" where
  "digit_of = map_of (zip ''0123456789'' [0, 1, 2, 3, 4, 5, 6, 7, 8, 9])"

fun parse_digits :: "nat \<Rightarrow> string \<Rightarrow> nat option" where
  "parse_digits acc [] = Some acc"
| "parse_digits acc (c # cs) =
     (case digit_of c of None \<Rightarrow> None | Some d \<Rightarrow> parse_digits (10 * acc + d) cs)"

definition parse_nat :: "string \<Rightarrow> nat option" where
  "parse_nat s = (if s = [] then None else parse_digits 0 s)"

fun parse_int :: "string \<Rightarrow> int option" where
  "parse_int (c # cs) =
     (if c = CHR ''-'' then map_option (\<lambda>n. - int n) (parse_nat cs)
      else map_option int (parse_nat (c # cs)))"
| "parse_int [] = None"

lemma less_10_cases:
  assumes "(d::nat) < 10"
  shows "d = 0 \<or> d = 1 \<or> d = 2 \<or> d = 3 \<or> d = 4 \<or> d = 5 \<or> d = 6 \<or> d = 7 \<or> d = 8 \<or> d = 9"
  using assms by presburger

lemma digit_of_digit: "d < 10 \<Longrightarrow> digit_of (''0123456789'' ! d) = Some d"
  by (drule less_10_cases) (auto simp: digit_of_def)

lemma digit_not_minus: "d < 10 \<Longrightarrow> ''0123456789'' ! d \<noteq> CHR ''-''"
  by (drule less_10_cases) auto

lemma parse_digits_append:
  "parse_digits a (xs @ ys) = (case parse_digits a xs of None \<Rightarrow> None | Some b \<Rightarrow> parse_digits b ys)"
  by (induction xs arbitrary: a) (auto split: option.split)

lemma show_digits_nonempty [simp]: "show_digits n \<noteq> []"
  by (subst show_digits.simps) simp

lemma parse_digits_show: "0 \<le> n \<Longrightarrow> parse_digits 0 (show_digits n) = Some (nat n)"
proof (induction n rule: show_digits.induct)
  case (1 n)
  show ?case
  proof (cases "n < 10")
    case True
    with 1(2) show ?thesis by (subst show_digits.simps) (simp add: digit_of_digit nat_less_iff)
  next
    case False
    with 1 have "parse_digits 0 (show_digits (n div 10)) = Some (nat (n div 10))" by simp
    moreover have "10 * nat (n div 10) + nat (n mod 10) = nat n"
    proof -
      have "int (10 * nat (n div 10) + nat (n mod 10)) = 10 * (n div 10) + n mod 10"
        using False by simp
      also have "\<dots> = n" by (rule mult_div_mod_eq)
      finally show ?thesis by linarith
    qed
    ultimately show ?thesis
      using False by (subst show_digits.simps) (simp add: parse_digits_append digit_of_digit nat_less_iff)
  qed
qed

lemma parse_digits_zeros [simp]: "parse_digits 0 (replicate k CHR ''0'' @ s) = parse_digits 0 s"
proof (induction k)
  case (Suc k)
  then show ?case using digit_of_digit[of 0] by simp
qed simp

text \<open>\<open>String(n).padStart(w, '0')\<close>.\<close>

definition pad_start :: "nat \<Rightarrow> int \<Rightarrow> string" where
  "pad_start w n = replicate (w - length (show_digits n)) CHR ''0'' @ show_digits n"

lemma pad_start_inject [simp]:
  "0 \<le> m \<Longrightarrow> 0 \<le> n \<Longrightarrow> pad_start w m = pad_start w n \<longleftrightarrow> m = n"
  unfolding pad_start_def
  by (metis option.inject parse_digits_show parse_digits_zeros nat_0_le)

lemma length_show_digits_le: "n < 10 ^ k \<Longrightarrow> 0 < k \<Longrightarrow> length (show_digits n) \<le> k"
proof (induction n arbitrary: k rule: show_digits.induct)
  case (1 n)
  show ?case
  proof (cases "n < 10")
    case True
    with 1(3) show ?thesis by (subst show_digits.simps) simp
  next
    case False
    with 1(2,3) obtain j where k: "k = Suc j" "0 < j"
      by (cases k; cases "k - 1") auto
    from 1(2) k have "n < 10 ^ j * 10" by simp
    moreover have "10 * (n div 10) \<le> n"
      using mult_div_mod_eq[of 10 n] pos_mod_sign[of 10 n] by linarith
    ultimately have "n div 10 < 10 ^ j" by linarith
    with 1(1)[OF False, of j] k have "length (show_digits (n div 10)) \<le> j" by simp
    with False k show ?thesis by (subst show_digits.simps) simp
  qed
qed

lemma length_pad_start: "n < 10 ^ w \<Longrightarrow> 0 < w \<Longrightarrow> length (pad_start w n) = w"
  using length_show_digits_le[of n w] by (simp add: pad_start_def)

lemma show_digits_head: "0 \<le> n \<Longrightarrow> show_digits n = c # cs \<Longrightarrow> c \<noteq> CHR ''-''"
proof (induction n arbitrary: c cs rule: show_digits.induct)
  case (1 n)
  show ?case
  proof (cases "n < 10")
    case True
    with 1 show ?thesis
      using digit_not_minus[of "nat n"] by (auto simp: show_digits.simps[of n])
  next
    case False
    obtain d ds where "show_digits (n div 10) = d # ds" by (cases "show_digits (n div 10)") auto
    with 1 False show ?thesis by (auto simp: show_digits.simps[of n])
  qed
qed

text \<open>The rendering of an integer reads back.\<close>

lemma parse_int_show [simp]: "parse_int (show_int n) = Some n"
proof (cases "n < 0")
  case True
  then show ?thesis by (simp add: show_int_def parse_nat_def parse_digits_show)
next
  case False
  obtain c cs where s: "show_digits n = c # cs" by (cases "show_digits n") auto
  with show_digits_head[OF _ s] False
  have "parse_int (show_int n) = map_option int (parse_nat (c # cs))"
    by (simp add: show_int_def)
  also have "\<dots> = Some n"
    unfolding s[symmetric] using False by (simp add: parse_nat_def parse_digits_show)
  finally show ?thesis .
qed

lemma show_int_nonempty [simp]: "show_int n \<noteq> []"
  by (simp add: show_int_def)

lemma show_int_inject [simp]: "show_int m = show_int n \<longleftrightarrow> m = n"
  by (metis option.inject parse_int_show)

section \<open>Division\<close>

lemma div_bounds:
  fixes x k :: int
  assumes "0 < k"
  shows "k * (x div k) \<le> x" and "x < k * (x div k) + k"
proof -
  from pos_mod_bound[OF assms, of x] pos_mod_sign[OF assms, of x] mult_div_mod_eq[of k x]
  show "k * (x div k) \<le> x" and "x < k * (x div k) + k" by linarith+
qed

section \<open>Tables\<close>

text \<open>
  A table is the list of its rows in insertion order. \<open>findUnique\<close> and
  \<open>findFirst\<close> are \<open>List.find\<close>, \<open>findMany\<close> is \<open>filter\<close>, \<open>create\<close> appends a
  row, \<open>update\<close> rewrites the rows that match and \<open>deleteMany\<close> drops them.
\<close>

definition update_where :: "('r \<Rightarrow> bool) \<Rightarrow> ('r \<Rightarrow> 'r) \<Rightarrow> 'r list \<Rightarrow> 'r list" where
  "update_where P f rows = map (\<lambda>r. if P r then f r else r) rows"

lemma update_where_Nil [simp]: "update_where P f [] = []"
  by (simp add: update_where_def)

lemma update_where_Cons [simp]:
  "update_where P f (r # rows) = (if P r then f r else r) # update_where P f rows"
  by (simp add: update_where_def)

lemma length_update_where [simp]: "length (update_where P f rows) = length rows"
  by (simp add: update_where_def)

lemma map_update_where:
  assumes "\<And>r. g (f r) = g r"
  shows "map g (update_where P f rows) = map g rows"
  using assms by (simp add: update_where_def)

lemma set_update_where:
  "set (update_where P f rows) = f ` {r \<in> set rows. P r} \<union> {r \<in> set rows. \<not> P r}"
  by (auto simp: update_where_def)

lemma find_append [row_simps]:
  "List.find P (xs @ ys) = (case List.find P xs of None \<Rightarrow> List.find P ys | Some x \<Rightarrow> Some x)"
  by (induction xs) auto

lemma find_None_conv: "List.find P xs = None \<longleftrightarrow> (\<forall>x\<in>set xs. \<not> P x)"
  by (auto simp: find_None_iff)

lemma find_SomeD: "List.find P xs = Some x \<Longrightarrow> x \<in> set xs \<and> P x"
  by (induction xs) (auto split: if_splits)

text \<open>A unique column makes the first match the only one.\<close>

lemma find_unique:
  assumes "distinct (map k rows)" and "r \<in> set rows" and "k r = x"
  shows "List.find (\<lambda>r. k r = x) rows = Some r"
  using assms
proof (induction rows)
  case Nil
  then show ?case by simp
next
  case (Cons a rows)
  show ?case
  proof (cases "k a = x")
    case True
    have "a = r"
    proof (rule ccontr)
      assume "a \<noteq> r"
      with Cons.prems have "r \<in> set rows" by auto
      with Cons.prems True show False by (force simp: image_iff)
    qed
    with True show ?thesis by simp
  next
    case False
    with Cons show ?thesis by auto
  qed
qed

lemma find_unique_iff:
  assumes "distinct (map k rows)"
  shows "List.find (\<lambda>r. k r = x) rows = Some r \<longleftrightarrow> r \<in> set rows \<and> k r = x"
  using find_unique[OF assms] find_SomeD[of "\<lambda>r. k r = x" rows] by blast

text \<open>The order of the rows does not matter to a lookup by a unique column.\<close>

lemma find_rev_unique:
  assumes "distinct (map k rows)"
  shows "List.find (\<lambda>r. k r = x) (rev rows) = List.find (\<lambda>r. k r = x) rows"
proof -
  have "distinct (map k (rev rows))" using assms by (simp add: rev_map[symmetric])
  then show ?thesis
    using find_unique_iff[OF assms, of x] find_unique_iff[of k "rev rows" x]
    by (metis option.exhaust set_rev)
qed

end
