(* ===== verification/Errors.thy ===== *)
theory Errors
  imports Prelude
begin

text \<open>
  The published error vocabulary (\<open>src/common/errors/error-code.ts\<close>), the exception
  that carries it (\<open>api-exception.ts\<close>) and the other things a \<open>throw\<close> can carry
  in this program: a plain Nest \<open>HttpException\<close>, a Prisma known-request error, a
  Better Auth \<open>APIError\<close>, anything else.
\<close>

datatype error_code =
    VALIDATION_FAILED | BAD_REQUEST | UNAUTHORIZED | FORBIDDEN | NOT_FOUND | CONFLICT
  | RATE_LIMITED | USAGE_LIMIT_EXCEEDED | SERVICE_UNAVAILABLE | INTERNAL_ERROR
  | EMAIL_NOT_VERIFIED | TWO_FACTOR_REQUIRED | ACCOUNT_LOCKED
  | ENTITLEMENT_DENIED | SUBSCRIPTION_INACTIVE | INSUFFICIENT_CREDITS
  | IDEMPOTENCY_KEY_REQUIRED | IDEMPOTENCY_KEY_REUSE

text \<open>The wire names, which equal the names of the enumeration.\<close>

fun code_name :: "error_code \<Rightarrow> string" where
  "code_name VALIDATION_FAILED = ''VALIDATION_FAILED''"
| "code_name BAD_REQUEST = ''BAD_REQUEST''"
| "code_name UNAUTHORIZED = ''UNAUTHORIZED''"
| "code_name FORBIDDEN = ''FORBIDDEN''"
| "code_name NOT_FOUND = ''NOT_FOUND''"
| "code_name CONFLICT = ''CONFLICT''"
| "code_name RATE_LIMITED = ''RATE_LIMITED''"
| "code_name USAGE_LIMIT_EXCEEDED = ''USAGE_LIMIT_EXCEEDED''"
| "code_name SERVICE_UNAVAILABLE = ''SERVICE_UNAVAILABLE''"
| "code_name INTERNAL_ERROR = ''INTERNAL_ERROR''"
| "code_name EMAIL_NOT_VERIFIED = ''EMAIL_NOT_VERIFIED''"
| "code_name TWO_FACTOR_REQUIRED = ''TWO_FACTOR_REQUIRED''"
| "code_name ACCOUNT_LOCKED = ''ACCOUNT_LOCKED''"
| "code_name ENTITLEMENT_DENIED = ''ENTITLEMENT_DENIED''"
| "code_name SUBSCRIPTION_INACTIVE = ''SUBSCRIPTION_INACTIVE''"
| "code_name INSUFFICIENT_CREDITS = ''INSUFFICIENT_CREDITS''"
| "code_name IDEMPOTENCY_KEY_REQUIRED = ''IDEMPOTENCY_KEY_REQUIRED''"
| "code_name IDEMPOTENCY_KEY_REUSE = ''IDEMPOTENCY_KEY_REUSE''"

text \<open>\<open>STATUS_TO_CODE\<close> and \<open>errorCodeForStatus\<close>.\<close>

definition status_to_code :: "(int \<times> error_code) list" where
  "status_to_code =
     [(400, BAD_REQUEST), (401, UNAUTHORIZED), (402, INSUFFICIENT_CREDITS),
      (403, FORBIDDEN), (404, NOT_FOUND), (409, CONFLICT), (429, RATE_LIMITED),
      (503, SERVICE_UNAVAILABLE)]"

definition error_code_for_status :: "int \<Rightarrow> error_code" where
  "error_code_for_status status =
     (case map_of status_to_code status of Some c \<Rightarrow> c | None \<Rightarrow> INTERNAL_ERROR)"

record api_exn =
  ax_status :: int
  ax_code :: error_code
  ax_message :: string
  ax_details :: "json option"
  ax_headers :: "(string \<times> string) list option"

text \<open>What \<open>HttpException.getResponse()\<close> returns: a text or a document.\<close>

datatype http_response = RespText string | RespObj json

datatype exn =
    ApiExn api_exn
  | HttpExn int http_response string
  | PrismaExn string string
  | AuthApiExn int "string option"
  | OtherExn string

text \<open>\<open>new ApiException(status, code, message)\<close>, without and with details.\<close>

definition api_error :: "int \<Rightarrow> error_code \<Rightarrow> string \<Rightarrow> exn" where
  "api_error status code msg =
     ApiExn \<lparr>ax_status = status, ax_code = code, ax_message = msg,
             ax_details = None, ax_headers = None\<rparr>"

definition api_error_details :: "int \<Rightarrow> error_code \<Rightarrow> string \<Rightarrow> json \<Rightarrow> exn" where
  "api_error_details status code msg details =
     ApiExn \<lparr>ax_status = status, ax_code = code, ax_message = msg,
             ax_details = Some details, ax_headers = None\<rparr>"

definition api_error_headers ::
  "int \<Rightarrow> error_code \<Rightarrow> string \<Rightarrow> json \<Rightarrow> (string \<times> string) list \<Rightarrow> exn" where
  "api_error_headers status code msg details headers =
     ApiExn \<lparr>ax_status = status, ax_code = code, ax_message = msg,
             ax_details = Some details, ax_headers = Some headers\<rparr>"

text \<open>\<open>error instanceof ApiException\<close>, and its code when it is one.\<close>

fun api_code :: "exn \<Rightarrow> error_code option" where
  "api_code (ApiExn a) = Some (ax_code a)"
| "api_code _ = None"

definition api_code_of :: "exn + 'a \<Rightarrow> error_code option" where
  "api_code_of r = (case r of Inl e \<Rightarrow> api_code e | Inr _ \<Rightarrow> None)"

lemma api_code_api_error [simp]:
  "api_code (api_error s c m) = Some c"
  "api_code (api_error_details s c m d) = Some c"
  "api_code (api_error_headers s c m d h) = Some c"
  by (simp_all add: api_error_def api_error_details_def api_error_headers_def)

text \<open>A Prisma known-request error carries its code and its text.

  \<open>new Error(message)\<close> and \<open>error.message\<close>.\<close>

fun exn_message :: "exn \<Rightarrow> string" where
  "exn_message (ApiExn a) = ax_message a"
| "exn_message (HttpExn _ _ m) = m"
| "exn_message (PrismaExn _ m) = m"
| "exn_message (AuthApiExn _ m) = (case m of Some t \<Rightarrow> t | None \<Rightarrow> [])"
| "exn_message (OtherExn m) = m"

end
