(* ===== verification/Database.thy ===== *)
theory Database
  imports Errors
begin

text \<open>
  What the components use of Prisma and PostgreSQL beyond reading and writing rows:
  the error codes of the client, the range of an \<open>Int\<close> column and the interactive
  transaction \<open>prisma.$transaction(async (tx) => ...)\<close>, which keeps the writes of its
  body when the body returns and undoes all of them when it throws.
\<close>

definition unique_violation :: exn where
  "unique_violation = PrismaExn ''P2002'' ''Unique constraint failed''"

definition foreign_key_violation :: exn where
  "foreign_key_violation = PrismaExn ''P2003'' ''Foreign key constraint failed''"

definition record_not_found :: exn where
  "record_not_found = PrismaExn ''P2025'' ''No record was found''"

definition int_out_of_range :: exn where
  "int_out_of_range = OtherExn ''Unable to fit integer value into an INT4''"

text \<open>A Prisma \<open>Int\<close> is a PostgreSQL \<open>INTEGER\<close>: 32 bits, two's complement, checked.\<close>

definition int4 :: "int \<Rightarrow> bool" where
  "int4 n \<longleftrightarrow> - (2 ^ 31) \<le> n \<and> n < 2 ^ 31"

text \<open>
  What the environment does to one transaction. \<open>Tx_lost\<close>: the connection breaks
  before the commit. \<open>Tx_unreported\<close>: the commit happens and its acknowledgement is
  lost, so the caller sees an error although the writes are kept.
\<close>

datatype tx_fault = Tx_ok | Tx_lost exn | Tx_unreported exn

definition run_tx :: "tx_fault \<Rightarrow> ('d \<Rightarrow> exn + ('r \<times> 'd)) \<Rightarrow> 'd \<Rightarrow> (exn + 'r) \<times> 'd" where
  "run_tx fault body d =
     (case body d of
        Inl e \<Rightarrow> (case fault of Tx_lost e' \<Rightarrow> (Inl e', d) | _ \<Rightarrow> (Inl e, d))
      | Inr (r, d') \<Rightarrow>
          (case fault of
             Tx_ok \<Rightarrow> (Inr r, d')
           | Tx_lost e \<Rightarrow> (Inl e, d)
           | Tx_unreported e \<Rightarrow> (Inl e, d')))"

lemma run_tx_Tx_ok [simp]:
  "run_tx Tx_ok body d =
     (case body d of Inl e \<Rightarrow> (Inl e, d) | Inr (r, d') \<Rightarrow> (Inr r, d'))"
  by (auto simp: run_tx_def split: sum.splits)

lemma run_tx_Inl: "body d = Inl e \<Longrightarrow> snd (run_tx fault body d) = d"
  by (auto simp: run_tx_def split: tx_fault.splits)

text \<open>Whatever happens, the state afterwards is the old one or the body's.\<close>

lemma run_tx_after:
  "snd (run_tx fault body d) = d \<or> (\<exists>r d'. body d = Inr (r, d') \<and> snd (run_tx fault body d) = d')"
  by (simp add: run_tx_def split: sum.split prod.split tx_fault.split)

lemma run_tx_invariant:
  assumes "I d" and "\<And>r d'. body d = Inr (r, d') \<Longrightarrow> I d'"
  shows "I (snd (run_tx fault body d))"
  using run_tx_after[of fault body d] assms by metis

lemma run_tx_return:
  "run_tx fault body d = (Inr r, d') \<Longrightarrow> body d = Inr (r, d')"
  by (auto simp: run_tx_def split: sum.splits tx_fault.splits)

end
