(* ===== verification/Subject.thy ===== *)
theory Subject
  imports Prelude
begin

text \<open>
  The owner a wallet, a subscription or a spend acts on behalf of
  (\<open>src/modules/organizations/billing-subject.ts\<close>).
\<close>

datatype billing_subject = User_Subject string | Org_Subject string

definition user_subject :: "string \<Rightarrow> billing_subject" where
  "user_subject userId = User_Subject userId"

definition organization_subject :: "string \<Rightarrow> billing_subject" where
  "organization_subject organizationId = Org_Subject organizationId"

text \<open>
  The owner columns of a row that belongs to one subject: \<open>ownerWhere\<close> and
  \<open>ownerData\<close> name exactly one of \<open>userId\<close>, \<open>organizationId\<close>.
\<close>

fun owner_user :: "billing_subject \<Rightarrow> string option" where
  "owner_user (User_Subject u) = Some u"
| "owner_user (Org_Subject o') = None"

fun owner_org :: "billing_subject \<Rightarrow> string option" where
  "owner_org (User_Subject u) = None"
| "owner_org (Org_Subject o') = Some o'"

text \<open>The where clause of a subject, on the two owner columns of a row.\<close>

fun owner_where :: "billing_subject \<Rightarrow> string option \<Rightarrow> string option \<Rightarrow> bool" where
  "owner_where (User_Subject u) userId organizationId \<longleftrightarrow> userId = Some u"
| "owner_where (Org_Subject o') userId organizationId \<longleftrightarrow> organizationId = Some o'"

text \<open>The check constraint of the migrations: exactly one owner column is set.\<close>

definition owner_xor :: "string option \<Rightarrow> string option \<Rightarrow> bool" where
  "owner_xor userId organizationId \<longleftrightarrow> (userId = None) \<noteq> (organizationId = None)"

lemma owner_where_self [simp]: "owner_where s (owner_user s) (owner_org s)"
  by (cases s) auto

lemma owner_xor_self [simp]: "owner_xor (owner_user s) (owner_org s)"
  by (cases s) (auto simp: owner_xor_def)

text \<open>Under the constraint the columns determine the subject.\<close>

lemma owner_where_xor:
  assumes "owner_xor u o'"
  shows "owner_where s u o' \<longleftrightarrow> u = owner_user s \<and> o' = owner_org s"
  using assms by (cases s) (auto simp: owner_xor_def)

lemma owner_columns_inject:
  "owner_user s = owner_user t \<Longrightarrow> owner_org s = owner_org t \<Longrightarrow> s = t"
  by (cases s; cases t) auto

lemma owner_where_other [simp]:
  "owner_where s (owner_user t) (owner_org t) \<longleftrightarrow> s = t"
  by (cases s; cases t) auto

end
