(* ===== verification/Credits.thy ===== *)
theory Credits
  imports Database Subject
begin

text \<open>
  The credit wallet and its ledger (\<open>src/modules/credits/credit.service.ts\<close>).

  The state is the two tables of the Prisma schema, \<open>CreditWallet\<close> and
  \<open>CreditLedgerEntry\<close>, with what the service leaves behind outside the database: the
  mutations it reported to the metrics and the low-balance events it emitted. The
  generator of row ids (\<open>cuid()\<close>), the clock, the foreign keys of the owner columns
  and the configuration are the environment \<open>credit_env\<close>.
\<close>

section \<open>Data\<close>

datatype ledger_type = Grant | Spend | Refund | Adjust

record wallet =
  w_id :: string
  w_userId :: "string option"
  w_organizationId :: "string option"
  w_balance :: int

record ledger_entry =
  e_id :: string
  e_userId :: "string option"
  e_organizationId :: "string option"
  e_type :: ledger_type
  e_amount :: int
  e_balanceAfter :: int
  e_feature :: "string option"
  e_idempotencyKey :: string
  e_metadata :: "json option"
  e_createdAt :: int

record credit_db =
  wallets :: "wallet list"
  ledger :: "ledger_entry list"

record low_balance_payload =
  lb_subject :: billing_subject
  lb_userId :: "string option"
  lb_balance :: int
  lb_threshold :: int

record credit_world =
  cw_db :: credit_db
  cw_mutations :: "ledger_type list"
  cw_events :: "low_balance_payload list"

record credit_env =
  ce_walletId :: "credit_db \<Rightarrow> string"
  ce_entryId :: "credit_db \<Rightarrow> string"
  ce_ownerExists :: "billing_subject \<Rightarrow> bool"
  ce_now :: int
  ce_lowBalanceThreshold :: "int option"

record mutation_result =
  mr_entry :: ledger_entry
  mr_balance :: int
  mr_replayed :: bool

record apply_params =
  ap_subject :: billing_subject
  ap_type :: ledger_type
  ap_amount :: int
  ap_delta :: int
  ap_idempotencyKey :: string
  ap_feature :: "string option"
  ap_metadata :: "json option"
  ap_failIfInsufficient :: bool

record subject_input =
  si_subject :: "billing_subject option"
  si_userId :: "string option"

section \<open>Helpers of the service\<close>

definition adjust_delta_key :: string where
  "adjust_delta_key = ''adjustDelta''"

definition find_wallet :: "billing_subject \<Rightarrow> credit_db \<Rightarrow> wallet option" where
  "find_wallet s db =
     List.find (\<lambda>w. owner_where s (w_userId w) (w_organizationId w)) (wallets db)"

definition find_entry :: "string \<Rightarrow> credit_db \<Rightarrow> ledger_entry option" where
  "find_entry k db = List.find (\<lambda>e. e_idempotencyKey e = k) (ledger db)"

text \<open>\<open>toSubject\<close>: a bare user id stands for that user.\<close>

fun to_subject :: "billing_subject + string \<Rightarrow> billing_subject" where
  "to_subject (Inl s) = s"
| "to_subject (Inr userId) = user_subject userId"

definition get_balance :: "billing_subject + string \<Rightarrow> credit_db \<Rightarrow> int" where
  "get_balance s db =
     (case find_wallet (to_subject s) db of Some w \<Rightarrow> w_balance w | None \<Rightarrow> 0)"

text \<open>
  \<open>listLedger\<close>: the page size is forced into 1 to 100, the newest entries first.
\<close>

definition list_ledger :: "billing_subject + string \<Rightarrow> int \<Rightarrow> credit_db \<Rightarrow> ledger_entry list" where
  "list_ledger s limit db =
     (let size = min (max limit 1) 100
      in take (nat size)
           (sort_key (\<lambda>e. - e_createdAt e)
             (filter (\<lambda>e. owner_where (to_subject s) (e_userId e) (e_organizationId e))
               (ledger db))))"

definition resolve_subject :: "subject_input \<Rightarrow> exn + billing_subject" where
  "resolve_subject i =
     (case si_subject i of
        Some s \<Rightarrow> Inr s
      | None \<Rightarrow>
          (case si_userId i of
             Some u \<Rightarrow>
               (if u \<noteq> [] then Inr (user_subject u)
                else Inl (api_error 400 BAD_REQUEST
                  ''A billing subject (userId or organizationId) is required.''))
           | None \<Rightarrow>
               Inl (api_error 400 BAD_REQUEST
                 ''A billing subject (userId or organizationId) is required.'')))"

fun assert_positive_amount :: "js_number \<Rightarrow> exn + int" where
  "assert_positive_amount (JInt n) =
     (if n \<le> 0 then Inl (api_error 400 BAD_REQUEST ''Credit amount must be a positive integer.'')
      else Inr n)"
| "assert_positive_amount JOther =
     Inl (api_error 400 BAD_REQUEST ''Credit amount must be a positive integer.'')"

text \<open>\<open>metadataWithDelta\<close>: an adjust records its signed delta, over an object or over nothing.\<close>

definition metadata_with_delta :: "apply_params \<Rightarrow> json option" where
  "metadata_with_delta p =
     (if ap_type p \<noteq> Adjust then ap_metadata p
      else
        (let base = (case ap_metadata p of Some (JObj ms) \<Rightarrow> ms | _ \<Rightarrow> [])
         in Some (JObj (obj_put adjust_delta_key (JNum (ap_delta p)) base))))"

definition stored_delta :: "ledger_entry \<Rightarrow> int option" where
  "stored_delta e =
     (case e_metadata e of
        Some (JObj ms) \<Rightarrow>
          (case map_of ms adjust_delta_key of Some (JNum n) \<Rightarrow> Some n | _ \<Rightarrow> None)
      | _ \<Rightarrow> None)"

text \<open>\<open>assertReplayMatches\<close>, as the condition under which it does not throw.\<close>

definition replay_matches :: "ledger_entry \<Rightarrow> apply_params \<Rightarrow> bool" where
  "replay_matches existing p =
     (let ownerMismatch =
            (case ap_subject p of
               Org_Subject o' \<Rightarrow> e_organizationId existing \<noteq> Some o'
             | User_Subject u \<Rightarrow> e_userId existing \<noteq> Some u);
          recordedDelta = (if ap_type p = Adjust then stored_delta existing else None);
          directionMismatch =
            (case recordedDelta of Some d \<Rightarrow> d \<noteq> ap_delta p | None \<Rightarrow> False)
      in \<not> (ownerMismatch \<or> directionMismatch \<or>
            e_type existing \<noteq> ap_type p \<or> e_amount existing \<noteq> ap_amount p \<or>
            (ap_feature p \<noteq> None \<and> e_feature existing \<noteq> ap_feature p)))"

definition replay_conflict :: "ledger_entry \<Rightarrow> exn" where
  "replay_conflict existing =
     api_error_details 409 CONFLICT
       ''Idempotency key was reused with a conflicting credit mutation.''
       (JObj [(''idempotencyKey'', JStr (e_idempotencyKey existing))])"

definition insufficient_credits :: "apply_params \<Rightarrow> int \<Rightarrow> exn" where
  "insufficient_credits p bal =
     api_error_details 402 INSUFFICIENT_CREDITS ''Insufficient credits.''
       (JObj ([(''required'', JNum (ap_amount p)), (''balance'', JNum bal)] @
              (case ap_feature p of Some f \<Rightarrow> [(''feature'', JStr f)] | None \<Rightarrow> [])))"

section \<open>The transaction\<close>

text \<open>\<open>ensureWallet\<close>: an upsert whose update part is empty.\<close>

definition ensure_wallet :: "credit_env \<Rightarrow> billing_subject \<Rightarrow> credit_db \<Rightarrow> exn + credit_db" where
  "ensure_wallet env s db =
     (case find_wallet s db of
        Some _ \<Rightarrow> Inr db
      | None \<Rightarrow>
          (if \<not> ce_ownerExists env s then Inl foreign_key_violation
           else Inr (db\<lparr>wallets := wallets db @
                  [\<lparr>w_id = ce_walletId env db, w_userId = owner_user s,
                    w_organizationId = owner_org s, w_balance = 0\<rparr>]\<rparr>)))"

definition update_wallet :: "string \<Rightarrow> int \<Rightarrow> credit_db \<Rightarrow> exn + credit_db" where
  "update_wallet wid bal db =
     (if \<not> int4 bal then Inl int_out_of_range
      else Inr (db\<lparr>wallets :=
             update_where (\<lambda>w. w_id w = wid) (\<lambda>w. w\<lparr>w_balance := bal\<rparr>) (wallets db)\<rparr>))"

definition create_entry :: "ledger_entry \<Rightarrow> credit_db \<Rightarrow> exn + credit_db" where
  "create_entry e db =
     (if \<not> int4 (e_amount e) \<or> \<not> int4 (e_balanceAfter e) then Inl int_out_of_range
      else if e_idempotencyKey e \<in> e_idempotencyKey ` set (ledger db) then Inl unique_violation
      else Inr (db\<lparr>ledger := ledger db @ [e]\<rparr>))"

definition new_entry :: "credit_env \<Rightarrow> apply_params \<Rightarrow> int \<Rightarrow> credit_db \<Rightarrow> ledger_entry" where
  "new_entry env p bal db =
     \<lparr>e_id = ce_entryId env db,
      e_userId = owner_user (ap_subject p), e_organizationId = owner_org (ap_subject p),
      e_type = ap_type p, e_amount = ap_amount p, e_balanceAfter = bal,
      e_feature = ap_feature p, e_idempotencyKey = ap_idempotencyKey p,
      e_metadata = metadata_with_delta p, e_createdAt = ce_now env\<rparr>"

text \<open>
  The part of \<open>apply\<close> after the row lock: read the balance, check it, write the wallet
  and append the entry. The lock itself matters between concurrent transactions only.
\<close>

definition move_balance ::
  "credit_env \<Rightarrow> apply_params \<Rightarrow> credit_db \<Rightarrow> exn + (mutation_result \<times> credit_db)" where
  "move_balance env p db =
     (case find_wallet (ap_subject p) db of
        None \<Rightarrow> Inl record_not_found
      | Some w \<Rightarrow>
          (let nextBalance = w_balance w + ap_delta p
           in if ap_failIfInsufficient p \<and> nextBalance < 0
              then Inl (insufficient_credits p (w_balance w))
              else
                (case update_wallet (w_id w) nextBalance db of
                   Inl e \<Rightarrow> Inl e
                 | Inr db2 \<Rightarrow>
                     (let entry = new_entry env p nextBalance db2
                      in case create_entry entry db2 of
                           Inl e \<Rightarrow> Inl e
                         | Inr db3 \<Rightarrow>
                             Inr (\<lparr>mr_entry = entry, mr_balance = nextBalance,
                                   mr_replayed = False\<rparr>, db3)))))"

definition apply_tx ::
  "credit_env \<Rightarrow> apply_params \<Rightarrow> credit_db \<Rightarrow> exn + (mutation_result \<times> credit_db)" where
  "apply_tx env p db =
     (case find_entry (ap_idempotencyKey p) db of
        Some existing \<Rightarrow>
          (if replay_matches existing p
           then Inr (\<lparr>mr_entry = existing, mr_balance = e_balanceAfter existing,
                      mr_replayed = True\<rparr>, db)
           else Inl (replay_conflict existing))
      | None \<Rightarrow>
          (case ensure_wallet env (ap_subject p) db of
             Inl e \<Rightarrow> Inl e
           | Inr db1 \<Rightarrow> move_balance env p db1))"

definition should_emit_low_balance :: "credit_env \<Rightarrow> int \<Rightarrow> bool" where
  "should_emit_low_balance env bal =
     (case ce_lowBalanceThreshold env of Some t \<Rightarrow> bal \<le> t | None \<Rightarrow> False)"

definition emit_low_balance ::
  "credit_env \<Rightarrow> billing_subject \<Rightarrow> int \<Rightarrow> credit_world \<Rightarrow> credit_world" where
  "emit_low_balance env s bal w =
     (case ce_lowBalanceThreshold env of
        None \<Rightarrow> w
      | Some t \<Rightarrow>
          w\<lparr>cw_events := cw_events w @
             [\<lparr>lb_subject = s, lb_userId = owner_user s, lb_balance = bal, lb_threshold = t\<rparr>]\<rparr>)"

text \<open>\<open>apply\<close>: the transaction, then the metric and the event of a mutation that took place.\<close>

definition apply_mutation ::
  "credit_env \<Rightarrow> tx_fault \<Rightarrow> apply_params \<Rightarrow> credit_world \<Rightarrow>
     (exn + mutation_result) \<times> credit_world" where
  "apply_mutation env fault p w =
     (case run_tx fault (apply_tx env p) (cw_db w) of
        (Inl e, db) \<Rightarrow> (Inl e, w\<lparr>cw_db := db\<rparr>)
      | (Inr r, db) \<Rightarrow>
          (let w1 = w\<lparr>cw_db := db\<rparr>;
               w2 = (if \<not> mr_replayed r
                     then w1\<lparr>cw_mutations := cw_mutations w1 @ [ap_type p]\<rparr> else w1);
               w3 = (if \<not> mr_replayed r \<and> ap_delta p < 0 \<and>
                        should_emit_low_balance env (mr_balance r)
                     then emit_low_balance env (ap_subject p) (mr_balance r) w2 else w2)
           in (Inr r, w3)))"

section \<open>The public mutations\<close>

definition grant ::
  "credit_env \<Rightarrow> tx_fault \<Rightarrow> subject_input \<Rightarrow> js_number \<Rightarrow> string \<Rightarrow> json option \<Rightarrow>
     credit_world \<Rightarrow> (exn + mutation_result) \<times> credit_world" where
  "grant env fault si amount k metadata w =
     (case assert_positive_amount amount of
        Inl e \<Rightarrow> (Inl e, w)
      | Inr n \<Rightarrow>
          (case resolve_subject si of
             Inl e \<Rightarrow> (Inl e, w)
           | Inr s \<Rightarrow>
               apply_mutation env fault
                 \<lparr>ap_subject = s, ap_type = Grant, ap_amount = n, ap_delta = n,
                  ap_idempotencyKey = k, ap_feature = None, ap_metadata = metadata,
                  ap_failIfInsufficient = False\<rparr> w))"

definition spend ::
  "credit_env \<Rightarrow> tx_fault \<Rightarrow> subject_input \<Rightarrow> js_number \<Rightarrow> string \<Rightarrow> string option \<Rightarrow>
     json option \<Rightarrow> credit_world \<Rightarrow> (exn + mutation_result) \<times> credit_world" where
  "spend env fault si amount k feature metadata w =
     (case assert_positive_amount amount of
        Inl e \<Rightarrow> (Inl e, w)
      | Inr n \<Rightarrow>
          (case resolve_subject si of
             Inl e \<Rightarrow> (Inl e, w)
           | Inr s \<Rightarrow>
               apply_mutation env fault
                 \<lparr>ap_subject = s, ap_type = Spend, ap_amount = n, ap_delta = - n,
                  ap_idempotencyKey = k, ap_feature = feature, ap_metadata = metadata,
                  ap_failIfInsufficient = True\<rparr> w))"

definition refund ::
  "credit_env \<Rightarrow> tx_fault \<Rightarrow> subject_input \<Rightarrow> js_number \<Rightarrow> string \<Rightarrow> string option \<Rightarrow>
     json option \<Rightarrow> credit_world \<Rightarrow> (exn + mutation_result) \<times> credit_world" where
  "refund env fault si amount k feature metadata w =
     (case assert_positive_amount amount of
        Inl e \<Rightarrow> (Inl e, w)
      | Inr n \<Rightarrow>
          (case resolve_subject si of
             Inl e \<Rightarrow> (Inl e, w)
           | Inr s \<Rightarrow>
               apply_mutation env fault
                 \<lparr>ap_subject = s, ap_type = Refund, ap_amount = n, ap_delta = n,
                  ap_idempotencyKey = k, ap_feature = feature, ap_metadata = metadata,
                  ap_failIfInsufficient = False\<rparr> w))"

fun assert_nonzero_delta :: "js_number \<Rightarrow> exn + int" where
  "assert_nonzero_delta (JInt n) =
     (if n = 0 then Inl (api_error 400 BAD_REQUEST ''Adjust delta must be a non-zero integer.'')
      else Inr n)"
| "assert_nonzero_delta JOther =
     Inl (api_error 400 BAD_REQUEST ''Adjust delta must be a non-zero integer.'')"

definition adjust ::
  "credit_env \<Rightarrow> tx_fault \<Rightarrow> subject_input \<Rightarrow> js_number \<Rightarrow> string \<Rightarrow> json option \<Rightarrow>
     credit_world \<Rightarrow> (exn + mutation_result) \<times> credit_world" where
  "adjust env fault si delta k metadata w =
     (case assert_nonzero_delta delta of
        Inl e \<Rightarrow> (Inl e, w)
      | Inr d \<Rightarrow>
          (case resolve_subject si of
             Inl e \<Rightarrow> (Inl e, w)
           | Inr s \<Rightarrow>
               apply_mutation env fault
                 \<lparr>ap_subject = s, ap_type = Adjust, ap_amount = \<bar>d\<bar>, ap_delta = d,
                  ap_idempotencyKey = k, ap_feature = None, ap_metadata = metadata,
                  ap_failIfInsufficient = (d < 0)\<rparr> w))"

end
