(* ===== verification/CreditLedger.thy ===== *)
theory CreditLedger
  imports Credits
begin

text \<open>
  The ledger invariant of the credit service and its preservation: wallets and keys are
  unique, no balance is negative, every balance is the sum of the signed movements of
  its owner, and the \<open>balanceAfter\<close> column of every entry is the running balance.
\<close>

section \<open>The invariant\<close>

definition wallet_owner :: "wallet \<Rightarrow> string option \<times> string option" where
  "wallet_owner w = (w_userId w, w_organizationId w)"

definition entry_owner :: "ledger_entry \<Rightarrow> string option \<times> string option" where
  "entry_owner e = (e_userId e, e_organizationId e)"

definition subject_owner :: "billing_subject \<Rightarrow> string option \<times> string option" where
  "subject_owner s = (owner_user s, owner_org s)"

text \<open>The signed movement an entry records; the sign of an adjust is in its metadata.\<close>

definition entry_delta :: "ledger_entry \<Rightarrow> int" where
  "entry_delta e =
     (case e_type e of
        Grant \<Rightarrow> e_amount e
      | Refund \<Rightarrow> e_amount e
      | Spend \<Rightarrow> - e_amount e
      | Adjust \<Rightarrow> (case stored_delta e of Some d \<Rightarrow> d | None \<Rightarrow> e_amount e))"

definition owner_total :: "string option \<times> string option \<Rightarrow> ledger_entry list \<Rightarrow> int" where
  "owner_total own es = sum_list (map entry_delta (filter (\<lambda>e. entry_owner e = own) es))"

text \<open>The newest entry first: each one closes the running balance of its owner.\<close>

fun audited_rev :: "ledger_entry list \<Rightarrow> bool" where
  "audited_rev [] = True"
| "audited_rev (e # es) =
     (e_balanceAfter e = owner_total (entry_owner e) (e # es) \<and> audited_rev es)"

definition audited :: "ledger_entry list \<Rightarrow> bool" where
  "audited es = audited_rev (rev es)"

definition wallet_ok :: "ledger_entry list \<Rightarrow> wallet \<Rightarrow> bool" where
  "wallet_ok es w \<longleftrightarrow>
     owner_xor (w_userId w) (w_organizationId w) \<and>
     w_balance w = owner_total (wallet_owner w) es \<and> 0 \<le> w_balance w \<and>
     int4 (w_balance w)"

definition credit_inv :: "credit_db \<Rightarrow> bool" where
  "credit_inv db \<longleftrightarrow>
     distinct (map wallet_owner (wallets db)) \<and>
     distinct (map w_id (wallets db)) \<and>
     list_all (wallet_ok (ledger db)) (wallets db) \<and>
     distinct (map e_idempotencyKey (ledger db)) \<and>
     list_all (\<lambda>e. entry_owner e \<in> wallet_owner ` set (wallets db) \<and> 0 < e_amount e)
       (ledger db) \<and>
     audited (ledger db)"

definition empty_db :: credit_db where
  "empty_db = \<lparr>wallets = [], ledger = []\<rparr>"

text \<open>The direction each public mutation gives to \<open>apply\<close>.\<close>

definition params_ok :: "apply_params \<Rightarrow> bool" where
  "params_ok p \<longleftrightarrow>
     0 < ap_amount p \<and>
     (case ap_type p of
        Grant \<Rightarrow> ap_delta p = ap_amount p
      | Refund \<Rightarrow> ap_delta p = ap_amount p
      | Spend \<Rightarrow> ap_delta p = - ap_amount p
      | Adjust \<Rightarrow> ap_amount p = \<bar>ap_delta p\<bar>) \<and>
     (ap_delta p < 0 \<longrightarrow> ap_failIfInsufficient p)"

text \<open>The generated ids are unique, as a \<open>cuid()\<close> primary key is.\<close>

definition fresh_ids :: "credit_env \<Rightarrow> bool" where
  "fresh_ids env \<longleftrightarrow> (\<forall>db. ce_walletId env db \<notin> w_id ` set (wallets db))"

lemma credit_invD:
  assumes "credit_inv db"
  shows "distinct (map wallet_owner (wallets db))" and "distinct (map w_id (wallets db))"
    and "w \<in> set (wallets db) \<Longrightarrow> wallet_ok (ledger db) w"
    and "distinct (map e_idempotencyKey (ledger db))"
    and "e \<in> set (ledger db) \<Longrightarrow> entry_owner e \<in> wallet_owner ` set (wallets db)"
    and "e \<in> set (ledger db) \<Longrightarrow> 0 < e_amount e"
    and "audited (ledger db)"
  using assms by (simp_all add: credit_inv_def list_all_iff)

section \<open>Lookups under the invariant\<close>

lemma owner_total_simps [simp]:
  "owner_total own [] = 0"
  "owner_total own (es @ es') = owner_total own es + owner_total own es'"
  "owner_total own (e # es) =
     (if entry_owner e = own then entry_delta e else 0) + owner_total own es"
  by (simp_all add: owner_total_def)

lemma owner_total_rev [simp]: "owner_total own (rev es) = owner_total own es"
  by (induction es) auto

lemma audited_snoc [simp]:
  "audited (es @ [e]) \<longleftrightarrow>
     e_balanceAfter e = owner_total (entry_owner e) es + entry_delta e \<and> audited es"
  by (auto simp: audited_def)

lemma audited_Nil [simp]: "audited []"
  by (simp add: audited_def)

lemma credit_inv_empty [simp]: "credit_inv empty_db"
  by (simp add: credit_inv_def empty_db_def)

lemma owner_where_wallet:
  assumes "credit_inv db" and "w \<in> set (wallets db)"
  shows "owner_where s (w_userId w) (w_organizationId w) \<longleftrightarrow> wallet_owner w = subject_owner s"
  using assms owner_where_xor
  by (auto simp: credit_inv_def wallet_ok_def list_all_iff wallet_owner_def subject_owner_def)

lemma find_wallet_SomeD:
  assumes "credit_inv db" and "find_wallet s db = Some w"
  shows "w \<in> set (wallets db)" and "wallet_owner w = subject_owner s"
  using assms find_SomeD[of _ "wallets db" w] owner_where_wallet
  by (auto simp: find_wallet_def)

lemma find_wallet_None:
  assumes "credit_inv db" and "find_wallet s db = None"
  shows "subject_owner s \<notin> wallet_owner ` set (wallets db)"
  using assms owner_where_wallet by (auto simp: find_wallet_def find_None_conv)

lemma find_wallet_conv:
  assumes "credit_inv db"
  shows "find_wallet s db = List.find (\<lambda>w. wallet_owner w = subject_owner s) (wallets db)"
proof -
  have "List.find (\<lambda>w. owner_where s (w_userId w) (w_organizationId w)) ws =
        List.find (\<lambda>w. wallet_owner w = subject_owner s) ws"
    if "set ws \<subseteq> set (wallets db)" for ws
    using that by (induction ws) (auto simp: owner_where_wallet[OF assms])
  then show ?thesis by (simp add: find_wallet_def)
qed

lemma subject_owner_inject [simp]: "subject_owner s = subject_owner t \<longleftrightarrow> s = t"
  using owner_columns_inject by (auto simp: subject_owner_def)

text \<open>The balance the service reports is the total of the owner's movements.\<close>

lemma get_balance_total:
  assumes inv: "credit_inv db"
  shows "get_balance s db = owner_total (subject_owner (to_subject s)) (ledger db)"
proof (cases "find_wallet (to_subject s) db")
  case None
  then have none: "subject_owner (to_subject s) \<notin> wallet_owner ` set (wallets db)"
    by (rule find_wallet_None[OF inv])
  have "\<forall>e \<in> set (ledger db). entry_owner e \<noteq> subject_owner (to_subject s)"
    using none credit_invD(5)[OF inv] by metis
  then have "owner_total (subject_owner (to_subject s)) (ledger db) = 0"
    by (simp add: owner_total_def filter_False)
  with None show ?thesis by (simp add: get_balance_def)
next
  case (Some w)
  note w = find_wallet_SomeD[OF inv Some]
  with inv have "w_balance w = owner_total (wallet_owner w) (ledger db)"
    by (auto simp: credit_inv_def wallet_ok_def list_all_iff)
  with w Some show ?thesis by (simp add: get_balance_def)
qed

lemma get_balance_nonneg:
  assumes "credit_inv db"
  shows "0 \<le> get_balance s db"
proof (cases "find_wallet (to_subject s) db")
  case None
  then show ?thesis by (simp add: get_balance_def)
next
  case (Some w)
  have "wallet_ok (ledger db) w"
    using find_wallet_SomeD(1)[OF assms Some] by (rule credit_invD(3)[OF assms])
  with Some show ?thesis by (simp add: get_balance_def wallet_ok_def)
qed

lemma get_balance_int4:
  assumes "credit_inv db"
  shows "int4 (get_balance s db)"
proof (cases "find_wallet (to_subject s) db")
  case None
  then show ?thesis by (simp add: get_balance_def int4_def)
next
  case (Some w)
  have "wallet_ok (ledger db) w"
    using find_wallet_SomeD(1)[OF assms Some] by (rule credit_invD(3)[OF assms])
  then have "int4 (w_balance w)" by (auto simp: wallet_ok_def)
  with Some show ?thesis by (simp add: get_balance_def)
qed

section \<open>Preservation\<close>

lemma ensure_wallet_ledger:
  "ensure_wallet env s db = Inr db' \<Longrightarrow> ledger db' = ledger db"
  by (auto simp: ensure_wallet_def split: option.splits if_splits)

lemma ensure_wallet_inv:
  assumes inv: "credit_inv db" and fresh: "fresh_ids env"
    and ens: "ensure_wallet env s db = Inr db'"
  shows "credit_inv db'"
proof (cases "find_wallet s db")
  case (Some w)
  with ens inv show ?thesis by (simp add: ensure_wallet_def)
next
  case None
  let ?new = "\<lparr>w_id = ce_walletId env db, w_userId = owner_user s,
                w_organizationId = owner_org s, w_balance = 0\<rparr>"
  have db': "db' = db\<lparr>wallets := wallets db @ [?new]\<rparr>"
    using ens None by (auto simp: ensure_wallet_def split: if_splits)
  have none: "subject_owner s \<notin> wallet_owner ` set (wallets db)"
    by (rule find_wallet_None[OF inv None])
  have "get_balance (Inl s) db = 0"
    using None by (simp add: get_balance_def)
  then have tot: "owner_total (subject_owner s) (ledger db) = 0"
    using get_balance_total[OF inv, of "Inl s"] by simp
  have own: "wallet_owner ?new = subject_owner s"
    by (simp add: wallet_owner_def subject_owner_def)
  have ok: "wallet_ok (ledger db) ?new"
    using tot own by (simp add: wallet_ok_def int4_def)
  have "ce_walletId env db \<notin> w_id ` set (wallets db)"
    using fresh by (simp add: fresh_ids_def)
  with inv none own ok show ?thesis
    by (auto simp: credit_inv_def db' list_all_iff)
qed

lemma ensure_wallet_found:
  "ensure_wallet env s db = Inr db' \<Longrightarrow> find_wallet s db' \<noteq> None"
  by (auto simp: ensure_wallet_def find_wallet_def row_simps split: option.splits if_splits)

lemma ensure_wallet_balance:
  "ensure_wallet env s db = Inr db' \<Longrightarrow> get_balance t db' = get_balance t db"
  by (auto simp: ensure_wallet_def get_balance_def find_wallet_def row_simps
      split: option.splits if_splits)

lemma entry_delta_new:
  assumes "params_ok p"
  shows "entry_delta (new_entry env p bal db) = ap_delta p"
  using assms
  by (cases "ap_type p")
     (auto simp: entry_delta_def new_entry_def params_ok_def stored_delta_def
        metadata_with_delta_def Let_def)

lemma new_entry_fields [simp]:
  "e_idempotencyKey (new_entry env p bal db) = ap_idempotencyKey p"
  "e_balanceAfter (new_entry env p bal db) = bal"
  "e_amount (new_entry env p bal db) = ap_amount p"
  "e_type (new_entry env p bal db) = ap_type p"
  "e_feature (new_entry env p bal db) = ap_feature p"
  "e_userId (new_entry env p bal db) = owner_user (ap_subject p)"
  "e_organizationId (new_entry env p bal db) = owner_org (ap_subject p)"
  "entry_owner (new_entry env p bal db) = subject_owner (ap_subject p)"
  by (simp_all add: new_entry_def entry_owner_def subject_owner_def)

text \<open>The shape of a movement that goes through.\<close>

lemma move_balance_InrE:
  assumes "move_balance env p db = Inr (r, db')"
  obtains w ent where
    "find_wallet (ap_subject p) db = Some w"
    "ap_failIfInsufficient p \<Longrightarrow> 0 \<le> w_balance w + ap_delta p"
    "int4 (w_balance w + ap_delta p)" "int4 (ap_amount p)"
    "ap_idempotencyKey p \<notin> e_idempotencyKey ` set (ledger db)"
    "ent = new_entry env p (w_balance w + ap_delta p)
       (db\<lparr>wallets := update_where (\<lambda>v. w_id v = w_id w)
          (\<lambda>v. v\<lparr>w_balance := w_balance w + ap_delta p\<rparr>) (wallets db)\<rparr>)"
    "r = \<lparr>mr_entry = ent, mr_balance = w_balance w + ap_delta p, mr_replayed = False\<rparr>"
    "db' = \<lparr>wallets = update_where (\<lambda>v. w_id v = w_id w)
              (\<lambda>v. v\<lparr>w_balance := w_balance w + ap_delta p\<rparr>) (wallets db),
            ledger = ledger db @ [ent]\<rparr>"
  using assms
  by (auto simp: move_balance_def update_wallet_def create_entry_def Let_def
      split: option.splits if_splits sum.splits)

lemma map_wallet_update [simp]:
  "map wallet_owner (update_where P (\<lambda>v. v\<lparr>w_balance := b\<rparr>) ws) = map wallet_owner ws"
  "map w_id (update_where P (\<lambda>v. v\<lparr>w_balance := b\<rparr>) ws) = map w_id ws"
  by (simp_all add: map_update_where wallet_owner_def)

lemma wallet_owner_image_update [simp]:
  "wallet_owner ` set (update_where P (\<lambda>v. v\<lparr>w_balance := b\<rparr>) ws) = wallet_owner ` set ws"
  using map_wallet_update(1)[of P b ws] by (metis list.set_map)

lemma move_balance_inv:
  assumes inv: "credit_inv db" and ok: "params_ok p"
    and mv: "move_balance env p db = Inr (r, db')"
  shows "credit_inv db'"
  using mv
proof (rule move_balance_InrE)
  fix w :: wallet and ent :: ledger_entry
  let ?b = "w_balance w + ap_delta p"
  let ?ws = "update_where (\<lambda>v. w_id v = w_id w) (\<lambda>v. v\<lparr>w_balance := ?b\<rparr>) (wallets db)"
  assume fw: "find_wallet (ap_subject p) db = Some w"
    and pos: "ap_failIfInsufficient p \<Longrightarrow> 0 \<le> ?b"
    and rng: "int4 ?b"
    and key: "ap_idempotencyKey p \<notin> e_idempotencyKey ` set (ledger db)"
    and ent: "ent = new_entry env p ?b (db\<lparr>wallets := ?ws\<rparr>)"
    and db': "db' = \<lparr>wallets = ?ws, ledger = ledger db @ [ent]\<rparr>"
  note w = find_wallet_SomeD[OF inv fw]
  have wok: "wallet_ok (ledger db) w" and ids: "distinct (map w_id (wallets db))"
    and owners: "distinct (map wallet_owner (wallets db))"
    using inv w by (auto simp: credit_inv_def list_all_iff)
  have d: "entry_delta ent = ap_delta p" and o1: "entry_owner ent = wallet_owner w"
    using entry_delta_new[OF ok] w by (simp_all add: ent)
  have nonneg: "0 \<le> ?b"
    using pos wok ok by (cases "ap_delta p < 0") (auto simp: params_ok_def wallet_ok_def)
  have upd: "wallet_ok (ledger db @ [ent]) v" if "v \<in> set ?ws" for v
  proof -
    from that obtain u where u: "u \<in> set (wallets db)"
      and v: "v = (if w_id u = w_id w then u\<lparr>w_balance := ?b\<rparr> else u)"
      by (auto simp: update_where_def)
    have uok: "wallet_ok (ledger db) u"
      using inv u by (auto simp: credit_inv_def list_all_iff)
    show ?thesis
    proof (cases "w_id u = w_id w")
      case True
      with ids u w(1) have "u = w" by (auto simp: distinct_map inj_on_def)
      with v wok d o1 nonneg rng show ?thesis
        by (simp add: wallet_ok_def wallet_owner_def)
    next
      case False
      with owners u w(1) have "wallet_owner u \<noteq> wallet_owner w"
        by (auto simp: distinct_map inj_on_def)
      with v False uok o1 show ?thesis by (auto simp: wallet_ok_def)
    qed
  qed
  have own_in: "entry_owner ent \<in> wallet_owner ` set (wallets db)"
    using o1 w(1) by simp
  have bal: "e_balanceAfter ent = owner_total (entry_owner ent) (ledger db) + entry_delta ent"
    using wok d o1 by (simp add: ent wallet_ok_def)
  have amt: "0 < e_amount ent" using ok by (simp add: ent params_ok_def)
  have entkey: "e_idempotencyKey ent = ap_idempotencyKey p" by (simp add: ent)
  show ?thesis
    using inv upd own_in bal amt key entkey
    by (auto simp: credit_inv_def db' list_all_iff)
qed

text \<open>The three ways the transaction body returns.\<close>

lemma apply_tx_InrE:
  assumes "apply_tx env p db = Inr (r, db')"
  obtains (replay) ex where "find_entry (ap_idempotencyKey p) db = Some ex"
      "replay_matches ex p" "db' = db"
      "r = \<lparr>mr_entry = ex, mr_balance = e_balanceAfter ex, mr_replayed = True\<rparr>"
  | (move) db1 where "find_entry (ap_idempotencyKey p) db = None"
      "ensure_wallet env (ap_subject p) db = Inr db1"
      "move_balance env p db1 = Inr (r, db')"
proof (cases "find_entry (ap_idempotencyKey p) db")
  case None
  with assms move show ?thesis
    by (auto simp: apply_tx_def split: sum.splits)
next
  case (Some ex)
  with assms replay show ?thesis
    by (auto simp: apply_tx_def split: if_splits)
qed

lemma apply_tx_inv:
  assumes "credit_inv db" and "fresh_ids env" and "params_ok p"
    and "apply_tx env p db = Inr (r, db')"
  shows "credit_inv db'"
  using assms(4)
proof (cases rule: apply_tx_InrE)
  case (replay ex)
  with assms(1) show ?thesis by simp
next
  case (move db1)
  with assms show ?thesis by (blast intro: ensure_wallet_inv move_balance_inv)
qed

end
