(* ===== verification/CreditService.thy ===== *)
theory CreditService
  imports CreditLedger
begin

text \<open>
  The public mutations of \<open>CreditService\<close> as one alphabet of operations, runs of them
  under faults, and the properties of the service: the books always balance, a spend
  never overdraws, a key is spent once, a retry after a fault changes nothing.
\<close>

section \<open>Operations and runs\<close>

datatype credit_op =
    Op_Grant subject_input js_number string "json option"
  | Op_Spend subject_input js_number string "string option" "json option"
  | Op_Refund subject_input js_number string "string option" "json option"
  | Op_Adjust subject_input js_number string "json option"

fun run_credit_op ::
  "credit_env \<Rightarrow> tx_fault \<Rightarrow> credit_op \<Rightarrow> credit_world \<Rightarrow>
     (exn + mutation_result) \<times> credit_world" where
  "run_credit_op env fault (Op_Grant si a k m) w = grant env fault si a k m w"
| "run_credit_op env fault (Op_Spend si a k f m) w = spend env fault si a k f m w"
| "run_credit_op env fault (Op_Refund si a k f m) w = refund env fault si a k f m w"
| "run_credit_op env fault (Op_Adjust si d k m) w = adjust env fault si d k m w"

text \<open>A run: each call meets its own environment and its own fault.\<close>

fun run_credit_ops ::
  "(credit_env \<times> tx_fault \<times> credit_op) list \<Rightarrow> credit_world \<Rightarrow> credit_world" where
  "run_credit_ops [] w = w"
| "run_credit_ops ((env, fault, op) # ops) w =
     run_credit_ops ops (snd (run_credit_op env fault op w))"

definition empty_world :: credit_world where
  "empty_world = \<lparr>cw_db = empty_db, cw_mutations = [], cw_events = []\<rparr>"

text \<open>The parameters the public mutations hand to \<open>apply\<close>, when they get that far.\<close>

definition op_params :: "credit_op \<Rightarrow> apply_params option" where
  "op_params op =
     (let mk = (\<lambda>si t a d k f m fail.
           case resolve_subject si of
             Inl e \<Rightarrow> None
           | Inr s \<Rightarrow>
               Some \<lparr>ap_subject = s, ap_type = t, ap_amount = a, ap_delta = d,
                     ap_idempotencyKey = k, ap_feature = f, ap_metadata = m,
                     ap_failIfInsufficient = fail\<rparr>)
      in case op of
           Op_Grant si (JInt n) k m \<Rightarrow>
             (if n \<le> 0 then None else mk si Grant n n k None m False)
         | Op_Spend si (JInt n) k f m \<Rightarrow>
             (if n \<le> 0 then None else mk si Spend n (- n) k f m True)
         | Op_Refund si (JInt n) k f m \<Rightarrow>
             (if n \<le> 0 then None else mk si Refund n n k f m False)
         | Op_Adjust si (JInt d) k m \<Rightarrow>
             (if d = 0 then None else mk si Adjust \<bar>d\<bar> d k None m (d < 0))
         | _ \<Rightarrow> None)"

lemma run_credit_op_params:
  "case op_params op of
     Some p \<Rightarrow> run_credit_op env fault op w = apply_mutation env fault p w
   | None \<Rightarrow> \<exists>e. run_credit_op env fault op w = (Inl e, w)"
proof (cases op)
  case (Op_Grant si a k m)
  then show ?thesis
    by (cases a) (auto simp: op_params_def grant_def split: sum.split)
next
  case (Op_Spend si a k f m)
  then show ?thesis
    by (cases a) (auto simp: op_params_def spend_def split: sum.split)
next
  case (Op_Refund si a k f m)
  then show ?thesis
    by (cases a) (auto simp: op_params_def refund_def split: sum.split)
next
  case (Op_Adjust si a k m)
  then show ?thesis
    by (cases a) (auto simp: op_params_def adjust_def split: sum.split)
qed

lemma op_params_ok: "op_params op = Some p \<Longrightarrow> params_ok p"
  by (auto simp: op_params_def params_ok_def Let_def
      split: credit_op.splits js_number.splits if_splits sum.splits)

section \<open>What one call does to the database\<close>

lemma cw_db_emit [simp]: "cw_db (emit_low_balance env s b w) = cw_db w"
  by (simp add: emit_low_balance_def split: option.split)

lemma apply_mutation_db:
  "cw_db (snd (apply_mutation env fault p w)) = snd (run_tx fault (apply_tx env p) (cw_db w))"
  by (simp add: apply_mutation_def Let_def split: prod.split sum.split)

lemma apply_mutation_result:
  "fst (apply_mutation env fault p w) = fst (run_tx fault (apply_tx env p) (cw_db w))"
  by (simp add: apply_mutation_def Let_def split: prod.split sum.split)

lemma apply_mutation_inv:
  assumes "credit_inv (cw_db w)" and "fresh_ids env" and "params_ok p"
  shows "credit_inv (cw_db (snd (apply_mutation env fault p w)))"
  unfolding apply_mutation_db
  by (rule run_tx_invariant) (use assms apply_tx_inv in auto)

lemma run_credit_op_inv:
  assumes "credit_inv (cw_db w)" and "fresh_ids env"
  shows "credit_inv (cw_db (snd (run_credit_op env fault op w)))"
proof (cases "op_params op")
  case None
  then obtain e where "run_credit_op env fault op w = (Inl e, w)"
    using run_credit_op_params[where op = op and env = env and fault = fault and w = w] by auto
  with assms show ?thesis by simp
next
  case (Some p)
  then have "run_credit_op env fault op w = apply_mutation env fault p w"
    using run_credit_op_params[where op = op and env = env and fault = fault and w = w] by simp
  with assms op_params_ok[OF Some] show ?thesis by (simp add: apply_mutation_inv)
qed

lemma run_credit_ops_inv:
  assumes "credit_inv (cw_db w)" and "\<forall>(env, fault, op) \<in> set ops. fresh_ids env"
  shows "credit_inv (cw_db (run_credit_ops ops w))"
  using assms
proof (induction ops arbitrary: w)
  case Nil
  then show ?case by simp
next
  case (Cons x ops)
  obtain env fault op where x: "x = (env, fault, op)" by (cases x)
  have "credit_inv (cw_db (snd (run_credit_op env fault op w)))"
    by (rule run_credit_op_inv) (use Cons.prems x in auto)
  then have "credit_inv (cw_db (run_credit_ops ops (snd (run_credit_op env fault op w))))"
    by (rule Cons.IH) (use Cons.prems x in auto)
  with x show ?case by simp
qed

section \<open>The ledger only grows\<close>

lemma apply_tx_ledger:
  assumes "apply_tx env p db = Inr (r, db')"
  shows "\<exists>es. ledger db' = ledger db @ es"
  using assms
proof (cases rule: apply_tx_InrE)
  case (replay ex)
  then show ?thesis by simp
next
  case (move db1)
  from move(3) obtain ent where "ledger db' = ledger db1 @ [ent]"
    by (rule move_balance_InrE) simp
  with ensure_wallet_ledger[OF move(2)] show ?thesis by simp
qed

lemma run_credit_op_ledger:
  "\<exists>es. ledger (cw_db (snd (run_credit_op env fault op w))) = ledger (cw_db w) @ es"
proof (cases "op_params op")
  case None
  then obtain e where "run_credit_op env fault op w = (Inl e, w)"
    using run_credit_op_params[where op = op and env = env and fault = fault and w = w] by auto
  then show ?thesis by simp
next
  case (Some p)
  then have eq: "run_credit_op env fault op w = apply_mutation env fault p w"
    using run_credit_op_params[where op = op and env = env and fault = fault and w = w] by simp
  have "\<exists>es. ledger (snd (run_tx fault (apply_tx env p) (cw_db w))) = ledger (cw_db w) @ es"
    by (rule run_tx_invariant) (auto dest: apply_tx_ledger)
  then show ?thesis by (simp add: eq apply_mutation_db)
qed

lemma run_credit_ops_ledger:
  "\<exists>es. ledger (cw_db (run_credit_ops ops w)) = ledger (cw_db w) @ es"
proof (induction ops arbitrary: w)
  case Nil
  then show ?case by simp
next
  case (Cons x ops)
  obtain env fault op where x: "x = (env, fault, op)" by (cases x)
  obtain es where "ledger (cw_db (snd (run_credit_op env fault op w))) = ledger (cw_db w) @ es"
    using run_credit_op_ledger by blast
  moreover obtain es' where
    "ledger (cw_db (run_credit_ops ops (snd (run_credit_op env fault op w)))) =
     ledger (cw_db (snd (run_credit_op env fault op w))) @ es'"
    using Cons.IH by blast
  ultimately show ?case by (simp add: x)
qed

lemma find_entry_grows:
  assumes "find_entry k db = Some ex" and "ledger db' = ledger db @ es"
  shows "find_entry k db' = Some ex"
  using assms by (simp add: find_entry_def row_simps)

section \<open>Replays\<close>

text \<open>The entry a mutation writes matches the same mutation sent again.\<close>

lemma new_entry_matches:
  "replay_matches (new_entry env p bal db) p"
  by (cases "ap_subject p")
     (auto simp: replay_matches_def Let_def new_entry_def stored_delta_def
        metadata_with_delta_def split: option.split)

lemma apply_tx_writes:
  assumes "apply_tx env p db = Inr (r, db')"
  shows "find_entry (ap_idempotencyKey p) db' = Some (mr_entry r)"
    and "replay_matches (mr_entry r) p"
    and "mr_balance r = e_balanceAfter (mr_entry r)"
  using assms
proof (atomize(full), cases rule: apply_tx_InrE[OF assms])
  case (1 ex)
  then show "find_entry (ap_idempotencyKey p) db' = Some (mr_entry r) \<and>
     replay_matches (mr_entry r) p \<and> mr_balance r = e_balanceAfter (mr_entry r)" by simp
next
  case (2 db1)
  have none: "find_entry (ap_idempotencyKey p) db1 = None"
    using 2(1) ensure_wallet_ledger[OF 2(2)] by (simp add: find_entry_def)
  from 2(3) show "find_entry (ap_idempotencyKey p) db' = Some (mr_entry r) \<and>
     replay_matches (mr_entry r) p \<and> mr_balance r = e_balanceAfter (mr_entry r)"
    by (rule move_balance_InrE)
       (use none in \<open>simp add: find_entry_def row_simps new_entry_matches\<close>)
qed

lemma apply_mutation_replay:
  assumes "find_entry (ap_idempotencyKey p) (cw_db w) = Some ex" and "replay_matches ex p"
  shows "apply_mutation env Tx_ok p w =
           (Inr \<lparr>mr_entry = ex, mr_balance = e_balanceAfter ex, mr_replayed = True\<rparr>, w)"
  using assms by (simp add: apply_mutation_def apply_tx_def)

lemma apply_mutation_conflict:
  assumes "find_entry (ap_idempotencyKey p) (cw_db w) = Some ex" and "\<not> replay_matches ex p"
  shows "apply_mutation env Tx_ok p w = (Inl (replay_conflict ex), w)"
  using assms by (simp add: apply_mutation_def apply_tx_def)

end
