(* ===== verification/CreditContract.thy ===== *)
theory CreditContract
  imports CreditService
begin

text \<open>
  What the credit service promises its callers, first as an abstract account that the
  service implements, then as properties of the public mutations.
\<close>

section \<open>The abstract account\<close>

text \<open>
  A caller sees balances and keys. A used key remembers the mutation it was used for:
  subject, type, amount, feature and, for an adjust, the direction.
\<close>

type_synonym key_record =
  "(string option \<times> string option) \<times> ledger_type \<times> int \<times> string option \<times> int option"

record account =
  acc_balance :: "billing_subject \<Rightarrow> int"
  acc_used :: "string \<Rightarrow> key_record option"

datatype account_outcome = Moved int | Replayed | Conflict | Insufficient

fun key_matches :: "key_record \<Rightarrow> apply_params \<Rightarrow> bool" where
  "key_matches (own, t, a, f, d) p \<longleftrightarrow>
     own = subject_owner (ap_subject p) \<and> t = ap_type p \<and> a = ap_amount p \<and>
     (ap_feature p = None \<or> f = ap_feature p) \<and>
     (d = None \<or> d = Some (ap_delta p))"

definition account_apply :: "apply_params \<Rightarrow> account \<Rightarrow> account_outcome \<times> account" where
  "account_apply p a =
     (case acc_used a (ap_idempotencyKey p) of
        Some kr \<Rightarrow> (if key_matches kr p then Replayed else Conflict, a)
      | None \<Rightarrow>
          (let b = acc_balance a (ap_subject p) + ap_delta p
           in if ap_failIfInsufficient p \<and> b < 0 then (Insufficient, a)
              else (Moved b,
                \<lparr>acc_balance = (acc_balance a)(ap_subject p := b),
                 acc_used = (acc_used a)(ap_idempotencyKey p \<mapsto>
                   (subject_owner (ap_subject p), ap_type p, ap_amount p, ap_feature p,
                    if ap_type p = Adjust then Some (ap_delta p) else None))\<rparr>)))"

definition entry_record :: "ledger_entry \<Rightarrow> key_record" where
  "entry_record e =
     (entry_owner e, e_type e, e_amount e, e_feature e,
      if e_type e = Adjust then stored_delta e else None)"

definition abs_account :: "credit_db \<Rightarrow> account" where
  "abs_account db =
     \<lparr>acc_balance = (\<lambda>s. get_balance (Inl s) db),
      acc_used = (\<lambda>k. map_option entry_record (find_entry k db))\<rparr>"

definition abs_outcome :: "exn + mutation_result \<Rightarrow> account_outcome" where
  "abs_outcome r =
     (case r of
        Inr m \<Rightarrow> (if mr_replayed m then Replayed else Moved (mr_balance m))
      | Inl e \<Rightarrow> (if api_code e = Some CONFLICT then Conflict else Insufficient))"

section \<open>The movement, on balances\<close>

lemma find_wallet_updated:
  assumes inv: "credit_inv db" and fw: "find_wallet s db = Some w"
    and rows: "wallets db' = update_where (\<lambda>v. w_id v = w_id w) (\<lambda>v. v\<lparr>w_balance := b\<rparr>) (wallets db)"
  shows "get_balance (Inl t) db' = (if t = s then b else get_balance (Inl t) db)"
proof -
  note w = find_wallet_SomeD[OF inv fw]
  let ?P = "\<lambda>t v. owner_where t (w_userId v) (w_organizationId v)"
  have shape: "List.find (?P t) (update_where (\<lambda>v. w_id v = w_id w) (\<lambda>v. v\<lparr>w_balance := b\<rparr>) ws) =
      map_option (\<lambda>v. if w_id v = w_id w then v\<lparr>w_balance := b\<rparr> else v) (List.find (?P t) ws)" for ws
    by (induction ws) auto
  then have look: "find_wallet t db' =
      map_option (\<lambda>v. if w_id v = w_id w then v\<lparr>w_balance := b\<rparr> else v) (find_wallet t db)"
    by (simp add: find_wallet_def rows)
  show ?thesis
  proof (cases "t = s")
    case True
    with look fw show ?thesis by (simp add: get_balance_def)
  next
    case False
    have "w_id v \<noteq> w_id w" if "find_wallet t db = Some v" for v
    proof
      assume "w_id v = w_id w"
      with credit_invD(2)[OF inv] find_wallet_SomeD(1)[OF inv that] w(1)
      have "v = w" by (auto simp: distinct_map inj_on_def)
      with find_wallet_SomeD(2)[OF inv that] w(2) False show False by simp
    qed
    with False look show ?thesis
      by (cases "find_wallet t db") (auto simp: get_balance_def)
  qed
qed

text \<open>A fresh key and an owner that exists: the transaction moves the balance or refuses.\<close>

lemma apply_tx_fresh:
  assumes inv: "credit_inv db" and fresh: "fresh_ids env" and ok: "params_ok p"
    and none: "find_entry (ap_idempotencyKey p) db = None"
    and own: "ce_ownerExists env (ap_subject p)"
    and amt: "int4 (ap_amount p)"
    and rng: "int4 (get_balance (Inl (ap_subject p)) db + ap_delta p)"
  defines "b \<equiv> get_balance (Inl (ap_subject p)) db + ap_delta p"
  shows "if ap_failIfInsufficient p \<and> b < 0
    then apply_tx env p db = Inl (insufficient_credits p (get_balance (Inl (ap_subject p)) db))
    else \<exists>r db'. apply_tx env p db = Inr (r, db') \<and>
       mr_balance r = b \<and> \<not> mr_replayed r \<and> ledger db' = ledger db @ [mr_entry r] \<and>
       entry_record (mr_entry r) =
         (subject_owner (ap_subject p), ap_type p, ap_amount p, ap_feature p,
          if ap_type p = Adjust then Some (ap_delta p) else None) \<and>
       e_idempotencyKey (mr_entry r) = ap_idempotencyKey p \<and>
       (\<forall>t. get_balance (Inl t) db' =
          (if t = ap_subject p then b else get_balance (Inl t) db))"
proof -
  obtain db1 where ens: "ensure_wallet env (ap_subject p) db = Inr db1"
    using own by (cases "find_wallet (ap_subject p) db") (auto simp: ensure_wallet_def)
  have inv1: "credit_inv db1" by (rule ensure_wallet_inv[OF inv fresh ens])
  obtain w where fw: "find_wallet (ap_subject p) db1 = Some w"
    using ensure_wallet_found[OF ens] by blast
  have bal: "w_balance w = get_balance (Inl (ap_subject p)) db"
    using fw ensure_wallet_balance[OF ens, of "Inl (ap_subject p)"] by (simp add: get_balance_def)
  have keys: "ap_idempotencyKey p \<notin> e_idempotencyKey ` set (ledger db)"
    using none by (auto simp: find_entry_def find_None_conv)
  have led: "ledger db1 = ledger db" by (rule ensure_wallet_ledger[OF ens])
  have tx: "apply_tx env p db = move_balance env p db1"
    using none ens by (simp add: apply_tx_def)
  show ?thesis
  proof (cases "ap_failIfInsufficient p \<and> b < 0")
    case True
    with fw bal tx show ?thesis by (simp add: move_balance_def b_def)
  next
    case False
    let ?db2 = "db1\<lparr>wallets := update_where (\<lambda>v. w_id v = w_id w) (\<lambda>v. v\<lparr>w_balance := b\<rparr>) (wallets db1)\<rparr>"
    let ?e = "new_entry env p b ?db2"
    have mv: "move_balance env p db1 =
        Inr (\<lparr>mr_entry = ?e, mr_balance = b, mr_replayed = False\<rparr>, ?db2\<lparr>ledger := ledger db1 @ [?e]\<rparr>)"
      using fw bal False rng amt keys led
      by (auto simp: move_balance_def update_wallet_def create_entry_def Let_def b_def)
    have erec: "entry_record ?e =
        (subject_owner (ap_subject p), ap_type p, ap_amount p, ap_feature p,
         if ap_type p = Adjust then Some (ap_delta p) else None)"
      by (simp add: entry_record_def stored_delta_def new_entry_def metadata_with_delta_def
          Let_def entry_owner_def subject_owner_def)
    have "get_balance (Inl t) (?db2\<lparr>ledger := ledger db1 @ [?e]\<rparr>) =
        (if t = ap_subject p then b else get_balance (Inl t) db)" for t
      using find_wallet_updated[OF inv1 fw, of "?db2\<lparr>ledger := ledger db1 @ [?e]\<rparr>" b t]
        ensure_wallet_balance[OF ens] by simp
    with False tx mv erec led show ?thesis by simp
  qed
qed

lemma replay_matches_record:
  assumes "owner_xor (e_userId ex) (e_organizationId ex)"
  shows "replay_matches ex p \<longleftrightarrow> key_matches (entry_record ex) p"
proof -
  have "(case ap_subject p of Org_Subject o' \<Rightarrow> e_organizationId ex \<noteq> Some o'
        | User_Subject u \<Rightarrow> e_userId ex \<noteq> Some u) \<longleftrightarrow> entry_owner ex \<noteq> subject_owner (ap_subject p)"
    using assms
    by (cases "ap_subject p") (auto simp: entry_owner_def subject_owner_def owner_xor_def)
  then show ?thesis
    by (auto simp: replay_matches_def entry_record_def Let_def split: option.split)
qed

lemma entry_xor:
  assumes "credit_inv db" and "find_entry k db = Some ex"
  shows "owner_xor (e_userId ex) (e_organizationId ex)"
proof -
  have "ex \<in> set (ledger db)" using assms(2) find_SomeD by (fastforce simp: find_entry_def)
  then obtain w where "w \<in> set (wallets db)" and "entry_owner ex = wallet_owner w"
    using credit_invD(5)[OF assms(1)] by blast
  with credit_invD(3)[OF assms(1)] show ?thesis
    by (auto simp: wallet_ok_def entry_owner_def wallet_owner_def)
qed

lemma apply_tx_record:
  assumes "apply_tx env p db = Inr (r, db')" and "\<not> mr_replayed r"
  shows "entry_record (mr_entry r) =
    (subject_owner (ap_subject p), ap_type p, ap_amount p, ap_feature p,
     if ap_type p = Adjust then Some (ap_delta p) else None)"
  using assms(1)
proof (cases rule: apply_tx_InrE)
  case (replay ex)
  with assms(2) show ?thesis by simp
next
  case (move db1)
  from move(3) obtain b db2 where "mr_entry r = new_entry env p b db2"
    by (rule move_balance_InrE) simp
  then show ?thesis
    by (simp add: entry_record_def stored_delta_def new_entry_def metadata_with_delta_def
        Let_def entry_owner_def subject_owner_def)
qed

text \<open>
  The service implements the account: the outcome of a transaction is the account's, and
  so is the state it leaves.
\<close>

lemma apply_tx_refines:
  assumes inv: "credit_inv db" and fresh: "fresh_ids env" and ok: "params_ok p"
    and own: "ce_ownerExists env (ap_subject p)" and amt: "int4 (ap_amount p)"
    and rng: "int4 (get_balance (Inl (ap_subject p)) db + ap_delta p)"
  shows "case run_tx Tx_ok (apply_tx env p) db of (res, db') \<Rightarrow>
     account_apply p (abs_account db) = (abs_outcome res, abs_account db')"
proof (cases "find_entry (ap_idempotencyKey p) db")
  case (Some ex)
  have m: "replay_matches ex p \<longleftrightarrow> key_matches (entry_record ex) p"
    by (rule replay_matches_record[OF entry_xor[OF inv Some]])
  show ?thesis
    using Some m
    by (auto simp: apply_tx_def account_apply_def abs_account_def abs_outcome_def replay_conflict_def
        split: prod.split)
next
  case None
  let ?b = "get_balance (Inl (ap_subject p)) db + ap_delta p"
  have lookup: "find_entry k db' =
      (if k = ap_idempotencyKey p then Some e else find_entry k db)"
    if "ledger db' = ledger db @ [e]" and "e_idempotencyKey e = ap_idempotencyKey p" for k db' e
    using that None by (auto simp: find_entry_def row_simps split: option.split)
  show ?thesis
  proof (cases "ap_failIfInsufficient p \<and> ?b < 0")
    case True
    with apply_tx_fresh[OF inv fresh ok None own amt rng]
    have "apply_tx env p db = Inl (insufficient_credits p (get_balance (Inl (ap_subject p)) db))"
      by simp
    with True None show ?thesis
      by (simp add: account_apply_def abs_account_def abs_outcome_def insufficient_credits_def)
  next
    case False
    with apply_tx_fresh[OF inv fresh ok None own amt rng]
    obtain r db' where "apply_tx env p db = Inr (r, db')" "mr_balance r = ?b" "\<not> mr_replayed r"
      and led: "ledger db' = ledger db @ [mr_entry r]" "e_idempotencyKey (mr_entry r) = ap_idempotencyKey p"
      and rec: "entry_record (mr_entry r) =
         (subject_owner (ap_subject p), ap_type p, ap_amount p, ap_feature p,
          if ap_type p = Adjust then Some (ap_delta p) else None)"
      and bal: "\<forall>t. get_balance (Inl t) db' = (if t = ap_subject p then ?b else get_balance (Inl t) db)"
      by (simp only: if_False) blast
    with None False lookup[OF led] show ?thesis
      by (auto simp: account_apply_def abs_account_def abs_outcome_def fun_eq_iff Let_def)
  qed
qed

end
