(* ===== verification/CreditProperties.thy ===== *)
theory CreditProperties
  imports CreditContract
begin

text \<open>
  The properties of the credit service, with a sample environment on which each of them
  is applied.
\<close>

section \<open>A sample environment\<close>

text \<open>Row ids longer than every id in use are fresh.\<close>

definition sample_env :: credit_env where
  "sample_env =
     \<lparr>ce_walletId = (\<lambda>db. CHR ''w'' # concat (map w_id (wallets db))),
      ce_entryId = (\<lambda>db. CHR ''e'' # concat (map e_id (ledger db))),
      ce_ownerExists = (\<lambda>s. True), ce_now = 0, ce_lowBalanceThreshold = Some 5\<rparr>"

lemma length_concat_member: "x \<in> set xs \<Longrightarrow> length x \<le> length (concat xs)"
  by (induction xs) auto

lemma fresh_sample_env [simp]: "fresh_ids sample_env"
proof -
  have "CHR ''w'' # concat (map w_id ws) \<notin> w_id ` set ws" for ws :: "wallet list"
  proof
    assume "CHR ''w'' # concat (map w_id ws) \<in> w_id ` set ws"
    then have "length (CHR ''w'' # concat (map w_id ws)) \<le> length (concat (map w_id ws))"
      using length_concat_member[of _ "map w_id ws"] by fastforce
    then show False by simp
  qed
  then show ?thesis by (simp add: fresh_ids_def sample_env_def)
qed

definition of_user :: "string \<Rightarrow> subject_input" where
  "of_user u = \<lparr>si_subject = None, si_userId = Some u\<rparr>"

definition of_subject :: "billing_subject \<Rightarrow> subject_input" where
  "of_subject s = \<lparr>si_subject = Some s, si_userId = None\<rparr>"

lemma resolve_of_subject [simp]: "resolve_subject (of_subject s) = Inr s"
  by (simp add: of_subject_def resolve_subject_def)

lemmas credit_eval =
  grant_def spend_def refund_def adjust_def apply_mutation_def apply_tx_def move_balance_def
  ensure_wallet_def update_wallet_def create_entry_def find_wallet_def find_entry_def
  new_entry_def metadata_with_delta_def should_emit_low_balance_def emit_low_balance_def
  get_balance_def resolve_subject_def user_subject_def organization_subject_def
  of_user_def of_subject_def sample_env_def empty_world_def empty_db_def int4_def
  replay_matches_def stored_delta_def replay_conflict_def insufficient_credits_def
  adjust_delta_key_def Let_def run_tx_def

text \<open>A small run: ten credits granted, three spent, two returned.\<close>

definition sample_ops :: "(credit_env \<times> tx_fault \<times> credit_op) list" where
  "sample_ops =
     [(sample_env, Tx_ok, Op_Grant (of_user ''u'') (JInt 10) ''g1'' None),
      (sample_env, Tx_lost (OtherExn ''down''), Op_Spend (of_user ''u'') (JInt 3) ''s1'' None None),
      (sample_env, Tx_unreported (OtherExn ''late''), Op_Spend (of_user ''u'') (JInt 3) ''s1'' None None),
      (sample_env, Tx_ok, Op_Spend (of_user ''u'') (JInt 3) ''s1'' None None),
      (sample_env, Tx_ok, Op_Refund (of_user ''u'') (JInt 2) ''r1'' None None)]"

definition sample_world :: credit_world where
  "sample_world = run_credit_ops sample_ops empty_world"

lemma sample_ops_fresh: "\<forall>(env, fault, op) \<in> set sample_ops. fresh_ids env"
  by (simp add: sample_ops_def)

lemma sample_world_inv [simp]: "credit_inv (cw_db sample_world)"
  unfolding sample_world_def
  by (rule run_credit_ops_inv[OF _ sample_ops_fresh]) (simp add: empty_world_def)

lemma sample_world_balance: "get_balance (Inr ''u'') (cw_db sample_world) = 9"
  by (simp add: sample_world_def sample_ops_def credit_eval)

section \<open>Properties\<close>

text \<open>
  C1. The books always balance. Whatever sequence of grants, spends, refunds and adjusts
  is run, with the connection failing before or after any commit, the balance reported
  for every subject is the sum of the signed movements of its ledger, it is never
  negative, idempotency keys are unique and every \<open>balanceAfter\<close> is the running balance.
\<close>

theorem credits_books_balance:
  assumes "\<forall>(env, fault, op) \<in> set ops. fresh_ids env"
  defines "db \<equiv> cw_db (run_credit_ops ops empty_world)"
  shows "get_balance s db = owner_total (subject_owner (to_subject s)) (ledger db)
    \<and> 0 \<le> get_balance s db
    \<and> distinct (map e_idempotencyKey (ledger db))
    \<and> audited (ledger db)"
proof -
  have "credit_inv db"
    unfolding db_def by (rule run_credit_ops_inv[OF _ assms(1)]) (simp add: empty_world_def)
  then show ?thesis
    by (simp add: get_balance_total[symmetric] get_balance_nonneg credit_invD)
qed

theorem credits_books_balance_witness:
  "get_balance (Inr ''u'') (cw_db (run_credit_ops sample_ops empty_world)) = 9 \<and>
   owner_total (subject_owner (User_Subject ''u''))
     (ledger (cw_db (run_credit_ops sample_ops empty_world))) = 9"
  using credits_books_balance[OF sample_ops_fresh, of "Inr ''u''"] sample_world_balance
  by (simp add: sample_world_def user_subject_def)

text \<open>What a spend with a fresh key does.\<close>

lemma spend_effect:
  assumes inv: "credit_inv (cw_db w)" and fresh: "fresh_ids env"
    and new: "find_entry k (cw_db w) = None" and own: "ce_ownerExists env s"
    and n: "0 < n" "int4 n"
  defines "b \<equiv> get_balance (Inl s) (cw_db w)"
  shows "if n \<le> b
    then \<exists>r w'. spend env Tx_ok (of_subject s) (JInt n) k f m w = (Inr r, w') \<and>
      mr_balance r = b - n \<and> \<not> mr_replayed r \<and>
      ledger (cw_db w') = ledger (cw_db w) @ [mr_entry r] \<and>
      (\<forall>t. get_balance (Inl t) (cw_db w') =
         (if t = s then b - n else get_balance (Inl t) (cw_db w)))
    else \<exists>e. spend env Tx_ok (of_subject s) (JInt n) k f m w = (Inl e, w) \<and>
      api_code e = Some INSUFFICIENT_CREDITS"
proof -
  let ?p = "\<lparr>ap_subject = s, ap_type = Spend, ap_amount = n, ap_delta = - n,
     ap_idempotencyKey = k, ap_feature = f, ap_metadata = m, ap_failIfInsufficient = True\<rparr>"
  have sp: "spend env Tx_ok (of_subject s) (JInt n) k f m w = apply_mutation env Tx_ok ?p w"
    using n by (simp add: spend_def)
  have "0 \<le> b" unfolding b_def by (rule get_balance_nonneg[OF inv])
  moreover have "int4 b" unfolding b_def by (rule get_balance_int4[OF inv])
  ultimately have rng: "int4 (b - n)" using n by (auto simp: int4_def)
  have tx: "if b - n < 0
    then apply_tx env ?p (cw_db w) = Inl (insufficient_credits ?p b)
    else \<exists>r db'. apply_tx env ?p (cw_db w) = Inr (r, db') \<and>
       mr_balance r = b - n \<and> \<not> mr_replayed r \<and> ledger db' = ledger (cw_db w) @ [mr_entry r] \<and>
       (\<forall>t. get_balance (Inl t) db' = (if t = s then b - n else get_balance (Inl t) (cw_db w)))"
    using apply_tx_fresh[OF inv fresh, of ?p] new own n rng
    by (fastforce simp: params_ok_def b_def split: if_splits)
  show ?thesis
  proof (cases "n \<le> b")
    case True
    with tx have "\<exists>r db'. apply_tx env ?p (cw_db w) = Inr (r, db') \<and>
       mr_balance r = b - n \<and> \<not> mr_replayed r \<and> ledger db' = ledger (cw_db w) @ [mr_entry r] \<and>
       (\<forall>t. get_balance (Inl t) db' = (if t = s then b - n else get_balance (Inl t) (cw_db w)))"
      by (simp only: not_less if_False diff_less_0_iff_less)
    then obtain r db' where "apply_tx env ?p (cw_db w) = Inr (r, db')"
      and "mr_balance r = b - n" and "\<not> mr_replayed r"
      and "ledger db' = ledger (cw_db w) @ [mr_entry r]"
      and "\<forall>t. get_balance (Inl t) db' = (if t = s then b - n else get_balance (Inl t) (cw_db w))"
      by blast
    with True show ?thesis
      by (simp add: sp apply_mutation_def Let_def)
  next
    case False
    with tx have "apply_tx env ?p (cw_db w) = Inl (insufficient_credits ?p b)" by simp
    with False show ?thesis
      by (simp add: sp apply_mutation_def insufficient_credits_def)
  qed
qed

text \<open>
  C2. A spend with a fresh key either takes exactly its amount from exactly its subject
  and appends exactly its entry, or, when the balance is too small, answers
  \<open>402 INSUFFICIENT_CREDITS\<close> with the required amount and the balance and leaves the
  database as it was.
\<close>

theorem spend_contract:
  assumes inv: "credit_inv (cw_db w)" and fresh: "fresh_ids env"
    and new: "find_entry k (cw_db w) = None" and own: "ce_ownerExists env s"
    and n: "0 < n" "int4 n"
  defines "b \<equiv> get_balance (Inl s) (cw_db w)"
  shows "if n \<le> b
    then \<exists>r w'. spend env Tx_ok (of_subject s) (JInt n) k f m w = (Inr r, w') \<and>
      mr_balance r = b - n \<and> \<not> mr_replayed r \<and>
      ledger (cw_db w') = ledger (cw_db w) @ [mr_entry r] \<and>
      (\<forall>t. get_balance (Inl t) (cw_db w') =
         (if t = s then b - n else get_balance (Inl t) (cw_db w)))
    else \<exists>e. spend env Tx_ok (of_subject s) (JInt n) k f m w = (Inl e, w) \<and>
      api_code e = Some INSUFFICIENT_CREDITS"
  unfolding b_def by (rule spend_effect[OF inv fresh new own n])

theorem spend_contract_witness:
  "(\<exists>r w'. spend sample_env Tx_ok (of_subject (User_Subject ''u'')) (JInt 4) ''s9'' None None sample_world
      = (Inr r, w') \<and> mr_balance r = 5 \<and> \<not> mr_replayed r) \<and>
   (\<exists>e. spend sample_env Tx_ok (of_subject (User_Subject ''u'')) (JInt 10) ''s9'' None None sample_world
      = (Inl e, sample_world) \<and> api_code e = Some INSUFFICIENT_CREDITS)"
proof -
  have new: "find_entry ''s9'' (cw_db sample_world) = None"
    by (simp add: sample_world_def sample_ops_def credit_eval)
  have own: "ce_ownerExists sample_env (User_Subject ''u'')" by (simp add: sample_env_def)
  have bal: "get_balance (Inl (User_Subject ''u'')) (cw_db sample_world) = 9"
    using sample_world_balance by (simp add: get_balance_def user_subject_def)
  show ?thesis
    using spend_contract[OF sample_world_inv fresh_sample_env new own, of 4 None None]
      spend_contract[OF sample_world_inv fresh_sample_env new own, of 10 None None]
    by (auto simp: bal int4_def)
qed

text \<open>A mutation that returned, sent again.\<close>

lemma replay_again:
  assumes first: "run_credit_op env Tx_ok op w = (Inr r, w1)"
  shows "run_credit_op env' Tx_ok op (run_credit_ops ops w1) =
    (Inr (r\<lparr>mr_replayed := True\<rparr>), run_credit_ops ops w1)"
proof -
  define w2 where "w2 = run_credit_ops ops w1"
  obtain p where p: "op_params op = Some p"
    using run_credit_op_params[where op = op and env = env and fault = Tx_ok and w = w] first
    by (cases "op_params op") auto
  have run: "run_credit_op e Tx_ok op v = apply_mutation e Tx_ok p v" for e v
    using run_credit_op_params[where op = op and env = e and fault = Tx_ok and w = v] p by simp
  have "run_tx Tx_ok (apply_tx env p) (cw_db w) = (Inr r, cw_db w1)"
    using apply_mutation_result[of env Tx_ok p w] apply_mutation_db[of env Tx_ok p w]
      first run[of env w] by (metis fst_conv snd_conv surjective_pairing)
  then have tx: "apply_tx env p (cw_db w) = Inr (r, cw_db w1)"
    by (rule run_tx_return)
  obtain es where "ledger (cw_db w2) = ledger (cw_db w1) @ es"
    unfolding w2_def using run_credit_ops_ledger by blast
  then have "find_entry (ap_idempotencyKey p) (cw_db w2) = Some (mr_entry r)"
    by (rule find_entry_grows[OF apply_tx_writes(1)[OF tx]])
  then show ?thesis
    using apply_mutation_replay[OF _ apply_tx_writes(2)[OF tx], of w2 env']
      apply_tx_writes(3)[OF tx] by (simp add: run w2_def)
qed

text \<open>
  C3. A key is spent once. After a mutation has returned, sending the same mutation
  again, at any later time and after any other operations, returns the same entry and
  balance marked as replayed and changes nothing: no wallet, no ledger entry, no metric,
  no event.
\<close>

theorem replay_is_idempotent:
  assumes first: "run_credit_op env Tx_ok op w = (Inr r, w1)"
  shows "run_credit_op env' Tx_ok op (run_credit_ops ops w1) =
    (Inr (r\<lparr>mr_replayed := True\<rparr>), run_credit_ops ops w1)"
  by (rule replay_again[OF first])

theorem replay_is_idempotent_witness:
  "let op = Op_Adjust (of_user ''v'') (JInt 7) ''a1'' None;
       (r, w1) = run_credit_op sample_env Tx_ok op empty_world;
       w2 = run_credit_ops sample_ops w1
   in run_credit_op sample_env Tx_ok op w2 = (map_sum id (mr_replayed_update (\<lambda>_. True)) r, w2)"
proof -
  let ?op = "Op_Adjust (of_user ''v'') (JInt 7) ''a1'' None"
  obtain r w1 where run: "run_credit_op sample_env Tx_ok ?op empty_world = (Inr r, w1)"
    by (simp add: credit_eval)
  show ?thesis
    using replay_is_idempotent[OF run, of sample_env sample_ops]
    by (simp add: run del: run_credit_op.simps)
qed

text \<open>
  C4. Retrying is exactly-once. Whatever the environment did to the first attempt (the
  connection lost before the commit, or the acknowledgement lost after it), running the
  same mutation again ends with the entry and the tables of a single undisturbed run.
\<close>

theorem retry_is_exactly_once:
  assumes once: "run_credit_op env Tx_ok op w = (Inr r, w1)"
    and twice: "run_credit_op env Tx_ok op (snd (run_credit_op env fault op w)) = (r', w2)"
  shows "cw_db w2 = cw_db w1 \<and> (\<exists>m. r' = Inr m \<and> mr_entry m = mr_entry r \<and> mr_balance m = mr_balance r)"
proof -
  obtain p where p: "op_params op = Some p"
    using run_credit_op_params[where op = op and env = env and fault = Tx_ok and w = w] once
    by (cases "op_params op") auto
  have run: "run_credit_op env f op v = apply_mutation env f p v" for f v
    using run_credit_op_params[where op = op and env = env and fault = f and w = v] p by simp
  define v where "v = snd (run_credit_op env fault op w)"
  have tx: "apply_tx env p (cw_db w) = Inr (r, cw_db w1)"
    using once apply_mutation_result[of env Tx_ok p w] apply_mutation_db[of env Tx_ok p w]
    by (auto simp: run split: sum.splits)
  have v: "cw_db v = cw_db w \<or> cw_db v = cw_db w1"
    using run_tx_after[of fault "apply_tx env p" "cw_db w"] tx
    by (auto simp: v_def run apply_mutation_db)
  have r': "r' = fst (run_tx Tx_ok (apply_tx env p) (cw_db v))"
    and w2: "cw_db w2 = snd (run_tx Tx_ok (apply_tx env p) (cw_db v))"
    using twice apply_mutation_result[of env Tx_ok p v] apply_mutation_db[of env Tx_ok p v]
    by (auto simp: v_def run)
  from v show ?thesis
  proof
    assume "cw_db v = cw_db w"
    with r' w2 tx show ?thesis by simp
  next
    assume "cw_db v = cw_db w1"
    moreover have "apply_tx env p (cw_db w1) =
        Inr (\<lparr>mr_entry = mr_entry r, mr_balance = mr_balance r, mr_replayed = True\<rparr>, cw_db w1)"
      using apply_tx_writes[OF tx] by (simp add: apply_tx_def)
    ultimately show ?thesis using r' w2 by simp
  qed
qed

theorem retry_is_exactly_once_witness:
  "get_balance (Inr ''u'') (cw_db
     (snd (run_credit_op sample_env Tx_ok (Op_Spend (of_user ''u'') (JInt 4) ''s7'' None None)
        (snd (run_credit_op sample_env (Tx_unreported (OtherExn ''late''))
           (Op_Spend (of_user ''u'') (JInt 4) ''s7'' None None) sample_world))))) = 5"
proof -
  let ?op = "Op_Spend (of_user ''u'') (JInt 4) ''s7'' None None"
  have once: "\<exists>r w1. run_credit_op sample_env Tx_ok ?op sample_world = (Inr r, w1) \<and>
      get_balance (Inr ''u'') (cw_db w1) = 5"
    by (simp add: sample_world_def sample_ops_def credit_eval)
  then obtain r w1 where r: "run_credit_op sample_env Tx_ok ?op sample_world = (Inr r, w1)"
    and b: "get_balance (Inr ''u'') (cw_db w1) = 5" by blast
  show ?thesis
    using retry_is_exactly_once[OF r surjective_pairing, of "Tx_unreported (OtherExn ''late'')"] b
    by simp
qed

text \<open>
  C5. A key that was used for one mutation never serves another. Once a mutation with
  key \<open>k\<close> has gone through, at any later time a call with the same key that differs in
  subject, type, amount, (given) feature or, for an adjust, in direction is answered with
  \<open>409 CONFLICT\<close> and changes nothing.
\<close>

theorem reused_key_conflicts:
  assumes inv: "credit_inv (cw_db w)" and fresh: "fresh_ids env"
    and p: "op_params op = Some p" and q: "op_params op' = Some q"
    and first: "run_credit_op env Tx_ok op w = (Inr r, w1)" and new: "\<not> mr_replayed r"
    and same: "ap_idempotencyKey q = ap_idempotencyKey p"
    and differ: "ap_subject q \<noteq> ap_subject p \<or> ap_type q \<noteq> ap_type p \<or>
       ap_amount q \<noteq> ap_amount p \<or> (ap_feature q \<noteq> None \<and> ap_feature q \<noteq> ap_feature p) \<or>
       ap_delta q \<noteq> ap_delta p"
  shows "\<exists>e. run_credit_op env' Tx_ok op' (run_credit_ops ops w1) = (Inl e, run_credit_ops ops w1)
    \<and> api_code e = Some CONFLICT"
proof -
  define w2 where "w2 = run_credit_ops ops w1"
  have run: "run_credit_op e Tx_ok op v = apply_mutation e Tx_ok p v"
    and run': "run_credit_op e Tx_ok op' v = apply_mutation e Tx_ok q v" for e v
    using run_credit_op_params[where op = op and env = e and fault = Tx_ok and w = v]
      run_credit_op_params[where op = op' and env = e and fault = Tx_ok and w = v] p q by simp_all
  have tx: "apply_tx env p (cw_db w) = Inr (r, cw_db w1)"
    using first apply_mutation_result[of env Tx_ok p w] apply_mutation_db[of env Tx_ok p w]
    by (auto simp: run split: sum.splits)
  obtain es where "ledger (cw_db w2) = ledger (cw_db w1) @ es"
    unfolding w2_def using run_credit_ops_ledger by blast
  then have ex: "find_entry (ap_idempotencyKey q) (cw_db w2) = Some (mr_entry r)"
    unfolding same by (rule find_entry_grows[OF apply_tx_writes(1)[OF tx]])
  have rec: "entry_record (mr_entry r) = (subject_owner (ap_subject p), ap_type p, ap_amount p,
      ap_feature p, if ap_type p = Adjust then Some (ap_delta p) else None)"
    by (rule apply_tx_record[OF tx new])
  have "credit_inv (cw_db w1)"
    by (rule apply_tx_inv[OF inv fresh op_params_ok[OF p] tx])
  then have xor: "owner_xor (e_userId (mr_entry r)) (e_organizationId (mr_entry r))"
    by (rule entry_xor[OF _ apply_tx_writes(1)[OF tx]])
  have "ap_delta q = ap_delta p" if "ap_type q = ap_type p" "ap_amount q = ap_amount p"
    "ap_type p \<noteq> Adjust"
    using that op_params_ok[OF p] op_params_ok[OF q] by (cases "ap_type p") (auto simp: params_ok_def)
  then have "\<not> replay_matches (mr_entry r) q"
    using differ by (auto simp: replay_matches_record[OF xor] rec split: if_splits)
  then show ?thesis
    using apply_mutation_conflict[OF ex] by (simp add: run' w2_def replay_conflict_def)
qed

theorem reused_key_conflicts_witness:
  "\<exists>e w1. snd (run_credit_op sample_env Tx_ok (Op_Adjust (of_user ''u'') (JInt 5) ''a9'' None)
        sample_world) = w1 \<and>
     run_credit_op sample_env Tx_ok (Op_Adjust (of_user ''u'') (JInt (- 5)) ''a9'' None) w1 = (Inl e, w1) \<and>
     api_code e = Some CONFLICT"
proof -
  let ?up = "Op_Adjust (of_user ''u'') (JInt 5) ''a9'' None"
  let ?down = "Op_Adjust (of_user ''u'') (JInt (- 5)) ''a9'' None"
  obtain p where p: "op_params ?up = Some p" and pd: "ap_delta p = 5" "ap_idempotencyKey p = ''a9''"
    by (simp add: op_params_def credit_eval)
  obtain q where q: "op_params ?down = Some q" and qd: "ap_delta q = - 5" "ap_idempotencyKey q = ''a9''"
    by (simp add: op_params_def credit_eval)
  have "\<exists>r w1. run_credit_op sample_env Tx_ok ?up sample_world = (Inr r, w1) \<and> \<not> mr_replayed r"
    by (simp add: sample_world_def sample_ops_def credit_eval)
  then obtain r w1 where run: "run_credit_op sample_env Tx_ok ?up sample_world = (Inr r, w1)"
    and new: "\<not> mr_replayed r" by blast
  show ?thesis
    using reused_key_conflicts[OF sample_world_inv fresh_sample_env p q run new, of sample_env "[]"]
      pd qd by (simp add: run del: run_credit_op.simps)
qed

end
