(* ===== verification/CreditEvents.thy ===== *)
theory CreditEvents
  imports CreditProperties
begin

text \<open>
  The refinement of the account, stated for the public mutations, and the low-balance
  signal read off the ledger.
\<close>

text \<open>
  C6. The service implements the abstract account: with a reachable owner and amounts in
  the range of the column, each public mutation has the outcome the account prescribes
  (moved, replayed, conflict, insufficient) and leaves the balances and used keys the
  account prescribes.
\<close>

theorem credit_service_refines_account:
  assumes "credit_inv (cw_db w)" and "fresh_ids env" and p: "op_params op = Some p"
    and "ce_ownerExists env (ap_subject p)" and "int4 (ap_amount p)"
    and "int4 (get_balance (Inl (ap_subject p)) (cw_db w) + ap_delta p)"
  shows "account_apply p (abs_account (cw_db w)) =
    (abs_outcome (fst (run_credit_op env Tx_ok op w)),
     abs_account (cw_db (snd (run_credit_op env Tx_ok op w))))"
proof -
  have run: "run_credit_op env Tx_ok op w = apply_mutation env Tx_ok p w"
    using run_credit_op_params[where op = op and env = env and fault = Tx_ok and w = w] p by simp
  have ref: "case run_tx Tx_ok (apply_tx env p) (cw_db w) of (res, db') \<Rightarrow>
     account_apply p (abs_account (cw_db w)) = (abs_outcome res, abs_account db')"
    by (rule apply_tx_refines) (use assms op_params_ok[OF p] in auto)
  show ?thesis
    unfolding run apply_mutation_result apply_mutation_db
    using ref by (simp only: case_prod_beta)
qed

theorem credit_service_refines_account_witness:
  "\<exists>p. op_params (Op_Spend (of_user ''u'') (JInt 4) ''s8'' None None) = Some p \<and>
     fst (account_apply p (abs_account (cw_db sample_world))) = Moved 5"
proof -
  let ?op = "Op_Spend (of_user ''u'') (JInt 4) ''s8'' None None"
  obtain p where p: "op_params ?op = Some p"
    and f: "ap_subject p = User_Subject ''u''" "ap_amount p = 4" "ap_delta p = - 4"
    by (simp add: op_params_def credit_eval)
  have own: "ce_ownerExists sample_env (ap_subject p)" by (simp add: sample_env_def)
  have amt: "int4 (ap_amount p)" by (simp add: f int4_def)
  have rng: "int4 (get_balance (Inl (ap_subject p)) (cw_db sample_world) + ap_delta p)"
    using sample_world_balance by (simp add: f int4_def get_balance_def user_subject_def)
  have out: "abs_outcome (fst (run_credit_op sample_env Tx_ok ?op sample_world)) = Moved 5"
    by (simp add: sample_world_def sample_ops_def abs_outcome_def credit_eval)
  show ?thesis
    using credit_service_refines_account[OF sample_world_inv fresh_sample_env p own amt rng] p out
    by (metis fst_conv)
qed

section \<open>The low-balance signal\<close>

definition entry_subject :: "ledger_entry \<Rightarrow> billing_subject" where
  "entry_subject e =
     (case e_userId e of
        Some u \<Rightarrow> User_Subject u
      | None \<Rightarrow> Org_Subject (case e_organizationId e of Some o' \<Rightarrow> o' | None \<Rightarrow> []))"

definition low_debit :: "int option \<Rightarrow> ledger_entry \<Rightarrow> bool" where
  "low_debit threshold e \<longleftrightarrow>
     entry_delta e < 0 \<and> (case threshold of Some t \<Rightarrow> e_balanceAfter e \<le> t | None \<Rightarrow> False)"

definition low_payload :: "int option \<Rightarrow> ledger_entry \<Rightarrow> low_balance_payload" where
  "low_payload threshold e =
     \<lparr>lb_subject = entry_subject e, lb_userId = e_userId e, lb_balance = e_balanceAfter e,
      lb_threshold = (case threshold of Some t \<Rightarrow> t | None \<Rightarrow> 0)\<rparr>"

definition low_events :: "int option \<Rightarrow> ledger_entry list \<Rightarrow> low_balance_payload list" where
  "low_events threshold es = map (low_payload threshold) (filter (low_debit threshold) es)"

lemma low_events_append [simp]: "low_events t (es @ es') = low_events t es @ low_events t es'"
  by (simp add: low_events_def)

lemma entry_subject_new [simp]: "entry_subject (new_entry env p b db) = ap_subject p"
  by (cases "ap_subject p") (simp_all add: entry_subject_def)

lemma emit_events:
  "cw_events (emit_low_balance env s b w) = cw_events w @
    (case ce_lowBalanceThreshold env of
       None \<Rightarrow> []
     | Some t \<Rightarrow> [\<lparr>lb_subject = s, lb_userId = owner_user s, lb_balance = b, lb_threshold = t\<rparr>])"
  by (simp add: emit_low_balance_def split: option.split)

lemma low_events_new:
  assumes "params_ok p"
  shows "low_events (ce_lowBalanceThreshold env) [new_entry env p b db] =
    (if ap_delta p < 0 \<and> should_emit_low_balance env b
     then (case ce_lowBalanceThreshold env of
       None \<Rightarrow> []
     | Some t \<Rightarrow> [\<lparr>lb_subject = ap_subject p, lb_userId = owner_user (ap_subject p),
                   lb_balance = b, lb_threshold = t\<rparr>]) else [])"
  by (cases "ce_lowBalanceThreshold env")
     (auto simp: low_events_def low_debit_def low_payload_def entry_delta_new[OF assms]
        should_emit_low_balance_def)

text \<open>One mutation whose outcome the caller learns appends exactly the events of its entries.\<close>

lemma apply_mutation_events:
  assumes ok: "params_ok p" and fault: "\<And>e. fault \<noteq> Tx_unreported e"
    and ev: "cw_events w = low_events (ce_lowBalanceThreshold env) (ledger (cw_db w))"
  defines "w' \<equiv> snd (apply_mutation env fault p w)"
  shows "cw_events w' = low_events (ce_lowBalanceThreshold env) (ledger (cw_db w'))"
proof (cases "run_tx fault (apply_tx env p) (cw_db w)")
  case (Pair res db)
  show ?thesis
  proof (cases res)
    case (Inl e)
    have "db = cw_db w"
      using Pair Inl fault by (auto simp: run_tx_def split: sum.splits tx_fault.splits)
    with Pair Inl ev show ?thesis by (simp add: w'_def apply_mutation_def)
  next
    case (Inr r)
    with Pair have tx: "apply_tx env p (cw_db w) = Inr (r, db)" by (simp add: run_tx_return)
    then show ?thesis
    proof (cases rule: apply_tx_InrE)
      case (replay ex)
      with Pair Inr ev show ?thesis by (simp add: w'_def apply_mutation_def)
    next
      case (move db1)
      from move(3) obtain b db2 where r: "r = \<lparr>mr_entry = new_entry env p b db2, mr_balance = b,
          mr_replayed = False\<rparr>" and led: "ledger db = ledger db1 @ [new_entry env p b db2]"
        by (rule move_balance_InrE) auto
      have "ledger db = ledger (cw_db w) @ [new_entry env p b db2]"
        using led ensure_wallet_ledger[OF move(2)] by simp
      then show ?thesis
        using Pair Inr r ev low_events_new[OF ok, of env b db2]
        by (simp add: w'_def apply_mutation_def Let_def emit_events)
    qed
  qed
qed

lemma run_credit_op_events:
  fixes op :: credit_op
  assumes "\<And>e. fault \<noteq> Tx_unreported e"
    and "cw_events w = low_events (ce_lowBalanceThreshold env) (ledger (cw_db w))"
  defines "w' \<equiv> snd (run_credit_op env fault op w)"
  shows "cw_events w' = low_events (ce_lowBalanceThreshold env) (ledger (cw_db w'))"
proof (cases "op_params op")
  case None
  then obtain e where "run_credit_op env fault op w = (Inl e, w)"
    using run_credit_op_params[where op = op and env = env and fault = fault and w = w] by auto
  with assms show ?thesis by simp
next
  case (Some p)
  then have "run_credit_op env fault op w = apply_mutation env fault p w"
    using run_credit_op_params[where op = op and env = env and fault = fault and w = w] by simp
  with apply_mutation_events[OF op_params_ok[OF Some] assms(1,2)] show ?thesis
    by (simp add: w'_def)
qed

text \<open>
  C7. The low-balance signal is exact. As long as every caller learns the outcome of its
  transaction, the events emitted over a run are, in order, one per ledger entry that
  moved a balance down to the threshold or below: spends and negative adjusts alike,
  none for a credit, none for a replay, none twice.
\<close>

theorem low_balance_events_exact:
  assumes "\<forall>(env, fault, op) \<in> set ops.
      ce_lowBalanceThreshold env = t \<and> (\<forall>e. fault \<noteq> Tx_unreported e)"
  shows "cw_events (run_credit_ops ops empty_world) =
    low_events t (ledger (cw_db (run_credit_ops ops empty_world)))"
proof -
  have "cw_events (run_credit_ops ops w) = low_events t (ledger (cw_db (run_credit_ops ops w)))"
    if "cw_events w = low_events t (ledger (cw_db w))" for w
    using that assms
  proof (induction ops arbitrary: w)
    case Nil
    then show ?case by simp
  next
    case (Cons x ops)
    obtain env fault op where x: "x = (env, fault, op)" by (cases x)
    have t: "ce_lowBalanceThreshold env = t" and f: "\<And>e. fault \<noteq> Tx_unreported e"
      using Cons.prems x by auto
    have "cw_events (snd (run_credit_op env fault op w)) =
        low_events t (ledger (cw_db (snd (run_credit_op env fault op w))))"
      using run_credit_op_events[OF f, of w env op] Cons.prems t by simp
    then show ?case using Cons.IH Cons.prems x by simp
  qed
  then show ?thesis by (simp add: empty_world_def empty_db_def low_events_def)
qed

definition low_ops :: "(credit_env \<times> tx_fault \<times> credit_op) list" where
  "low_ops =
     [(sample_env, Tx_ok, Op_Grant (of_user ''u'') (JInt 10) ''g1'' None),
      (sample_env, Tx_ok, Op_Spend (of_user ''u'') (JInt 4) ''s1'' None None),
      (sample_env, Tx_ok, Op_Adjust (of_user ''u'') (JInt (- 1)) ''a1'' None),
      (sample_env, Tx_ok, Op_Adjust (of_user ''u'') (JInt (- 1)) ''a1'' None),
      (sample_env, Tx_ok, Op_Refund (of_user ''u'') (JInt 1) ''r1'' None None)]"

theorem low_balance_events_exact_witness:
  "map lb_balance (cw_events (run_credit_ops low_ops empty_world)) = [5]
   \<and> length (ledger (cw_db (run_credit_ops low_ops empty_world))) = 4"
proof -
  have h: "\<forall>(env, fault, op) \<in> set low_ops.
      ce_lowBalanceThreshold env = Some 5 \<and> (\<forall>e. fault \<noteq> Tx_unreported e)"
    by (simp add: low_ops_def sample_env_def)
  show ?thesis
    unfolding low_balance_events_exact[OF h]
    by (simp add: low_ops_def low_events_def low_debit_def low_payload_def entry_delta_def credit_eval)
qed

end
