(* ===== verification/CreditRace.thy ===== *)
theory CreditRace
  imports CreditProperties "HOL-Library.Multiset"
begin

text \<open>
  Concurrent mutations of credits: the transaction of \<open>CreditService.apply\<close>
  (\<open>src/modules/credits/credit.service.ts\<close>), cut at its statements, under PostgreSQL's
  default isolation. A statement sees what is committed when it runs and what its own
  transaction wrote. \<open>SELECT ... FOR UPDATE\<close> waits for the lock of the wallet's row, an insert
  that meets the same unique value in an open transaction waits for that transaction, and both
  are held to its end. A transaction may fail at any statement, without effect, and a commit
  may go unanswered. Row ids are drawn when the commit makes them visible.
\<close>

section \<open>Threads\<close>

text \<open>The flag says whether the transaction inserted the wallet itself, the number is the new balance.\<close>

datatype credit_thread =
    Reading credit_env apply_params
  | Ensuring credit_env apply_params
  | Locking credit_env apply_params bool
  | Locked credit_env apply_params bool
  | Updated credit_env apply_params bool int
  | Inserted credit_env apply_params bool int
  | Returned credit_env apply_params mutation_result
  | Failed credit_env apply_params exn

fun call_of :: "credit_thread \<Rightarrow> credit_env \<times> apply_params" where
  "call_of (Reading env p) = (env, p)"
| "call_of (Ensuring env p) = (env, p)"
| "call_of (Locking env p c) = (env, p)"
| "call_of (Locked env p c) = (env, p)"
| "call_of (Updated env p c b) = (env, p)"
| "call_of (Inserted env p c b) = (env, p)"
| "call_of (Returned env p r) = (env, p)"
| "call_of (Failed env p e) = (env, p)"

fun has_ended :: "credit_thread \<Rightarrow> bool" where
  "has_ended (Returned env p r) = True"
| "has_ended (Failed env p e) = True"
| "has_ended _ = False"

text \<open>What an open transaction keeps from the others: a wallet it inserted, a row it locked, a key it wrote.\<close>

fun creates_wallet :: "billing_subject \<Rightarrow> credit_thread \<Rightarrow> bool" where
  "creates_wallet s (Locking env p c) \<longleftrightarrow> c \<and> ap_subject p = s"
| "creates_wallet s (Locked env p c) \<longleftrightarrow> c \<and> ap_subject p = s"
| "creates_wallet s (Updated env p c b) \<longleftrightarrow> c \<and> ap_subject p = s"
| "creates_wallet s (Inserted env p c b) \<longleftrightarrow> c \<and> ap_subject p = s"
| "creates_wallet s _ \<longleftrightarrow> False"

fun holds_lock :: "billing_subject \<Rightarrow> credit_thread \<Rightarrow> bool" where
  "holds_lock s (Locked env p c) \<longleftrightarrow> ap_subject p = s"
| "holds_lock s (Updated env p c b) \<longleftrightarrow> ap_subject p = s"
| "holds_lock s (Inserted env p c b) \<longleftrightarrow> ap_subject p = s"
| "holds_lock s _ \<longleftrightarrow> False"

fun writes_key :: "string \<Rightarrow> credit_thread \<Rightarrow> bool" where
  "writes_key k (Inserted env p c b) \<longleftrightarrow> ap_idempotencyKey p = k"
| "writes_key k _ \<longleftrightarrow> False"

text \<open>What a commit makes visible: the wallet, its balance and the entry.\<close>

definition commit_call ::
  "credit_env \<Rightarrow> apply_params \<Rightarrow> bool \<Rightarrow> int \<Rightarrow> credit_db \<Rightarrow> (mutation_result \<times> credit_db) option" where
  "commit_call env p created bal db =
     (case (if created then ensure_wallet env (ap_subject p) db else Inr db) of
        Inl _ \<Rightarrow> None
      | Inr db1 \<Rightarrow>
          (case find_wallet (ap_subject p) db1 of
             None \<Rightarrow> None
           | Some w \<Rightarrow>
               (let db2 = db1\<lparr>wallets := update_where (\<lambda>v. w_id v = w_id w) (\<lambda>v. v\<lparr>w_balance := bal\<rparr>) (wallets db1)\<rparr>;
                    entry = new_entry env p bal db2
                in Some (\<lparr>mr_entry = entry, mr_balance = bal, mr_replayed = False\<rparr>,
                         db2\<lparr>ledger := ledger db2 @ [entry]\<rparr>))))"

section \<open>Steps\<close>

text \<open>
  One statement of one thread: the committed tables and the thread, before and after, and the
  calls that it commits. \<open>quiet P\<close> says that no other thread satisfies \<open>P\<close>; a statement that
  would have to wait does not run.
\<close>

inductive credit_move ::
  "((credit_thread \<Rightarrow> bool) \<Rightarrow> bool) \<Rightarrow> credit_db \<Rightarrow> credit_thread \<Rightarrow> credit_db \<Rightarrow> credit_thread \<Rightarrow>
     (credit_env \<times> apply_params) list \<Rightarrow> bool"
  for quiet :: "(credit_thread \<Rightarrow> bool) \<Rightarrow> bool" where
  replayed: "find_entry (ap_idempotencyKey p) db = Some ex \<Longrightarrow> replay_matches ex p \<Longrightarrow>
    credit_move quiet db (Reading env p) db
      (Returned env p \<lparr>mr_entry = ex, mr_balance = e_balanceAfter ex, mr_replayed = True\<rparr>) []"
| conflicting: "find_entry (ap_idempotencyKey p) db = Some ex \<Longrightarrow> \<not> replay_matches ex p \<Longrightarrow>
    credit_move quiet db (Reading env p) db (Failed env p (replay_conflict ex)) []"
| unseen: "find_entry (ap_idempotencyKey p) db = None \<Longrightarrow>
    credit_move quiet db (Reading env p) db (Ensuring env p) []"
| found_wallet: "find_wallet (ap_subject p) db \<noteq> None \<Longrightarrow>
    credit_move quiet db (Ensuring env p) db (Locking env p False) []"
| made_wallet: "find_wallet (ap_subject p) db = None \<Longrightarrow> quiet (creates_wallet (ap_subject p)) \<Longrightarrow>
    ce_ownerExists env (ap_subject p) \<Longrightarrow>
    credit_move quiet db (Ensuring env p) db (Locking env p True) []"
| locked: "quiet (holds_lock (ap_subject p)) \<Longrightarrow>
    credit_move quiet db (Locking env p c) db (Locked env p c) []"
| insufficient: "ap_failIfInsufficient p \<Longrightarrow> get_balance (Inl (ap_subject p)) db + ap_delta p < 0 \<Longrightarrow>
    credit_move quiet db (Locked env p c) db
      (Failed env p (insufficient_credits p (get_balance (Inl (ap_subject p)) db))) []"
| updated: "bal = get_balance (Inl (ap_subject p)) db + ap_delta p \<Longrightarrow> \<not> (ap_failIfInsufficient p \<and> bal < 0) \<Longrightarrow>
    int4 bal \<Longrightarrow> credit_move quiet db (Locked env p c) db (Updated env p c bal) []"
| inserted: "find_entry (ap_idempotencyKey p) db = None \<Longrightarrow> quiet (writes_key (ap_idempotencyKey p)) \<Longrightarrow>
    int4 (ap_amount p) \<Longrightarrow> credit_move quiet db (Updated env p c bal) db (Inserted env p c bal) []"
| duplicate: "find_entry (ap_idempotencyKey p) db \<noteq> None \<Longrightarrow>
    credit_move quiet db (Updated env p c bal) db (Failed env p unique_violation) []"
| committed: "commit_call env p c bal db = Some (r, db') \<Longrightarrow>
    credit_move quiet db (Inserted env p c bal) db' (Returned env p r) [(env, p)]"
| unanswered: "commit_call env p c bal db = Some (r, db') \<Longrightarrow>
    credit_move quiet db (Inserted env p c bal) db' (Failed env p e) [(env, p)]"
| aborted: "\<not> has_ended t \<Longrightarrow> call_of t = (env, p) \<Longrightarrow> credit_move quiet db t db (Failed env p e) []"

record credit_race =
  cr_db :: credit_db
  cr_threads :: "credit_thread list"
  cr_log :: "(credit_env \<times> apply_params) list"

definition quiet_beside :: "credit_thread list \<Rightarrow> nat \<Rightarrow> (credit_thread \<Rightarrow> bool) \<Rightarrow> bool" where
  "quiet_beside ts i P \<longleftrightarrow> (\<forall>j<length ts. j \<noteq> i \<longrightarrow> \<not> P (ts ! j))"

definition race_start :: "credit_db \<Rightarrow> (credit_env \<times> apply_params) list \<Rightarrow> credit_race" where
  "race_start db calls = \<lparr>cr_db = db, cr_threads = map (\<lambda>(env, p). Reading env p) calls, cr_log = []\<rparr>"

inductive credit_reachable :: "credit_race \<Rightarrow> credit_race \<Rightarrow> bool" for start :: credit_race where
  race_begins: "credit_reachable start start"
| race_goes_on: "credit_reachable start s \<Longrightarrow> i < length (cr_threads s) \<Longrightarrow>
    credit_move (quiet_beside (cr_threads s) i) (cr_db s) (cr_threads s ! i) db' t cs \<Longrightarrow>
    credit_reachable start \<lparr>cr_db = db', cr_threads = (cr_threads s)[i := t], cr_log = cr_log s @ cs\<rparr>"

text \<open>The reference: the committed calls one after the other, each as a whole.\<close>

fun serial_credit :: "(credit_env \<times> apply_params) list \<Rightarrow> credit_db \<Rightarrow> credit_db" where
  "serial_credit [] db = db"
| "serial_credit ((env, p) # cs) db =
     serial_credit cs (case apply_tx env p db of Inl _ \<Rightarrow> db | Inr (_, db') \<Rightarrow> db')"

lemma serial_credit_append [simp]: "serial_credit (cs @ ds) db = serial_credit ds (serial_credit cs db)"
  by (induction cs db rule: serial_credit.induct) simp_all

section \<open>What a thread may rely on\<close>

fun wallet_seen :: "credit_db \<Rightarrow> credit_env \<Rightarrow> apply_params \<Rightarrow> bool \<Rightarrow> bool" where
  "wallet_seen db env p c \<longleftrightarrow>
     (c \<longleftrightarrow> find_wallet (ap_subject p) db = None) \<and> (c \<longrightarrow> ce_ownerExists env (ap_subject p))"

definition balance_seen :: "credit_db \<Rightarrow> apply_params \<Rightarrow> int \<Rightarrow> bool" where
  "balance_seen db p bal \<longleftrightarrow>
     bal = get_balance (Inl (ap_subject p)) db + ap_delta p \<and> \<not> (ap_failIfInsufficient p \<and> bal < 0) \<and> int4 bal"

fun sees :: "credit_db \<Rightarrow> credit_thread \<Rightarrow> bool" where
  "sees db (Locking env p c) \<longleftrightarrow> wallet_seen db env p c"
| "sees db (Locked env p c) \<longleftrightarrow> wallet_seen db env p c"
| "sees db (Updated env p c bal) \<longleftrightarrow> wallet_seen db env p c \<and> balance_seen db p bal"
| "sees db (Inserted env p c bal) \<longleftrightarrow> wallet_seen db env p c \<and> balance_seen db p bal \<and>
     find_entry (ap_idempotencyKey p) db = None \<and> int4 (ap_amount p)"
| "sees db _ \<longleftrightarrow> True"

definition apart :: "credit_thread \<Rightarrow> credit_thread \<Rightarrow> bool" where
  "apart t u \<longleftrightarrow>
     (\<forall>s. \<not> (creates_wallet s t \<and> creates_wallet s u) \<and> \<not> (holds_lock s t \<and> holds_lock s u)) \<and>
     (\<forall>k. \<not> (writes_key k t \<and> writes_key k u))"

definition call_ok :: "credit_env \<times> apply_params \<Rightarrow> bool" where
  "call_ok call \<longleftrightarrow> fresh_ids (fst call) \<and> params_ok (snd call)"

text \<open>A commit is the whole transaction at once, on what is committed at that time.\<close>

lemma commit_is_apply_tx:
  assumes "sees db (Inserted env p c bal)" and "commit_call env p c bal db = Some (r, db')"
  shows "apply_tx env p db = Inr (r, db')"
proof -
  have keys: "ap_idempotencyKey p \<notin> e_idempotencyKey ` set (ledger db)"
    using assms(1) by (auto simp: find_entry_def find_None_conv)
  obtain db1 where ens: "ensure_wallet env (ap_subject p) db = Inr db1"
    and db1: "(if c then ensure_wallet env (ap_subject p) db else Inr db) = Inr db1"
    using assms(1) by (cases c; cases "find_wallet (ap_subject p) db") (auto simp: ensure_wallet_def)
  obtain w where w: "find_wallet (ap_subject p) db1 = Some w" using ensure_wallet_found[OF ens] by auto
  have bal: "w_balance w + ap_delta p = bal"
    using assms(1) w ensure_wallet_balance[OF ens, of "Inl (ap_subject p)"]
    by (simp add: balance_seen_def get_balance_def)
  show ?thesis
    using assms ens db1 w bal keys ensure_wallet_ledger[OF ens]
    by (auto simp: commit_call_def apply_tx_def move_balance_def update_wallet_def create_entry_def balance_seen_def Let_def
        simp del: wallet_seen.simps)
qed

lemma find_wallet_None_iff:
  assumes "credit_inv db"
  shows "find_wallet s db = None \<longleftrightarrow> subject_owner s \<notin> wallet_owner ` set (wallets db)"
  using find_wallet_None[OF assms] find_wallet_SomeD[OF assms, of s] by (cases "find_wallet s db") force+

lemma apply_tx_others:
  assumes inv: "credit_inv db" and ok: "call_ok (env, p)" and none: "find_entry (ap_idempotencyKey p) db = None"
    and tx: "apply_tx env p db = Inr (r, db')"
  shows "(find_wallet s db' = None \<longleftrightarrow> find_wallet s db = None \<and> s \<noteq> ap_subject p) \<and>
    (s \<noteq> ap_subject p \<longrightarrow> get_balance (Inl s) db' = get_balance (Inl s) db) \<and>
    (find_entry k db' = None \<longleftrightarrow> find_entry k db = None \<and> k \<noteq> ap_idempotencyKey p)"
proof -
  have inv': "credit_inv db'" using apply_tx_inv[OF inv _ _ tx] ok by (simp add: call_ok_def)
  from tx show ?thesis
  proof (cases rule: apply_tx_InrE)
    case (move db1)
    have "\<exists>ent. entry_owner ent = subject_owner (ap_subject p) \<and> e_idempotencyKey ent = ap_idempotencyKey p \<and>
        wallet_owner ` set (wallets db') = wallet_owner ` set (wallets db1) \<and> ledger db' = ledger db1 @ [ent]"
      by (rule move_balance_InrE[OF move(3)]) auto
    then obtain ent where ent: "entry_owner ent = subject_owner (ap_subject p)" "e_idempotencyKey ent = ap_idempotencyKey p"
      and db': "wallet_owner ` set (wallets db') = wallet_owner ` set (wallets db1)" "ledger db' = ledger db1 @ [ent]"
      by blast
    have led: "ledger db' = ledger db @ [ent]" using db'(2) ensure_wallet_ledger[OF move(2)] by simp
    have owners: "wallet_owner ` set (wallets db') = insert (subject_owner (ap_subject p)) (wallet_owner ` set (wallets db))"
      using move(2) db'(1) find_wallet_None_iff[OF inv, of "ap_subject p"]
      by (auto simp: ensure_wallet_def wallet_owner_def subject_owner_def split: option.splits if_splits)
    have "get_balance (Inl s) db' = get_balance (Inl s) db" if "s \<noteq> ap_subject p"
      unfolding get_balance_total[OF inv] get_balance_total[OF inv'] led using ent that by simp
    moreover have "find_entry k db' = None \<longleftrightarrow> find_entry k db = None \<and> k \<noteq> ap_idempotencyKey p"
      using ent(2) by (auto simp: find_entry_def find_None_conv led)
    moreover have "find_wallet s db' = None \<longleftrightarrow> find_wallet s db = None \<and> s \<noteq> ap_subject p"
      unfolding find_wallet_None_iff[OF inv] find_wallet_None_iff[OF inv'] owners by auto
    ultimately show ?thesis by simp
  qed (use none in simp)
qed

text \<open>What another thread has seen outlives a commit, because the two are apart.\<close>

lemma sight_outlives_commit:
  assumes inv: "credit_inv db" and ok: "call_ok (env, p)" and mine: "sees db (Inserted env p c bal)"
    and tx: "apply_tx env p db = Inr (r, db')" and other: "sees db u" and ap: "apart (Inserted env p c bal) u"
  shows "sees db' u"
proof -
  have none: "find_entry (ap_idempotencyKey p) db = None" using mine by simp
  note frame = apply_tx_others[OF inv ok none tx]
  have wallet: "wallet_seen db' env' q d" if "wallet_seen db env' q d" "\<not> (c \<and> d \<and> ap_subject p = ap_subject q)" for env' q d
  proof -
    have seen: "c \<longleftrightarrow> find_wallet (ap_subject p) db = None" "d \<longleftrightarrow> find_wallet (ap_subject q) db = None"
      "d \<longrightarrow> ce_ownerExists env' (ap_subject q)"
      using mine that(1) by simp_all
    have "find_wallet (ap_subject q) db' = None \<longleftrightarrow> find_wallet (ap_subject q) db = None \<and> ap_subject q \<noteq> ap_subject p"
      using frame[of "ap_subject q"] by blast
    moreover have "ap_subject q = ap_subject p \<Longrightarrow> \<not> d" using that(2) seen(1,2) by metis
    ultimately show ?thesis unfolding wallet_seen.simps using seen(2,3) by blast
  qed
  have balance: "balance_seen db' q b = balance_seen db q b" if "ap_subject q \<noteq> ap_subject p" for q b
    using frame[of "ap_subject q"] that by (simp add: balance_seen_def)
  show ?thesis
  proof (cases u)
    case (Locking env' q d)
    moreover have "\<not> (c \<and> d \<and> ap_subject p = ap_subject q)"
      using ap Locking by (auto simp: apart_def)
    ultimately show ?thesis using wallet[of env' q d] other by (simp del: wallet_seen.simps)
  next
    case (Locked env' q d)
    moreover have "\<not> (c \<and> d \<and> ap_subject p = ap_subject q)"
      using ap Locked by (auto simp: apart_def)
    ultimately show ?thesis using wallet[of env' q d] other by (simp del: wallet_seen.simps)
  next
    case (Updated env' q d b)
    then have "ap_subject q \<noteq> ap_subject p" using ap by (auto simp: apart_def)
    with Updated show ?thesis
      using wallet[of env' q d] other balance[of q b] by (simp del: wallet_seen.simps)
  next
    case (Inserted env' q d b)
    then have "ap_subject q \<noteq> ap_subject p" "ap_idempotencyKey q \<noteq> ap_idempotencyKey p"
      using ap by (auto simp: apart_def)
    with Inserted show ?thesis
      using wallet[of env' q d] other balance[of q b] frame[of "ap_subject q" "ap_idempotencyKey q"]
      by (simp del: wallet_seen.simps)
  qed simp_all
qed

text \<open>A statement claims nothing that another thread holds.\<close>

lemma move_claims:
  assumes "credit_move quiet db t db' u cs"
  shows "(creates_wallet s u \<longrightarrow> creates_wallet s t \<or> quiet (creates_wallet s)) \<and>
    (holds_lock s u \<longrightarrow> holds_lock s t \<or> quiet (holds_lock s)) \<and>
    (writes_key k u \<longrightarrow> writes_key k t \<or> quiet (writes_key k)) \<and> call_of u = call_of t"
  using assms by cases auto

lemma move_sight:
  assumes "credit_move quiet db t db' u cs" and "sees db t" and "cs = []"
  shows "db' = db \<and> sees db u"
  using assms by cases (auto simp: balance_seen_def)

definition answered :: "credit_db \<Rightarrow> (credit_env \<times> apply_params) list \<Rightarrow> credit_thread \<Rightarrow> bool" where
  "answered db0 log t \<longleftrightarrow>
     (\<forall>env p r. t = Returned env p r \<longrightarrow>
        (\<exists>before after d. log = before @ after \<and> apply_tx env p (serial_credit before db0) = Inr (r, d)))"

lemma answered_later: "answered db0 log t \<Longrightarrow> answered db0 (log @ cs) t"
  unfolding answered_def by (metis append_assoc)

definition race_inv :: "credit_db \<Rightarrow> credit_race \<Rightarrow> bool" where
  "race_inv db0 s \<longleftrightarrow>
     credit_inv (cr_db s) \<and> cr_db s = serial_credit (cr_log s) db0 \<and>
     (\<forall>t\<in>set (cr_threads s). call_ok (call_of t) \<and> sees (cr_db s) t \<and> answered db0 (cr_log s) t) \<and>
     (\<forall>i<length (cr_threads s). \<forall>j<length (cr_threads s). i \<noteq> j \<longrightarrow> apart (cr_threads s ! i) (cr_threads s ! j))"

lemma race_inv_start:
  assumes "credit_inv db" and "\<forall>call\<in>set calls. call_ok call"
  shows "race_inv db (race_start db calls)"
  using assms by (auto simp: race_inv_def race_start_def answered_def apart_def split_beta)

text \<open>The threads stay apart.\<close>

lemma apart_sym: "apart t u \<longleftrightarrow> apart u t"
  by (auto simp: apart_def)

lemma still_apart:
  assumes "\<forall>i<length ts. \<forall>j<length ts. i \<noteq> j \<longrightarrow> apart (ts ! i) (ts ! j)"
    and "i < length ts" and "credit_move (quiet_beside ts i) db (ts ! i) db' u cs"
  shows "\<forall>k<length ts. \<forall>j<length ts. k \<noteq> j \<longrightarrow> apart (ts[i := u] ! k) (ts[i := u] ! j)"
proof -
  have new: "apart u (ts ! j)" if "j < length ts" "j \<noteq> i" for j
    using assms(1,2) that move_claims[OF assms(3)] unfolding apart_def quiet_beside_def by metis
  have "apart (ts[i := u] ! k) (ts[i := u] ! j)" if "k < length ts" "j < length ts" "k \<noteq> j" for k j
  proof (cases "k = i")
    case True
    with new[of j] that show ?thesis by simp
  next
    case False
    show ?thesis
    proof (cases "j = i")
      case True
      with new[of k] that have "apart (ts ! k) u" by (simp add: apart_sym)
      with True False that show ?thesis by simp
    qed (use False assms(1) that in simp)
  qed
  then show ?thesis by blast
qed

text \<open>A statement either commits its whole transaction or changes nothing that is committed.\<close>

lemma move_kinds:
  assumes "credit_move quiet db t db' u cs" and "sees db t"
  shows "(cs = [] \<and> db' = db \<and> sees db u \<and> (\<forall>env p r. u = Returned env p r \<longrightarrow> apply_tx env p db = Inr (r, db))) \<or>
    (\<exists>env p c bal r. t = Inserted env p c bal \<and> cs = [(env, p)] \<and> apply_tx env p db = Inr (r, db') \<and>
       (u = Returned env p r \<or> (\<exists>e. u = Failed env p e)))"
  using assms(1)
proof cases
  case (replayed p ex env)
  then show ?thesis by (simp add: apply_tx_def)
next
  case (committed env p c bal r)
  then show ?thesis using commit_is_apply_tx[of db env p c bal r db'] assms(2) by (simp del: sees.simps)
next
  case (unanswered env p c bal r e)
  then show ?thesis using commit_is_apply_tx[of db env p c bal r db'] assms(2) by (simp del: sees.simps)
qed (use move_sight[OF assms] in auto)

lemma race_inv_step:
  assumes inv: "race_inv db0 s" and i: "i < length (cr_threads s)"
    and move: "credit_move (quiet_beside (cr_threads s) i) (cr_db s) (cr_threads s ! i) db' t cs"
  shows "race_inv db0 \<lparr>cr_db = db', cr_threads = (cr_threads s)[i := t], cr_log = cr_log s @ cs\<rparr>"
proof -
  let ?ts = "cr_threads s" and ?db = "cr_db s"
  have ci: "credit_inv ?db" and db: "?db = serial_credit (cr_log s) db0"
    and th: "\<And>u. u \<in> set ?ts \<Longrightarrow> call_ok (call_of u) \<and> sees ?db u \<and> answered db0 (cr_log s) u"
    and ap: "\<forall>i<length ?ts. \<forall>j<length ?ts. i \<noteq> j \<longrightarrow> apart (?ts ! i) (?ts ! j)"
    using inv by (auto simp: race_inv_def)
  have me: "call_ok (call_of (?ts ! i))" "sees ?db (?ts ! i)" using th[of "?ts ! i"] i by simp_all
  have call: "call_ok (call_of t)" using move_claims[OF move] me(1) by simp
  have others: "u = t \<or> (\<exists>j<length ?ts. j \<noteq> i \<and> u = ?ts ! j)" if "u \<in> set (?ts[i := t])" for u
    using that i by (auto simp: in_set_conv_nth nth_list_update split: if_splits)
  from move_kinds[OF move me(2)]
  have "credit_inv db' \<and> db' = serial_credit (cr_log s @ cs) db0 \<and> sees db' t \<and> answered db0 (cr_log s @ cs) t \<and>
      (\<forall>j<length ?ts. j \<noteq> i \<longrightarrow> sees db' (?ts ! j))"
  proof
    assume "cs = [] \<and> db' = ?db \<and> sees ?db t \<and> (\<forall>env p r. t = Returned env p r \<longrightarrow> apply_tx env p ?db = Inr (r, ?db))"
    then have "cs = []" "db' = ?db" "sees ?db t"
      and ans: "\<forall>env p r. t = Returned env p r \<longrightarrow> apply_tx env p ?db = Inr (r, ?db)" by simp_all
    moreover have "answered db0 (cr_log s) t"
      using ans unfolding answered_def db by (metis append_Nil2)
    ultimately show ?thesis using ci db th by auto
  next
    assume "\<exists>env p c bal r. ?ts ! i = Inserted env p c bal \<and> cs = [(env, p)] \<and> apply_tx env p ?db = Inr (r, db') \<and>
        (t = Returned env p r \<or> (\<exists>e. t = Failed env p e))"
    then obtain env p c bal r where mine: "?ts ! i = Inserted env p c bal" and cs: "cs = [(env, p)]"
      and tx: "apply_tx env p ?db = Inr (r, db')" and t: "t = Returned env p r \<or> (\<exists>e. t = Failed env p e)"
      by blast
    have ok: "call_ok (env, p)" using me(1) mine by simp
    have "credit_inv db'" using apply_tx_inv[OF ci _ _ tx] ok by (simp add: call_ok_def)
    moreover have "db' = serial_credit (cr_log s @ cs) db0" using tx by (simp add: cs db[symmetric])
    moreover have "sees db' t" using t by auto
    moreover have "answered db0 (cr_log s @ cs) t"
      using t tx unfolding answered_def cs db by (metis credit_thread.distinct(55) credit_thread.inject(7))
    moreover have "sees db' (?ts ! j)" if "j < length ?ts" "j \<noteq> i" for j
      using sight_outlives_commit[OF ci ok _ tx, of c bal "?ts ! j"] me(2) th[of "?ts ! j"] ap that i mine
      by (metis nth_mem)
    ultimately show ?thesis by blast
  qed
  then have after: "credit_inv db'" "db' = serial_credit (cr_log s @ cs) db0" "sees db' t"
    "answered db0 (cr_log s @ cs) t" "\<And>j. j < length ?ts \<Longrightarrow> j \<noteq> i \<Longrightarrow> sees db' (?ts ! j)"
    by blast+
  have "call_ok (call_of u) \<and> sees db' u \<and> answered db0 (cr_log s @ cs) u" if "u \<in> set (?ts[i := t])" for u
    using others[OF that] after(3-5) call th answered_later nth_mem by metis
  then show ?thesis using after(1,2) still_apart[OF ap i move] by (simp add: race_inv_def)
qed

lemma race_inv_reachable:
  assumes "credit_reachable start s" and "race_inv db0 start"
  shows "race_inv db0 s"
  using assms by (induction rule: credit_reachable.induct) (auto intro: race_inv_step)

section \<open>No call commits twice\<close>

definition open_calls :: "credit_thread list \<Rightarrow> (credit_env \<times> apply_params) multiset" where
  "open_calls ts = image_mset call_of (filter_mset (\<lambda>t. \<not> has_ended t) (mset ts))"

lemma move_closes:
  assumes "credit_move quiet db t db' u cs"
  shows "mset cs + (if has_ended u then {#} else {#call_of u#}) \<subseteq># (if has_ended t then {#} else {#call_of t#})"
  using assms by cases auto

definition open_call :: "credit_thread \<Rightarrow> (credit_env \<times> apply_params) multiset" where
  "open_call t = (if has_ended t then {#} else {#call_of t#})"

lemma open_calls_update:
  assumes "i < length ts"
  shows "open_calls (ts[i := u]) + open_call (ts ! i) = open_calls ts + open_call u"
proof -
  define M where "M = mset ts - {#ts ! i#}"
  have "mset ts = add_mset (ts ! i) M" "mset (ts[i := u]) = add_mset u M"
    using assms by (simp_all add: M_def mset_update)
  then show ?thesis by (simp add: open_calls_def open_call_def)
qed

lemma committed_once:
  assumes "credit_reachable start s"
  shows "mset (cr_log s) + open_calls (cr_threads s) \<subseteq># mset (cr_log start) + open_calls (cr_threads start)"
  using assms
proof (induction rule: credit_reachable.induct)
  case (race_goes_on s i db' t cs)
  let ?ts = "cr_threads s" and ?old = "open_call (cr_threads s ! i)"
  have "mset cs + open_call t \<subseteq># ?old"
    using move_closes[OF race_goes_on(3)] by (simp add: open_call_def)
  then obtain d where d: "?old = mset cs + open_call t + d" by (auto simp: mset_subset_eq_exists_conv)
  have "(open_calls (?ts[i := t]) + mset cs + d) + open_call t = open_calls ?ts + open_call t"
    using open_calls_update[OF race_goes_on(2), of t] unfolding d by (simp only: add.assoc add.commute add.left_commute)
  then have "open_calls ?ts = open_calls (?ts[i := t]) + mset cs + d" by (metis add_right_imp_eq)
  then have "open_calls (?ts[i := t]) + mset cs \<subseteq># open_calls ?ts" by simp
  then have "mset (cr_log s) + (open_calls (?ts[i := t]) + mset cs) \<subseteq># mset (cr_log s) + open_calls ?ts" by simp
  from subset_mset.order_trans[OF this race_goes_on.IH]
  show ?case by (simp only: credit_race.simps mset_append add.assoc add.commute add.left_commute)
qed simp

section \<open>The promise\<close>

text \<open>C24.
  Concurrent mutations of credits are as good as serial ones. However the statements of any
  number of grants, spends, refunds and adjusts interleave, on the same wallets and under the
  same keys, with transactions that fail and commits that go unanswered: what is committed is
  the result of whole calls one after the other, no call among them twice; every call that
  returned returned what it returns in that order, so that none has overdrawn a wallet or lost
  another's update; every balance is the sum of the movements of its owner and not negative,
  and no key stands twice in the ledger.
\<close>

theorem concurrent_credits_are_serial:
  assumes "credit_reachable (race_start db0 calls) s"
    and "credit_inv db0" and "\<forall>call\<in>set calls. call_ok call"
  shows "cr_db s = serial_credit (cr_log s) db0 \<and> mset (cr_log s) \<subseteq># mset calls \<and>
    (\<forall>env p r. Returned env p r \<in> set (cr_threads s) \<longrightarrow>
       (\<exists>before after d. cr_log s = before @ after \<and> apply_tx env p (serial_credit before db0) = Inr (r, d))) \<and>
    (\<forall>x. get_balance x (cr_db s) = owner_total (subject_owner (to_subject x)) (ledger (cr_db s)) \<and>
         0 \<le> get_balance x (cr_db s)) \<and>
    distinct (map e_idempotencyKey (ledger (cr_db s)))"
proof -
  have inv: "race_inv db0 s" by (rule race_inv_reachable[OF assms(1) race_inv_start[OF assms(2,3)]])
  have "mset (cr_log s) \<subseteq># mset (cr_log s) + open_calls (cr_threads s)" by simp
  also have "\<dots> \<subseteq># open_calls (map (\<lambda>(env, p). Reading env p) calls)"
    using committed_once[OF assms(1)] by (simp add: race_start_def)
  also have "\<dots> = mset calls"
    by (simp add: open_calls_def filter_mset_image_mset image_mset.compositionality comp_def split_beta flip: mset_map mset_filter)
  finally show ?thesis
    using inv get_balance_total get_balance_nonneg credit_invD(4) by (auto simp: race_inv_def answered_def)
qed

text \<open>Two threads, and the steps of each.\<close>

lemma first_moves:
  assumes "credit_reachable st \<lparr>cr_db = db, cr_threads = [t, u], cr_log = l\<rparr>"
    and "credit_move (\<lambda>P. \<not> P u) db t db' t' cs"
  shows "credit_reachable st \<lparr>cr_db = db', cr_threads = [t', u], cr_log = l @ cs\<rparr>"
proof -
  have "quiet_beside [t, u] 0 = (\<lambda>P. \<not> P u)" by (auto simp: quiet_beside_def fun_eq_iff less_Suc_eq)
  then show ?thesis using race_goes_on[OF assms(1), of 0 db' t' cs] assms(2) by simp
qed

lemma second_moves:
  assumes "credit_reachable st \<lparr>cr_db = db, cr_threads = [t, u], cr_log = l\<rparr>"
    and "credit_move (\<lambda>P. \<not> P t) db u db' u' cs"
  shows "credit_reachable st \<lparr>cr_db = db', cr_threads = [t, u'], cr_log = l @ cs\<rparr>"
proof -
  have "quiet_beside [t, u] 1 = (\<lambda>P. \<not> P t)" by (auto simp: quiet_beside_def fun_eq_iff less_Suc_eq)
  then show ?thesis using race_goes_on[OF assms(1), of 1 db' u' cs] assms(2) by simp
qed

text \<open>
  One spend sent twice at once, under one key: the second has looked for the key before the
  first commits, and waits for the wallet behind it.
\<close>

definition twin_spend :: "int \<Rightarrow> apply_params" where
  "twin_spend n =
     \<lparr>ap_subject = User_Subject ''u'', ap_type = Spend, ap_amount = n, ap_delta = - n, ap_idempotencyKey = ''s9'',
      ap_feature = None, ap_metadata = None, ap_failIfInsufficient = True\<rparr>"

definition twin_start :: "int \<Rightarrow> credit_race" where
  "twin_start n = race_start (cw_db sample_world) [(sample_env, twin_spend n), (sample_env, twin_spend n)]"

definition twin_state :: "int \<Rightarrow> credit_db \<Rightarrow> mutation_result \<Rightarrow> credit_thread \<Rightarrow> credit_race" where
  "twin_state n db r t =
     \<lparr>cr_db = db, cr_threads = [Returned sample_env (twin_spend n) r, t], cr_log = [(sample_env, twin_spend n)]\<rparr>"

lemma twin_waits_for_the_wallet:
  assumes "0 < n" and "n \<le> 9"
  shows "\<exists>db r. credit_reachable (twin_start n) (twin_state n db r (Locked sample_env (twin_spend n) False)) \<and>
    get_balance (Inl (User_Subject ''u'')) db = 9 - n \<and> find_entry ''s9'' db \<noteq> None"
proof -
  let ?db = "cw_db sample_world" and ?p = "twin_spend n" and ?E = sample_env and ?st = "twin_start n"
  have p: "ap_subject ?p = User_Subject ''u''" "ap_delta ?p = - n" "ap_amount ?p = n" "ap_idempotencyKey ?p = ''s9''"
    by (simp_all add: twin_spend_def)
  have fresh: "find_entry ''s9'' ?db = None" and wallet: "find_wallet (User_Subject ''u'') ?db \<noteq> None"
    by (simp_all add: sample_world_def sample_ops_def credit_eval)
  have bal: "get_balance (Inl (User_Subject ''u'')) ?db = 9"
    using sample_world_balance by (simp add: get_balance_def user_subject_def)
  have rng: "int4 n" "int4 (9 - n)" using assms by (simp_all add: int4_def)
  have mine: "sees ?db (Inserted ?E ?p False (9 - n))"
    using fresh wallet bal rng assms by (simp add: p balance_seen_def)
  obtain r db where c: "commit_call ?E ?p False (9 - n) ?db = Some (r, db)"
    using wallet by (auto simp: commit_call_def p Let_def)
  note tx = commit_is_apply_tx[OF mine c]
  have own: "ce_ownerExists ?E (User_Subject ''u'')" by (simp add: sample_env_def)
  have ok: "params_ok ?p" using assms by (simp add: twin_spend_def params_ok_def)
  have after: "get_balance (Inl (User_Subject ''u'')) db = 9 - n"
    using apply_tx_fresh[OF sample_world_inv fresh_sample_env ok] tx fresh bal own rng assms by (auto simp: p)
  have paid: "find_entry ''s9'' db \<noteq> None" using apply_tx_writes(1)[OF tx] by (simp add: p)
  have 0: "credit_reachable ?st \<lparr>cr_db = ?db, cr_threads = [Reading ?E ?p, Reading ?E ?p], cr_log = []\<rparr>"
    using race_begins[of ?st] by (simp add: twin_start_def race_start_def)
  have 1: "credit_reachable ?st \<lparr>cr_db = ?db, cr_threads = [Ensuring ?E ?p, Reading ?E ?p], cr_log = []\<rparr>"
    using first_moves[OF 0 unseen] fresh by (simp add: p)
  have 2: "credit_reachable ?st \<lparr>cr_db = ?db, cr_threads = [Ensuring ?E ?p, Ensuring ?E ?p], cr_log = []\<rparr>"
    using second_moves[OF 1 unseen] fresh by (simp add: p)
  have 3: "credit_reachable ?st \<lparr>cr_db = ?db, cr_threads = [Locking ?E ?p False, Ensuring ?E ?p], cr_log = []\<rparr>"
    using first_moves[OF 2 found_wallet] wallet by (simp add: p)
  have 4: "credit_reachable ?st \<lparr>cr_db = ?db, cr_threads = [Locking ?E ?p False, Locking ?E ?p False], cr_log = []\<rparr>"
    using second_moves[OF 3 found_wallet] wallet by (simp add: p)
  have 5: "credit_reachable ?st \<lparr>cr_db = ?db, cr_threads = [Locked ?E ?p False, Locking ?E ?p False], cr_log = []\<rparr>"
    using first_moves[OF 4 locked] by simp
  have 6: "credit_reachable ?st \<lparr>cr_db = ?db, cr_threads = [Updated ?E ?p False (9 - n), Locking ?E ?p False], cr_log = []\<rparr>"
    using first_moves[OF 5 updated[of "9 - n" ?p ?db]] bal rng assms by (simp add: p)
  have 7: "credit_reachable ?st \<lparr>cr_db = ?db, cr_threads = [Inserted ?E ?p False (9 - n), Locking ?E ?p False], cr_log = []\<rparr>"
    using first_moves[OF 6 inserted] fresh rng by (simp add: p)
  have 8: "credit_reachable ?st \<lparr>cr_db = db, cr_threads = [Returned ?E ?p r, Locking ?E ?p False], cr_log = [(?E, ?p)]\<rparr>"
    using first_moves[OF 7 committed[OF c]] by simp
  have "credit_reachable ?st (twin_state n db r (Locked ?E ?p False))"
    using second_moves[OF 8 locked] by (simp add: twin_state_def)
  then show ?thesis using after paid by blast
qed

text \<open>
  Instead of the replay, the second gets an error: for lack of credits when the first took them,
  although the call it repeats is paid; and of the unique key otherwise.
\<close>

lemma twin_refused_for_lack_of_credits:
  "\<exists>db r. credit_reachable (twin_start 9)
     (twin_state 9 db r (Failed sample_env (twin_spend 9) (insufficient_credits (twin_spend 9) 0)))"
proof -
  obtain db r where l: "credit_reachable (twin_start 9) (twin_state 9 db r (Locked sample_env (twin_spend 9) False))"
    and b: "get_balance (Inl (User_Subject ''u'')) db = 0"
    using twin_waits_for_the_wallet[of 9] by auto
  then show ?thesis
    using second_moves[OF l[unfolded twin_state_def] insufficient[of "twin_spend 9" db]]
    by (auto simp: twin_state_def twin_spend_def)
qed

lemma twin_refused_as_duplicate:
  "\<exists>db r. credit_reachable (twin_start 4) (twin_state 4 db r (Failed sample_env (twin_spend 4) unique_violation))"
proof -
  obtain db r where l: "credit_reachable (twin_start 4) (twin_state 4 db r (Locked sample_env (twin_spend 4) False))"
    and b: "get_balance (Inl (User_Subject ''u'')) db = 5" and k: "find_entry ''s9'' db \<noteq> None"
    using twin_waits_for_the_wallet[of 4] by auto
  have "credit_reachable (twin_start 4) (twin_state 4 db r (Updated sample_env (twin_spend 4) False 1))"
    using second_moves[OF l[unfolded twin_state_def] updated[of 1 "twin_spend 4" db]] b
    by (simp add: twin_state_def twin_spend_def int4_def)
  from second_moves[OF this[unfolded twin_state_def] duplicate] k show ?thesis
    by (auto simp: twin_state_def twin_spend_def)
qed

theorem concurrent_credits_are_serial_witness:
  "\<exists>s. credit_reachable (twin_start 9) s \<and> cr_log s = [(sample_env, twin_spend 9)] \<and>
     cr_db s = serial_credit [(sample_env, twin_spend 9)] (cw_db sample_world) \<and> 0 \<le> get_balance (Inr ''u'') (cr_db s)"
proof -
  obtain s where reach: "credit_reachable (twin_start 9) s" and log: "cr_log s = [(sample_env, twin_spend 9)]"
    using twin_refused_for_lack_of_credits by (auto simp: twin_state_def)
  have "\<forall>call\<in>set [(sample_env, twin_spend 9), (sample_env, twin_spend 9)]. call_ok call"
    by (simp add: call_ok_def twin_spend_def params_ok_def)
  note serial = concurrent_credits_are_serial[OF reach[unfolded twin_start_def] sample_world_inv this]
  have "cr_db s = serial_credit (cr_log s) (cw_db sample_world)" "0 \<le> get_balance (Inr ''u'') (cr_db s)"
    using serial by blast+
  with reach log show ?thesis by metis
qed

end
