(* ===== verification/Calendar.thy ===== *)
theory Calendar
  imports Prelude
begin

text \<open>
  The UTC half of the JavaScript \<open>Date\<close>, as ECMAScript defines it, and the two period
  functions of \<open>src/modules/usage-limits/usage-limits.service.ts\<close> that rest on it:
  \<open>periodStamp\<close> and \<open>secondsUntilPeriodEnd\<close>.

  A time value is the number of milliseconds since the epoch. The lemmas hold for the
  years 1970 to 9999, where \<open>toISOString\<close> writes the year with four digits and
  \<open>Date.UTC\<close> does not read it as an offset from 1900.
\<close>

section \<open>Time values\<close>

definition ms_per_day :: int where "ms_per_day = 86400000"

definition day_of :: "int \<Rightarrow> int" where "day_of t = t div ms_per_day"

text \<open>\<open>getUTCDay\<close>: Sunday is 0.\<close>

definition week_day :: "int \<Rightarrow> int" where "week_day day = (day + 4) mod 7"

definition day_from_year :: "int \<Rightarrow> int" where
  "day_from_year y =
     365 * (y - 1970) + (y - 1969) div 4 - (y - 1901) div 100 + (y - 1601) div 400"

definition leap_year :: "int \<Rightarrow> bool" where
  "leap_year y \<longleftrightarrow> y mod 4 = 0 \<and> (y mod 100 \<noteq> 0 \<or> y mod 400 = 0)"

text \<open>\<open>getUTCFullYear\<close>: the greatest year that has begun.\<close>

definition year_of_day :: "int \<Rightarrow> int" where
  "year_of_day day =
     (let y = 1970 + (400 * day) div 146097
      in if day_from_year (y + 1) \<le> day then y + 1
         else if day_from_year y \<le> day then y else y - 1)"

definition month_lengths :: "bool \<Rightarrow> int list" where
  "month_lengths leap = [31, if leap then 29 else 28, 31, 30, 31, 30, 31, 31, 30, 31, 30, 31]"

text \<open>\<open>getUTCMonth\<close> (from 0) and \<open>getUTCDate\<close> (from 1), from the day within the year.\<close>

fun month_date :: "int list \<Rightarrow> nat \<Rightarrow> int \<Rightarrow> nat \<times> int" where
  "month_date (l # ls) m d = (if d < l \<or> ls = [] then (m, d + 1) else month_date ls (Suc m) (d - l))"
| "month_date [] m d = (m, d + 1)"

definition utc_date :: "int \<Rightarrow> int \<times> nat \<times> int" where
  "utc_date day =
     (let y = year_of_day day
      in (y, month_date (month_lengths (leap_year y)) 0 (day - day_from_year y)))"

text \<open>\<open>MakeDay\<close>: a date beyond its month runs on into the next.\<close>

definition make_day :: "int \<Rightarrow> nat \<Rightarrow> int \<Rightarrow> int" where
  "make_day y m d = day_from_year y + sum_list (take m (month_lengths (leap_year y))) + d - 1"

text \<open>\<open>Date.UTC(y, m, d)\<close>, which reads the years 0 to 99 as 1900 to 1999.\<close>

definition date_utc :: "int \<Rightarrow> nat \<Rightarrow> int \<Rightarrow> int" where
  "date_utc y m d = ms_per_day * make_day (if 0 \<le> y \<and> y \<le> 99 then 1900 + y else y) m d"

section \<open>Years, months and days\<close>

lemma div_unique:
  fixes x k q :: int
  assumes "k * q \<le> x" and "x < k * q + k"
  shows "x div k = q"
  using int_div_pos_eq[of x k q "x - k * q"] assms by simp

lemma div_step:
  fixes x k :: int
  assumes "0 < k"
  shows "(x + 1) div k = x div k + (if (x + 1) mod k = 0 then 1 else 0)"
proof (cases "x + 1 < k * (x div k) + k")
  case True
  have d: "(x + 1) div k = x div k"
    by (rule div_unique) (use True div_bounds[OF assms, of x] in linarith)+
  moreover have "(x + 1) mod k \<noteq> 0"
    using mult_div_mod_eq[of k "x + 1"] div_bounds(1)[OF assms, of x] unfolding d by linarith
  ultimately show ?thesis by simp
next
  case False
  then have "x + 1 = k * (x div k + 1)"
    using div_bounds[OF assms, of x] by (simp add: distrib_left)
  then have "(x + 1) div k = x div k + 1" "(x + 1) mod k = 0" using assms by simp_all
  then show ?thesis by simp
qed

lemma year_div_step:
  fixes y k c j :: int
  assumes "0 < k" and c: "c = k * j + 1"
  shows "(y + 1 - c) div k = (y - c) div k + (if y mod k = 0 then 1 else 0)"
proof -
  have "(y + 1 - c) mod k = (y + k * (- j)) mod k" unfolding c by (simp add: algebra_simps)
  then have "(y + 1 - c) mod k = y mod k" by (simp only: mod_mult_self2)
  moreover have e: "y - c + 1 = y + 1 - c" by simp
  ultimately show ?thesis using div_step[OF assms(1), of "y - c"] unfolding e by (simp only:)
qed

lemma day_from_year_step:
  "day_from_year (y + 1) = day_from_year y + (if leap_year y then 366 else 365)"
proof -
  define p q r where "p = (y mod 4 = 0)" and "q = (y mod 100 = 0)" and "r = (y mod 400 = 0)"
  define A B C A' B' C' where "A = (y - 1969) div 4" and "B = (y - 1901) div 100"
    and "C = (y - 1601) div 400" and "A' = (y + 1 - 1969) div 4" and "B' = (y + 1 - 1901) div 100"
    and "C' = (y + 1 - 1601) div 400"
  note defs = A_def B_def C_def A'_def B'_def C'_def
  have rq: "r \<Longrightarrow> q" "q \<Longrightarrow> p"
    unfolding p_def q_def r_def
    by (auto dest: dvd_trans[of 100 400 y] dvd_trans[of 4 100 y] simp: mod_0_imp_dvd dvd_imp_mod_0)
  have A: "A' = A + (if p then 1 else 0)"
    unfolding p_def defs by (rule year_div_step[where j = 492]) simp_all
  have B: "B' = B + (if q then 1 else 0)"
    unfolding q_def defs by (rule year_div_step[where j = 19]) simp_all
  have C: "C' = C + (if r then 1 else 0)"
    unfolding r_def defs by (rule year_div_step[where j = 4]) simp_all
  have leap: "leap_year y \<longleftrightarrow> p \<and> (\<not> q \<or> r)"
    unfolding leap_year_def p_def q_def r_def by (rule refl)
  have e: "day_from_year y = 365 * (y - 1970) + A - B + C"
    "day_from_year (y + 1) = 365 * (y + 1 - 1970) + A' - B' + C'"
    unfolding day_from_year_def defs by (rule refl)+
  have "365 * (y + 1 - 1970) = 365 * (y - 1970) + (365 :: int)" by (simp add: distrib_left)
  then show ?thesis unfolding e A B C leap using rq by (cases p; cases q; cases r) simp_all
qed

lemma day_from_year_bounds:
  shows "146097 * x - 800 < 400 * day_from_year (1970 + x)"
    and "400 * day_from_year (1970 + x) < 146097 * x + 800"
proof -
  define a b c where "a = (x + 1) div 4" and "b = (x + 69) div 100" and "c = (x + 369) div 400"
  have bounds: "4 * a \<le> x + 1" "x + 1 < 4 * a + 4"
    "100 * b \<le> x + 69" "x + 69 < 100 * b + 100"
    "400 * c \<le> x + 369" "x + 369 < 400 * c + 400"
    unfolding a_def b_def c_def by (rule div_bounds, simp)+
  have eq: "day_from_year (1970 + x) = 365 * x + a - b + c"
    by (simp add: day_from_year_def a_def b_def c_def algebra_simps)
  show "146097 * x - 800 < 400 * day_from_year (1970 + x)"
    unfolding eq distrib_left right_diff_distrib using bounds by linarith
  show "400 * day_from_year (1970 + x) < 146097 * x + 800"
    unfolding eq distrib_left right_diff_distrib using bounds by linarith
qed

lemma year_of_day_bounds:
  "day_from_year (year_of_day day) \<le> day \<and> day < day_from_year (year_of_day day + 1)"
proof -
  define q where "q = (400 * day) div 146097"
  have q: "146097 * q \<le> 400 * day" "400 * day < 146097 * q + 146097"
    unfolding q_def by (rule div_bounds, simp)+
  have "400 * day_from_year (1970 + (q - 1)) < 146097 * q - 146097 + 800"
    using day_from_year_bounds(2)[of "q - 1"] by simp
  with q(1) have low: "day_from_year (1970 + (q - 1)) \<le> day" by linarith
  have "146097 * q + 292194 - 800 < 400 * day_from_year (1970 + (q + 2))"
    using day_from_year_bounds(1)[of "q + 2"] by simp
  with q(2) have high: "day < day_from_year (1970 + (q + 2))" by linarith
  from low high show ?thesis
    unfolding year_of_day_def Let_def q_def[symmetric] by (simp add: algebra_simps)
qed

lemma day_from_year_strict:
  assumes "y < z"
  shows "day_from_year y < day_from_year z"
proof -
  have "day_from_year y < day_from_year (y + 1 + int n)" for n
  proof (induction n)
    case 0
    then show ?case by (simp add: day_from_year_step)
  next
    case (Suc n)
    then show ?case
      using day_from_year_step[of "y + 1 + int n"] by (simp add: algebra_simps split: if_splits)
  qed
  from this[of "nat (z - y - 1)"] assms show ?thesis by simp
qed

lemma year_of_day_unique:
  assumes "day_from_year y \<le> day" and "day < day_from_year (y + 1)"
  shows "year_of_day day = y"
proof (rule ccontr)
  assume "year_of_day day \<noteq> y"
  then consider "year_of_day day + 1 \<le> y" | "y + 1 \<le> year_of_day day" by linarith
  then show False
  proof cases
    case 1
    then have "day_from_year (year_of_day day + 1) \<le> day_from_year y"
      using day_from_year_strict[of "year_of_day day + 1" y] by (cases "year_of_day day + 1 = y") auto
    with assms year_of_day_bounds[of day] show False by simp
  next
    case 2
    then have "day_from_year (y + 1) \<le> day_from_year (year_of_day day)"
      using day_from_year_strict[of "y + 1" "year_of_day day"] by (cases "year_of_day day = y + 1") auto
    with assms year_of_day_bounds[of day] show False by simp
  qed
qed

text \<open>Splitting a day into month and date loses nothing.\<close>

lemma month_date_sum:
  assumes "month_date ls m d = (m', d')" and "ls \<noteq> []"
  shows "m \<le> m' \<and> m' < m + length ls \<and> d = sum_list (take (m' - m) ls) + d' - 1"
  using assms
proof (induction ls m d rule: month_date.induct)
  case (1 l ls m d)
  show ?case
  proof (cases "d < l \<or> ls = []")
    case True
    with 1 show ?thesis by auto
  next
    case False
    with 1 have ih: "Suc m \<le> m'" "m' < Suc m + length ls"
        "d - l = sum_list (take (m' - Suc m) ls) + d' - 1"
      by auto
    then have "m' - m = Suc (m' - Suc m)" by simp
    with ih show ?thesis by simp
  qed
qed simp

lemma month_date_pos:
  "month_date ls m d = (m', d') \<Longrightarrow> 0 \<le> d \<Longrightarrow> d < sum_list ls \<Longrightarrow> (\<forall>l\<in>set ls. l \<le> 31) \<Longrightarrow>
   1 \<le> d' \<and> d' \<le> 31"
  by (induction ls m d rule: month_date.induct) (auto split: if_splits)

lemma length_month_lengths [simp]: "length (month_lengths leap) = 12"
  by (simp add: month_lengths_def)

lemma make_day_utc_date:
  assumes "utc_date day = (y, m, d)"
  shows "make_day y m d = day" and "m < 12" and "y = year_of_day day"
proof -
  have y: "y = year_of_day day"
    and md: "month_date (month_lengths (leap_year y)) 0 (day - day_from_year y) = (m, d)"
    using assms by (auto simp: utc_date_def Let_def)
  from month_date_sum[OF md] have "m < 12" and
    "day - day_from_year y = sum_list (take m (month_lengths (leap_year y))) + d - 1"
    by (auto simp: month_lengths_def)
  with y show "make_day y m d = day" and "m < 12" and "y = year_of_day day"
    by (auto simp: make_day_def)
qed

lemma make_day_add: "make_day y m (d + k) = make_day y m d + k"
  by (simp add: make_day_def)

lemma utc_date_range:
  assumes "utc_date day = (y, m, d)"
  shows "m < 12" and "1 \<le> d" and "d \<le> 31"
proof -
  show "m < 12" using make_day_utc_date(2)[OF assms] .
  have md: "month_date (month_lengths (leap_year y)) 0 (day - day_from_year y) = (m, d)"
    and y: "y = year_of_day day"
    using assms by (auto simp: utc_date_def Let_def)
  have "0 \<le> day - day_from_year y" "day - day_from_year y < sum_list (month_lengths (leap_year y))"
    using year_of_day_bounds[of day] day_from_year_step[of y] y
    by (auto simp: month_lengths_def split: if_splits)
  then show "1 \<le> d" and "d \<le> 31"
    using month_date_pos[OF md] by (auto simp: month_lengths_def)
qed

text \<open>The days of the years 1970 to 9999.\<close>

definition civil_day :: "int \<Rightarrow> bool" where
  "civil_day day \<longleftrightarrow> 0 \<le> day \<and> day < 2932897"

lemma civil_day_year: "civil_day day \<Longrightarrow> 1970 \<le> year_of_day day \<and> year_of_day day \<le> 9999"
proof -
  assume c: "civil_day day"
  have "\<not> year_of_day day < 1970"
  proof
    assume "year_of_day day < 1970"
    then have "day_from_year (year_of_day day + 1) \<le> day_from_year 1970"
      using day_from_year_strict[of "year_of_day day + 1" 1970]
      by (cases "year_of_day day + 1 = 1970") auto
    with c year_of_day_bounds[of day] show False
      by (simp add: civil_day_def day_from_year_def[of 1970])
  qed
  moreover have "\<not> 9999 < year_of_day day"
  proof
    assume "9999 < year_of_day day"
    then have "day_from_year 10000 \<le> day_from_year (year_of_day day)"
      using day_from_year_strict[of 10000 "year_of_day day"]
      by (cases "year_of_day day = 10000") auto
    with c year_of_day_bounds[of day] show False
      by (simp add: civil_day_def day_from_year_def[of 10000])
  qed
  ultimately show ?thesis by simp
qed

lemma date_utc_day:
  assumes "utc_date day = (y, m, d)" and "civil_day day"
  shows "date_utc y m (d + k) = ms_per_day * (day + k)"
  using make_day_utc_date[OF assms(1)] civil_day_year[OF assms(2)]
  by (simp add: date_utc_def make_day_add)

end
