(* ===== verification/UsagePeriods.thy ===== *)
theory UsagePeriods
  imports Calendar
begin

text \<open>
  The usage periods of \<open>src/modules/usage-limits/usage-limits.service.ts\<close>: the stamp that
  names a UTC day or an ISO week in a counter's key, and the seconds until it ends.

  \<open>period_index\<close> numbers the days and the weeks. The lemmas show that the stamp names the
  index exactly (no two periods share a stamp, no period has two) and that the seconds are
  those to the end of the period, rounded up.
\<close>

datatype usage_period = Day_Period | Week_Period

fun period_name :: "usage_period \<Rightarrow> string" where
  "period_name Day_Period = ''day''"
| "period_name Week_Period = ''week''"

text \<open>\<open>toISOString().slice(0, 10)\<close>: beyond the year 9999 the year has a sign and six digits.\<close>

definition iso_year :: "int \<Rightarrow> string" where
  "iso_year y =
     (if 0 \<le> y \<and> y \<le> 9999 then pad_start 4 y
      else (if y < 0 then CHR ''-'' else CHR ''+'') # pad_start 6 \<bar>y\<bar>)"

definition iso_date :: "int \<Rightarrow> string" where
  "iso_date t =
     (case utc_date (day_of t) of
        (y, m, d) \<Rightarrow>
          take 10 (iso_year y @ ''-'' @ pad_start 2 (int m + 1) @ ''-'' @ pad_start 2 d))"

text \<open>\<open>setUTCDate(n)\<close>, which keeps the time within the day.\<close>

definition set_utc_date :: "int \<Rightarrow> int \<Rightarrow> int" where
  "set_utc_date t n =
     (case utc_date (day_of t) of
        (y, m, _) \<Rightarrow> ms_per_day * make_day y m n + t mod ms_per_day)"

text \<open>\<open>getUTCDay() || 7\<close>: Monday 1 to Sunday 7.\<close>

definition iso_week_day :: "int \<Rightarrow> int" where
  "iso_week_day t = (let d = week_day (day_of t) in if d = 0 then 7 else d)"

text \<open>\<open>isoWeekStamp\<close>: the midnight of the day, moved to its week's Thursday, names the week.\<close>

definition to_thursday :: "int \<Rightarrow> int" where
  "to_thursday date =
     (case utc_date (day_of date) of
        (_, _, dd) \<Rightarrow> set_utc_date date (dd + 4 - iso_week_day date))"

definition thursday_stamp :: "int \<Rightarrow> string" where
  "thursday_stamp date =
     (case utc_date (day_of date) of
        (yy, _, _) \<Rightarrow>
          show_int yy @ ''-W'' @
          pad_start 2 (((date - date_utc yy 0 1) div ms_per_day + 1 + 6) div 7))"

definition utc_midnight :: "int \<Rightarrow> int" where
  "utc_midnight at = (case utc_date (day_of at) of (y, m, d) \<Rightarrow> date_utc y m d)"

definition iso_week_stamp :: "int \<Rightarrow> string" where
  "iso_week_stamp at = thursday_stamp (to_thursday (utc_midnight at))"

fun period_stamp :: "usage_period \<Rightarrow> int \<Rightarrow> string" where
  "period_stamp Day_Period at = iso_date at"
| "period_stamp Week_Period at = iso_week_stamp at"

text \<open>\<open>Math.ceil(ms / 1000)\<close>, at least one.\<close>

definition seconds_up :: "int \<Rightarrow> int" where
  "seconds_up ms = max 1 ((ms + 999) div 1000)"

fun seconds_until_period_end :: "usage_period \<Rightarrow> int \<Rightarrow> int" where
  "seconds_until_period_end Day_Period at =
     (case utc_date (day_of at) of (y, m, d) \<Rightarrow> seconds_up (date_utc y m (d + 1) - at))"
| "seconds_until_period_end Week_Period at =
     (case utc_date (day_of at) of
        (y, m, d) \<Rightarrow> seconds_up (date_utc y m (d + (8 - iso_week_day at)) - at))"

section \<open>The periods, numbered\<close>

text \<open>Day 0 is a Thursday, so the ISO week of a day starts at the Monday \<open>7 * week - 3\<close>.\<close>

definition week_of_day :: "int \<Rightarrow> int" where
  "week_of_day day = (day + 3) div 7"

fun period_index :: "usage_period \<Rightarrow> int \<Rightarrow> int" where
  "period_index Day_Period t = day_of t"
| "period_index Week_Period t = week_of_day (day_of t)"

fun period_end :: "usage_period \<Rightarrow> int \<Rightarrow> int" where
  "period_end Day_Period t = ms_per_day * (day_of t + 1)"
| "period_end Week_Period t = ms_per_day * (7 * (week_of_day (day_of t) + 1) - 3)"

definition civil :: "int \<Rightarrow> bool" where
  "civil t \<longleftrightarrow> civil_day (day_of t)"

lemma day_of_bounds: "ms_per_day * day_of t \<le> t" "t < ms_per_day * day_of t + ms_per_day"
  unfolding day_of_def by (rule div_bounds, simp add: ms_per_day_def)+

lemma day_of_unique: "ms_per_day * d \<le> t \<Longrightarrow> t < ms_per_day * d + ms_per_day \<Longrightarrow> day_of t = d"
  unfolding day_of_def by (rule div_unique)

lemma day_of_start [simp]: "day_of (ms_per_day * d) = d" "ms_per_day * d mod ms_per_day = 0"
  by (simp_all add: day_of_def ms_per_day_def)

lemma week_of_day_bounds: "7 * week_of_day d - 3 \<le> d" "d < 7 * week_of_day d + 4"
  using div_bounds[of 7 "d + 3"] by (simp_all add: week_of_day_def)

lemma week_of_day_unique: "7 * w - 3 \<le> d \<Longrightarrow> d < 7 * w + 4 \<Longrightarrow> week_of_day d = w"
  unfolding week_of_day_def by (rule div_unique) simp_all

lemma week_of_day_thursday [simp]: "week_of_day (7 * w) = w"
  by (rule week_of_day_unique) simp_all

lemma iso_week_day_eq: "iso_week_day t = day_of t + 4 - 7 * week_of_day (day_of t)"
proof -
  define d where "d = day_of t"
  define w where "w = week_of_day d"
  have b: "7 * w - 3 \<le> d" "d < 7 * w + 4"
    unfolding w_def by (rule week_of_day_bounds)+
  show ?thesis
  proof (cases "d = 7 * w + 3")
    case True
    then have "d + 4 = 7 * (w + 1)" by simp
    then have "(d + 4) mod 7 = 0" by (simp only: mod_mult_self1_is_0)
    with True show ?thesis
      unfolding iso_week_day_def week_day_def d_def[symmetric] w_def[symmetric] by simp
  next
    case False
    then have r: "0 < d + 4 - 7 * w" "d + 4 - 7 * w < 7" using b by linarith+
    have "d + 4 = (d + 4 - 7 * w) + 7 * w" by simp
    then have "(d + 4) mod 7 = (d + 4 - 7 * w) mod 7" by (metis mod_mult_self2)
    with r have "(d + 4) mod 7 = d + 4 - 7 * w" by simp
    with r show ?thesis
      unfolding iso_week_day_def week_day_def d_def[symmetric] w_def[symmetric] by (simp add: Let_def)
  qed
qed

section \<open>The stamps\<close>

lemma civil_utc_date:
  assumes "civil t" and "utc_date (day_of t) = (y, m, d)"
  shows "1970 \<le> y" and "y \<le> 9999" and "m < 12" and "1 \<le> d" and "d \<le> 31"
    and "make_day y m d = day_of t" and "date_utc y m (d + k) = ms_per_day * (day_of t + k)"
  using assms make_day_utc_date[OF assms(2)] civil_day_year[of "day_of t"] utc_date_range[OF assms(2)]
    date_utc_day[OF assms(2)]
  by (auto simp: civil_def)

lemma iso_date_eq:
  assumes "civil t" and "utc_date (day_of t) = (y, m, d)"
  shows "iso_date t = pad_start 4 y @ ''-'' @ pad_start 2 (int m + 1) @ ''-'' @ pad_start 2 d"
  using civil_utc_date(1-5)[OF assms] assms(2)
  by (simp add: iso_date_def iso_year_def length_pad_start)

lemma iso_date_inject:
  assumes "civil t" and "civil u"
  shows "iso_date t = iso_date u \<longleftrightarrow> day_of t = day_of u"
proof
  obtain y m d where a: "utc_date (day_of t) = (y, m, d)" by (metis prod_cases3)
  obtain y' m' d' where b: "utc_date (day_of u) = (y', m', d')" by (metis prod_cases3)
  note ca = civil_utc_date[OF assms(1) a] and cb = civil_utc_date[OF assms(2) b]
  assume "iso_date t = iso_date u"
  then have "y = y' \<and> m = m' \<and> d = d'"
    unfolding iso_date_eq[OF assms(1) a] iso_date_eq[OF assms(2) b]
    using ca(1-5) cb(1-5) by (simp add: append_eq_append_conv length_pad_start)
  then show "day_of t = day_of u" using ca(6) cb(6) by auto
qed (simp add: iso_date_def)

text \<open>The stamp of a week is the year of its Thursday and the number of Thursdays so far.\<close>

lemma civil_thursday: "civil t \<Longrightarrow> 0 \<le> 7 * week_of_day (day_of t)"
  using week_of_day_bounds[of "day_of t"] by (simp add: civil_def civil_day_def)

lemma year_nonneg: "0 \<le> d \<Longrightarrow> 1970 \<le> year_of_day d"
proof (rule ccontr)
  assume "0 \<le> d" and "\<not> 1970 \<le> year_of_day d"
  then have "day_from_year (year_of_day d + 1) \<le> day_from_year 1970"
    using day_from_year_strict[of "year_of_day d + 1" 1970]
    by (cases "year_of_day d + 1 = 1970") auto
  with \<open>0 \<le> d\<close> year_of_day_bounds[of d] show False by (simp add: day_from_year_def[of 1970])
qed

lemma iso_week_stamp_eq:
  assumes "civil t"
  defines "thu \<equiv> 7 * week_of_day (day_of t)"
  defines "y \<equiv> year_of_day thu"
  shows "iso_week_stamp t =
           show_int y @ ''-W'' @ pad_start 2 ((thu - day_from_year y + 7) div 7)"
proof -
  obtain y0 m d where a: "utc_date (day_of t) = (y0, m, d)" by (metis prod_cases3)
  note c = civil_utc_date[OF assms(1) a]
  have date: "date_utc y0 m d = ms_per_day * day_of t" using c(7)[of 0] by simp
  have wd: "iso_week_day (ms_per_day * day_of t) = day_of t + 4 - thu"
    unfolding thu_def using iso_week_day_eq[of "ms_per_day * day_of t"] by simp
  have "make_day y0 m (d + 4 - (day_of t + 4 - thu)) = thu"
    using c(6) by (simp add: make_day_def)
  then have set: "set_utc_date (ms_per_day * day_of t) (d + 4 - (day_of t + 4 - thu)) = ms_per_day * thu"
    by (simp add: set_utc_date_def a)
  obtain m' d' where b: "utc_date thu = (y, m', d')"
    unfolding y_def by (metis make_day_utc_date(3) prod_cases3)
  have "1970 \<le> y" unfolding y_def
    using civil_thursday[OF assms(1)] by (intro year_nonneg) (simp add: thu_def)
  then have ys: "date_utc y 0 1 = ms_per_day * day_from_year y"
    by (simp add: date_utc_def make_day_def)
  have "ms_per_day * thu - ms_per_day * day_from_year y = ms_per_day * (thu - day_from_year y)"
    by (simp add: right_diff_distrib)
  then have "(ms_per_day * thu - ms_per_day * day_from_year y) div ms_per_day = thu - day_from_year y"
    by (simp add: ms_per_day_def)
  then have "((ms_per_day * thu - ms_per_day * day_from_year y) div ms_per_day + 1 + 6) div 7
               = (thu - day_from_year y + 7) div 7"
    by simp
  then show ?thesis
    unfolding iso_week_stamp_def utc_midnight_def to_thursday_def thursday_stamp_def a prod.case date day_of_start wd
      set b ys by simp
qed

lemma week_number_range:
  assumes "y = year_of_day thu"
  shows "1 \<le> (thu - day_from_year y + 7) div 7" and "(thu - day_from_year y + 7) div 7 \<le> 53"
proof -
  have "0 \<le> thu - day_from_year y" "thu - day_from_year y \<le> 365"
    using year_of_day_bounds[of thu] day_from_year_step[of y] assms by (auto split: if_splits)
  then show "1 \<le> (thu - day_from_year y + 7) div 7" and "(thu - day_from_year y + 7) div 7 \<le> 53"
    using zdiv_mono1[of "thu - day_from_year y + 7" 372 7] zdiv_mono1[of 7 "thu - day_from_year y + 7" 7]
    by simp_all
qed

lemma iso_week_stamp_inject:
  assumes "civil t" and "civil u"
  shows "iso_week_stamp t = iso_week_stamp u \<longleftrightarrow> week_of_day (day_of t) = week_of_day (day_of u)"
proof
  define v w where "v = week_of_day (day_of t)" and "w = week_of_day (day_of u)"
  define y z where "y = year_of_day (7 * v)" and "z = year_of_day (7 * w)"
  define j k where "j = (7 * v - day_from_year y + 7) div 7" and "k = (7 * w - day_from_year z + 7) div 7"
  note st = iso_week_stamp_eq[OF assms(1), folded v_def, folded y_def, folded j_def]
  note su = iso_week_stamp_eq[OF assms(2), folded w_def, folded z_def, folded k_def]
  have j: "1 \<le> j" "j \<le> 53" unfolding j_def by (rule week_number_range[OF y_def])+
  have k: "1 \<le> k" "k \<le> 53" unfolding k_def by (rule week_number_range[OF z_def])+
  assume "iso_week_stamp t = iso_week_stamp u"
  then have "show_int y @ ''-W'' @ pad_start 2 j = show_int z @ ''-W'' @ pad_start 2 k"
    unfolding st su .
  moreover have "length (''-W'' @ pad_start 2 j) = length (''-W'' @ pad_start 2 k)"
    using j k by (simp add: length_pad_start)
  ultimately have "show_int y = show_int z" and "pad_start 2 j = pad_start 2 k"
    by (auto simp: append_eq_append_conv)
  then have yz: "y = z" and jk: "j = k" using j k by simp_all
  have "7 * j \<le> 7 * v - day_from_year y + 7" "7 * v - day_from_year y + 7 < 7 * j + 7"
    "7 * k \<le> 7 * w - day_from_year z + 7" "7 * w - day_from_year z + 7 < 7 * k + 7"
    unfolding j_def k_def by (rule div_bounds, simp)+
  then show "week_of_day (day_of t) = week_of_day (day_of u)"
    unfolding v_def[symmetric] w_def[symmetric] yz jk by linarith
next
  assume "week_of_day (day_of t) = week_of_day (day_of u)"
  then show "iso_week_stamp t = iso_week_stamp u"
    unfolding iso_week_stamp_eq[OF assms(1)] iso_week_stamp_eq[OF assms(2)] by simp
qed

lemma period_stamp_inject:
  assumes "civil t" and "civil u"
  shows "period_stamp p t = period_stamp p u \<longleftrightarrow> period_index p t = period_index p u"
  using iso_date_inject[OF assms] iso_week_stamp_inject[OF assms] by (cases p) auto

section \<open>The end of a period\<close>

lemma seconds_until_eq:
  assumes "civil t"
  shows "seconds_until_period_end p t = seconds_up (period_end p t - t)"
proof -
  obtain y m d where a: "utc_date (day_of t) = (y, m, d)" by (metis prod_cases3)
  have "day_of t + (8 - iso_week_day t) = 7 * (week_of_day (day_of t) + 1) - 3"
    unfolding iso_week_day_eq by simp
  then have "date_utc y m (d + (8 - iso_week_day t))
               = ms_per_day * (7 * (week_of_day (day_of t) + 1) - 3)"
    unfolding civil_utc_date(7)[OF assms a] by (rule arg_cong)
  then show ?thesis using civil_utc_date(7)[OF assms a, of 1] a
    by (cases p) (simp_all only: seconds_until_period_end.simps period_end.simps prod.case)
qed

lemma period_end_after: "t < period_end p t"
proof (cases p)
  case Day_Period
  then show ?thesis using day_of_bounds(2)[of t] by (simp add: distrib_left)
next
  case Week_Period
  have "day_of t + 1 \<le> 7 * (week_of_day (day_of t) + 1) - 3"
    using week_of_day_bounds(2)[of "day_of t"] by simp
  then have "ms_per_day * (day_of t + 1) \<le> ms_per_day * (7 * (week_of_day (day_of t) + 1) - 3)"
    by (intro mult_left_mono) (simp_all add: ms_per_day_def)
  then have "ms_per_day * day_of t + ms_per_day \<le> period_end Week_Period t"
    by (simp only: period_end.simps) (simp add: distrib_left)
  with Week_Period show ?thesis using day_of_bounds(2)[of t] by simp
qed

lemma seconds_up_bounds: "0 < ms \<Longrightarrow> ms \<le> 1000 * seconds_up ms \<and> 1000 * (seconds_up ms - 1) < ms"
  using div_bounds[of 1000 "ms + 999"] unfolding seconds_up_def max_def
  by (auto simp: right_diff_distrib)

lemma day_of_mono: "t \<le> u \<Longrightarrow> day_of t \<le> day_of u"
  unfolding day_of_def by (simp add: zdiv_mono1 ms_per_day_def)

lemma week_of_day_mono: "d \<le> e \<Longrightarrow> week_of_day d \<le> week_of_day e"
  unfolding week_of_day_def by (simp add: zdiv_mono1)

lemma period_index_mono: "t \<le> u \<Longrightarrow> period_index p t \<le> period_index p u"
  by (cases p) (simp_all add: day_of_mono week_of_day_mono)

lemma period_index_end: "period_index p (period_end p t) = period_index p t + 1"
  by (cases p) (simp_all, rule week_of_day_unique, simp_all)

lemma period_index_before_end: "u < period_end p t \<Longrightarrow> period_index p u \<le> period_index p t"
proof (cases p)
  case Day_Period
  assume "u < period_end p t"
  with Day_Period have "u < ms_per_day * (day_of t + 1)" by simp
  with day_of_bounds(1)[of u] have "ms_per_day * day_of u < ms_per_day * (day_of t + 1)" by simp
  with Day_Period show ?thesis by (simp add: ms_per_day_def)
next
  case Week_Period
  define w where "w = week_of_day (day_of t)"
  assume "u < period_end p t"
  with Week_Period have "u < ms_per_day * (7 * (w + 1) - 3)" by (simp add: w_def)
  with day_of_bounds(1)[of u] have "ms_per_day * day_of u < ms_per_day * (7 * (w + 1) - 3)"
    by linarith
  then have "day_of u < 7 * (w + 1) - 3" by (simp add: ms_per_day_def)
  then have "week_of_day (day_of u) \<le> w"
    using week_of_day_bounds(1)[of "day_of u"] by simp
  with Week_Period show ?thesis by (simp add: w_def)
qed

section \<open>The calendar itself\<close>

text \<open>
  What the stamps are compared with: dates counted by adding up whole years and months, and the
  ISO rule that a week belongs to the year of its Thursday and is numbered by the Thursdays of
  that year so far.
\<close>

definition days_before_year :: "int \<Rightarrow> int" where
  "days_before_year y = (\<Sum>z\<in>{1970..<y}. if leap_year z then 366 else 365)"

definition calendar_date :: "int \<Rightarrow> nat \<Rightarrow> int \<Rightarrow> int \<Rightarrow> bool" where
  "calendar_date y m d day \<longleftrightarrow>
     m < 12 \<and> 1 \<le> d \<and> d \<le> month_lengths (leap_year y) ! m \<and>
     day = days_before_year y + sum_list (take m (month_lengths (leap_year y))) + (d - 1)"

definition thursdays :: "int \<Rightarrow> int \<Rightarrow> int set" where
  "thursdays a b = {day. a \<le> day \<and> day \<le> b \<and> week_day day = 4}"

definition calendar_week :: "int \<Rightarrow> nat \<Rightarrow> int \<Rightarrow> int \<Rightarrow> bool" where
  "calendar_week y n thursday day \<longleftrightarrow>
     week_day thursday = 4 \<and> thursday - 3 \<le> day \<and> day \<le> thursday + 3 \<and>
     days_before_year y \<le> thursday \<and> thursday < days_before_year (y + 1) \<and>
     n = card (thursdays (days_before_year y) thursday)"

lemma days_before_year_eq: "1970 \<le> y \<Longrightarrow> days_before_year y = day_from_year y"
proof -
  have "days_before_year (1970 + int n) = day_from_year (1970 + int n)" for n
  proof (induction n)
    case 0
    show ?case by (simp add: days_before_year_def day_from_year_def)
  next
    case (Suc n)
    have "{1970..<1970 + int (Suc n)} = insert (1970 + int n) {1970..<1970 + int n}" by auto
    with Suc day_from_year_step[of "1970 + int n"] show ?case
      by (simp add: days_before_year_def algebra_simps)
  qed
  from this[of "nat (y - 1970)"] show "1970 \<le> y \<Longrightarrow> ?thesis" by simp
qed

lemma month_date_within:
  "month_date ls m d = (m', d') \<Longrightarrow> ls \<noteq> [] \<Longrightarrow> 0 \<le> d \<Longrightarrow> d < sum_list ls \<Longrightarrow>
   1 \<le> d' \<and> d' \<le> ls ! (m' - m)"
proof (induction ls m d rule: month_date.induct)
  case (1 l ls m d)
  show ?case
  proof (cases "d < l \<or> ls = []")
    case True
    with 1 show ?thesis by auto
  next
    case False
    then have rest: "month_date ls (Suc m) (d - l) = (m', d')" "ls \<noteq> []" using 1 by simp_all
    then have "1 \<le> d' \<and> d' \<le> ls ! (m' - Suc m)" using 1 False by simp
    moreover have "Suc m \<le> m'" using month_date_sum[OF rest] by simp
    then have "m' - m = Suc (m' - Suc m)" by simp
    ultimately show ?thesis by simp
  qed
qed simp

lemma utc_date_calendar:
  assumes "0 \<le> day" and "utc_date day = (y, m, d)"
  shows "calendar_date y m d day"
proof -
  have y: "y = year_of_day day"
    and md: "month_date (month_lengths (leap_year y)) 0 (day - day_from_year y) = (m, d)"
    using assms(2) by (auto simp: utc_date_def Let_def)
  have in_year: "0 \<le> day - day_from_year y" "day - day_from_year y < sum_list (month_lengths (leap_year y))"
    using year_of_day_bounds[of day] day_from_year_step[of y] y
    by (auto simp: month_lengths_def split: if_splits)
  have ne: "month_lengths (leap_year y) \<noteq> []" by (simp add: month_lengths_def)
  have "days_before_year y = day_from_year y"
    using days_before_year_eq[of y] year_nonneg[OF assms(1)] y by simp
  with month_date_within[OF md ne in_year] month_date_sum[OF md ne] show ?thesis
    by (auto simp: calendar_date_def)
qed

lemma card_thursdays:
  assumes "a \<le> 7 * w"
  shows "int (card (thursdays a (7 * w))) = (7 * w - a + 7) div 7"
proof -
  define n where "n = (7 * w - a + 7) div 7"
  have n: "7 * n \<le> 7 * w - a + 7" "7 * w - a + 7 < 7 * n + 7"
    unfolding n_def by (rule div_bounds, simp)+
  have "thursdays a (7 * w) = (\<lambda>k. 7 * k) ` {w - n + 1..w}"
  proof (intro equalityI subsetI)
    fix day assume "day \<in> thursdays a (7 * w)"
    then have d: "a \<le> day" "day \<le> 7 * w" "(day + 4) mod 7 = 4"
      by (simp_all add: thursdays_def week_day_def)
    then have "day = 7 * ((day + 4) div 7)" using mult_div_mod_eq[of 7 "day + 4"] by linarith
    moreover from this d(1,2) n(2) have "w - n + 1 \<le> (day + 4) div 7" "(day + 4) div 7 \<le> w" by linarith+
    ultimately show "day \<in> (\<lambda>k. 7 * k) ` {w - n + 1..w}" by (metis atLeastAtMost_iff imageI)
  next
    fix day assume "day \<in> (\<lambda>k. 7 * k) ` {w - n + 1..w}"
    then obtain k where "day = 7 * k" "w - n + 1 \<le> k" "k \<le> w" by auto
    then show "day \<in> thursdays a (7 * w)" using n(1) by (simp add: thursdays_def week_day_def)
  qed
  moreover have "inj_on (\<lambda>k. 7 * k) {w - n + 1..w}" for w n :: int by (simp add: inj_on_def)
  ultimately have "card (thursdays a (7 * w)) = nat n" by (simp add: card_image)
  moreover have "0 \<le> n" using n assms by linarith
  ultimately show ?thesis by (simp add: n_def)
qed

text \<open>The stamp of a day is its date, the stamp of a week its ISO year and number.\<close>

lemma day_stamp_calendar:
  assumes "civil t"
  obtains y m d where "calendar_date y m d (day_of t)"
    and "period_stamp Day_Period t = pad_start 4 y @ ''-'' @ pad_start 2 (int m + 1) @ ''-'' @ pad_start 2 d"
proof -
  obtain y m d where a: "utc_date (day_of t) = (y, m, d)" by (metis prod_cases3)
  have "0 \<le> day_of t" using assms by (simp add: civil_def civil_day_def)
  from that[OF utc_date_calendar[OF this a]] iso_date_eq[OF assms a] show thesis by simp
qed

lemma week_stamp_calendar:
  assumes "civil t"
  obtains y n thursday where "calendar_week y n thursday (day_of t)"
    and "period_stamp Week_Period t = show_int y @ ''-W'' @ pad_start 2 (int n)"
    and "period_end Week_Period t = ms_per_day * (thursday + 4)"
proof -
  let ?thu = "7 * week_of_day (day_of t)"
  let ?y = "year_of_day ?thu"
  have y: "1970 \<le> ?y" by (rule year_nonneg) (rule civil_thursday[OF assms])
  note days = days_before_year_eq[OF y] days_before_year_eq[of "?y + 1"]
  have "calendar_week ?y (card (thursdays (days_before_year ?y) ?thu)) ?thu (day_of t)"
    using week_of_day_bounds[of "day_of t"] year_of_day_bounds[of ?thu] days y
    by (simp add: calendar_week_def week_day_def)
  moreover have "int (card (thursdays (days_before_year ?y) ?thu)) = (?thu - day_from_year ?y + 7) div 7"
    using card_thursdays[of "day_from_year ?y" "week_of_day (day_of t)"] year_of_day_bounds[of ?thu] days(1) y
    by simp
  ultimately show thesis
    using that iso_week_stamp_eq[OF assms] by simp
qed

end
