(* ===== verification/Plans.thy ===== *)
theory Plans
  imports Errors Subject UsagePeriods
begin

text \<open>
  The plan catalogue, the resolution of a subject's effective plan and the gates that rest
  on it (\<open>src/modules/plans\<close>, \<open>src/modules/usage-limits/usage-features.ts\<close>).

  The database is the plan tables and the subscriptions; a read of it either answers or
  throws, as \<open>pd_down\<close> says. The in-process cache of plan matrices is two JavaScript maps.
\<close>

section \<open>The catalogues declared in code\<close>

definition usage_feature_list :: "string list" where
  "usage_feature_list = [''demo'']"

definition is_usage_feature :: "string \<Rightarrow> bool" where
  "is_usage_feature feature \<longleftrightarrow> feature \<in> set usage_feature_list"

definition assert_usage_feature :: "string \<Rightarrow> exn + unit" where
  "assert_usage_feature feature =
     (if is_usage_feature feature then Inr ()
      else Inl (OtherExn (''Unknown usage feature '' @ feature)))"

definition feature_advanced :: string where
  "feature_advanced = ''feature.advanced''"

definition feature_priority_support :: string where
  "feature_priority_support = ''feature.priority_support''"

definition entitlement_list :: "string list" where
  "entitlement_list = [feature_advanced, feature_priority_support]"

definition is_entitlement :: "string \<Rightarrow> bool" where
  "is_entitlement v \<longleftrightarrow> v \<in> set entitlement_list"

definition slug_lite :: string where "slug_lite = ''lite''"
definition slug_pro :: string where "slug_pro = ''pro''"
definition slug_enterprise :: string where "slug_enterprise = ''enterprise''"

definition plan_slug_list :: "string list" where
  "plan_slug_list = [slug_lite, slug_pro, slug_enterprise]"

definition is_plan_slug :: "string \<Rightarrow> bool" where
  "is_plan_slug v \<longleftrightarrow> v \<in> set plan_slug_list"

section \<open>Tables\<close>

datatype subscription_status = Active | Past_due | Canceled
datatype billing_interval = Monthly | Yearly

record plan_row =
  pl_id :: string
  pl_slug :: string
  pl_name :: string
  pl_description :: "string option"
  pl_rank :: int
  pl_isActive :: bool

record plan_entitlement_row =
  pq_planId :: string
  pq_key :: string
  pq_enabled :: bool

record plan_usage_row =
  pu_planId :: string
  pu_feature :: string
  pu_daily :: int
  pu_weekly :: int

record subscription_row =
  sb_id :: string
  sb_userId :: "string option"
  sb_organizationId :: "string option"
  sb_planId :: string
  sb_interval :: billing_interval
  sb_status :: subscription_status
  sb_periodEnd :: "int option"
  sb_updatedAt :: int

record plan_db =
  pd_plans :: "plan_row list"
  pd_entitlements :: "plan_entitlement_row list"
  pd_usage :: "plan_usage_row list"
  pd_subscriptions :: "subscription_row list"
  pd_down :: "exn option"

definition db_read :: "plan_db \<Rightarrow> 'a \<Rightarrow> exn + 'a" where
  "db_read db x = (case pd_down db of Some e \<Rightarrow> Inl e | None \<Rightarrow> Inr x)"

section \<open>The plan matrices\<close>

record plan_ceilings =
  pc_daily :: int
  pc_weekly :: int

record plan_matrix =
  mx_id :: string
  mx_slug :: string
  mx_name :: string
  mx_rank :: int
  mx_entitlements :: "(string \<times> bool) list"
  mx_usage :: "(string \<times> plan_ceilings) list"

record plan_cache =
  matrices_by_id :: "string \<rightharpoonup> plan_matrix"
  matrices_by_slug :: "string \<rightharpoonup> plan_matrix"

record effective_plan =
  ep_planId :: string
  ep_slug :: string
  ep_name :: string
  ep_rank :: int
  ep_fromSubscription :: bool
  ep_subscriptionId :: "string option"
  ep_status :: "subscription_status option"
  ep_interval :: "billing_interval option"
  ep_periodEnd :: "int option"
  ep_entitlements :: "(string \<times> bool) list"
  ep_usage :: "(string \<times> plan_ceilings) list"

text \<open>The body of the loop of \<open>reloadMatrices\<close>: the two objects of one plan.\<close>

definition entitlement_object :: "plan_entitlement_row list \<Rightarrow> (string \<times> bool) list" where
  "entitlement_object rows =
     foldl (\<lambda>o' r. obj_put (pq_key r) (pq_enabled r) o')
       (foldl (\<lambda>o' k. obj_put k False o') [] entitlement_list) rows"

definition usage_object :: "plan_usage_row list \<Rightarrow> (string \<times> plan_ceilings) list" where
  "usage_object rows =
     foldl (\<lambda>o' r. obj_put (pu_feature r) \<lparr>pc_daily = pu_daily r, pc_weekly = pu_weekly r\<rparr> o')
       [] rows"

definition matrix_of :: "plan_db \<Rightarrow> plan_row \<Rightarrow> plan_matrix" where
  "matrix_of db p =
     \<lparr>mx_id = pl_id p, mx_slug = pl_slug p, mx_name = pl_name p, mx_rank = pl_rank p,
      mx_entitlements =
        entitlement_object (filter (\<lambda>r. pq_planId r = pl_id p) (pd_entitlements db)),
      mx_usage = usage_object (filter (\<lambda>r. pu_planId r = pl_id p) (pd_usage db))\<rparr>"

definition cache_plan :: "plan_db \<Rightarrow> plan_cache \<Rightarrow> plan_row \<Rightarrow> plan_cache" where
  "cache_plan db c p =
     c\<lparr>matrices_by_id := (matrices_by_id c)(pl_id p \<mapsto> matrix_of db p),
       matrices_by_slug := (matrices_by_slug c)(pl_slug p \<mapsto> matrix_of db p)\<rparr>"

definition empty_cache :: plan_cache where
  "empty_cache = \<lparr>matrices_by_id = Map.empty, matrices_by_slug = Map.empty\<rparr>"

text \<open>\<open>reloadMatrices\<close> replaces both maps, or leaves them when the read throws.\<close>

definition reload_matrices :: "plan_db \<Rightarrow> plan_cache \<Rightarrow> (exn + unit) \<times> plan_cache" where
  "reload_matrices db c =
     (case db_read db (pd_plans db) of
        Inl e \<Rightarrow> (Inl e, c)
      | Inr ps \<Rightarrow> (Inr (), foldl (cache_plan db) empty_cache ps))"

section \<open>Resolution\<close>

text \<open>\<open>findMany\<close> with \<open>orderBy updatedAt desc\<close>; ties stay in table order.\<close>

definition find_subscriptions :: "billing_subject \<Rightarrow> plan_db \<Rightarrow> subscription_row list" where
  "find_subscriptions s db =
     sort_key (\<lambda>r. - sb_updatedAt r)
       (filter (\<lambda>r. owner_where s (sb_userId r) (sb_organizationId r)) (pd_subscriptions db))"

fun is_entitled :: "subscription_status \<Rightarrow> int option \<Rightarrow> int \<Rightarrow> bool" where
  "is_entitled Active _ now = True"
| "is_entitled Past_due _ now = True"
| "is_entitled Canceled (Some t) now = (t > now)"
| "is_entitled Canceled None now = False"

definition to_effective :: "plan_matrix \<Rightarrow> subscription_row option \<Rightarrow> effective_plan" where
  "to_effective m sub =
     \<lparr>ep_planId = mx_id m, ep_slug = mx_slug m, ep_name = mx_name m, ep_rank = mx_rank m,
      ep_fromSubscription = (sub \<noteq> None),
      ep_subscriptionId = map_option sb_id sub, ep_status = map_option sb_status sub,
      ep_interval = map_option sb_interval sub, ep_periodEnd = Option.bind sub sb_periodEnd,
      ep_entitlements = mx_entitlements m, ep_usage = mx_usage m\<rparr>"

definition lite_fallback :: "plan_cache \<Rightarrow> effective_plan" where
  "lite_fallback c =
     (case matrices_by_slug c slug_lite of
        None \<Rightarrow>
          \<lparr>ep_planId = [], ep_slug = slug_lite, ep_name = ''Lite'', ep_rank = 10,
           ep_fromSubscription = False, ep_subscriptionId = None, ep_status = None,
           ep_interval = None, ep_periodEnd = None,
           ep_entitlements = map (\<lambda>k. (k, False)) entitlement_list, ep_usage = []\<rparr>
      | Some lite \<Rightarrow> to_effective lite None)"

definition resolve_plan ::
  "plan_cache \<Rightarrow> plan_db \<Rightarrow> billing_subject + string \<Rightarrow> int \<Rightarrow> exn + effective_plan" where
  "resolve_plan c db subject now =
     (let resolved = (case subject of Inr u \<Rightarrow> user_subject u | Inl s \<Rightarrow> s)
      in case db_read db (find_subscriptions resolved db) of
           Inl e \<Rightarrow> Inl e
         | Inr subs \<Rightarrow>
             (case List.find (\<lambda>s. is_entitled (sb_status s) (sb_periodEnd s) now) subs of
                Some entitled \<Rightarrow>
                  (case matrices_by_id c (sb_planId entitled) of
                     Some m \<Rightarrow> Inr (to_effective m (Some entitled))
                   | None \<Rightarrow> Inr (lite_fallback c))
              | None \<Rightarrow> Inr (lite_fallback c)))"

definition has_entitlement :: "effective_plan \<Rightarrow> string \<Rightarrow> bool" where
  "has_entitlement plan k \<longleftrightarrow> map_of (ep_entitlements plan) k = Some True"

definition meets_minimum_plan :: "plan_cache \<Rightarrow> effective_plan \<Rightarrow> string \<Rightarrow> bool" where
  "meets_minimum_plan c plan minimumSlug \<longleftrightarrow>
     (case matrices_by_slug c minimumSlug of
        None \<Rightarrow> False
      | Some m \<Rightarrow> ep_rank plan \<ge> mx_rank m)"

definition usage_ceiling ::
  "effective_plan \<Rightarrow> string \<Rightarrow> usage_period \<Rightarrow> exn + int option" where
  "usage_ceiling plan feature period =
     (case assert_usage_feature feature of
        Inl e \<Rightarrow> Inl e
      | Inr _ \<Rightarrow>
          Inr (case map_of (ep_usage plan) feature of
                 None \<Rightarrow> None
               | Some row \<Rightarrow>
                   Some (case period of Day_Period \<Rightarrow> pc_daily row | Week_Period \<Rightarrow> pc_weekly row)))"

section \<open>The seeds\<close>

record plan_seed =
  sd_slug :: string
  sd_name :: string
  sd_description :: string
  sd_rank :: int
  sd_isActive :: bool
  sd_entitlements :: "(string \<times> bool) list"
  sd_usageLimits :: "(string \<times> int \<times> int) list"

definition plan_seeds :: "plan_seed list" where
  "plan_seeds =
     [\<lparr>sd_slug = slug_lite, sd_name = ''Lite'',
       sd_description = ''Default starter tier for new accounts'', sd_rank = 10, sd_isActive = True,
       sd_entitlements = [(feature_advanced, False), (feature_priority_support, False)],
       sd_usageLimits = [(''demo'', 100, 500)]\<rparr>,
      \<lparr>sd_slug = slug_pro, sd_name = ''Pro'',
       sd_description = ''Paid tier with advanced features and higher ceilings'', sd_rank = 20, sd_isActive = True,
       sd_entitlements = [(feature_advanced, True), (feature_priority_support, False)],
       sd_usageLimits = [(''demo'', 1000, 5000)]\<rparr>,
      \<lparr>sd_slug = slug_enterprise, sd_name = ''Enterprise'',
       sd_description = ''Optional highest tier; forks may deactivate to hide it'', sd_rank = 30, sd_isActive = True,
       sd_entitlements = [(feature_advanced, True), (feature_priority_support, True)],
       sd_usageLimits = [(''demo'', 100000, 500000)]\<rparr>]"

section \<open>The entitlements guard\<close>

record plan_route =
  rt_http :: bool
  rt_public :: "bool option \<times> bool option"
  rt_entitlements :: "string list option \<times> string list option"
  rt_plan :: "string option \<times> string option"

record plan_request =
  rq_principalId :: "string option"
  rq_plan :: "effective_plan option"

definition principal_of :: "plan_request \<Rightarrow> exn + string" where
  "principal_of rq =
     (case rq_principalId rq of
        None \<Rightarrow> Inl (api_error 401 UNAUTHORIZED ''Authentication required.'')
      | Some u \<Rightarrow> Inr u)"

definition plan_for ::
  "plan_cache \<Rightarrow> plan_db \<Rightarrow> int \<Rightarrow> string \<Rightarrow> plan_request \<Rightarrow>
     (exn + effective_plan) \<times> plan_request" where
  "plan_for c db now userId rq =
     (case rq_plan rq of
        Some p \<Rightarrow> (Inr p, rq)
      | None \<Rightarrow>
          (case resolve_plan c db (Inr userId) now of
             Inl e \<Rightarrow> (Inl e, rq)
           | Inr p \<Rightarrow> (Inr p, rq\<lparr>rq_plan := Some p\<rparr>)))"

definition entitlement_denied :: exn where
  "entitlement_denied =
     api_error 403 ENTITLEMENT_DENIED ''Your plan does not include this feature.''"

text \<open>\<open>EntitlementsGuard.canActivate\<close>.\<close>

definition entitlements_can_activate ::
  "plan_cache \<Rightarrow> plan_db \<Rightarrow> int \<Rightarrow> plan_route \<Rightarrow> plan_request \<Rightarrow> (exn + bool) \<times> plan_request" where
  "entitlements_can_activate c db now rt rq =
     (if \<not> rt_http rt then (Inr True, rq)
      else if case_prod get_all_and_override (rt_public rt) = Some True then (Inr True, rq)
      else
        (let required = (case case_prod get_all_and_override (rt_entitlements rt) of
                           Some ks \<Rightarrow> ks | None \<Rightarrow> []);
             requiredPlan = case_prod get_all_and_override (rt_plan rt)
         in if required = [] \<and> requiredPlan = None then (Inr True, rq)
            else
              (case principal_of rq of
                 Inl e \<Rightarrow> (Inl e, rq)
               | Inr u \<Rightarrow>
                   (case plan_for c db now u rq of
                      (Inl e, rq') \<Rightarrow> (Inl e, rq')
                    | (Inr plan, rq') \<Rightarrow>
                        (if filter (\<lambda>k. \<not> has_entitlement plan k) required \<noteq> []
                         then (Inl entitlement_denied, rq')
                         else
                           (case requiredPlan of
                              Some slug \<Rightarrow>
                                (if \<not> meets_minimum_plan c plan slug
                                 then (Inl entitlement_denied, rq') else (Inr True, rq'))
                            | None \<Rightarrow> (Inr True, rq')))))))"

section \<open>The account's own view\<close>

record subscription_view =
  sv_id :: string
  sv_status :: subscription_status
  sv_interval :: billing_interval
  sv_periodEnd :: "int option"

record current_plan_view =
  cv_slug :: string
  cv_name :: string
  cv_rank :: int
  cv_fromSubscription :: bool
  cv_subscription :: "subscription_view option"
  cv_entitlements :: "(string \<times> bool) list"
  cv_limits :: "(string \<times> plan_ceilings) list"

text \<open>\<open>BillingPlanController.currentPlan\<close>.\<close>

definition current_plan ::
  "plan_cache \<Rightarrow> plan_db \<Rightarrow> int \<Rightarrow> string \<Rightarrow> exn + current_plan_view" where
  "current_plan c db now userId =
     (case resolve_plan c db (Inr userId) now of
        Inl e \<Rightarrow> Inl e
      | Inr p \<Rightarrow>
          Inr \<lparr>cv_slug = ep_slug p, cv_name = ep_name p, cv_rank = ep_rank p,
               cv_fromSubscription = ep_fromSubscription p,
               cv_subscription =
                 (case (ep_subscriptionId p, ep_status p, ep_interval p) of
                    (Some i, Some st, Some iv) \<Rightarrow>
                      (if i \<noteq> [] then
                         Some \<lparr>sv_id = i, sv_status = st, sv_interval = iv,
                               sv_periodEnd = ep_periodEnd p\<rparr>
                       else None)
                  | _ \<Rightarrow> None),
               cv_entitlements = ep_entitlements p,
               cv_limits =
                 foldl (\<lambda>o' (f, c). obj_put f \<lparr>pc_daily = pc_daily c, pc_weekly = pc_weekly c\<rparr> o')
                   [] (ep_usage p)\<rparr>)"

section \<open>The cache after a reload\<close>

lemma foldl_cache_plan:
  "matrices_by_id (foldl (cache_plan db) c ps) i =
     (case List.find (\<lambda>p. pl_id p = i) (rev ps) of
        Some p \<Rightarrow> Some (matrix_of db p) | None \<Rightarrow> matrices_by_id c i)"
  "matrices_by_slug (foldl (cache_plan db) c ps) s =
     (case List.find (\<lambda>p. pl_slug p = s) (rev ps) of
        Some p \<Rightarrow> Some (matrix_of db p) | None \<Rightarrow> matrices_by_slug c s)"
  by (induction ps arbitrary: c)
    (auto simp: cache_plan_def find_append split: option.splits)

text \<open>The rows of the catalogue: unique ids and slugs, and one row per plan and key.\<close>

definition plan_db_ok :: "plan_db \<Rightarrow> bool" where
  "plan_db_ok db \<longleftrightarrow>
     distinct (map pl_id (pd_plans db)) \<and> distinct (map pl_slug (pd_plans db)) \<and>
     distinct (map (\<lambda>r. (pq_planId r, pq_key r)) (pd_entitlements db)) \<and>
     distinct (map (\<lambda>r. (pu_planId r, pu_feature r)) (pd_usage db)) \<and>
     distinct (map sb_id (pd_subscriptions db)) \<and>
     (\<forall>r\<in>set (pd_subscriptions db). owner_xor (sb_userId r) (sb_organizationId r))"

lemma reload_by_id:
  assumes "plan_db_ok db" and "pd_down db = None"
  shows "matrices_by_id (snd (reload_matrices db c)) i = Some m \<longleftrightarrow>
         (\<exists>p\<in>set (pd_plans db). pl_id p = i \<and> m = matrix_of db p)"
proof -
  have d: "distinct (map pl_id (pd_plans db))" using assms(1) by (simp add: plan_db_ok_def)
  have "matrices_by_id (snd (reload_matrices db c)) i
          = map_option (matrix_of db) (List.find (\<lambda>p. pl_id p = i) (pd_plans db))"
    by (simp add: reload_matrices_def db_read_def assms(2) foldl_cache_plan empty_cache_def
        find_rev_unique[OF d] split: option.split)
  then show ?thesis
    using find_unique_iff[OF d, of i] by auto
qed

lemma reload_by_slug:
  assumes "plan_db_ok db" and "pd_down db = None"
  shows "matrices_by_slug (snd (reload_matrices db c)) s = Some m \<longleftrightarrow>
         (\<exists>p\<in>set (pd_plans db). pl_slug p = s \<and> m = matrix_of db p)"
proof -
  have d: "distinct (map pl_slug (pd_plans db))" using assms(1) by (simp add: plan_db_ok_def)
  have "matrices_by_slug (snd (reload_matrices db c)) s
          = map_option (matrix_of db) (List.find (\<lambda>p. pl_slug p = s) (pd_plans db))"
    by (simp add: reload_matrices_def db_read_def assms(2) foldl_cache_plan empty_cache_def
        find_rev_unique[OF d] split: option.split)
  then show ?thesis
    using find_unique_iff[OF d, of s] by auto
qed

lemma map_of_foldl_obj_put:
  "map_of (foldl (\<lambda>o' r. obj_put (k r) (v r) o') o0 rows) x =
     (case List.find (\<lambda>r. k r = x) (rev rows) of Some r \<Rightarrow> Some (v r) | None \<Rightarrow> map_of o0 x)"
  by (induction rows arbitrary: o0) (auto simp: find_append split: option.splits)

lemma map_of_false_keys:
  "map_of (foldl (\<lambda>o' k. obj_put k False o') [] ks) x = (if x \<in> set ks then Some False else None)"
  using map_of_foldl_obj_put[of "\<lambda>k. k" "\<lambda>_. False" "[]" ks x]
  by (auto simp: find_None_iff split: option.splits dest: find_SomeD)

text \<open>An entitlement of a plan is on exactly when its row of the table says so.\<close>

lemma matrix_entitled:
  assumes "plan_db_ok db"
  shows "map_of (mx_entitlements (matrix_of db p)) k = Some True \<longleftrightarrow>
         (\<exists>r\<in>set (pd_entitlements db). pq_planId r = pl_id p \<and> pq_key r = k \<and> pq_enabled r)"
proof -
  let ?rows = "filter (\<lambda>r. pq_planId r = pl_id p) (pd_entitlements db)"
  have "distinct (map (\<lambda>r. (pq_planId r, pq_key r)) ?rows)"
    using assms by (auto simp: plan_db_ok_def intro: distinct_map_filter)
  then have "inj_on (\<lambda>r. (pq_planId r, pq_key r)) (set ?rows)" "distinct ?rows"
    by (simp_all add: distinct_map)
  then have d: "distinct (map pq_key ?rows)"
    by (auto simp: distinct_map inj_on_def)
  have "map_of (mx_entitlements (matrix_of db p)) k =
          (case List.find (\<lambda>r. pq_key r = k) ?rows of
             Some r \<Rightarrow> Some (pq_enabled r)
           | None \<Rightarrow> if k \<in> set entitlement_list then Some False else None)"
    unfolding matrix_of_def entitlement_object_def plan_matrix.simps
      map_of_foldl_obj_put[where k = pq_key and v = pq_enabled] map_of_false_keys find_rev_unique[OF d]
    by (rule refl)
  then have "map_of (mx_entitlements (matrix_of db p)) k = Some True \<longleftrightarrow>
      (\<exists>r. List.find (\<lambda>r. pq_key r = k) ?rows = Some r \<and> pq_enabled r)"
    by (simp split: option.split)
  then show ?thesis unfolding find_unique_iff[OF d] by auto
qed

section \<open>Resolution\<close>

lemma find_sorted_first:
  assumes "List.find P (sort_key k xs) = Some x"
  shows "x \<in> set xs \<and> P x \<and> (\<forall>y\<in>set xs. P y \<longrightarrow> k x \<le> k y)"
proof -
  have "sorted (map k ys) \<Longrightarrow> List.find P ys = Some x \<Longrightarrow> \<forall>y\<in>set ys. P y \<longrightarrow> k x \<le> k y" for ys
    by (induction ys) (auto split: if_splits dest: find_SomeD)
  from this[of "sort_key k xs"] assms find_SomeD[OF assms] show ?thesis by simp
qed

lemma find_subscriptions_first:
  assumes "List.find P (find_subscriptions s db) = Some x"
  shows "x \<in> set (pd_subscriptions db)" and "owner_where s (sb_userId x) (sb_organizationId x)"
    and "P x"
    and "y \<in> set (pd_subscriptions db) \<Longrightarrow> owner_where s (sb_userId y) (sb_organizationId y) \<Longrightarrow>
         P y \<Longrightarrow> sb_updatedAt y \<le> sb_updatedAt x"
  using find_sorted_first[OF assms[unfolded find_subscriptions_def]] by auto

lemma find_subscriptions_none:
  "List.find P (find_subscriptions s db) = None \<longleftrightarrow>
     (\<forall>r\<in>set (pd_subscriptions db). owner_where s (sb_userId r) (sb_organizationId r) \<longrightarrow> \<not> P r)"
  by (auto simp: find_None_conv find_subscriptions_def)

end
