(* ===== verification/Redis.thy ===== *)
theory Redis
  imports Errors
begin

text \<open>
  The Redis commands the program issues.

  Redis is a service: the components take a client \<open>R :: 's redis\<close>, a record of the
  commands over an arbitrary connection state \<open>'s\<close>, as an argument. What they rely on is
  the locale \<open>redis_store\<close>: a \<open>view\<close> of the keyspace on which every command that
  succeeds acts as the Redis documentation says, and every command that fails has either
  acted or not, with an error that is not one of the program's own \<open>ApiException\<close>s.

  \<open>mem_redis\<close> is an in-memory client with scripted faults. It satisfies the contract and
  is what the witnesses of the components run on.
\<close>

section \<open>The keyspace\<close>

record rview =
  rv_clock :: int
  rv_data :: "string \<Rightarrow> (string \<times> int option) option"

text \<open>A key is live until its expiry time; without one it lives on.\<close>

definition rv_lookup :: "rview \<Rightarrow> string \<Rightarrow> (string \<times> int option) option" where
  "rv_lookup v k =
     (case rv_data v k of
        None \<Rightarrow> None
      | Some (x, None) \<Rightarrow> Some (x, None)
      | Some (x, Some t) \<Rightarrow> (if rv_clock v < t then Some (x, Some t) else None))"

definition rv_put :: "string \<Rightarrow> string \<Rightarrow> int option \<Rightarrow> rview \<Rightarrow> rview" where
  "rv_put k x t v = v\<lparr>rv_data := (rv_data v)(k := Some (x, t))\<rparr>"

definition rv_drop :: "string \<Rightarrow> rview \<Rightarrow> rview" where
  "rv_drop k v = v\<lparr>rv_data := (rv_data v)(k := None)\<rparr>"

definition rv_text :: "rview \<Rightarrow> string \<Rightarrow> string option" where
  "rv_text v k = map_option fst (rv_lookup v k)"

definition rv_expiry :: "rview \<Rightarrow> string \<Rightarrow> int option" where
  "rv_expiry v k = (case rv_lookup v k of Some (_, t) \<Rightarrow> t | None \<Rightarrow> None)"

text \<open>The decimal integer a counter holds; an absent key counts as zero.\<close>

definition rv_count :: "rview \<Rightarrow> string \<Rightarrow> int option" where
  "rv_count v k = (case rv_text v k of None \<Rightarrow> Some 0 | Some x \<Rightarrow> parse_int x)"

section \<open>The commands on a keyspace\<close>

definition not_an_integer :: exn where
  "not_an_integer = OtherExn ''ERR value is not an integer or out of range''"

definition sem_get :: "string \<Rightarrow> rview \<Rightarrow> (exn + string option) \<times> rview" where
  "sem_get k v = (Inr (rv_text v k), v)"

definition sem_mget :: "string list \<Rightarrow> rview \<Rightarrow> (exn + string option list) \<times> rview" where
  "sem_mget ks v = (Inr (map (rv_text v) ks), v)"

definition sem_set :: "string \<Rightarrow> string \<Rightarrow> rview \<Rightarrow> (exn + unit) \<times> rview" where
  "sem_set k x v = (Inr (), rv_put k x None v)"

text \<open>\<open>SET key value PX ms\<close>; the \<open>EX\<close> form is the same in seconds.\<close>

definition sem_set_px :: "string \<Rightarrow> string \<Rightarrow> int \<Rightarrow> rview \<Rightarrow> (exn + unit) \<times> rview" where
  "sem_set_px k x ms v =
     (if ms \<le> 0 then (Inl (OtherExn ''ERR invalid expire time in 'set' command''), v)
      else (Inr (), rv_put k x (Some (rv_clock v + ms)) v))"

definition sem_set_ex :: "string \<Rightarrow> string \<Rightarrow> int \<Rightarrow> rview \<Rightarrow> (exn + unit) \<times> rview" where
  "sem_set_ex k x secs v = sem_set_px k x (1000 * secs) v"

definition sem_set_nx :: "string \<Rightarrow> string \<Rightarrow> rview \<Rightarrow> (exn + unit) \<times> rview" where
  "sem_set_nx k x v = (Inr (), if rv_lookup v k = None then rv_put k x None v else v)"

definition sem_del :: "string \<Rightarrow> rview \<Rightarrow> (exn + unit) \<times> rview" where
  "sem_del k v = (Inr (), rv_drop k v)"

text \<open>\<open>INCR\<close> and \<open>DECR\<close> keep the expiry of the key.\<close>

definition sem_incrby :: "int \<Rightarrow> string \<Rightarrow> rview \<Rightarrow> (exn + int) \<times> rview" where
  "sem_incrby d k v =
     (case rv_count v k of
        None \<Rightarrow> (Inl not_an_integer, v)
      | Some n \<Rightarrow> (Inr (n + d), rv_put k (show_int (n + d)) (rv_expiry v k) v))"

definition sem_pexpire :: "string \<Rightarrow> int \<Rightarrow> rview \<Rightarrow> (exn + unit) \<times> rview" where
  "sem_pexpire k ms v =
     (Inr (),
      case rv_lookup v k of
        None \<Rightarrow> v
      | Some (x, _) \<Rightarrow>
          (if ms \<le> 0 then rv_drop k v else rv_put k x (Some (rv_clock v + ms)) v))"

definition sem_expire :: "string \<Rightarrow> int \<Rightarrow> rview \<Rightarrow> (exn + unit) \<times> rview" where
  "sem_expire k secs v = sem_pexpire k (1000 * secs) v"

text \<open>\<open>PTTL\<close>: \<open>-2\<close> without the key, \<open>-1\<close> without an expiry.\<close>

definition sem_pttl :: "string \<Rightarrow> rview \<Rightarrow> (exn + int) \<times> rview" where
  "sem_pttl k v =
     (Inr (case rv_lookup v k of
             None \<Rightarrow> - 2
           | Some (_, None) \<Rightarrow> - 1
           | Some (_, Some t) \<Rightarrow> t - rv_clock v), v)"

section \<open>The client\<close>

record 's redis =
  rd_get :: "string \<Rightarrow> 's \<Rightarrow> (exn + string option) \<times> 's"
  rd_mget :: "string list \<Rightarrow> 's \<Rightarrow> (exn + string option list) \<times> 's"
  rd_set :: "string \<Rightarrow> string \<Rightarrow> 's \<Rightarrow> (exn + unit) \<times> 's"
  rd_set_ex :: "string \<Rightarrow> string \<Rightarrow> int \<Rightarrow> 's \<Rightarrow> (exn + unit) \<times> 's"
  rd_set_px :: "string \<Rightarrow> string \<Rightarrow> int \<Rightarrow> 's \<Rightarrow> (exn + unit) \<times> 's"
  rd_set_nx :: "string \<Rightarrow> string \<Rightarrow> 's \<Rightarrow> (exn + unit) \<times> 's"
  rd_del :: "string \<Rightarrow> 's \<Rightarrow> (exn + unit) \<times> 's"
  rd_incr :: "string \<Rightarrow> 's \<Rightarrow> (exn + int) \<times> 's"
  rd_decr :: "string \<Rightarrow> 's \<Rightarrow> (exn + int) \<times> 's"
  rd_expire :: "string \<Rightarrow> int \<Rightarrow> 's \<Rightarrow> (exn + unit) \<times> 's"
  rd_pexpire :: "string \<Rightarrow> int \<Rightarrow> 's \<Rightarrow> (exn + unit) \<times> 's"
  rd_pttl :: "string \<Rightarrow> 's \<Rightarrow> (exn + int) \<times> 's"

text \<open>
  A call does a command when a normal return carries the command's answer and its effect,
  and an error means that the command took effect or that nothing happened.
\<close>

definition does_command ::
  "('s \<Rightarrow> rview) \<Rightarrow> ('s \<Rightarrow> (exn + 'a) \<times> 's) \<Rightarrow> (rview \<Rightarrow> (exn + 'a) \<times> rview) \<Rightarrow> bool" where
  "does_command view call sem \<longleftrightarrow>
     (\<forall>s r s'. call s = (Inr r, s') \<longrightarrow> sem (view s) = (Inr r, view s')) \<and>
     (\<forall>s e s'. call s = (Inl e, s') \<longrightarrow>
        api_code e = None \<and> (view s' = view s \<or> (\<exists>r. sem (view s) = (Inr r, view s'))))"

lemma does_command_ok:
  "does_command view call sem \<Longrightarrow> call s = (Inr r, s') \<Longrightarrow> sem (view s) = (Inr r, view s')"
  unfolding does_command_def by blast

lemma does_command_fail:
  assumes "does_command view call sem" and "call s = (Inl e, s')"
  shows "api_code e = None" and "view s' = view s \<or> (\<exists>r. sem (view s) = (Inr r, view s'))"
  using assms unfolding does_command_def by blast+

locale redis_store =
  fixes R :: "'s redis"
    and view :: "'s \<Rightarrow> rview"
  assumes does_get: "does_command view (rd_get R k) (sem_get k)"
    and does_mget: "does_command view (rd_mget R ks) (sem_mget ks)"
    and does_set: "does_command view (rd_set R k x) (sem_set k x)"
    and does_set_ex: "does_command view (rd_set_ex R k x secs) (sem_set_ex k x secs)"
    and does_set_px: "does_command view (rd_set_px R k x ms) (sem_set_px k x ms)"
    and does_set_nx: "does_command view (rd_set_nx R k x) (sem_set_nx k x)"
    and does_del: "does_command view (rd_del R k) (sem_del k)"
    and does_incr: "does_command view (rd_incr R k) (sem_incrby 1 k)"
    and does_decr: "does_command view (rd_decr R k) (sem_incrby (- 1) k)"
    and does_expire: "does_command view (rd_expire R k secs) (sem_expire k secs)"
    and does_pexpire: "does_command view (rd_pexpire R k ms) (sem_pexpire k ms)"
    and does_pttl: "does_command view (rd_pttl R k) (sem_pttl k)"

section \<open>An in-memory client\<close>

text \<open>The head of the script decides the fate of the next command; beyond it all is well.\<close>

datatype cmd_fault = Cmd_ok | Cmd_refused | Cmd_unanswered

record mem_conn =
  mc_view :: rview
  mc_script :: "cmd_fault list"

definition connection_lost :: exn where
  "connection_lost = OtherExn ''Connection is closed.''"

definition mem_call :: "(rview \<Rightarrow> (exn + 'a) \<times> rview) \<Rightarrow> mem_conn \<Rightarrow> (exn + 'a) \<times> mem_conn" where
  "mem_call sem c =
     (let fate = (case mc_script c of [] \<Rightarrow> Cmd_ok | f # _ \<Rightarrow> f);
          c' = c\<lparr>mc_script := drop 1 (mc_script c)\<rparr>
      in case fate of
           Cmd_refused \<Rightarrow> (Inl connection_lost, c')
         | Cmd_ok \<Rightarrow> (case sem (mc_view c) of (r, v) \<Rightarrow> (r, c'\<lparr>mc_view := v\<rparr>))
         | Cmd_unanswered \<Rightarrow>
             (case sem (mc_view c) of
                (Inr _, v) \<Rightarrow> (Inl connection_lost, c'\<lparr>mc_view := v\<rparr>)
              | (Inl e, v) \<Rightarrow> (Inl e, c')))"

definition mem_redis :: "mem_conn redis" where
  "mem_redis =
     \<lparr>rd_get = (\<lambda>k. mem_call (sem_get k)),
      rd_mget = (\<lambda>ks. mem_call (sem_mget ks)),
      rd_set = (\<lambda>k x. mem_call (sem_set k x)),
      rd_set_ex = (\<lambda>k x secs. mem_call (sem_set_ex k x secs)),
      rd_set_px = (\<lambda>k x ms. mem_call (sem_set_px k x ms)),
      rd_set_nx = (\<lambda>k x. mem_call (sem_set_nx k x)),
      rd_del = (\<lambda>k. mem_call (sem_del k)),
      rd_incr = (\<lambda>k. mem_call (sem_incrby 1 k)),
      rd_decr = (\<lambda>k. mem_call (sem_incrby (- 1) k)),
      rd_expire = (\<lambda>k secs. mem_call (sem_expire k secs)),
      rd_pexpire = (\<lambda>k ms. mem_call (sem_pexpire k ms)),
      rd_pttl = (\<lambda>k. mem_call (sem_pttl k))\<rparr>"

text \<open>Errors of the server leave the keyspace alone and are not the program's own.\<close>

definition well_behaved :: "(rview \<Rightarrow> (exn + 'a) \<times> rview) \<Rightarrow> bool" where
  "well_behaved sem \<longleftrightarrow> (\<forall>v e v'. sem v = (Inl e, v') \<longrightarrow> v' = v \<and> api_code e = None)"

lemma mem_call_does_command:
  assumes "well_behaved sem"
  shows "does_command mc_view (mem_call sem) sem"
  using assms
  by (auto simp: does_command_def mem_call_def well_behaved_def connection_lost_def Let_def
      split: list.splits cmd_fault.splits prod.splits sum.splits)

lemma well_behaved_commands:
  "well_behaved (sem_get k)" "well_behaved (sem_mget ks)" "well_behaved (sem_set k x)"
  "well_behaved (sem_set_px k x ms)" "well_behaved (sem_set_ex k x ms)"
  "well_behaved (sem_set_nx k x)" "well_behaved (sem_del k)" "well_behaved (sem_incrby d k)"
  "well_behaved (sem_pexpire k ms)" "well_behaved (sem_expire k ms)" "well_behaved (sem_pttl k)"
  by (auto simp: well_behaved_def sem_get_def sem_mget_def sem_set_def sem_set_px_def
      sem_set_ex_def sem_set_nx_def sem_del_def sem_incrby_def sem_pexpire_def sem_expire_def
      sem_pttl_def not_an_integer_def split: option.splits if_splits)

interpretation mem: redis_store mem_redis mc_view
  by unfold_locales
    (simp_all add: mem_redis_def mem_call_does_command well_behaved_commands)

section \<open>Lookups after the commands\<close>

lemma rv_lookup_put [simp]:
  "rv_lookup (rv_put k x t v) k' =
     (if k' = k then (case t of None \<Rightarrow> Some (x, None)
        | Some e \<Rightarrow> (if rv_clock v < e then Some (x, Some e) else None))
      else rv_lookup v k')"
  by (auto simp: rv_lookup_def rv_put_def split: option.split)

lemma rv_lookup_drop [simp]:
  "rv_lookup (rv_drop k v) k' = (if k' = k then None else rv_lookup v k')"
  by (simp add: rv_lookup_def rv_drop_def split: option.split)

lemma rv_clock_put [simp]: "rv_clock (rv_put k x t v) = rv_clock v"
  and rv_clock_drop [simp]: "rv_clock (rv_drop k v) = rv_clock v"
  by (simp_all add: rv_put_def rv_drop_def)

lemma rv_expiry_live: "rv_expiry v k = Some t \<Longrightarrow> rv_clock v < t"
  by (auto simp: rv_expiry_def rv_lookup_def split: option.splits if_splits)

lemma rv_count_incrby:
  assumes "sem_incrby d k v = (Inr n, v')"
  shows "rv_count v k = Some (n - d)"
    and "rv_count v' k' = (if k' = k then Some n else rv_count v k')"
    and "rv_clock v' = rv_clock v"
  using assms rv_expiry_live[of v k]
  by (auto simp: sem_incrby_def rv_count_def rv_text_def split: option.splits)

lemma rv_count_pexpire:
  assumes "sem_pexpire k ms v = (Inr (), v')" and "0 < ms"
  shows "rv_count v' k' = rv_count v k'" and "rv_clock v' = rv_clock v"
  using assms
  by (auto simp: sem_pexpire_def rv_count_def rv_text_def split: option.splits prod.splits if_splits)

end
