(* ===== verification/UsageLimits.thy ===== *)
theory UsageLimits
  imports Plans Redis
begin

text \<open>
  The usage meter (\<open>src/modules/usage-limits/usage-limits.service.ts\<close>,
  \<open>src/config/usage-limits.config.ts\<close>) over a Redis client \<open>R\<close>.

  The environment holds the client, the configuration, the plan resolution bound to this
  call (none when the service is built without one) and the clock: every \<open>new Date()\<close> of
  the code is one more reading of it, so a call may straddle midnight. The world is the
  connection, the number of readings so far and the rollbacks that were reported as failed.
\<close>

section \<open>Data\<close>

record usage_subject =
  us_actorUserId :: string
  us_billing :: "string option"

definition usage_subject_of :: "string \<Rightarrow> usage_subject" where
  "usage_subject_of actorUserId = \<lparr>us_actorUserId = actorUserId, us_billing = None\<rparr>"

record usage_scope =
  sc_key :: string
  sc_owner :: billing_subject

record usage_snapshot =
  sn_feature :: string
  sn_period :: usage_period
  sn_used :: js_number
  sn_limit :: int
  sn_remaining :: js_number
  sn_retryAfter :: int

record usage_config =
  uc_default :: plan_ceilings
  uc_features :: "(string \<times> plan_ceilings) list"

record 's usage_env =
  ue_redis :: "'s redis"
  ue_config :: usage_config
  ue_plans :: "(billing_subject \<Rightarrow> exn + effective_plan) option"
  ue_clock :: "nat \<Rightarrow> int"

record 's usage_world =
  uw_conn :: 's
  uw_reads :: nat
  uw_lostRollbacks :: "string list"

type_synonym plan_memo = "string \<rightharpoonup> effective_plan"

definition read_clock :: "'s usage_env \<Rightarrow> 's usage_world \<Rightarrow> int \<times> 's usage_world" where
  "read_clock env w = (ue_clock env (uw_reads w), w\<lparr>uw_reads := Suc (uw_reads w)\<rparr>)"

definition usage_call :: "('s \<Rightarrow> 'a \<times> 's) \<Rightarrow> 's usage_world \<Rightarrow> 'a \<times> 's usage_world" where
  "usage_call cmd w = (case cmd (uw_conn w) of (r, c) \<Rightarrow> (r, w\<lparr>uw_conn := c\<rparr>))"

section \<open>Ceilings and scopes\<close>

definition config_ceiling :: "usage_config \<Rightarrow> string \<Rightarrow> usage_period \<Rightarrow> int" where
  "config_ceiling cfg feature period =
     (let source = (case map_of (uc_features cfg) feature of
                      Some o' \<Rightarrow> o' | None \<Rightarrow> uc_default cfg)
      in case period of Day_Period \<Rightarrow> pc_daily source | Week_Period \<Rightarrow> pc_weekly source)"

fun memo_key :: "billing_subject \<Rightarrow> string" where
  "memo_key (User_Subject u) = ''u:'' @ u"
| "memo_key (Org_Subject o') = ''o:'' @ o'"

definition ceiling_for_owner ::
  "'s usage_env \<Rightarrow> billing_subject \<Rightarrow> string \<Rightarrow> usage_period \<Rightarrow> plan_memo \<Rightarrow>
     (exn + int) \<times> plan_memo" where
  "ceiling_for_owner env owner feature period memo =
     (case ue_plans env of
        None \<Rightarrow> (Inr (config_ceiling (ue_config env) feature period), memo)
      | Some resolve \<Rightarrow>
          (case (case memo (memo_key owner) of
                   Some p \<Rightarrow> Inr (p, memo)
                 | None \<Rightarrow>
                     (case resolve owner of
                        Inl e \<Rightarrow> Inl e
                      | Inr p \<Rightarrow> Inr (p, memo(memo_key owner \<mapsto> p)))) of
             Inl e \<Rightarrow> (Inl e, memo)
           | Inr (effective, memo') \<Rightarrow>
               (case usage_ceiling effective feature period of
                  Inl e \<Rightarrow> (Inl e, memo')
                | Inr (Some n) \<Rightarrow> (Inr n, memo')
                | Inr None \<Rightarrow> (Inr (config_ceiling (ue_config env) feature period), memo'))))"

definition ceiling_for ::
  "'s usage_env \<Rightarrow> usage_subject \<Rightarrow> string \<Rightarrow> usage_period \<Rightarrow> exn + int" where
  "ceiling_for env subject feature period =
     fst (ceiling_for_owner env (user_subject (us_actorUserId subject)) feature period Map.empty)"

definition usage_key :: "usage_period \<Rightarrow> int \<Rightarrow> string \<Rightarrow> string \<Rightarrow> string" where
  "usage_key period at feature owner =
     ''usage:'' @ period_name period @ '':'' @ period_stamp period at @ '':'' @ feature @ '':'' @ owner"

definition scopes_for ::
  "usage_subject \<Rightarrow> string \<Rightarrow> usage_period \<Rightarrow> int \<Rightarrow> usage_scope list" where
  "scopes_for subject feature period at =
     \<lparr>sc_key = usage_key period at feature (''u:'' @ us_actorUserId subject),
      sc_owner = user_subject (us_actorUserId subject)\<rparr> #
     (case us_billing subject of
        None \<Rightarrow> []
      | Some o' \<Rightarrow>
          [\<lparr>sc_key = usage_key period at feature (''o:'' @ o'),
            sc_owner = organization_subject o'\<rparr>])"

definition keys_for :: "usage_subject \<Rightarrow> string \<Rightarrow> usage_period \<Rightarrow> int \<Rightarrow> string list" where
  "keys_for subject feature period at = map sc_key (scopes_for subject feature period at)"

section \<open>Checking\<close>

text \<open>
  \<open>values[i] ? Number(values[i]) : 0\<close>. A counter is written by \<open>INCR\<close> and \<open>DECR\<close> alone, so what is
  read is a decimal integer. Any other text counts as \<open>NaN\<close> here, with which every comparison is
  false; \<open>Number\<close> also reads fractions, exponents and hexadecimals, which no counter holds.
\<close>

fun used_of :: "string option \<Rightarrow> js_number" where
  "used_of None = JInt 0"
| "used_of (Some x) =
     (if x = [] then JInt 0 else (case parse_int x of Some n \<Rightarrow> JInt n | None \<Rightarrow> JOther))"

text \<open>\<open>Math.max(0, limit - used)\<close>.\<close>

fun remaining_of :: "int \<Rightarrow> js_number \<Rightarrow> js_number" where
  "remaining_of limit (JInt used) = JInt (max 0 (limit - used))"
| "remaining_of limit JOther = JOther"

fun js_less :: "js_number \<Rightarrow> js_number \<Rightarrow> bool" where
  "js_less (JInt a) (JInt b) \<longleftrightarrow> a < b"
| "js_less _ _ \<longleftrightarrow> False"

fun js_not_positive :: "js_number \<Rightarrow> bool" where
  "js_not_positive (JInt a) \<longleftrightarrow> a \<le> 0"
| "js_not_positive JOther \<longleftrightarrow> False"

definition usage_unavailable :: exn where
  "usage_unavailable =
     api_error 503 SERVICE_UNAVAILABLE ''Usage limits temporarily unavailable.''"

text \<open>What the \<open>catch\<close> of \<open>check\<close> makes of an error.\<close>

definition fail_closed :: "exn \<Rightarrow> exn" where
  "fail_closed e = (case e of ApiExn a \<Rightarrow> ApiExn a | _ \<Rightarrow> usage_unavailable)"

fun check_scopes ::
  "'s usage_env \<Rightarrow> string \<Rightarrow> usage_period \<Rightarrow> (usage_scope \<times> string option) list \<Rightarrow>
     plan_memo \<Rightarrow> 's usage_world \<Rightarrow>
     (exn + usage_snapshot list) \<times> plan_memo \<times> 's usage_world" where
  "check_scopes env feature period [] memo w = (Inr [], memo, w)"
| "check_scopes env feature period ((scope, value) # rest) memo w =
     (case ceiling_for_owner env (sc_owner scope) feature period memo of
        (Inl e, memo') \<Rightarrow> (Inl e, memo', w)
      | (Inr limit, memo') \<Rightarrow>
          (case read_clock env w of
             (at, w') \<Rightarrow>
               (let used = used_of value;
                    snapshot = \<lparr>sn_feature = feature, sn_period = period, sn_used = used,
                                sn_limit = limit, sn_remaining = remaining_of limit used,
                                sn_retryAfter = seconds_until_period_end period at\<rparr>
                in case check_scopes env feature period rest memo' w' of
                     (Inl e, m, w'') \<Rightarrow> (Inl e, m, w'')
                   | (Inr ss, m, w'') \<Rightarrow> (Inr (snapshot # ss), m, w''))))"

definition tightest_of :: "usage_snapshot \<Rightarrow> usage_snapshot list \<Rightarrow> usage_snapshot" where
  "tightest_of s ss =
     foldl (\<lambda>tightest snapshot.
       if js_less (sn_remaining snapshot) (sn_remaining tightest) then snapshot else tightest) s ss"

definition usage_check ::
  "'s usage_env \<Rightarrow> usage_subject \<Rightarrow> string \<Rightarrow> usage_period \<Rightarrow> plan_memo \<Rightarrow> 's usage_world \<Rightarrow>
     (exn + usage_snapshot) \<times> plan_memo \<times> 's usage_world" where
  "usage_check env subject feature period memo w =
     (case assert_usage_feature feature of
        Inl e \<Rightarrow> (Inl e, memo, w)
      | Inr _ \<Rightarrow>
          (case read_clock env w of
             (at, w1) \<Rightarrow>
               (let scopes = scopes_for subject feature period at
                in case usage_call (rd_mget (ue_redis env) (map sc_key scopes)) w1 of
                     (Inl e, w2) \<Rightarrow> (Inl (fail_closed e), memo, w2)
                   | (Inr values, w2) \<Rightarrow>
                       (case check_scopes env feature period (zip scopes values) memo w2 of
                          (Inl e, memo', w3) \<Rightarrow> (Inl (fail_closed e), memo', w3)
                        | (Inr [], memo', w3) \<Rightarrow>
                            (Inl (fail_closed (OtherExn ''Reduce of empty array'')), memo', w3)
                        | (Inr (s # ss), memo', w3) \<Rightarrow> (Inr (tightest_of s ss), memo', w3)))))"

section \<open>Consuming\<close>

definition usage_exceeded :: "usage_snapshot \<Rightarrow> exn" where
  "usage_exceeded s =
     api_error_headers 429 USAGE_LIMIT_EXCEEDED ''Usage limit exceeded for this period.''
       (JObj [(''feature'', JStr (sn_feature s)), (''period'', JStr (period_name (sn_period s))),
              (''limit'', JNum (sn_limit s)), (''remaining'', JNum 0)])
       [(''Retry-After'', show_int (sn_retryAfter s))]"

fun rollback :: "'s usage_env \<Rightarrow> string list \<Rightarrow> 's usage_world \<Rightarrow> 's usage_world" where
  "rollback env [] w = w"
| "rollback env (k # ks) w =
     (case usage_call (rd_decr (ue_redis env) k) w of
        (Inr _, w') \<Rightarrow> rollback env ks w'
      | (Inl e, w') \<Rightarrow>
          rollback env ks (w'\<lparr>uw_lostRollbacks := uw_lostRollbacks w' @ [k]\<rparr>))"

text \<open>The first loop: every period must have something left.\<close>

fun precheck ::
  "'s usage_env \<Rightarrow> usage_subject \<Rightarrow> string \<Rightarrow> usage_period list \<Rightarrow> plan_memo \<Rightarrow>
     's usage_world \<Rightarrow> (exn + unit) \<times> plan_memo \<times> 's usage_world" where
  "precheck env subject feature [] memo w = (Inr (), memo, w)"
| "precheck env subject feature (period # periods) memo w =
     (case usage_check env subject feature period memo w of
        (Inl e, memo', w') \<Rightarrow> (Inl e, memo', w')
      | (Inr snapshot, memo', w') \<Rightarrow>
          (if js_not_positive (sn_remaining snapshot)
           then (Inl (usage_exceeded snapshot), memo', w')
           else precheck env subject feature periods memo' w'))"

text \<open>
  The inner loop of the second phase. The list of the keys applied so far comes back beside
  the outcome, because the \<open>catch\<close> rolls back what it holds; \<open>rollback\<close> empties it.
\<close>

fun apply_scopes ::
  "'s usage_env \<Rightarrow> string \<Rightarrow> usage_period \<Rightarrow> int \<Rightarrow> usage_scope list \<Rightarrow> string list \<Rightarrow>
     plan_memo \<Rightarrow> 's usage_world \<Rightarrow>
     (exn + unit) \<times> string list \<times> plan_memo \<times> 's usage_world" where
  "apply_scopes env feature period ttl [] applied memo w = (Inr (), applied, memo, w)"
| "apply_scopes env feature period ttl (scope # scopes) applied memo w =
     (case ceiling_for_owner env (sc_owner scope) feature period memo of
        (Inl e, memo') \<Rightarrow> (Inl e, applied, memo', w)
      | (Inr limit, memo') \<Rightarrow>
          (case usage_call (rd_incr (ue_redis env) (sc_key scope)) w of
             (Inl e, w1) \<Rightarrow> (Inl e, applied, memo', w1)
           | (Inr nxt, w1) \<Rightarrow>
               (let applied' = applied @ [sc_key scope]
                in case (if nxt = 1
                         then usage_call (rd_expire (ue_redis env) (sc_key scope) ttl) w1
                         else (Inr (), w1)) of
                     (Inl e, w2) \<Rightarrow> (Inl e, applied', memo', w2)
                   | (Inr _, w2) \<Rightarrow>
                       (if nxt > limit
                        then (Inl (usage_exceeded
                                \<lparr>sn_feature = feature, sn_period = period, sn_used = JInt limit,
                                 sn_limit = limit, sn_remaining = JInt 0, sn_retryAfter = ttl\<rparr>),
                              [], memo', rollback env applied' w2)
                        else apply_scopes env feature period ttl scopes applied' memo' w2))))"

fun apply_periods ::
  "'s usage_env \<Rightarrow> usage_subject \<Rightarrow> string \<Rightarrow> usage_period list \<Rightarrow> string list \<Rightarrow> plan_memo \<Rightarrow>
     's usage_world \<Rightarrow> (exn + unit) \<times> string list \<times> plan_memo \<times> 's usage_world" where
  "apply_periods env subject feature [] applied memo w = (Inr (), applied, memo, w)"
| "apply_periods env subject feature (period # periods) applied memo w =
     (case read_clock env w of
        (at1, w1) \<Rightarrow>
          (case read_clock env w1 of
             (at2, w2) \<Rightarrow>
               (case apply_scopes env feature period (seconds_until_period_end period at1)
                       (scopes_for subject feature period at2) applied memo w2 of
                  (Inl e, applied', memo', w3) \<Rightarrow> (Inl e, applied', memo', w3)
                | (Inr _, applied', memo', w3) \<Rightarrow>
                    apply_periods env subject feature periods applied' memo' w3)))"

definition consume ::
  "'s usage_env \<Rightarrow> usage_subject \<Rightarrow> string \<Rightarrow> usage_period list \<Rightarrow> 's usage_world \<Rightarrow>
     (exn + unit) \<times> 's usage_world" where
  "consume env subject feature periods w =
     (case assert_usage_feature feature of
        Inl e \<Rightarrow> (Inl e, w)
      | Inr _ \<Rightarrow>
          (case precheck env subject feature periods Map.empty w of
             (Inl e, _, w1) \<Rightarrow> (Inl e, w1)
           | (Inr _, memo, w1) \<Rightarrow>
               (case apply_periods env subject feature periods [] memo w1 of
                  (Inr _, _, _, w2) \<Rightarrow> (Inr (), w2)
                | (Inl e, applied, _, w2) \<Rightarrow>
                    (case e of
                       ApiExn a \<Rightarrow> (Inl (ApiExn a), w2)
                     | _ \<Rightarrow> (Inl usage_unavailable, rollback env applied w2)))))"

section \<open>Snapshots for operators\<close>

fun snapshot_features ::
  "'s usage_env \<Rightarrow> usage_subject \<Rightarrow> string list \<Rightarrow> plan_memo \<Rightarrow> 's usage_world \<Rightarrow>
     (exn + usage_snapshot list) \<times> 's usage_world" where
  "snapshot_features env subject [] memo w = (Inr [], w)"
| "snapshot_features env subject (item # items) memo w =
     (case usage_check env subject item Day_Period memo w of
        (Inl e, _, w1) \<Rightarrow> (Inl e, w1)
      | (Inr day, memo1, w1) \<Rightarrow>
          (case usage_check env subject item Week_Period memo1 w1 of
             (Inl e, _, w2) \<Rightarrow> (Inl e, w2)
           | (Inr week, memo2, w2) \<Rightarrow>
               (case snapshot_features env subject items memo2 w2 of
                  (Inl e, w3) \<Rightarrow> (Inl e, w3)
                | (Inr out, w3) \<Rightarrow> (Inr (day # week # out), w3))))"

definition snapshots_for_user ::
  "'s usage_env \<Rightarrow> string \<Rightarrow> string option \<Rightarrow> 's usage_world \<Rightarrow>
     (exn + usage_snapshot list) \<times> 's usage_world" where
  "snapshots_for_user env userId feature w =
     (case (case feature of Some f \<Rightarrow> assert_usage_feature f | None \<Rightarrow> Inr ()) of
        Inl e \<Rightarrow> (Inl e, w)
      | Inr _ \<Rightarrow>
          snapshot_features env (usage_subject_of userId)
            (case feature of Some f \<Rightarrow> (if f \<noteq> [] then [f] else usage_feature_list)
             | None \<Rightarrow> usage_feature_list)
            Map.empty w)"

section \<open>The guard\<close>

text \<open>
  \<open>UsageLimitsGuard.canActivate\<close>: the feature is the route's metadata, the organization is
  what \<open>BillingSubjectResolver.resolve\<close> answers, given as an argument.
\<close>

definition usage_guard ::
  "'s usage_env \<Rightarrow> bool \<Rightarrow> string option \<times> string option \<Rightarrow> string option \<Rightarrow>
     (string \<Rightarrow> exn + billing_subject) \<Rightarrow> 's usage_world \<Rightarrow> (exn + bool) \<times> 's usage_world" where
  "usage_guard env http meta principalId billing_of w =
     (if \<not> http then (Inr True, w)
      else
        (case case_prod get_all_and_override meta of
           None \<Rightarrow> (Inr True, w)
         | Some feature \<Rightarrow>
             (if feature = [] then (Inr True, w)
              else
                (case principalId of
                   None \<Rightarrow>
                     (Inl (OtherExn (''@UsageLimit requires an authenticated principal: '' @ feature)), w)
                 | Some u \<Rightarrow>
                     (case billing_of u of
                        Inl e \<Rightarrow> (Inl e, w)
                      | Inr billing \<Rightarrow>
                          (case consume env
                                  \<lparr>us_actorUserId = u, us_billing = owner_org billing\<rparr>
                                  feature [Day_Period, Week_Period] w of
                             (Inl e, w') \<Rightarrow> (Inl e, w')
                           | (Inr _, w') \<Rightarrow> (Inr True, w')))))))"

end
