(* ===== verification/UsageLemmas.thy ===== *)
theory UsageLemmas
  imports UsageLimits
begin

text \<open>
  The effect of the usage meter on the counters of a Redis that keeps its documented
  behaviour (the locale \<open>redis_store\<close>). \<open>rv_num\<close> reads a counter as a number, zero when
  the key is absent or holds something else; every command the meter sends changes it by a
  known amount, whether the command answers or fails.
\<close>

definition rv_num :: "rview \<Rightarrow> string \<Rightarrow> int" where
  "rv_num v k = (case rv_count v k of Some n \<Rightarrow> n | None \<Rightarrow> 0)"

lemma used_of_text: "used_of (rv_text v k) = JInt n \<Longrightarrow> n = rv_num v k"
  by (auto simp: rv_num_def rv_count_def split: option.splits if_splits)

lemma sem_incrby_num:
  assumes "sem_incrby d k v = (Inr n, v')"
  shows "rv_num v' = (rv_num v)(k := rv_num v k + d)" and "n = rv_num v k + d"
  using rv_count_incrby[OF assms] by (auto simp: rv_num_def fun_eq_iff split: option.split)

lemma sem_incrby_Inl: "sem_incrby d k v = (Inl e, v') \<Longrightarrow> v' = v"
  by (auto simp: sem_incrby_def split: option.splits)

lemma sem_expire_num:
  assumes "sem_expire k secs v = (Inr (), v')" and "0 < secs"
  shows "rv_num v' = rv_num v"
  using rv_count_pexpire(1)[of k "1000 * secs" v v'] assms
  by (auto simp: sem_expire_def rv_num_def)

text \<open>A memo answers what the resolution answers.\<close>

definition memo_ok :: "'s usage_env \<Rightarrow> plan_memo \<Rightarrow> bool" where
  "memo_ok env memo \<longleftrightarrow>
     (\<forall>owner p. memo (memo_key owner) = Some p \<longrightarrow>
        (\<exists>resolve. ue_plans env = Some resolve \<and> resolve owner = Inr p))"

definition plans_ok :: "'s usage_env \<Rightarrow> bool" where
  "plans_ok env \<longleftrightarrow>
     (\<forall>resolve owner e. ue_plans env = Some resolve \<longrightarrow> resolve owner = Inl e \<longrightarrow> api_code e = None)"

definition owner_ceiling ::
  "'s usage_env \<Rightarrow> billing_subject \<Rightarrow> string \<Rightarrow> usage_period \<Rightarrow> exn + int" where
  "owner_ceiling env owner feature period =
     fst (ceiling_for_owner env owner feature period Map.empty)"

lemma memo_key_inject [simp]: "memo_key a = memo_key b \<longleftrightarrow> a = b"
  by (cases a; cases b) auto

lemma memo_ok_empty [simp]: "memo_ok env Map.empty"
  by (simp add: memo_ok_def)

lemma memo_ok_put:
  "memo_ok env memo \<Longrightarrow> ue_plans env = Some resolve \<Longrightarrow> resolve owner = Inr p \<Longrightarrow>
   memo_ok env (memo(memo_key owner \<mapsto> p))"
  by (simp add: memo_ok_def)

lemma memo_ok_get:
  "memo_ok env memo \<Longrightarrow> ue_plans env = Some resolve \<Longrightarrow> memo (memo_key owner) = Some p \<Longrightarrow>
   resolve owner = Inr p"
  by (simp add: memo_ok_def)

definition plan_ceiling :: "'s usage_env \<Rightarrow> effective_plan \<Rightarrow> string \<Rightarrow> usage_period \<Rightarrow> exn + int" where
  "plan_ceiling env p feature period =
     (case usage_ceiling p feature period of
        Inl e \<Rightarrow> Inl e
      | Inr (Some n) \<Rightarrow> Inr n
      | Inr None \<Rightarrow> Inr (config_ceiling (ue_config env) feature period))"

lemma ceiling_for_owner_eq:
  assumes "memo_ok env memo"
  shows "ceiling_for_owner env owner feature period memo =
     (case ue_plans env of
        None \<Rightarrow> (Inr (config_ceiling (ue_config env) feature period), memo)
      | Some resolve \<Rightarrow>
          (case resolve owner of
             Inl e \<Rightarrow> (Inl e, memo)
           | Inr p \<Rightarrow> (plan_ceiling env p feature period, memo(memo_key owner \<mapsto> p))))"
proof (cases "ue_plans env")
  case None
  then show ?thesis by (simp add: ceiling_for_owner_def)
next
  case (Some resolve)
  have tail: "(case usage_ceiling p feature period of
      Inl e \<Rightarrow> (Inl e, m) | Inr None \<Rightarrow> (Inr (config_ceiling (ue_config env) feature period), m)
    | Inr (Some n) \<Rightarrow> (Inr n, m)) = (plan_ceiling env p feature period, m)" for p and m :: plan_memo
    by (simp add: plan_ceiling_def split: sum.split option.split)
  show ?thesis
  proof (cases "memo (memo_key owner)")
    case None
    with Some show ?thesis
      unfolding ceiling_for_owner_def by (cases "resolve owner") (simp_all add: tail)
  next
    case hit: (Some p)
    have r: "resolve owner = Inr p" 
      by (rule memo_ok_get[where memo = memo and owner = owner and p = p, OF assms Some hit])
    have "ceiling_for_owner env owner feature period memo = (plan_ceiling env p feature period, memo)"
      unfolding ceiling_for_owner_def Some hit option.case sum.case prod.case
      by (simp only: plan_ceiling_def) (simp split: sum.split option.split)
    then show ?thesis
      unfolding Some option.case r sum.case map_upd_triv[where t = memo and k = "memo_key owner" and x = p, OF hit] .
  qed
qed

lemma ceiling_memo:
  assumes "memo_ok env memo"
  shows "fst (ceiling_for_owner env owner feature period memo) = owner_ceiling env owner feature period"
    and "memo_ok env (snd (ceiling_for_owner env owner feature period memo))"
  unfolding owner_ceiling_def ceiling_for_owner_eq[OF assms] ceiling_for_owner_eq[OF memo_ok_empty]
  using assms by (auto split: option.split sum.split intro: memo_ok_put)

lemma plan_ceiling_error: "plan_ceiling env p feature period = Inl e \<Longrightarrow> api_code e = None"
proof (cases "usage_ceiling p feature period")
  case (Inl e')
  assume "plan_ceiling env p feature period = Inl e"
  with Inl have "usage_ceiling p feature period = Inl e" by (simp add: plan_ceiling_def)
  then have "e = OtherExn (''Unknown usage feature '' @ feature)"
    unfolding usage_ceiling_def assert_usage_feature_def
    by (cases "is_usage_feature feature") simp_all
  then show ?thesis by simp
next
  case (Inr n)
  assume "plan_ceiling env p feature period = Inl e"
  with Inr show ?thesis by (cases n) (simp_all add: plan_ceiling_def)
qed

lemma ceiling_error:
  assumes "plans_ok env" and "memo_ok env memo"
    and "ceiling_for_owner env owner feature period memo = (Inl e, memo')"
  shows "api_code e = None"
proof (cases "ue_plans env")
  case None
  with assms(3) show ?thesis by (simp add: ceiling_for_owner_eq[OF assms(2)])
next
  case (Some resolve)
  show ?thesis
  proof (cases "resolve owner")
    case (Inl e')
    with Some assms(1,3) show ?thesis by (auto simp: ceiling_for_owner_eq[OF assms(2)] plans_ok_def)
  next
    case (Inr p)
    with Some assms(3) show ?thesis
      by (auto simp: ceiling_for_owner_eq[OF assms(2)] dest: plan_ceiling_error)
  qed
qed

lemma api_code_None_fail_closed: "api_code e = None \<Longrightarrow> fail_closed e = usage_unavailable"
  by (cases e) (auto simp: fail_closed_def)

lemma api_code_usage_exceeded [simp]: "api_code (usage_exceeded s) = Some USAGE_LIMIT_EXCEEDED"
  by (simp add: usage_exceeded_def)

lemma read_clock_world [simp]:
  "uw_conn (snd (read_clock env w)) = uw_conn w"
  "uw_lostRollbacks (snd (read_clock env w)) = uw_lostRollbacks w"
  by (simp_all add: read_clock_def)

lemma usage_call_world:
  "usage_call cmd w = (r, w') \<Longrightarrow>
   cmd (uw_conn w) = (r, uw_conn w') \<and> uw_lostRollbacks w' = uw_lostRollbacks w"
  by (auto simp: usage_call_def split: prod.splits)

section \<open>Counters under a working client\<close>

context redis_store
begin

definition N :: "'s usage_world \<Rightarrow> string \<Rightarrow> int" where
  "N w = rv_num (view (uw_conn w))"

lemma N_reads [simp]: "N (w\<lparr>uw_reads := n\<rparr>) = N w" "N (w\<lparr>uw_lostRollbacks := l\<rparr>) = N w"
  by (simp_all add: N_def)

lemma N_incr:
  assumes "usage_call (rd_incr R k) w = (Inr n, w')"
  shows "N w' = (N w)(k := N w k + 1)" and "n = N w k + 1"
    and "uw_lostRollbacks w' = uw_lostRollbacks w"
  using usage_call_world[OF assms] sem_incrby_num[OF does_command_ok[OF does_incr]]
  by (auto simp: N_def)

lemma N_incr_fail:
  assumes "usage_call (rd_incr R k) w = (Inl e, w')"
  shows "api_code e = None" and "N w' = N w \<or> N w' = (N w)(k := N w k + 1)"
    and "uw_lostRollbacks w' = uw_lostRollbacks w"
  using usage_call_world[OF assms] does_command_fail[OF does_incr] sem_incrby_num
  by (auto simp: N_def) metis+

lemma N_decr:
  assumes "usage_call (rd_decr R k) w = (Inr n, w')"
  shows "N w' = (N w)(k := N w k - 1)" and "uw_lostRollbacks w' = uw_lostRollbacks w"
  using usage_call_world[OF assms] sem_incrby_num[OF does_command_ok[OF does_decr]]
  by (auto simp: N_def)

lemma N_decr_fail:
  assumes "usage_call (rd_decr R k) w = (Inl e, w')"
  shows "N w' = N w \<or> N w' = (N w)(k := N w k - 1)"
    and "uw_lostRollbacks w' = uw_lostRollbacks w"
  using usage_call_world[OF assms] does_command_fail[OF does_decr] sem_incrby_num[of "- 1"]
  by (auto simp: N_def) (metis add_uminus_conv_diff)

lemma N_expire:
  assumes "usage_call (rd_expire R k secs) w = (r, w')" and "0 < secs"
  shows "N w' = N w" and "r = Inl e \<Longrightarrow> api_code e = None"
    and "uw_lostRollbacks w' = uw_lostRollbacks w"
proof -
  from usage_call_world[OF assms(1)] have c: "rd_expire R k secs (uw_conn w) = (r, uw_conn w')"
    and l: "uw_lostRollbacks w' = uw_lostRollbacks w"
    by auto
  show "N w' = N w"
  proof (cases r)
    case (Inl e)
    with c does_command_fail(2)[OF does_expire, of k secs "uw_conn w" e] sem_expire_num[OF _ assms(2)]
    show ?thesis by (auto simp: N_def)
  next
    case (Inr u)
    with c does_command_ok[OF does_expire, of k secs "uw_conn w"] sem_expire_num[OF _ assms(2)]
    show ?thesis by (auto simp: N_def)
  qed
  show "r = Inl e \<Longrightarrow> api_code e = None"
    using c does_command_fail(1)[OF does_expire] by blast
  show "uw_lostRollbacks w' = uw_lostRollbacks w" by (rule l)
qed

lemma N_mget:
  assumes "usage_call (rd_mget R ks) w = (r, w')"
  shows "N w' = N w" and "r = Inr vs \<Longrightarrow> vs = map (rv_text (view (uw_conn w))) ks"
    and "r = Inl e \<Longrightarrow> api_code e = None" and "uw_lostRollbacks w' = uw_lostRollbacks w"
proof -
  from usage_call_world[OF assms] have c: "rd_mget R ks (uw_conn w) = (r, uw_conn w')"
    and l: "uw_lostRollbacks w' = uw_lostRollbacks w"
    by auto
  show "N w' = N w"
    using c does_command_ok[OF does_mget, of ks "uw_conn w"]
      does_command_fail(2)[OF does_mget, of ks "uw_conn w"]
    by (cases r) (auto simp: N_def sem_mget_def)
  show "r = Inr vs \<Longrightarrow> vs = map (rv_text (view (uw_conn w))) ks"
    using c does_command_ok[OF does_mget, of ks "uw_conn w" vs] by (auto simp: sem_mget_def)
  show "r = Inl e \<Longrightarrow> api_code e = None"
    using c does_command_fail(1)[OF does_mget] by blast
  show "uw_lostRollbacks w' = uw_lostRollbacks w" by (rule l)
qed

text \<open>A rollback takes off what it was given, except where a failure was reported.\<close>

lemma N_rollback:
  assumes "ue_redis env = R"
  shows "\<exists>l. uw_lostRollbacks (rollback env ks w) = uw_lostRollbacks w @ l \<and>
             (\<forall>k. N w k - int (count_list ks k) \<le> N (rollback env ks w) k \<and>
                  N (rollback env ks w) k
                    \<le> N w k - int (count_list ks k) + int (count_list l k))"
proof (induction ks arbitrary: w)
  case Nil
  then show ?case by simp
next
  case (Cons a ks)
  obtain r w1 where c: "usage_call (rd_decr R a) w = (r, w1)" by (cases "usage_call (rd_decr R a) w")
  show ?case
  proof (cases r)
    case (Inr n)
    from Cons.IH[of w1] obtain l where
      l: "uw_lostRollbacks (rollback env ks w1) = uw_lostRollbacks w1 @ l"
        "\<And>k. N w1 k - int (count_list ks k) \<le> N (rollback env ks w1) k"
        "\<And>k. N (rollback env ks w1) k \<le> N w1 k - int (count_list ks k) + int (count_list l k)"
      by blast
    from c Inr N_decr[of a w n w1] have "N w1 = (N w)(a := N w a - 1)"
      "uw_lostRollbacks w1 = uw_lostRollbacks w"
      by auto
    note w1 = this
    have "N w k - int (count_list (a # ks) k) \<le> N (rollback env ks w1) k \<and>
          N (rollback env ks w1) k
            \<le> N w k - int (count_list (a # ks) k) + int (count_list l k)" for k
      using l(2,3)[of k] w1(1) by (auto split: if_splits)
    with l(1) w1(2) c Inr assms show ?thesis
      by (intro exI[of _ l]) auto
  next
    case (Inl e)
    let ?w1 = "w1\<lparr>uw_lostRollbacks := uw_lostRollbacks w1 @ [a]\<rparr>"
    from Cons.IH[of ?w1] obtain l where
      l: "uw_lostRollbacks (rollback env ks ?w1) = uw_lostRollbacks w1 @ [a] @ l"
        "\<And>k. N w1 k - int (count_list ks k) \<le> N (rollback env ks ?w1) k"
        "\<And>k. N (rollback env ks ?w1) k \<le> N w1 k - int (count_list ks k) + int (count_list l k)"
      by auto
    from c Inl N_decr_fail[of a w e w1] have d: "N w1 = N w \<or> N w1 = (N w)(a := N w a - 1)"
      and lw: "uw_lostRollbacks w1 = uw_lostRollbacks w"
      by auto
    have "N w k - int (count_list (a # ks) k) \<le> N (rollback env ks ?w1) k \<and>
          N (rollback env ks ?w1) k
            \<le> N w k - int (count_list (a # ks) k) + int (count_list (a # l) k)" for k
      using l(2,3)[of k] d by (auto split: if_splits)
    with l(1) lw c Inl assms show ?thesis
      by (intro exI[of _ "a # l"]) auto
  qed
qed

end

end
