(* ===== verification/UsageContract.thy ===== *)
theory UsageContract
  imports UsageLemmas
begin

text \<open>
  What one call of \<open>consume\<close> does to the counters, whatever the client answers: the lemmas
  of the loops, over any Redis with the documented behaviour.
\<close>

section \<open>Keys\<close>

text \<open>The scopes the second phase walks through, when its first clock reading is the n-th.\<close>

fun planned_scopes ::
  "'s usage_env \<Rightarrow> usage_subject \<Rightarrow> string \<Rightarrow> usage_period list \<Rightarrow> nat \<Rightarrow>
     (usage_period \<times> usage_scope) list" where
  "planned_scopes env subject feature [] n = []"
| "planned_scopes env subject feature (p # ps) n =
     map (Pair p) (scopes_for subject feature p (ue_clock env (Suc n))) @
     planned_scopes env subject feature ps (Suc (Suc n))"

definition planned_keys ::
  "'s usage_env \<Rightarrow> usage_subject \<Rightarrow> string \<Rightarrow> usage_period list \<Rightarrow> nat \<Rightarrow> string list" where
  "planned_keys env subject feature periods n =
     map (sc_key \<circ> snd) (planned_scopes env subject feature periods n)"

lemma scopes_distinct: "distinct (map sc_key (scopes_for subject feature p at))"
  by (auto simp: scopes_for_def usage_key_def split: option.split)

lemma usage_key_period: "usage_key p a f x = usage_key q b g y \<Longrightarrow> p = q"
  by (cases p; cases q) (auto simp: usage_key_def)

lemma scope_key_form: "sc \<in> set (scopes_for subject feature p at) \<Longrightarrow>
  \<exists>x. sc_key sc = usage_key p at feature x"
  by (auto simp: scopes_for_def split: option.splits)

lemma planned_period:
  "(p, sc) \<in> set (planned_scopes env subject feature ps n) \<Longrightarrow>
   p \<in> set ps \<and> (\<exists>i. sc \<in> set (scopes_for subject feature p (ue_clock env i)))"
  by (induction env subject feature ps n rule: planned_scopes.induct) auto

lemma planned_distinct: "distinct ps \<Longrightarrow> distinct (planned_keys env subject feature ps n)"
proof (induction env subject feature ps n rule: planned_scopes.induct)
  case (2 env subject feature p ps n)
  have "sc_key sc \<noteq> sc_key sc'"
    if "sc \<in> set (scopes_for subject feature p (ue_clock env (Suc n)))"
      and "(q, sc') \<in> set (planned_scopes env subject feature ps (Suc (Suc n)))" for sc q sc'
    using planned_period[OF that(2)] scope_key_form[OF that(1)] scope_key_form 2(2)
      usage_key_period by (metis distinct.simps(2))
  with 2 show ?case
    using scopes_distinct[of subject feature p]
    by (force simp: planned_keys_def comp_def distinct_map)
qed (simp add: planned_keys_def)

lemma seconds_positive: "0 < seconds_until_period_end p at"
  by (cases p) (auto simp: seconds_up_def split: prod.split)

text \<open>Some counter the subject is metered against stands at its own ceiling or above.\<close>

definition scope_full ::
  "'s usage_env \<Rightarrow> usage_subject \<Rightarrow> string \<Rightarrow> usage_period list \<Rightarrow> (string \<Rightarrow> int) \<Rightarrow> bool" where
  "scope_full env subject feature ps n \<longleftrightarrow>
     (\<exists>i. \<exists>p\<in>set ps. \<exists>sc\<in>set (scopes_for subject feature p (ue_clock env i)).
        \<exists>limit. owner_ceiling env (sc_owner sc) feature p = Inr limit \<and> limit \<le> n (sc_key sc))"

lemma scope_full_mono:
  "scope_full env subject feature ps n \<Longrightarrow> set ps \<subseteq> set qs \<Longrightarrow> scope_full env subject feature qs n"
  unfolding scope_full_def by blast

section \<open>Checking\<close>

lemma tightest_member: "tightest_of s ss \<in> set (s # ss)"
proof -
  have "foldl (\<lambda>a b. if js_less (sn_remaining b) (sn_remaining a) then b else a) s ss
          \<in> set (s # ss)" for s
  proof (induction ss arbitrary: s)
    case (Cons a ss)
    then show ?case using Cons[of s] Cons[of a] by auto
  qed simp
  then show ?thesis unfolding tightest_of_def .
qed

lemma check_scopes_effect:
  assumes "plans_ok env" and "memo_ok env memo"
    and "check_scopes env feature p svs memo w = (r, memo', w')"
  shows "uw_conn w' = uw_conn w \<and> uw_lostRollbacks w' = uw_lostRollbacks w \<and> memo_ok env memo' \<and>
         (case r of
            Inl e \<Rightarrow> api_code e = None
          | Inr ss \<Rightarrow> length ss = length svs \<and>
              (\<forall>s\<in>set ss. \<exists>(sc, v)\<in>set svs.
                 owner_ceiling env (sc_owner sc) feature p = Inr (sn_limit s) \<and>
                 sn_remaining s = remaining_of (sn_limit s) (used_of v)))"
  using assms(2,3)
proof (induction svs arbitrary: memo w r memo' w')
  case Nil
  then show ?case by auto
next
  case (Cons sv svs)
  obtain sc v where sv: "sv = (sc, v)" by (cases sv)
  obtain c memo1 where c: "ceiling_for_owner env (sc_owner sc) feature p memo = (c, memo1)"
    by (cases "ceiling_for_owner env (sc_owner sc) feature p memo")
  have m1: "memo_ok env memo1" "c = owner_ceiling env (sc_owner sc) feature p"
    using ceiling_memo[OF Cons.prems(1), of "sc_owner sc" feature p] c by auto
  show ?case
  proof (cases c)
    case (Inl e)
    with Cons.prems(2) c sv have "r = Inl e" "memo' = memo1" "w' = w" by auto
    with m1(1) ceiling_error[OF assms(1) Cons.prems(1) c[unfolded Inl]] show ?thesis by simp
  next
    case (Inr limit)
    obtain at w1 where rc: "read_clock env w = (at, w1)" by (cases "read_clock env w")
    obtain r2 m2 w2 where tail: "check_scopes env feature p svs memo1 w1 = (r2, m2, w2)"
      by (metis prod_cases3)
    note ih = Cons.IH[OF m1(1) tail]
    have w1: "uw_conn w1 = uw_conn w" "uw_lostRollbacks w1 = uw_lostRollbacks w"
      using rc by (auto simp: read_clock_def)
    show ?thesis
    proof (cases r2)
      case (Inl e)
      with Cons.prems(2) c sv Inr rc tail ih w1 show ?thesis by auto
    next
      case r2: (Inr ss)
      with Cons.prems(2) c sv Inr rc tail
      have "r = Inr (\<lparr>sn_feature = feature, sn_period = p, sn_used = used_of v, sn_limit = limit,
               sn_remaining = remaining_of limit (used_of v),
               sn_retryAfter = seconds_until_period_end p at\<rparr> # ss)" "memo' = m2" "w' = w2"
        by (auto simp: Let_def)
      with ih w1 r2 m1(2) Inr sv show ?thesis by (auto split: sum.splits)
    qed
  qed
qed

section \<open>Incrementing\<close>

text \<open>
  What a stretch of the second phase did: on success it applied the keys \<open>full\<close>; on an error
  of the storage it applied what the list says, and one increment more if the failed command
  took effect; on a refusal it took off all that had been applied, but for the losses \<open>l\<close>
  that were reported.
\<close>

definition phase_effect ::
  "string list \<Rightarrow> (string \<Rightarrow> int) \<Rightarrow> (string \<Rightarrow> int) \<Rightarrow> string list \<Rightarrow> string list \<Rightarrow>
     string list \<Rightarrow> exn + unit \<Rightarrow> bool" where
  "phase_effect full n n' applied applied' l r \<longleftrightarrow>
     (case r of
        Inr _ \<Rightarrow> l = [] \<and> applied' = applied @ full \<and> (\<forall>k. n' k = n k + int (count_list full k))
      | Inl e \<Rightarrow>
          api_code e = None \<and> l = [] \<and>
          (\<exists>ks q. applied' = applied @ ks \<and>
             (\<forall>k. n' k = n k + int (count_list ks k) + (if q = Some k then 1 else 0))) \<or>
          (\<exists>s. e = usage_exceeded s) \<and> applied' = [] \<and>
          (\<forall>k. n k - int (count_list applied k) \<le> n' k \<and>
               n' k \<le> n k - int (count_list applied k) + int (count_list l k)))"

lemma phase_effect_Cons:
  assumes "phase_effect full (n(a := n a + 1)) n' (applied @ [a]) applied' l r"
  shows "phase_effect (a # full) n n' applied applied' l r"
proof (cases r)
  case (Inr u)
  with assms show ?thesis by (auto simp: phase_effect_def)
next
  case (Inl e)
  from assms[unfolded phase_effect_def Inl sum.case] show ?thesis
  proof (elim disjE conjE exE)
    fix ks q
    assume e: "api_code e = None" "l = []" and "applied' = (applied @ [a]) @ ks"
      and n: "\<forall>k. n' k = (n(a := n a + 1)) k + int (count_list ks k) + (if q = Some k then 1 else 0)"
    then have "applied' = applied @ (a # ks)" by simp
    moreover have "\<forall>k. n' k = n k + int (count_list (a # ks) k) + (if q = Some k then 1 else 0)"
      using n by auto
    ultimately show ?thesis unfolding phase_effect_def Inl sum.case using e by blast
  next
    fix s
    assume "e = usage_exceeded s" "applied' = []"
      and "\<forall>k. (n(a := n a + 1)) k - int (count_list (applied @ [a]) k) \<le> n' k \<and>
             n' k \<le> (n(a := n a + 1)) k - int (count_list (applied @ [a]) k) + int (count_list l k)"
    then show ?thesis unfolding phase_effect_def Inl sum.case by (auto split: if_splits)
  qed
qed

lemma phase_effect_append:
  assumes "phase_effect full1 n n1 applied applied1 [] (Inr u)"
    and "phase_effect full2 n1 n' applied1 applied' l r"
  shows "phase_effect (full1 @ full2) n n' applied applied' l r"
proof -
  have n1: "n1 = (\<lambda>k. n k + int (count_list full1 k))" "applied1 = applied @ full1"
    using assms(1) by (auto simp: phase_effect_def)
  show ?thesis
  proof (cases r)
    case (Inr u)
    with assms(2) n1 show ?thesis by (auto simp: phase_effect_def)
  next
    case (Inl e)
    from assms(2)[unfolded phase_effect_def Inl sum.case n1] show ?thesis
    proof (elim disjE conjE exE)
      fix ks q
      assume e: "api_code e = None" "l = []" and "applied' = (applied @ full1) @ ks"
        and n: "\<forall>k. n' k = n k + int (count_list full1 k) + int (count_list ks k)
                  + (if q = Some k then 1 else 0)"
      then have "applied' = applied @ (full1 @ ks)"
        "\<forall>k. n' k = n k + int (count_list (full1 @ ks) k) + (if q = Some k then 1 else 0)"
        by auto
      then show ?thesis unfolding phase_effect_def Inl sum.case using e by blast
    qed (auto simp: phase_effect_def Inl)
  qed
qed

lemma usage_call_reads: "usage_call cmd w = (r, w') \<Longrightarrow> uw_reads w' = uw_reads w"
  by (auto simp: usage_call_def split: prod.splits)

lemma rollback_reads [simp]: "uw_reads (rollback env ks w) = uw_reads w"
  by (induction env ks w rule: rollback.induct)
    (auto split: prod.splits sum.splits dest: usage_call_reads)

lemma apply_scopes_reads:
  "apply_scopes env feature p ttl scopes applied memo w = (r, applied', memo', w') \<Longrightarrow>
   uw_reads w' = uw_reads w"
  by (induction scopes arbitrary: applied memo w)
    (auto simp: Let_def split: prod.splits sum.splits if_splits dest!: usage_call_reads)

lemma distinct_count_list: "distinct xs \<Longrightarrow> x \<in> set xs \<Longrightarrow> count_list xs x = 1"
  by (induction xs) (auto simp: count_list_0_iff)

context redis_store
begin

lemma usage_check_effect:
  assumes "ue_redis env = R" and "plans_ok env" and "memo_ok env memo" and "is_usage_feature feature"
    and run: "usage_check env subject feature p memo w = (r, memo', w')"
  shows "N w' = N w \<and> uw_lostRollbacks w' = uw_lostRollbacks w \<and> memo_ok env memo' \<and>
         (case r of
            Inl e \<Rightarrow> e = usage_unavailable
          | Inr s \<Rightarrow> js_not_positive (sn_remaining s) \<longrightarrow> scope_full env subject feature [p] (N w))"
proof -
  let ?scopes = "scopes_for subject feature p (ue_clock env (uw_reads w))"
  let ?w1 = "w\<lparr>uw_reads := Suc (uw_reads w)\<rparr>"
  obtain v w2 where mg: "usage_call (rd_mget R (map sc_key ?scopes)) ?w1 = (v, w2)"
    by (cases "usage_call (rd_mget R (map sc_key ?scopes)) ?w1")
  have w2: "N w2 = N w" "uw_lostRollbacks w2 = uw_lostRollbacks w"
    using N_mget(1,4)[OF mg] by simp_all
  note step = run[unfolded usage_check_def assert_usage_feature_def read_clock_def]
  show ?thesis
  proof (cases v)
    case (Inl e)
    with step mg assms(1,4) have "r = Inl (fail_closed e)" "memo' = memo" "w' = w2" by auto
    with w2 assms(3) N_mget(3)[OF mg Inl] show ?thesis by (simp add: api_code_None_fail_closed)
  next
    case (Inr vs)
    have vs: "vs = map (rv_text (view (uw_conn w))) (map sc_key ?scopes)"
      using N_mget(2)[OF mg Inr] by simp
    obtain c m3 w3 where cs: "check_scopes env feature p (zip ?scopes vs) memo w2 = (c, m3, w3)"
      by (metis prod_cases3)
    note eff = check_scopes_effect[OF assms(2,3) cs]
    have w3: "N w3 = N w" "uw_lostRollbacks w3 = uw_lostRollbacks w" "memo_ok env m3"
      using eff w2 by (auto simp: N_def)
    show ?thesis
    proof (cases c)
      case (Inl e)
      with step mg assms(1,4) Inr cs have "r = Inl (fail_closed e)" "memo' = m3" "w' = w3" by auto
      with w3 eff Inl show ?thesis by (simp add: api_code_None_fail_closed)
    next
      case ss: (Inr ss)
      from eff ss vs have len: "length ss = length ?scopes" by simp
      then obtain s rest where cons: "ss = s # rest" by (cases ss) (auto simp: scopes_for_def)
      with step mg assms(1,4) Inr cs ss have r: "r = Inr (tightest_of s rest)" "memo' = m3" "w' = w3"
        by auto
      from eff ss cons tightest_member[of s rest] obtain sc x where
        m: "(sc, x) \<in> set (zip ?scopes vs)"
          "owner_ceiling env (sc_owner sc) feature p = Inr (sn_limit (tightest_of s rest))"
          "sn_remaining (tightest_of s rest) = remaining_of (sn_limit (tightest_of s rest)) (used_of x)"
        by (auto simp del: set_simps)
      have x: "sc \<in> set ?scopes" "x = rv_text (view (uw_conn w)) (sc_key sc)"
        using m(1) vs by (auto simp: set_zip)
      have "sn_limit (tightest_of s rest) \<le> N w (sc_key sc)"
        if "js_not_positive (sn_remaining (tightest_of s rest))"
        using that m(3) used_of_text[of "view (uw_conn w)" "sc_key sc"] x(2)
        by (cases "used_of x") (auto simp: N_def)
      with r w3 m(2) x(1) show ?thesis by (auto simp: scope_full_def)
    qed
  qed
qed

lemma precheck_effect:
  assumes "ue_redis env = R" and "plans_ok env" and "memo_ok env memo" and "is_usage_feature feature"
    and "precheck env subject feature ps memo w = (r, memo', w')"
  shows "N w' = N w \<and> uw_lostRollbacks w' = uw_lostRollbacks w \<and> memo_ok env memo' \<and>
         (case r of
            Inr _ \<Rightarrow> True
          | Inl e \<Rightarrow> e = usage_unavailable \<or>
              (\<exists>s. e = usage_exceeded s) \<and> scope_full env subject feature ps (N w))"
  using assms(3,5)
proof (induction ps arbitrary: memo w)
  case Nil
  then show ?case by auto
next
  case (Cons p ps)
  obtain c m1 w1 where c: "usage_check env subject feature p memo w = (c, m1, w1)"
    by (metis prod_cases3)
  note eff = usage_check_effect[OF assms(1,2) Cons.prems(1) assms(4) c]
  show ?case
  proof (cases c)
    case (Inl e)
    with Cons.prems c eff show ?thesis by auto
  next
    case (Inr s)
    show ?thesis
    proof (cases "js_not_positive (sn_remaining s)")
      case True
      with Cons.prems c Inr have "r = Inl (usage_exceeded s)" "memo' = m1" "w' = w1" by auto
      with eff Inr True show ?thesis by (auto intro: scope_full_mono)
    next
      case False
      with Cons.prems(2) c Inr have "precheck env subject feature ps m1 w1 = (r, memo', w')" by auto
      from Cons.IH[OF _ this] eff show ?thesis
        by (auto split: sum.splits intro: scope_full_mono[where ps = ps])
    qed
  qed
qed

lemma apply_scopes_effect:
  assumes "ue_redis env = R" and "plans_ok env" and "0 < ttl" and "memo_ok env memo"
    and "apply_scopes env feature p ttl scopes applied memo w = (r, applied', memo', w')"
    and "distinct (map sc_key scopes)"
  shows "memo_ok env memo' \<and> (\<exists>l. uw_lostRollbacks w' = uw_lostRollbacks w @ l \<and>
           phase_effect (map sc_key scopes) (N w) (N w') applied applied' l r) \<and>
         (r = Inr () \<longrightarrow> (\<forall>sc\<in>set scopes. \<exists>limit.
             owner_ceiling env (sc_owner sc) feature p = Inr limit \<and> N w (sc_key sc) < limit)) \<and>
         (\<forall>s. r = Inl (usage_exceeded s) \<longrightarrow> (\<exists>sc\<in>set scopes. \<exists>limit.
             owner_ceiling env (sc_owner sc) feature p = Inr limit \<and> limit \<le> N w (sc_key sc)))"
  using assms(4-6)
proof (induction scopes arbitrary: applied memo w)
  case Nil
  then show ?case by (auto simp: phase_effect_def)
next
  case (Cons sc scopes)
  let ?k = "sc_key sc"
  obtain c m1 where c: "ceiling_for_owner env (sc_owner sc) feature p memo = (c, m1)"
    by (cases "ceiling_for_owner env (sc_owner sc) feature p memo")
  have m1: "memo_ok env m1" "owner_ceiling env (sc_owner sc) feature p = c"
    using ceiling_memo[OF Cons.prems(1), of "sc_owner sc" feature p] c by auto
  show ?case
  proof (cases c)
    case (Inl e)
    with Cons.prems(2) c have r: "r = Inl e" "applied' = applied" "memo' = m1" "w' = w" by auto
    have api: "api_code e = None" by (rule ceiling_error[OF assms(2) Cons.prems(1) c[unfolded Inl]])
    then have "phase_effect (map sc_key (sc # scopes)) (N w) (N w') applied applied' [] r"
      unfolding phase_effect_def r sum.case by (intro disjI1 conjI refl exI[of _ "[]"] exI[of _ None]) auto
    with r m1(1) api show ?thesis by (intro conjI exI[of _ "[]"]) auto
  next
    case (Inr limit)
    obtain i w1 where i: "usage_call (rd_incr R ?k) w = (i, w1)" by (cases "usage_call (rd_incr R ?k) w")
    show ?thesis
    proof (cases i)
      case (Inl e)
      with Cons.prems(2) c Inr i assms(1)
      have r: "r = Inl e" "applied' = applied" "memo' = m1" "w' = w1" by auto
      note f = N_incr_fail[OF i[unfolded Inl]]
      have "\<exists>q. \<forall>k. N w1 k = N w k + int (count_list [] k) + (if q = Some k then 1 else 0)"
        using f(2) by (auto intro: exI[of _ None] exI[of _ "Some ?k"])
      then have "phase_effect (map sc_key (sc # scopes)) (N w) (N w') applied applied' [] r"
        unfolding phase_effect_def r sum.case using f(1) by (intro disjI1 conjI refl exI[of _ "[]"]) auto
      with r m1(1) f(1,3) show ?thesis by (intro conjI exI[of _ "[]"]) auto
    next
      case n: (Inr nxt)
      note inc = N_incr[OF i[unfolded n]]
      define x where "x = (if nxt = 1 then usage_call (rd_expire R ?k ttl) w1 else (Inr (), w1))"
      obtain xr w2 where x: "x = (xr, w2)" by (cases x)
      have w2: "N w2 = N w1" "uw_lostRollbacks w2 = uw_lostRollbacks w1"
        and xe: "xr = Inl e \<Longrightarrow> api_code e = None" for e
        using x N_expire[of ?k ttl w1 xr w2] assms(3) by (auto simp: x_def split: if_splits)
      note body = Cons.prems(2)[unfolded apply_scopes.simps c prod.case Inr sum.case assms(1) i n Let_def,
          folded x_def, unfolded x prod.case]
      show ?thesis
      proof (cases xr)
        case (Inl e)
        with body have r: "r = Inl e" "applied' = applied @ [?k]" "memo' = m1" "w' = w2" by auto
        have "phase_effect (map sc_key (sc # scopes)) (N w) (N w') applied applied' [] r"
          unfolding phase_effect_def r sum.case using xe[OF Inl] w2(1) inc(1)
          by (intro disjI1 conjI refl exI[of _ "[?k]"] exI[of _ None]) auto
        with r m1(1) xe[OF Inl] w2(2) inc(3) show ?thesis by (intro conjI exI[of _ "[]"]) auto
      next
        case xok: (Inr u)
        show ?thesis
        proof (cases "nxt > limit")
          case True
          let ?w' = "rollback env (applied @ [?k]) w2"
          from body xok True obtain s where
            r: "r = Inl (usage_exceeded s)" "applied' = []" "memo' = m1" "w' = ?w'"
            by auto
          from N_rollback[OF assms(1), of "applied @ [?k]" w2] obtain l where
            l: "uw_lostRollbacks ?w' = uw_lostRollbacks w2 @ l"
              "\<And>k. N w2 k - int (count_list (applied @ [?k]) k) \<le> N ?w' k"
              "\<And>k. N ?w' k \<le> N w2 k - int (count_list (applied @ [?k]) k) + int (count_list l k)"
            by blast
          have "N w k - int (count_list applied k) \<le> N ?w' k \<and>
                N ?w' k \<le> N w k - int (count_list applied k) + int (count_list l k)" for k
            using l(2,3)[of k] w2(1) inc(1) by (auto split: if_splits)
          then have "phase_effect (map sc_key (sc # scopes)) (N w) (N w') applied applied' l r"
            unfolding phase_effect_def r sum.case by auto
          moreover have "limit \<le> N w ?k" using True inc(2) by simp
          ultimately show ?thesis
            using r m1 Inr l(1) w2(2) inc(3) by (intro conjI exI[of _ l]) auto
        next
          case False
          with body xok have
            "apply_scopes env feature p ttl scopes (applied @ [?k]) m1 w2 = (r, applied', memo', w')"
            by auto
          from Cons.IH[OF m1(1) this] Cons.prems(3) obtain l where
            ih: "memo_ok env memo'" "uw_lostRollbacks w' = uw_lostRollbacks w2 @ l"
              "phase_effect (map sc_key scopes) (N w2) (N w') (applied @ [?k]) applied' l r"
              "r = Inr () \<Longrightarrow> (\<forall>sc\<in>set scopes. \<exists>limit.
                 owner_ceiling env (sc_owner sc) feature p = Inr limit \<and> N w2 (sc_key sc) < limit)"
              "\<And>s. r = Inl (usage_exceeded s) \<Longrightarrow> (\<exists>sc\<in>set scopes. \<exists>limit.
                 owner_ceiling env (sc_owner sc) feature p = Inr limit \<and> limit \<le> N w2 (sc_key sc))"
            by auto
          have eff: "phase_effect (map sc_key (sc # scopes)) (N w) (N w') applied applied' l r"
            using phase_effect_Cons[of "map sc_key scopes" "N w" ?k "N w'" applied applied' l r] ih(3)
              w2(1) inc(1)
            by simp
          have same: "N w2 (sc_key sc') = N w (sc_key sc')" if "sc' \<in> set scopes" for sc'
            using that Cons.prems(3) w2(1) inc(1) by (auto simp: image_iff)
          have "N w ?k < limit" using False inc(2) by simp
          moreover have "r = Inr () \<Longrightarrow> (\<forall>sc\<in>set scopes. \<exists>limit.
                 owner_ceiling env (sc_owner sc) feature p = Inr limit \<and> N w (sc_key sc) < limit)"
            using ih(4) same by simp
          moreover have "\<And>s. r = Inl (usage_exceeded s) \<Longrightarrow> (\<exists>sc\<in>set scopes. \<exists>limit.
                 owner_ceiling env (sc_owner sc) feature p = Inr limit \<and> limit \<le> N w (sc_key sc))"
            using ih(5) same by (metis (no_types))
          ultimately show ?thesis
            using ih(1,2) eff m1(2) Inr w2(2) inc(3)
            by (intro conjI exI[of _ l]) auto
        qed
      qed
    qed
  qed
qed

lemma apply_periods_effect:
  assumes "ue_redis env = R" and "plans_ok env" and "memo_ok env memo" and "distinct ps"
    and "apply_periods env subject feature ps applied memo w = (r, applied', memo', w')"
  shows "memo_ok env memo' \<and> (\<exists>l. uw_lostRollbacks w' = uw_lostRollbacks w @ l \<and>
           phase_effect (planned_keys env subject feature ps (uw_reads w)) (N w) (N w')
             applied applied' l r) \<and>
         (r = Inr () \<longrightarrow> (\<forall>(p, sc)\<in>set (planned_scopes env subject feature ps (uw_reads w)).
             \<exists>limit. owner_ceiling env (sc_owner sc) feature p = Inr limit \<and>
               N w (sc_key sc) < limit)) \<and>
         (\<forall>s. r = Inl (usage_exceeded s) \<longrightarrow> scope_full env subject feature ps (N w))"
  using assms(3-5)
proof (induction ps arbitrary: applied memo w)
  case Nil
  then show ?case by (auto simp: phase_effect_def planned_keys_def)
next
  case (Cons p ps)
  let ?t = "seconds_until_period_end p (ue_clock env (uw_reads w))"
  let ?sc = "scopes_for subject feature p (ue_clock env (Suc (uw_reads w)))"
  let ?w2 = "w\<lparr>uw_reads := Suc (Suc (uw_reads w))\<rparr>"
  obtain r1 a1 m1 w3 where step: "apply_scopes env feature p ?t ?sc applied memo ?w2 = (r1, a1, m1, w3)"
    by (metis prod_cases4)
  note body = Cons.prems(3)[unfolded apply_periods.simps read_clock_def prod.case]
  from apply_scopes_effect[OF assms(1,2) seconds_positive Cons.prems(1) step scopes_distinct]
  obtain l where eff: "memo_ok env m1" "uw_lostRollbacks w3 = uw_lostRollbacks w @ l"
      "phase_effect (map sc_key ?sc) (N w) (N w3) applied a1 l r1"
      "r1 = Inr () \<Longrightarrow> \<forall>sc\<in>set ?sc. \<exists>limit.
         owner_ceiling env (sc_owner sc) feature p = Inr limit \<and> N w (sc_key sc) < limit"
      "\<And>s. r1 = Inl (usage_exceeded s) \<Longrightarrow> \<exists>sc\<in>set ?sc. \<exists>limit.
         owner_ceiling env (sc_owner sc) feature p = Inr limit \<and> limit \<le> N w (sc_key sc)"
    by auto
  have keys: "planned_keys env subject feature (p # ps) (uw_reads w)
        = map sc_key ?sc @ planned_keys env subject feature ps (Suc (Suc (uw_reads w)))"
    by (simp add: planned_keys_def comp_def)
  show ?case
  proof (cases r1)
    case (Inl e)
    with body step have r: "r = Inl e" "applied' = a1" "memo' = m1" "w' = w3" by auto
    have "phase_effect (planned_keys env subject feature (p # ps) (uw_reads w)) (N w) (N w') applied
            applied' l r"
      using eff(3) Inl r by (simp add: phase_effect_def)
    moreover have "scope_full env subject feature (p # ps) (N w)" if "e = usage_exceeded s" for s
      using eff(5)[of s] Inl that unfolding scope_full_def by auto
    ultimately show ?thesis using r eff(1,2) by (intro conjI exI[of _ l]) auto
  next
    case (Inr u)
    with body step have rest: "apply_periods env subject feature ps a1 m1 w3 = (r, applied', memo', w')"
      by auto
    have l: "l = []" "N w3 = (\<lambda>k. N w k + int (count_list (map sc_key ?sc) k))"
      using eff(3) Inr by (auto simp: phase_effect_def)
    have reads: "uw_reads w3 = Suc (Suc (uw_reads w))"
      using apply_scopes_reads[OF step] by simp
    have other: "N w3 (sc_key sc) = N w (sc_key sc)"
      if "q \<in> set ps" "sc \<in> set (scopes_for subject feature q at)" for q at sc
    proof -
      have "sc_key sc \<notin> sc_key ` set ?sc"
        using that Cons.prems(2) scope_key_form[of sc] scope_key_form[of _ subject feature p] usage_key_period
        by (metis distinct.simps(2) image_iff)
      then show ?thesis unfolding l(2) by (simp add: count_list_0_iff)
    qed
    from Cons.IH[OF eff(1) _ rest] Cons.prems(2) obtain l' where
      ih: "memo_ok env memo'" "uw_lostRollbacks w' = uw_lostRollbacks w3 @ l'"
        "phase_effect (planned_keys env subject feature ps (uw_reads w3)) (N w3) (N w') a1 applied' l' r"
        "r = Inr () \<Longrightarrow> \<forall>(p, sc)\<in>set (planned_scopes env subject feature ps (uw_reads w3)).
           \<exists>limit. owner_ceiling env (sc_owner sc) feature p = Inr limit \<and> N w3 (sc_key sc) < limit"
        "\<And>s. r = Inl (usage_exceeded s) \<Longrightarrow> scope_full env subject feature ps (N w3)"
      by auto
    have "phase_effect (planned_keys env subject feature (p # ps) (uw_reads w)) (N w) (N w') applied
            applied' l' r"
      unfolding keys using phase_effect_append eff(3) Inr l(1) ih(3) reads by metis
    moreover have "\<forall>(q, sc)\<in>set (planned_scopes env subject feature (p # ps) (uw_reads w)).
         \<exists>limit. owner_ceiling env (sc_owner sc) feature q = Inr limit \<and> N w (sc_key sc) < limit"
      if "r = Inr ()"
    proof -
      have "\<exists>limit. owner_ceiling env (sc_owner sc) feature q = Inr limit \<and> N w (sc_key sc) < limit"
        if "(q, sc) \<in> set (planned_scopes env subject feature ps (uw_reads w3))" for q sc
        using ih(4)[OF \<open>r = Inr ()\<close>] that planned_period[OF that] other by fastforce
      then show ?thesis using eff(4) Inr reads by auto
    qed
    moreover have "scope_full env subject feature (p # ps) (N w)" if "r = Inl (usage_exceeded s)" for s
      using ih(5)[OF that] other unfolding scope_full_def by (metis list.set_intros(2))
    ultimately show ?thesis using ih(1,2) eff(2) l(1) by (intro conjI exI[of _ l']) auto
  qed
qed

text \<open>
  One call, whatever the client answered: admitted, every counter it is metered against has
  gone up by one and had been below its ceiling; refused, one of them stood at its ceiling
  and all are back where they were but for the reported losses; otherwise 503, with at most
  one unacknowledged increment beside the reported losses.
\<close>

lemma consume_effect:
  assumes "ue_redis env = R" and "plans_ok env" and "is_usage_feature feature" and "distinct ps"
    and "consume env subject feature ps w = (r, w')"
  shows "\<exists>l. uw_lostRollbacks w' = uw_lostRollbacks w @ l \<and>
    (case r of
       Inr _ \<Rightarrow> l = [] \<and> (\<exists>i.
         (\<forall>k. N w' k = N w k + int (count_list (planned_keys env subject feature ps i) k)) \<and>
         (\<forall>(p, sc)\<in>set (planned_scopes env subject feature ps i).
            \<exists>limit. owner_ceiling env (sc_owner sc) feature p = Inr limit \<and>
              N w' (sc_key sc) \<le> limit))
     | Inl e \<Rightarrow>
         (\<exists>s. e = usage_exceeded s) \<and> scope_full env subject feature ps (N w) \<and>
         (\<forall>k. N w k \<le> N w' k \<and> N w' k \<le> N w k + int (count_list l k)) \<or>
         e = usage_unavailable \<and>
         (\<exists>q. \<forall>k. N w k \<le> N w' k \<and>
            N w' k \<le> N w k + int (count_list l k) + (if q = Some k then 1 else 0)))"
proof -
  obtain c m1 w1 where pre: "precheck env subject feature ps Map.empty w = (c, m1, w1)"
    by (metis prod_cases3)
  note p = precheck_effect[OF assms(1,2) memo_ok_empty assms(3) pre]
  note body = assms(5)[unfolded consume_def assert_usage_feature_def, simplified assms(3) if_True sum.case
      pre prod.case]
  show ?thesis
  proof (cases c)
    case (Inl e)
    with body have "r = Inl e" "w' = w1" by (auto simp: assms(3))
    with p Inl show ?thesis by (intro exI[of _ "[]"]) auto
  next
    case (Inr u)
    obtain r2 ap m2 w2 where ap: "apply_periods env subject feature ps [] m1 w1 = (r2, ap, m2, w2)"
      by (metis prod_cases4)
    have w1: "N w1 = N w" "uw_lostRollbacks w1 = uw_lostRollbacks w" "memo_ok env m1"
      using p by auto
    from apply_periods_effect[OF assms(1,2) w1(3) assms(4) ap] w1(1,2) obtain l where
      eff: "uw_lostRollbacks w2 = uw_lostRollbacks w @ l"
        "phase_effect (planned_keys env subject feature ps (uw_reads w1)) (N w) (N w2) [] ap l r2"
        "r2 = Inr () \<Longrightarrow> \<forall>(p, sc)\<in>set (planned_scopes env subject feature ps (uw_reads w1)).
           \<exists>limit. owner_ceiling env (sc_owner sc) feature p = Inr limit \<and> N w (sc_key sc) < limit"
        "\<And>s. r2 = Inl (usage_exceeded s) \<Longrightarrow> scope_full env subject feature ps (N w)"
      by auto
    show ?thesis
    proof (cases r2)
      case r2: (Inr u2)
      with body Inr ap have r: "r = Inr ()" "w' = w2" by (auto simp: assms(3))
      have d: "distinct (planned_keys env subject feature ps (uw_reads w1))"
        by (rule planned_distinct[OF assms(4)])
      have "N w2 (sc_key sc) = N w (sc_key sc) + 1"
        if "(q, sc) \<in> set (planned_scopes env subject feature ps (uw_reads w1))" for q sc
      proof -
        have "sc_key sc \<in> set (planned_keys env subject feature ps (uw_reads w1))"
          using that by (force simp: planned_keys_def)
        then have "count_list (planned_keys env subject feature ps (uw_reads w1)) (sc_key sc) = 1"
          using d by (simp add: distinct_count_list)
        with eff(2) r2 show ?thesis by (simp add: phase_effect_def)
      qed
      then have "\<forall>(p, sc)\<in>set (planned_scopes env subject feature ps (uw_reads w1)).
            \<exists>limit. owner_ceiling env (sc_owner sc) feature p = Inr limit \<and>
              N w' (sc_key sc) \<le> limit"
        using eff(3) r2 r(2) by fastforce
      moreover have "l = []"
        "\<forall>k. N w' k = N w k
           + int (count_list (planned_keys env subject feature ps (uw_reads w1)) k)"
        using eff(2) r2 r(2) by (simp_all add: phase_effect_def)
      ultimately show ?thesis
        using eff(1) unfolding r(1) sum.case
        by (intro exI[of _ "[]"] conjI exI[of _ "uw_reads w1"]) (simp_all add: r(2))
    next
      case (Inl e)
      from eff(2)[unfolded phase_effect_def Inl sum.case] show ?thesis
      proof (elim disjE conjE exE)
        fix ks q
        assume e: "api_code e = None" "l = []" "ap = [] @ ks"
          and n: "\<forall>k. N w2 k = N w k + int (count_list ks k) + (if q = Some k then 1 else 0)"
        from body Inr ap Inl e(1,3) have r: "r = Inl usage_unavailable" "w' = rollback env ks w2"
          by (cases e; simp add: assms(3))+
        from N_rollback[OF assms(1), of ks w2] obtain l' where
          l': "uw_lostRollbacks (rollback env ks w2) = uw_lostRollbacks w2 @ l'"
            "\<And>k. N w2 k - int (count_list ks k) \<le> N (rollback env ks w2) k"
            "\<And>k. N (rollback env ks w2) k
                  \<le> N w2 k - int (count_list ks k) + int (count_list l' k)"
          by blast
        have "N w k \<le> N w' k \<and> N w' k \<le> N w k + int (count_list l' k) + (if q = Some k then 1 else 0)" for k
          using l'(2,3)[of k] n r(2) by (auto split: if_splits)
        then have "\<exists>q. \<forall>k. N w k \<le> N w' k \<and>
            N w' k \<le> N w k + int (count_list l' k) + (if q = Some k then 1 else 0)"
          by blast
        with r(1) l'(1) eff(1) e(2) r(2) show ?thesis
          unfolding r(1) sum.case by (intro exI[of _ l'] conjI disjI2) simp_all
      next
        fix s
        assume e: "e = usage_exceeded s"
          and n: "\<forall>k. N w k - int (count_list [] k) \<le> N w2 k \<and>
             N w2 k \<le> N w k - int (count_list [] k) + int (count_list l k)"
        from body Inr ap Inl e have "r = Inl e" "w' = w2"
          by (auto simp: assms(3) usage_exceeded_def api_error_headers_def)
        with e n eff(1,4) Inl show ?thesis by (intro exI[of _ l]) auto
      qed
    qed
  qed
qed

end

end
