(* ===== verification/UsageRace.thy ===== *)
theory UsageRace
  imports UsageLimits
begin

text \<open>
  Concurrent calls of \<open>consume\<close> on shared counters, within one period.

  Each call is a thread of the loops of \<open>usage-limits.service.ts\<close>, cut at its Redis
  commands, which are atomic: the increments one by one and the rollback one \<open>DECR\<close> at a time.
  The pre-check writes nothing; its \<open>MGET\<close>s, one per period, are taken as one step. Any thread may move next. A command may also fail: an
  increment with or without its effect, a decrement with or without its effect. \<open>limit\<close> is
  the ceiling of each key's own subject.
\<close>

datatype meter =
    Checking "string list"
  | Applying "string list" "string list"
  | Undoing "string list"
  | Admitted "string list"
  | Refused

record meter_state =
  ms_count :: "string \<Rightarrow> int"
  ms_threads :: "meter list"

text \<open>One command of one thread: the counters before and after, and the thread before and after.\<close>

inductive meter_move ::
  "(string \<Rightarrow> int) \<Rightarrow> (string \<Rightarrow> int) \<Rightarrow> meter \<Rightarrow> (string \<Rightarrow> int) \<Rightarrow> meter \<Rightarrow> bool"
  for limit :: "string \<Rightarrow> int" where
  check_pass: "(\<forall>k\<in>set ks. c k < limit k) \<Longrightarrow> meter_move limit c (Checking ks) c (Applying [] ks)"
| check_refuse: "k \<in> set ks \<Longrightarrow> limit k \<le> c k \<Longrightarrow> meter_move limit c (Checking ks) c Refused"
| check_fail: "meter_move limit c (Checking ks) c Refused"
| incr_ok: "c k + 1 \<le> limit k \<Longrightarrow>
    meter_move limit c (Applying ap (k # ks)) (c(k := c k + 1)) (Applying (ap @ [k]) ks)"
| incr_over: "limit k < c k + 1 \<Longrightarrow>
    meter_move limit c (Applying ap (k # ks)) (c(k := c k + 1)) (Undoing (ap @ [k]))"
| expire_fail:
    "meter_move limit c (Applying ap (k # ks)) (c(k := c k + 1)) (Undoing (ap @ [k]))"
| incr_unanswered: "meter_move limit c (Applying ap (k # ks)) (c(k := c k + 1)) (Undoing ap)"
| incr_fail: "meter_move limit c (Applying ap (k # ks)) c (Undoing ap)"
| admit: "meter_move limit c (Applying ap []) c (Admitted ap)"
| decr: "meter_move limit c (Undoing (k # ks)) (c(k := c k - 1)) (Undoing ks)"
| decr_lost: "meter_move limit c (Undoing (k # ks)) c (Undoing ks)"
| undone: "meter_move limit c (Undoing []) c Refused"

inductive_cases move_Checking: "meter_move limit c (Checking ks) c' m'"
inductive_cases move_Applying: "meter_move limit c (Applying ap ks) c' m'"
inductive_cases move_Undoing: "meter_move limit c (Undoing ks) c' m'"
inductive_cases move_Admitted: "meter_move limit c (Admitted ks) c' m'"
inductive_cases move_Refused: "meter_move limit c Refused c' m'"

inductive meter_step :: "(string \<Rightarrow> int) \<Rightarrow> meter_state \<Rightarrow> meter_state \<Rightarrow> bool"
  for limit :: "string \<Rightarrow> int" where
  thread: "i < length (ms_threads s) \<Longrightarrow>
    meter_move limit (ms_count s) (ms_threads s ! i) c m \<Longrightarrow>
    meter_step limit s \<lparr>ms_count = c, ms_threads = (ms_threads s)[i := m]\<rparr>"

inductive meter_reachable :: "(string \<Rightarrow> int) \<Rightarrow> meter_state \<Rightarrow> meter_state \<Rightarrow> bool"
  for limit :: "string \<Rightarrow> int" where
  start: "meter_reachable limit s s"
| step: "meter_reachable limit s t \<Longrightarrow> meter_step limit t u \<Longrightarrow> meter_reachable limit s u"

definition meter_start :: "(string \<Rightarrow> int) \<Rightarrow> string list list \<Rightarrow> meter_state" where
  "meter_start c calls = \<lparr>ms_count = c, ms_threads = map Checking calls\<rparr>"

text \<open>The increments of a key that a thread holds within the ceiling, and those it will undo.\<close>

fun held :: "string \<Rightarrow> meter \<Rightarrow> int" where
  "held k (Applying ap ks) = int (count_list ap k)"
| "held k (Admitted ap) = int (count_list ap k)"
| "held k _ = 0"

fun owed :: "string \<Rightarrow> meter \<Rightarrow> int" where
  "owed k (Undoing ks) = int (count_list ks k)"
| "owed k _ = 0"

fun admitted_on :: "string \<Rightarrow> meter \<Rightarrow> bool" where
  "admitted_on k (Admitted ap) \<longleftrightarrow> k \<in> set ap"
| "admitted_on k _ \<longleftrightarrow> False"

lemma held_nonneg [simp]: "0 \<le> held k m" by (cases m) auto

lemma owed_nonneg [simp]: "0 \<le> owed k m" by (cases m) auto

text \<open>
  A move keeps the counter at or above what the thread holds and owes, and lets the thread
  hold more only when the counter it sees afterwards is within the ceiling.
\<close>

lemma move_balance:
  assumes "meter_move limit c m c' m'"
  shows "held k m' + owed k m' - (held k m + owed k m) \<le> c' k - c k"
    and "held k m' \<le> held k m \<or> held k m' = held k m + 1 \<and> c' k \<le> limit k"
  using assms by (cases; auto)+

lemma sum_list_upd:
  fixes f :: "'m \<Rightarrow> int"
  assumes "i < length xs"
  shows "sum_list (map f (xs[i := x])) = sum_list (map f xs) + f x - f (xs ! i)"
  using assms
proof (induction xs arbitrary: i)
  case (Cons a xs)
  then show ?case by (cases i) auto
qed simp

definition meter_inv :: "(string \<Rightarrow> int) \<Rightarrow> (string \<Rightarrow> int) \<Rightarrow> meter_state \<Rightarrow> bool" where
  "meter_inv limit base s \<longleftrightarrow>
     (\<forall>k. base k + sum_list (map (held k) (ms_threads s)) + sum_list (map (owed k) (ms_threads s))
            \<le> ms_count s k) \<and>
     (\<forall>k. sum_list (map (held k) (ms_threads s)) \<le> max 0 (limit k - base k))"

lemma sum_list_held_nonneg: "0 \<le> sum_list (map (held k) ms)" "0 \<le> sum_list (map (owed k) ms)"
  by (induction ms) auto

lemma meter_inv_start [inv_intros]: "meter_inv limit c (meter_start c calls)"
  unfolding meter_inv_def meter_start_def by (auto simp: comp_def sum_list_0)

lemma meter_inv_step [inv_intros]:
  assumes "meter_step limit s t" and "meter_inv limit base s"
  shows "meter_inv limit base t"
  using assms(1)
proof cases
  case (thread i c m)
  let ?ms = "ms_threads s" and ?ms' = "(ms_threads s)[i := m]"
  have inv: "base k + sum_list (map (held k) ?ms) + sum_list (map (owed k) ?ms) \<le> ms_count s k"
    "sum_list (map (held k) ?ms) \<le> max 0 (limit k - base k)" for k
    using assms(2) by (auto simp: meter_inv_def)
  have count: "base k + sum_list (map (held k) ?ms') + sum_list (map (owed k) ?ms') \<le> c k" for k
    using inv(1)[of k] move_balance(1)[OF thread(3), of k]
      sum_list_upd[OF thread(2), of "held k" m] sum_list_upd[OF thread(2), of "owed k" m]
    by linarith
  moreover have "sum_list (map (held k) ?ms') \<le> max 0 (limit k - base k)" for k
    using move_balance(2)[OF thread(3), of k]
  proof
    assume "held k m \<le> held k (ms_threads s ! i)"
    then show ?thesis using inv(2)[of k] sum_list_upd[OF thread(2), of "held k" m] by linarith
  next
    assume "held k m = held k (ms_threads s ! i) + 1 \<and> c k \<le> limit k"
    then show ?thesis using count[of k] sum_list_held_nonneg(2)[of k ?ms'] by linarith
  qed
  ultimately show ?thesis unfolding thread(1) meter_inv_def by simp
qed

lemma meter_inv_reachable:
  "meter_reachable limit s t \<Longrightarrow> meter_inv limit base s \<Longrightarrow> meter_inv limit base t"
  by (induction rule: meter_reachable.induct) (auto intro: inv_intros)

lemma admitted_held: "int (length (filter (admitted_on k) ms)) \<le> sum_list (map (held k) ms)"
proof (induction ms)
  case (Cons m ms)
  have "(if admitted_on k m then 1 else 0) \<le> held k m"
    by (cases m) (auto simp: count_list_0_iff Suc_le_eq intro!: gr0I)
  then have "(if admitted_on k m then 1 else 0) + int (length (filter (admitted_on k) ms))
      \<le> held k m + sum_list (map (held k) ms)"
    using Cons by (rule add_mono)
  then show ?case by (simp split: if_splits)
qed simp

end
