(* ===== verification/PlanProperties.thy ===== *)
theory PlanProperties
  imports Plans
begin

text \<open>
  What the resolution and the entitlements guard promise, in terms of the tables: the plan
  in force is that of the newest entitled subscription, and the guard's verdict is the one
  the rows of that plan give.
\<close>

text \<open>The row that governs a subject: its newest entitled subscription's plan, else Lite.\<close>

definition governing_plan :: "plan_db \<Rightarrow> billing_subject \<Rightarrow> int \<Rightarrow> plan_row option" where
  "governing_plan db s now =
     (let lite = List.find (\<lambda>p. pl_slug p = slug_lite) (pd_plans db)
      in case List.find (\<lambda>r. is_entitled (sb_status r) (sb_periodEnd r) now)
                (find_subscriptions s db) of
           None \<Rightarrow> lite
         | Some r \<Rightarrow>
             (case List.find (\<lambda>p. pl_id p = sb_planId r) (pd_plans db) of
                Some p \<Rightarrow> Some p | None \<Rightarrow> lite))"

text \<open>What the rows grant: without any governing row nothing, at the rank of Lite.\<close>

definition table_grants :: "plan_db \<Rightarrow> billing_subject \<Rightarrow> int \<Rightarrow> string \<Rightarrow> bool" where
  "table_grants db s now k \<longleftrightarrow>
     (\<exists>p. governing_plan db s now = Some p \<and>
          (\<exists>r\<in>set (pd_entitlements db). pq_planId r = pl_id p \<and> pq_key r = k \<and> pq_enabled r))"

definition table_rank :: "plan_db \<Rightarrow> billing_subject \<Rightarrow> int \<Rightarrow> int" where
  "table_rank db s now =
     (case governing_plan db s now of Some p \<Rightarrow> pl_rank p | None \<Rightarrow> 10)"

lemma reload_id_lookup:
  assumes "plan_db_ok db" and "pd_down db = None"
  shows "matrices_by_id (snd (reload_matrices db c)) i =
         map_option (matrix_of db) (List.find (\<lambda>p. pl_id p = i) (pd_plans db))"
proof -
  have d: "distinct (map pl_id (pd_plans db))" using assms(1) by (simp add: plan_db_ok_def)
  show ?thesis
    by (simp add: reload_matrices_def db_read_def assms(2) foldl_cache_plan empty_cache_def
        find_rev_unique[OF d] split: option.split)
qed

lemma reload_slug_lookup:
  assumes "plan_db_ok db" and "pd_down db = None"
  shows "matrices_by_slug (snd (reload_matrices db c)) i =
         map_option (matrix_of db) (List.find (\<lambda>p. pl_slug p = i) (pd_plans db))"
proof -
  have d: "distinct (map pl_slug (pd_plans db))" using assms(1) by (simp add: plan_db_ok_def)
  show ?thesis
    by (simp add: reload_matrices_def db_read_def assms(2) foldl_cache_plan empty_cache_def
        find_rev_unique[OF d] split: option.split)
qed

lemma to_effective_simps [simp]:
  "ep_entitlements (to_effective m r) = mx_entitlements m"
  "ep_rank (to_effective m r) = mx_rank m"
  "ep_slug (to_effective m r) = mx_slug m"
  "ep_planId (to_effective m r) = mx_id m"
  "ep_subscriptionId (to_effective m r) = map_option sb_id r"
  "ep_fromSubscription (to_effective m r) \<longleftrightarrow> r \<noteq> None"
  "ep_usage (to_effective m r) = mx_usage m"
  by (simp_all add: to_effective_def)

lemma matrix_of_simps [simp]:
  "mx_id (matrix_of db p) = pl_id p" "mx_slug (matrix_of db p) = pl_slug p"
  "mx_rank (matrix_of db p) = pl_rank p"
  by (simp_all add: matrix_of_def)

text \<open>The resolved plan carries the rows of the governing plan.\<close>

lemma resolve_plan_table:
  assumes "plan_db_ok db" and "pd_down db = None"
  shows "\<exists>p. resolve_plan (snd (reload_matrices db c)) db (Inl s) now = Inr p \<and>
             ep_rank p = table_rank db s now \<and> (\<forall>k. has_entitlement p k \<longleftrightarrow> table_grants db s now k)"
proof -
  note look = reload_id_lookup[OF assms] reload_slug_lookup[OF assms]
  have entitled: "has_entitlement (to_effective (matrix_of db p) r) k \<longleftrightarrow>
      (\<exists>r\<in>set (pd_entitlements db). pq_planId r = pl_id p \<and> pq_key r = k \<and> pq_enabled r)" for p r k
    by (simp add: has_entitlement_def matrix_entitled[OF assms(1)])
  have lite: "ep_rank (lite_fallback (snd (reload_matrices db c))) =
        (case List.find (\<lambda>p. pl_slug p = slug_lite) (pd_plans db) of Some p \<Rightarrow> pl_rank p | None \<Rightarrow> 10)"
    "has_entitlement (lite_fallback (snd (reload_matrices db c))) k \<longleftrightarrow>
        (\<exists>p. List.find (\<lambda>p. pl_slug p = slug_lite) (pd_plans db) = Some p \<and>
           (\<exists>r\<in>set (pd_entitlements db). pq_planId r = pl_id p \<and> pq_key r = k \<and> pq_enabled r))" for k
    unfolding lite_fallback_def look has_entitlement_def
    by (auto simp: matrix_entitled[OF assms(1)] entitlement_list_def split: option.splits)
  show ?thesis
    unfolding resolve_plan_def db_read_def assms(2) table_rank_def table_grants_def
      governing_plan_def Let_def
    by (auto simp: look lite entitled split: option.split)
qed

definition sample_plan_db :: plan_db where
  "sample_plan_db =
     \<lparr>pd_plans =
        [\<lparr>pl_id = ''p1'', pl_slug = slug_lite, pl_name = ''Lite'', pl_description = None, pl_rank = 10, pl_isActive = True\<rparr>,
         \<lparr>pl_id = ''p2'', pl_slug = slug_pro, pl_name = ''Pro'', pl_description = None, pl_rank = 20, pl_isActive = True\<rparr>],
      pd_entitlements =
        [\<lparr>pq_planId = ''p1'', pq_key = feature_advanced, pq_enabled = False\<rparr>,
         \<lparr>pq_planId = ''p2'', pq_key = feature_advanced, pq_enabled = True\<rparr>],
      pd_usage = [\<lparr>pu_planId = ''p1'', pu_feature = ''demo'', pu_daily = 100, pu_weekly = 500\<rparr>],
      pd_subscriptions =
        [\<lparr>sb_id = ''s1'', sb_userId = Some ''u'', sb_organizationId = None, sb_planId = ''p2'',
          sb_interval = Monthly, sb_status = Canceled, sb_periodEnd = Some 1000, sb_updatedAt = 5\<rparr>,
         \<lparr>sb_id = ''s2'', sb_userId = Some ''u'', sb_organizationId = None, sb_planId = ''p1'',
          sb_interval = Monthly, sb_status = Active, sb_periodEnd = None, sb_updatedAt = 3\<rparr>],
      pd_down = None\<rparr>"

definition pro_route :: plan_route where
  "pro_route = \<lparr>rt_http = True, rt_public = (None, None),
     rt_entitlements = (Some [feature_advanced], None), rt_plan = (None, Some slug_pro)\<rparr>"

lemmas plan_eval = sample_plan_db_def plan_db_ok_def owner_xor_def slug_lite_def slug_pro_def
  feature_advanced_def feature_priority_support_def

lemma sample_plan_db_ok: "plan_db_ok sample_plan_db" "pd_down sample_plan_db = None"
  by (simp_all add: plan_eval)

text \<open>
  C8. Once the matrices are loaded, resolving a subject answers a plan. When it names a
  subscription, that is a row of the subject, entitled at this moment (active, past due, or
  canceled before its period ended), none of the subject's other entitled rows was updated
  later, and slug and rank are those of the plan the row references. When it names none, the
  plan is Lite and either no row of the subject is entitled or an entitled row references a
  plan that is not in the catalogue.
\<close>

theorem effective_plan_is_newest_entitled:
  fixes db :: plan_db and s :: billing_subject and now :: int and c :: plan_cache
  assumes "plan_db_ok db" and "pd_down db = None"
  defines "mine \<equiv> {r \<in> set (pd_subscriptions db).
             owner_where s (sb_userId r) (sb_organizationId r) \<and>
             is_entitled (sb_status r) (sb_periodEnd r) now}"
  shows "\<exists>p. resolve_plan (snd (reload_matrices db c)) db (Inl s) now = Inr p \<and>
          (case ep_subscriptionId p of
             Some i \<Rightarrow>
               \<exists>r\<in>mine. sb_id r = i \<and> (\<forall>r'\<in>mine. sb_updatedAt r' \<le> sb_updatedAt r) \<and>
                 (\<exists>pl\<in>set (pd_plans db). pl_id pl = sb_planId r \<and>
                    ep_slug p = pl_slug pl \<and> ep_rank p = pl_rank pl)
           | None \<Rightarrow>
               ep_slug p = slug_lite \<and>
               (mine = {} \<or> (\<exists>r\<in>mine. \<forall>pl\<in>set (pd_plans db). pl_id pl \<noteq> sb_planId r)))"
proof -
  let ?P = "\<lambda>r. is_entitled (sb_status r) (sb_periodEnd r) now"
  let ?c = "snd (reload_matrices db c)"
  have lite: "ep_subscriptionId (lite_fallback ?c) = None" "ep_slug (lite_fallback ?c) = slug_lite"
    by (auto simp: lite_fallback_def reload_slug_lookup[OF assms(1,2)] split: option.split
        dest: find_SomeD)
  show ?thesis
  proof (cases "List.find ?P (find_subscriptions s db)")
    case None
    then have "mine = {}" using find_subscriptions_none[of ?P s db] by (auto simp: mine_def)
    with None lite show ?thesis by (simp add: resolve_plan_def db_read_def assms(2))
  next
    case (Some r)
    note first = find_subscriptions_first[OF Some]
    then have r: "r \<in> mine" "\<forall>r'\<in>mine. sb_updatedAt r' \<le> sb_updatedAt r"
      by (auto simp: mine_def)
    show ?thesis
    proof (cases "List.find (\<lambda>p. pl_id p = sb_planId r) (pd_plans db)")
      case None
      with r(1) have "\<exists>r\<in>mine. \<forall>pl\<in>set (pd_plans db). pl_id pl \<noteq> sb_planId r"
        by (auto simp: find_None_conv)
      with Some None lite show ?thesis
        by (simp add: resolve_plan_def db_read_def assms(2) reload_id_lookup[OF assms(1,2)])
    next
      case (Some pl)
      with find_SomeD[OF Some] r \<open>List.find ?P _ = Some r\<close> show ?thesis
        by (auto simp: resolve_plan_def db_read_def assms(2) reload_id_lookup[OF assms(1,2)])
    qed
  qed
qed

theorem effective_plan_is_newest_entitled_witness:
  "\<exists>p. resolve_plan (snd (reload_matrices sample_plan_db empty_cache)) sample_plan_db
         (Inl (User_Subject ''u'')) 999 = Inr p"
  using effective_plan_is_newest_entitled[OF sample_plan_db_ok, of empty_cache "User_Subject ''u''" 999]
  by blast

text \<open>
  C9. The entitlements guard decides every request by the decorators, the caller and the rows of
  the caller's governing plan, and by nothing else. What is not HTTP, a public route and a route
  that carries neither decorator are admitted without looking at anybody; any other route
  answers 401 to a request without a principal; with one it admits exactly when every required
  entitlement (none, on a route with only a minimum plan) has an enabled row and, where a
  minimum plan is named, that plan exists and its rank is reached, and answers 403
  ENTITLEMENT_DENIED otherwise. The plan it used stays on the request, which is otherwise left
  alone.
\<close>

theorem entitlements_guard_decides_by_tables:
  fixes db :: plan_db and c :: plan_cache and now :: int and rt :: plan_route and rq :: plan_request
  assumes "plan_db_ok db" and "pd_down db = None" and "rq_plan rq = None"
  defines "required \<equiv> (case case_prod get_all_and_override (rt_entitlements rt) of Some ks \<Rightarrow> ks | None \<Rightarrow> [])"
    and "slug \<equiv> case_prod get_all_and_override (rt_plan rt)"
    and "open_to_all \<equiv> \<not> rt_http rt \<or> case_prod get_all_and_override (rt_public rt) = Some True \<or>
           (case_prod get_all_and_override (rt_entitlements rt) \<in> {None, Some []} \<and>
            case_prod get_all_and_override (rt_plan rt) = None)"
    and "answer \<equiv> entitlements_can_activate (snd (reload_matrices db c)) db now rt rq"
  shows "if open_to_all then answer = (Inr True, rq)
    else (case rq_principalId rq of
        None \<Rightarrow> answer = (Inl (api_error 401 UNAUTHORIZED ''Authentication required.''), rq)
      | Some u \<Rightarrow>
          fst answer =
            (if (\<forall>k\<in>set required. table_grants db (User_Subject u) now k) \<and>
                (\<forall>m. slug = Some m \<longrightarrow>
                   (\<exists>pl\<in>set (pd_plans db). pl_slug pl = m \<and> pl_rank pl \<le> table_rank db (User_Subject u) now))
             then Inr True else Inl entitlement_denied) \<and>
          (\<exists>p. snd answer = rq\<lparr>rq_plan := Some p\<rparr> \<and> ep_rank p = table_rank db (User_Subject u) now))"
proof -
  let ?c = "snd (reload_matrices db c)"
  show ?thesis
  proof (cases "open_to_all")
    case True
    then show ?thesis
      by (auto simp: answer_def open_to_all_def entitlements_can_activate_def)
  next
    case False
    then have opens: "rt_http rt" "case_prod get_all_and_override (rt_public rt) \<noteq> Some True"
      "\<not> (required = [] \<and> slug = None)"
      by (auto simp: open_to_all_def required_def slug_def split: option.splits)
    show ?thesis
    proof (cases "rq_principalId rq")
      case None
      with False opens show ?thesis
        by (simp add: answer_def entitlements_can_activate_def principal_of_def
            required_def[symmetric] slug_def[symmetric] Let_def)
    next
      case (Some u)
      obtain p where p: "resolve_plan ?c db (Inl (User_Subject u)) now = Inr p"
        "ep_rank p = table_rank db (User_Subject u) now"
        "\<And>k. has_entitlement p k \<longleftrightarrow> table_grants db (User_Subject u) now k"
        using resolve_plan_table[OF assms(1,2)] by blast
      then have "resolve_plan ?c db (Inr u) now = Inr p"
        by (simp add: resolve_plan_def user_subject_def)
      then have for': "plan_for ?c db now u rq = (Inr p, rq\<lparr>rq_plan := Some p\<rparr>)"
        by (simp add: plan_for_def assms(3))
      have min: "meets_minimum_plan ?c p m \<longleftrightarrow>
          (\<exists>pl\<in>set (pd_plans db). pl_slug pl = m \<and> pl_rank pl \<le> table_rank db (User_Subject u) now)" for m
      proof -
        have "meets_minimum_plan ?c p m \<longleftrightarrow>
            (\<exists>mx. matrices_by_slug ?c m = Some mx \<and> mx_rank mx \<le> ep_rank p)"
          by (simp add: meets_minimum_plan_def split: option.split)
        then show ?thesis unfolding reload_by_slug[OF assms(1,2)] p(2) by auto
      qed
      have "answer = ((if (\<forall>k\<in>set required. has_entitlement p k) \<and>
            (\<forall>m. slug = Some m \<longrightarrow> meets_minimum_plan ?c p m)
          then Inr True else Inl entitlement_denied), rq\<lparr>rq_plan := Some p\<rparr>)"
        unfolding answer_def entitlements_can_activate_def required_def[symmetric] slug_def[symmetric]
        using opens Some for'
        by (auto simp: principal_of_def filter_empty_conv split: option.splits)
      with False Some show ?thesis by (auto simp: p(3) min intro!: exI[of _ p] p(2))
    qed
  qed
qed

text \<open>A route with a minimum plan and no entitlement.\<close>

definition rank_only_route :: plan_route where
  "rank_only_route = pro_route\<lparr>rt_entitlements := (None, None)\<rparr>"

theorem entitlements_guard_decides_by_tables_witness:
  "fst (entitlements_can_activate (snd (reload_matrices sample_plan_db empty_cache)) sample_plan_db
          999 pro_route \<lparr>rq_principalId = Some ''u'', rq_plan = None\<rparr>) = Inr True \<and>
   fst (entitlements_can_activate (snd (reload_matrices sample_plan_db empty_cache)) sample_plan_db
          1000 pro_route \<lparr>rq_principalId = Some ''u'', rq_plan = None\<rparr>) = Inl entitlement_denied \<and>
   fst (entitlements_can_activate (snd (reload_matrices sample_plan_db empty_cache)) sample_plan_db
          999 rank_only_route \<lparr>rq_principalId = Some ''u'', rq_plan = None\<rparr>) = Inr True \<and>
   fst (entitlements_can_activate (snd (reload_matrices sample_plan_db empty_cache)) sample_plan_db
          1000 rank_only_route \<lparr>rq_principalId = Some ''u'', rq_plan = None\<rparr>) = Inl entitlement_denied"
proof -
  note decides = entitlements_guard_decides_by_tables[OF sample_plan_db_ok,
      of "\<lparr>rq_principalId = Some ''u'', rq_plan = None\<rparr>"]
  have "fst (entitlements_can_activate (snd (reload_matrices sample_plan_db empty_cache))
          sample_plan_db now pro_route \<lparr>rq_principalId = Some ''u'', rq_plan = None\<rparr>) =
      (if table_grants sample_plan_db (User_Subject ''u'') now feature_advanced \<and>
          20 \<le> table_rank sample_plan_db (User_Subject ''u'') now
       then Inr True else Inl entitlement_denied)" for now
    using decides[of pro_route empty_cache now]
    by (simp add: pro_route_def get_all_and_override_def plan_eval)
  moreover have "fst (entitlements_can_activate (snd (reload_matrices sample_plan_db empty_cache))
          sample_plan_db now rank_only_route \<lparr>rq_principalId = Some ''u'', rq_plan = None\<rparr>) =
      (if 20 \<le> table_rank sample_plan_db (User_Subject ''u'') now
       then Inr True else Inl entitlement_denied)" for now
    using decides[of rank_only_route empty_cache now]
    by (simp add: rank_only_route_def pro_route_def get_all_and_override_def plan_eval)
  ultimately show ?thesis
    by (simp add: table_grants_def table_rank_def governing_plan_def find_subscriptions_def
        plan_eval)
qed

end
