(* ===== verification/UsageProperties.thy ===== *)
theory UsageProperties
  imports UsageContract UsageRace PlanProperties
begin

text \<open>
  The promises of the usage meter: the window of a counter is the calendar period, one call
  either takes one unit of every counter it is metered against or leaves them, and
  concurrent calls never admit more than a ceiling.
\<close>

text \<open>
  C10. For times from 1970 to 9999 a counter's window is the UTC calendar day or the ISO week.
  The stamp in the key of a daily counter is the date of the day, and the TTL runs to the next
  midnight, rounded up to a second; the stamp of a weekly counter is the year that the Thursday
  of the week (Monday to Sunday) falls in with the number of Thursdays of that year so far, in
  two digits, and the TTL runs to the midnight after the Sunday. So, in either period, up to a
  second before the TTL runs out the stamp is still that of the key, and from the moment it has
  run out the stamp is another one, for ever: no counter outlives its period into a second one,
  and none is dropped while its period still lasts a second.
\<close>

theorem usage_window_is_the_period:
  assumes "civil t"
  shows "(\<exists>y m d. calendar_date y m d (day_of t) \<and>
            period_stamp Day_Period t =
              pad_start 4 y @ ''-'' @ pad_start 2 (int m + 1) @ ''-'' @ pad_start 2 d) \<and>
         (\<exists>y n thursday. calendar_week y n thursday (day_of t) \<and>
            period_stamp Week_Period t = show_int y @ ''-W'' @ pad_start 2 (int n) \<and>
            (let left = ms_per_day * (thursday + 4) - t; ttl = 1000 * seconds_until_period_end Week_Period t
             in left \<le> ttl \<and> ttl < left + 1000)) \<and>
         (let left = ms_per_day * (day_of t + 1) - t; ttl = 1000 * seconds_until_period_end Day_Period t
          in left \<le> ttl \<and> ttl < left + 1000) \<and>
         (\<forall>p. 1 \<le> seconds_until_period_end p t \<and>
            (\<forall>u. civil u \<and> t \<le> u \<and> u \<le> t + 1000 * (seconds_until_period_end p t - 1) \<longrightarrow>
               period_stamp p u = period_stamp p t) \<and>
            (\<forall>u. civil u \<and> t + 1000 * seconds_until_period_end p t \<le> u \<longrightarrow>
               period_stamp p u \<noteq> period_stamp p t))"
proof -
  have s: "period_end p t - t \<le> 1000 * seconds_until_period_end p t"
    "1000 * seconds_until_period_end p t < period_end p t - t + 1000" for p
    using seconds_up_bounds[of "period_end p t - t"] period_end_after[of t p]
    by (simp_all add: seconds_until_eq[OF assms])
  have "period_index p u = period_index p t"
    if "t \<le> u" "u \<le> t + 1000 * (seconds_until_period_end p t - 1)" for u p
    using period_index_mono[OF that(1)] period_index_before_end[of u p t] that(2) s(2)[of p]
    by (simp add: order_antisym)
  moreover have "period_index p t < period_index p u"
    if "t + 1000 * seconds_until_period_end p t \<le> u" for u p
    using period_index_mono[of "period_end p t" u p] period_index_end[of p t] that s(1)[of p] by linarith
  moreover have "period_stamp p u = period_stamp p t \<longleftrightarrow> period_index p u = period_index p t"
    if "civil u" for u p
    by (rule period_stamp_inject[OF that assms])
  ultimately have "1 \<le> seconds_until_period_end p t \<and>
      (\<forall>u. civil u \<and> t \<le> u \<and> u \<le> t + 1000 * (seconds_until_period_end p t - 1) \<longrightarrow>
         period_stamp p u = period_stamp p t) \<and>
      (\<forall>u. civil u \<and> t + 1000 * seconds_until_period_end p t \<le> u \<longrightarrow>
         period_stamp p u \<noteq> period_stamp p t)" for p
    using seconds_positive[of p t] by (metis int_one_le_iff_zero_less less_irrefl)
  moreover obtain y m d where "calendar_date y m d (day_of t)"
      "period_stamp Day_Period t = pad_start 4 y @ ''-'' @ pad_start 2 (int m + 1) @ ''-'' @ pad_start 2 d"
    by (rule day_stamp_calendar[OF assms])
  moreover obtain z n thursday where "calendar_week z n thursday (day_of t)"
      "period_stamp Week_Period t = show_int z @ ''-W'' @ pad_start 2 (int n)"
      "period_end Week_Period t = ms_per_day * (thursday + 4)"
    by (rule week_stamp_calendar[OF assms])
  ultimately show ?thesis
    using s[of Day_Period] s[of Week_Period] unfolding Let_def
    by (metis (no_types, lifting) period_end.simps(1))
qed

theorem usage_window_is_the_period_witness:
  "seconds_until_period_end Day_Period 1704067199500 = 1 \<and>
   period_stamp Week_Period 1704067199500 = ''2023-W52'' \<and>
   (\<exists>n thursday. calendar_week 2023 n thursday 19722 \<and> ''2023-W52'' = ''2023-W'' @ pad_start 2 (int n)) \<and>
   period_stamp Day_Period 1704067200500 \<noteq> period_stamp Day_Period 1704067199500"
proof -
  have t: "civil 1704067199500" "day_of 1704067199500 = 19722" and c: "civil 1704067200500"
    by (simp_all add: civil_def civil_day_def day_of_def ms_per_day_def)
  note w = usage_window_is_the_period[OF t(1)]
  have s: "seconds_until_period_end Day_Period 1704067199500 = 1" by code_simp
  have week: "period_stamp Week_Period 1704067199500 = ''2023-W52''" by code_simp
  from w obtain y n thu where y: "calendar_week y n thu 19722"
      "''2023-W52'' = show_int y @ ''-W'' @ pad_start 2 (int n)"
    unfolding week t(2) by blast
  have thu: "thu = 19719"
  proof -
    have "19719 \<le> thu" "thu \<le> 19725" "(thu + 4) mod 7 = 4"
      using y(1) by (simp_all add: calendar_week_def week_day_def)
    then have "thu \<in> {19719, 19720, 19721, 19722, 19723, 19724, 19725}" by auto
    with \<open>(thu + 4) mod 7 = 4\<close> show ?thesis by auto
  qed
  have "period_stamp Day_Period 1704067200500 \<noteq> period_stamp Day_Period 1704067199500"
    by (rule w[THEN conjunct2, THEN conjunct2, THEN conjunct2, THEN spec, THEN conjunct2, THEN conjunct2, rule_format])
      (simp add: c s del: seconds_until_period_end.simps)
  moreover have "y = 2023"
  proof (rule ccontr)
    have year: "days_before_year y \<le> 19719" "19719 < days_before_year (y + 1)"
      using y(1) thu by (simp_all add: calendar_week_def)
    have "days_before_year y = day_from_year y" "days_before_year (y + 1) = day_from_year (y + 1)" if "1970 \<le> y"
      using that by (simp_all add: days_before_year_eq)
    moreover have "1970 \<le> y"
    proof (rule ccontr)
      assume "\<not> 1970 \<le> y"
      then have "days_before_year (y + 1) = 0" by (simp add: days_before_year_def)
      with year(2) show False by simp
    qed
    ultimately have "day_from_year y \<le> 19719" "19719 < day_from_year (y + 1)" using year by simp_all
    then have "year_of_day 19719 = y" by (rule year_of_day_unique)
    moreover have "year_of_day 19719 = 2023" by code_simp
    moreover assume "y \<noteq> 2023"
    ultimately show False by simp
  qed
  moreover have "show_int 2023 = ''2023''" by code_simp
  ultimately show ?thesis using s week y by auto
qed

definition sample_usage_env :: "mem_conn usage_env" where
  "sample_usage_env =
     \<lparr>ue_redis = mem_redis,
      ue_config = \<lparr>uc_default = \<lparr>pc_daily = 1, pc_weekly = 5\<rparr>, uc_features = []\<rparr>,
      ue_plans = None, ue_clock = (\<lambda>_. 1704067199500)\<rparr>"

definition sample_usage_world :: "cmd_fault list \<Rightarrow> mem_conn usage_world" where
  "sample_usage_world script =
     \<lparr>uw_conn = \<lparr>mc_view = \<lparr>rv_clock = 1704067199500, rv_data = Map.empty\<rparr>, mc_script = script\<rparr>,
      uw_reads = 0, uw_lostRollbacks = []\<rparr>"

definition sample_consume ::
  "mem_conn usage_world \<Rightarrow> (exn + unit) \<times> mem_conn usage_world" where
  "sample_consume =
     consume sample_usage_env (usage_subject_of ''ann'') ''demo'' [Day_Period, Week_Period]"

lemma sample_consume_runs:
  "fst (sample_consume (sample_usage_world [])) = Inr ()"
  "fst (sample_consume (snd (sample_consume (sample_usage_world [])))) =
     Inl (usage_exceeded \<lparr>sn_feature = ''demo'', sn_period = Day_Period, sn_used = JInt 1,
            sn_limit = 1, sn_remaining = JInt 0, sn_retryAfter = 1\<rparr>)"
  by code_simp+

text \<open>
  C11. One call of \<open>consume\<close>, against any Redis that keeps its documented behaviour and may
  lose any command or answer, at times that may straddle a period: admitted, it has added
  exactly one to every counter the subject is metered against and to no other, and each is
  within the ceiling of its own subject; refused with 429, some counter stood at or above its
  ceiling, and no counter is below what it was nor above it by more than the rollbacks that
  failed and were reported; in every other case the answer is 503 and the same holds but for
  one increment whose answer was lost.
\<close>

theorem consume_takes_one_or_nothing:
  assumes "redis_store (ue_redis env) view" and "plans_ok env" and "is_usage_feature feature"
    and "distinct periods" and "consume env subject feature periods w = (r, w')"
  shows "\<exists>l. uw_lostRollbacks w' = uw_lostRollbacks w @ l \<and>
    (case r of
       Inr _ \<Rightarrow> l = [] \<and> (\<exists>i.
         (\<forall>k. rv_num (view (uw_conn w')) k = rv_num (view (uw_conn w)) k
                + int (count_list (planned_keys env subject feature periods i) k)) \<and>
         (\<forall>(p, sc)\<in>set (planned_scopes env subject feature periods i).
            \<exists>limit. owner_ceiling env (sc_owner sc) feature p = Inr limit \<and>
              rv_num (view (uw_conn w')) (sc_key sc) \<le> limit))
     | Inl e \<Rightarrow>
         (\<exists>s. e = usage_exceeded s) \<and>
         scope_full env subject feature periods (rv_num (view (uw_conn w))) \<and>
         (\<forall>k. rv_num (view (uw_conn w)) k \<le> rv_num (view (uw_conn w')) k \<and>
            rv_num (view (uw_conn w')) k
              \<le> rv_num (view (uw_conn w)) k + int (count_list l k)) \<or>
         e = usage_unavailable \<and>
         (\<exists>q. \<forall>k. rv_num (view (uw_conn w)) k \<le> rv_num (view (uw_conn w')) k \<and>
            rv_num (view (uw_conn w')) k
              \<le> rv_num (view (uw_conn w)) k + int (count_list l k) + (if q = Some k then 1 else 0)))"
  using redis_store.consume_effect[OF assms(1) refl assms(2-5)]
  unfolding redis_store.N_def[OF assms(1)] .

theorem consume_takes_one_or_nothing_witness:
  "fst (sample_consume (sample_usage_world [])) = Inr () \<and>
   uw_lostRollbacks (snd (sample_consume (sample_usage_world []))) = []"
proof -
  have "redis_store (ue_redis sample_usage_env) mc_view"
    using mem.redis_store_axioms by (simp add: sample_usage_env_def)
  moreover have "plans_ok sample_usage_env"
    by (simp add: plans_ok_def sample_usage_env_def)
  moreover have "is_usage_feature ''demo''"
    by (simp add: is_usage_feature_def usage_feature_list_def)
  moreover have "consume sample_usage_env (usage_subject_of ''ann'') ''demo''
      [Day_Period, Week_Period] (sample_usage_world [])
      = (Inr (), snd (sample_consume (sample_usage_world [])))"
    using sample_consume_runs(1) by (simp add: sample_consume_def prod_eq_iff)
  ultimately show ?thesis
    using consume_takes_one_or_nothing[of sample_usage_env mc_view "''demo''"
        "[Day_Period, Week_Period]" "usage_subject_of ''ann''" "sample_usage_world []"]
      sample_consume_runs(1)
    by (fastforce simp: sample_usage_world_def)
qed

text \<open>
  C12. Any number of concurrent calls, interleaved at their Redis commands in any order and with
  commands failing at will: on no counter are more calls admitted than its ceiling leaves
  above the count the period had reached before.
\<close>

theorem concurrent_calls_never_oversell:
  assumes "meter_reachable limit (meter_start c calls) s"
  shows "int (length (filter (admitted_on k) (ms_threads s))) \<le> max 0 (limit k - c k)"
  using meter_inv_reachable[OF assms meter_inv_start] admitted_held[of k "ms_threads s"]
  by (auto simp: meter_inv_def intro: order_trans)

theorem concurrent_calls_never_oversell_witness:
  "\<exists>s. meter_reachable (\<lambda>_. 1) (meter_start (\<lambda>_. 0) [[''k''], [''k'']]) s \<and>
       int (length (filter (admitted_on ''k'') (ms_threads s))) = 1"
proof -
  let ?l = "\<lambda>_::string. 1::int" and ?c = "\<lambda>_::string. 0::int"
  let ?c1 = "?c(''k'' := ?c ''k'' + 1)"
  have s1: "meter_reachable ?l (meter_start ?c [[''k''], [''k'']])
      \<lparr>ms_count = ?c, ms_threads = [Applying [] [''k''], Checking [''k'']]\<rparr>"
    using meter_reachable.step[OF meter_reachable.start meter_step.thread, of 0
        "meter_start ?c [[''k''], [''k'']]" ?l ?c "Applying [] [''k'']"]
    by (simp add: meter_start_def check_pass)
  have s2: "meter_reachable ?l (meter_start ?c [[''k''], [''k'']])
      \<lparr>ms_count = ?c1, ms_threads = [Applying ([] @ [''k'']) [], Checking [''k'']]\<rparr>"
    using meter_reachable.step[OF s1 meter_step.thread[of 0 _ ?l ?c1 "Applying ([] @ [''k'']) []"]]
      incr_ok[of ?c "''k''" ?l "[]" "[]"]
    by simp
  have s3: "meter_reachable ?l (meter_start ?c [[''k''], [''k'']])
      \<lparr>ms_count = ?c1, ms_threads = [Admitted [''k''], Checking [''k'']]\<rparr>"
    using meter_reachable.step[OF s2 meter_step.thread[of 0 _ ?l ?c1 "Admitted [''k'']"]]
      admit[of ?l ?c1 "[''k'']"]
    by simp
  from concurrent_calls_never_oversell[OF s3, of "''k''"] s3 show ?thesis by auto
qed

end
