(* ===== verification/FeatureFlags.thy ===== *)
theory FeatureFlags
  imports Database
begin

text \<open>
  Feature flags (\<open>src/modules/feature-flags\<close>, \<open>src/config/feature-flags.config.ts\<close>): a flag is
  resolved from the narrowest override that exists, down to a default. The table is the list
  of its rows; a read may throw.
\<close>

definition flag_email_low_balance :: string where
  "flag_email_low_balance = ''email.low_balance''"

definition flag_org_billing :: string where
  "flag_org_billing = ''org.billing''"

definition feature_flag_list :: "string list" where
  "feature_flag_list = [flag_email_low_balance, flag_org_billing]"

definition feature_flag_code_defaults :: "(string \<times> bool) list" where
  "feature_flag_code_defaults = [(flag_email_low_balance, False), (flag_org_billing, True)]"

definition is_feature_flag_key :: "string \<Rightarrow> bool" where
  "is_feature_flag_key v \<longleftrightarrow> v \<in> set feature_flag_list"

record flag_override =
  fo_id :: string
  fo_flagKey :: string
  fo_enabled :: bool
  fo_userId :: "string option"
  fo_organizationId :: "string option"

record flag_context =
  fc_userId :: "string option"
  fc_organizationId :: "string option"

definition assert_known_key :: "string \<Rightarrow> exn + unit" where
  "assert_known_key k =
     (if is_feature_flag_key k then Inr () else Inl (OtherExn (''Unknown feature flag key: '' @ k)))"

text \<open>The environment defaults are an object that may leave a flag out.\<close>

definition flag_enabled ::
  "(string \<times> bool) list \<Rightarrow> flag_override list \<Rightarrow> string \<Rightarrow> flag_context \<Rightarrow> bool" where
  "flag_enabled defaults rows k ctx =
     (let at = (\<lambda>P. List.find (\<lambda>r. fo_flagKey r = k \<and> P r) rows);
          user = (case truthy (fc_userId ctx) of
                    Some u \<Rightarrow> at (\<lambda>r. fo_userId r = Some u) | None \<Rightarrow> None);
          org = (case truthy (fc_organizationId ctx) of
                    Some o' \<Rightarrow> at (\<lambda>r. fo_organizationId r = Some o') | None \<Rightarrow> None);
          global = at (\<lambda>r. fo_userId r = None \<and> fo_organizationId r = None)
      in case user of Some r \<Rightarrow> fo_enabled r
         | None \<Rightarrow>
             (case org of Some r \<Rightarrow> fo_enabled r
              | None \<Rightarrow>
                  (case global of Some r \<Rightarrow> fo_enabled r
                   | None \<Rightarrow>
                       (case map_of defaults k of Some b \<Rightarrow> b
                        | None \<Rightarrow> map_of feature_flag_code_defaults k = Some True))))"

text \<open>
  \<open>isEnabled\<close>: up to three queries, one after the other. Each of them reads the table as it is
  by then, which the first three tables of the arguments give, or fails.
\<close>

definition find_override ::
  "exn + flag_override list \<Rightarrow> (flag_override \<Rightarrow> bool) \<Rightarrow> exn + flag_override option" where
  "find_override table P = (case table of Inl e \<Rightarrow> Inl e | Inr rows \<Rightarrow> Inr (List.find P rows))"

definition is_enabled_reading ::
  "(string \<times> bool) list \<Rightarrow> exn + flag_override list \<Rightarrow> exn + flag_override list \<Rightarrow>
     exn + flag_override list \<Rightarrow> string \<Rightarrow> flag_context \<Rightarrow> exn + bool" where
  "is_enabled_reading defaults table1 table2 table3 k ctx =
     (case assert_known_key k of
        Inl e \<Rightarrow> Inl e
      | Inr _ \<Rightarrow>
          (case (case truthy (fc_userId ctx) of
                   None \<Rightarrow> Inr None
                 | Some u \<Rightarrow> find_override table1 (\<lambda>r. fo_flagKey r = k \<and> fo_userId r = Some u)) of
             Inl e \<Rightarrow> Inl e
           | Inr (Some r) \<Rightarrow> Inr (fo_enabled r)
           | Inr None \<Rightarrow>
               (case (case truthy (fc_organizationId ctx) of
                        None \<Rightarrow> Inr None
                      | Some o' \<Rightarrow>
                          find_override table2 (\<lambda>r. fo_flagKey r = k \<and> fo_organizationId r = Some o')) of
                  Inl e \<Rightarrow> Inl e
                | Inr (Some r) \<Rightarrow> Inr (fo_enabled r)
                | Inr None \<Rightarrow>
                    (case find_override table3
                            (\<lambda>r. fo_flagKey r = k \<and> fo_userId r = None \<and> fo_organizationId r = None) of
                       Inl e \<Rightarrow> Inl e
                     | Inr (Some r) \<Rightarrow> Inr (fo_enabled r)
                     | Inr None \<Rightarrow>
                         (case map_of defaults k of
                            Some b \<Rightarrow> Inr b
                          | None \<Rightarrow> Inr (map_of feature_flag_code_defaults k = Some True))))))"

text \<open>A call that no write interrupts: the three queries see one table, or the database is away.\<close>

definition is_enabled ::
  "(string \<times> bool) list \<Rightarrow> exn + flag_override list \<Rightarrow> string \<Rightarrow> flag_context \<Rightarrow> exn + bool" where
  "is_enabled defaults table k ctx = is_enabled_reading defaults table table table k ctx"

lemma is_enabled_one_table:
  "is_enabled defaults table k ctx =
     (case assert_known_key k of
        Inl e \<Rightarrow> Inl e
      | Inr _ \<Rightarrow>
          (case table of Inl e \<Rightarrow> Inl e | Inr rows \<Rightarrow> Inr (flag_enabled defaults rows k ctx)))"
  by (auto simp: is_enabled_def is_enabled_reading_def find_override_def flag_enabled_def Let_def
      split: option.splits sum.splits)

text \<open>One scope of a flag: the row whose three key columns are exactly these.\<close>

definition at_scope :: "string \<Rightarrow> string option \<Rightarrow> string option \<Rightarrow> flag_override \<Rightarrow> bool" where
  "at_scope k u o' r \<longleftrightarrow> fo_flagKey r = k \<and> fo_userId r = u \<and> fo_organizationId r = o'"

text \<open>
  The partial unique indexes of the migration: a row collides with a scope when both are the
  global one, or share the user, or share the organization, of one flag.
\<close>

definition collides :: "string \<Rightarrow> string option \<Rightarrow> string option \<Rightarrow> flag_override \<Rightarrow> bool" where
  "collides k u o' r \<longleftrightarrow>
     fo_flagKey r = k \<and>
     (u = None \<and> o' = None \<and> fo_userId r = None \<and> fo_organizationId r = None \<or>
      u \<noteq> None \<and> fo_userId r = u \<or>
      o' \<noteq> None \<and> fo_organizationId r = o')"

definition set_override ::
  "(flag_override list \<Rightarrow> string) \<Rightarrow> string \<Rightarrow> bool \<Rightarrow> string option \<Rightarrow> string option \<Rightarrow>
     flag_override list \<Rightarrow> (exn + unit) \<times> flag_override list" where
  "set_override new_id k enabled u o' rows =
     (case assert_known_key k of
        Inl e \<Rightarrow> (Inl e, rows)
      | Inr _ \<Rightarrow>
          (case List.find (at_scope k u o') rows of
             Some existing \<Rightarrow>
               (Inr (), update_where (\<lambda>r. fo_id r = fo_id existing)
                          (\<lambda>r. r\<lparr>fo_enabled := enabled\<rparr>) rows)
           | None \<Rightarrow>
               if list_ex (collides k u o') rows then (Inl unique_violation, rows)
               else
               (Inr (), rows @ [\<lparr>fo_id = new_id rows, fo_flagKey = k, fo_enabled = enabled,
                                 fo_userId = u, fo_organizationId = o'\<rparr>])))"

definition clear_override ::
  "string \<Rightarrow> string option \<Rightarrow> string option \<Rightarrow> flag_override list \<Rightarrow>
     (exn + unit) \<times> flag_override list" where
  "clear_override k u o' rows =
     (case assert_known_key k of
        Inl e \<Rightarrow> (Inl e, rows)
      | Inr _ \<Rightarrow> (Inr (), filter (\<lambda>r. \<not> at_scope k u o' r) rows))"

section \<open>The table\<close>

text \<open>
  A well-formed table: ids and indexes are unique, and every row is global, or a user's, or
  an organization's.
\<close>

definition single_scope :: "string option \<Rightarrow> string option \<Rightarrow> bool" where
  "single_scope u o' \<longleftrightarrow> u = None \<or> o' = None"

definition flags_ok :: "flag_override list \<Rightarrow> bool" where
  "flags_ok rows \<longleftrightarrow>
     distinct (map fo_id rows) \<and>
     distinct (map (\<lambda>r. (fo_flagKey r, fo_userId r, fo_organizationId r)) rows) \<and>
     (\<forall>r\<in>set rows. single_scope (fo_userId r) (fo_organizationId r))"

lemma at_scope_key: "at_scope k u o' r \<longleftrightarrow> (fo_flagKey r, fo_userId r, fo_organizationId r) = (k, u, o')"
  by (auto simp: at_scope_def)

lemma collides_scope:
  "single_scope u o' \<Longrightarrow> single_scope (fo_userId r) (fo_organizationId r) \<Longrightarrow>
   collides k u o' r \<longleftrightarrow> at_scope k u o' r"
  by (auto simp: collides_def at_scope_def single_scope_def)

lemma set_override_fresh:
  assumes "flags_ok rows" and "single_scope u o'" and "is_feature_flag_key k"
    and "List.find (at_scope k u o') rows = None"
  shows "set_override new_id k b u o' rows =
    (Inr (), rows @ [\<lparr>fo_id = new_id rows, fo_flagKey = k, fo_enabled = b, fo_userId = u,
                      fo_organizationId = o'\<rparr>])"
proof -
  have "\<not> list_ex (collides k u o') rows"
    using assms collides_scope[OF assms(2)]
    by (auto simp: list_ex_iff flags_ok_def find_None_conv)
  then show ?thesis using assms(3,4) by (simp add: set_override_def assert_known_key_def)
qed

lemma flags_ok_set [inv_intros]:
  assumes "flags_ok rows" and "new_id rows \<notin> fo_id ` set rows" and "single_scope u o'"
  shows "flags_ok (snd (set_override new_id k b u o' rows))"
proof (cases "is_feature_flag_key k")
  case False
  with assms(1) show ?thesis by (simp add: set_override_def assert_known_key_def)
next
  case True
  show ?thesis
  proof (cases "List.find (at_scope k u o') rows")
    case None
    then have "(k, u, o') \<notin> (\<lambda>r. (fo_flagKey r, fo_userId r, fo_organizationId r)) ` set rows"
      by (auto simp: find_None_conv at_scope_def)
    with assms show ?thesis
      unfolding set_override_fresh[OF assms(1,3) True None] by (auto simp: flags_ok_def)
  next
    case (Some r)
    with assms(1) True show ?thesis
      by (auto simp: set_override_def assert_known_key_def flags_ok_def map_update_where
          set_update_where)
  qed
qed

lemma flags_ok_clear [inv_intros]: "flags_ok rows \<Longrightarrow> flags_ok (snd (clear_override k u o' rows))"
  by (auto simp: clear_override_def flags_ok_def distinct_map_filter split: sum.split)

text \<open>The table as the scopes it defines.\<close>

definition scopes_of :: "flag_override list \<Rightarrow> string \<times> string option \<times> string option \<Rightarrow> bool option" where
  "scopes_of rows = (\<lambda>(k, u, o'). map_option fo_enabled (List.find (at_scope k u o') rows))"

lemma scopes_of_set:
  assumes "flags_ok rows" and "single_scope u p" and "is_feature_flag_key k"
  shows "fst (set_override new_id k b u p rows) = Inr ()"
    and "scopes_of (snd (set_override new_id k b u p rows)) = (scopes_of rows)((k, u, p) \<mapsto> b)"
proof -
  have "fst (set_override new_id k b u p rows) = Inr () \<and>
        scopes_of (snd (set_override new_id k b u p rows)) = (scopes_of rows)((k, u, p) \<mapsto> b)"
  proof (cases "List.find (at_scope k u p) rows")
    case None
    let ?n = "\<lparr>fo_id = new_id rows, fo_flagKey = k, fo_enabled = b, fo_userId = u, fo_organizationId = p\<rparr>"
    have "at_scope k' u' p' ?n \<longleftrightarrow> (k', u', p') = (k, u, p)" for k' u' p'
      by (auto simp: at_scope_def)
    with None show ?thesis
      unfolding set_override_fresh[OF assms None]
      by (auto simp: scopes_of_def find_append fun_eq_iff split: option.split)
  next
    case (Some ex)
    have ex: "ex \<in> set rows" "at_scope k u p ex" using find_SomeD[OF Some] by auto
    have ids: "distinct (map fo_id rows)" and keys:
      "distinct (map (\<lambda>r. (fo_flagKey r, fo_userId r, fo_organizationId r)) rows)"
      using assms(1) by (auto simp: flags_ok_def)
    have hit: "fo_id r = fo_id ex \<longleftrightarrow> at_scope k u p r" if "r \<in> set rows" for r
      using that ex ids keys unfolding at_scope_key distinct_map inj_on_def by metis
    have upd: "List.find (at_scope k' u' p') (update_where (\<lambda>r. fo_id r = fo_id ex) (\<lambda>r. r\<lparr>fo_enabled := b\<rparr>) rs)
        = map_option (\<lambda>r. if at_scope k u p r then r\<lparr>fo_enabled := b\<rparr> else r)
            (List.find (at_scope k' u' p') rs)"
      if "\<forall>r\<in>set rs. fo_id r = fo_id ex \<longleftrightarrow> at_scope k u p r" for rs k' u' p'
      using that by (induction rs) (auto, auto simp: at_scope_def)
    have eq: "set_override new_id k b u p rows
        = (Inr (), update_where (\<lambda>r. fo_id r = fo_id ex) (\<lambda>r. r\<lparr>fo_enabled := b\<rparr>) rows)"
      using assms(3) Some by (simp add: set_override_def assert_known_key_def)
    have "at_scope k u p r \<longleftrightarrow> (k', u', p') = (k, u, p)"
      if "List.find (at_scope k' u' p') rows = Some r" for r k' u' p'
      using find_SomeD[OF that] by (auto simp: at_scope_def)
    then have "scopes_of (update_where (\<lambda>r. fo_id r = fo_id ex) (\<lambda>r. r\<lparr>fo_enabled := b\<rparr>) rows) (k', u', p')
        = ((scopes_of rows)((k, u, p) \<mapsto> b)) (k', u', p')" for k' u' p'
      using Some hit upd[of rows k' u' p']
      by (cases "List.find (at_scope k' u' p') rows") (auto simp: scopes_of_def)
    then show ?thesis unfolding eq by (auto simp: fun_eq_iff)
  qed
  then show "fst (set_override new_id k b u p rows) = Inr ()"
    and "scopes_of (snd (set_override new_id k b u p rows)) = (scopes_of rows)((k, u, p) \<mapsto> b)"
    by auto
qed

lemma scopes_of_clear:
  assumes "is_feature_flag_key k"
  shows "scopes_of (snd (clear_override k u p rows)) = (scopes_of rows)((k, u, p) := None)"
proof -
  have "List.find (at_scope k' u' p') (filter (\<lambda>r. \<not> at_scope k u p r) rows) =
         (if (k', u', p') = (k, u, p) then None else List.find (at_scope k' u' p') rows)" for k' u' p'
    by (induction rows) (auto, auto simp: at_scope_def)
  then show ?thesis
    using assms by (auto simp: clear_override_def assert_known_key_def scopes_of_def fun_eq_iff)
qed

lemma find_cong_set: "(\<And>x. x \<in> set xs \<Longrightarrow> P x = Q x) \<Longrightarrow> List.find P xs = List.find Q xs"
  by (induction xs) auto

text \<open>A read takes the first scope that is set, from the user's own to the code default.\<close>

lemma flag_enabled_scopes:
  assumes "flags_ok rows"
  shows "flag_enabled defaults rows k ctx =
    (case Option.bind (truthy (fc_userId ctx)) (\<lambda>u. scopes_of rows (k, Some u, None)) of
       Some b \<Rightarrow> b
     | None \<Rightarrow>
         (case Option.bind (truthy (fc_organizationId ctx)) (\<lambda>p. scopes_of rows (k, None, Some p)) of
            Some b \<Rightarrow> b
          | None \<Rightarrow>
              (case scopes_of rows (k, None, None) of
                 Some b \<Rightarrow> b
               | None \<Rightarrow>
                   (case map_of defaults k of Some b \<Rightarrow> b
                    | None \<Rightarrow> map_of feature_flag_code_defaults k = Some True))))"
proof -
  have one: "\<And>r. r \<in> set rows \<Longrightarrow> single_scope (fo_userId r) (fo_organizationId r)"
    using assms by (simp add: flags_ok_def)
  have u: "List.find (\<lambda>r. fo_flagKey r = k \<and> fo_userId r = Some u) rows
      = List.find (at_scope k (Some u) None) rows" for u
    by (rule find_cong_set) (auto simp: at_scope_def single_scope_def dest: one)
  have p: "List.find (\<lambda>r. fo_flagKey r = k \<and> fo_organizationId r = Some p) rows
      = List.find (at_scope k None (Some p)) rows" for p
    by (rule find_cong_set) (auto simp: at_scope_def single_scope_def dest: one)
  have g: "List.find (\<lambda>r. fo_flagKey r = k \<and> fo_userId r = None \<and> fo_organizationId r = None) rows
      = List.find (at_scope k None None) rows"
    by (rule find_cong_set) (auto simp: at_scope_def)
  show ?thesis
    unfolding flag_enabled_def Let_def u p g
    by (auto simp: scopes_of_def split: option.split)
qed

end
