(* ===== verification/RequestContext.thy ===== *)
theory RequestContext
  imports Errors
begin

text \<open>
  The per-request state (\<open>src/common/context\<close>, \<open>src/common/middleware\<close>): the correlation id
  a request is known by, and the store that guards annotate with the caller and the bound
  organization.
\<close>

text \<open>A header as Express hands it over.\<close>

datatype header = Header_absent | Header_one string | Header_many "string list"

section \<open>The request id\<close>

definition request_id_header :: string where
  "request_id_header = ''x-request-id''"

text \<open>One character of \<open>[A-Za-z0-9_-]\<close>.\<close>

definition request_id_char :: "char \<Rightarrow> bool" where
  "request_id_char c \<longleftrightarrow>
     (let n = (of_char c :: nat)
      in (65 \<le> n \<and> n \<le> 90) \<or> (97 \<le> n \<and> n \<le> 122) \<or> (48 \<le> n \<and> n \<le> 57) \<or> n = 95 \<or> n = 45)"

text \<open>\<open>/^[A-Za-z0-9_-]{1,64}$/\<close>.\<close>

definition accepted_request_id :: "string \<Rightarrow> bool" where
  "accepted_request_id s \<longleftrightarrow> 1 \<le> length s \<and> length s \<le> 64 \<and> list_all request_id_char s"

fun is_acceptable_request_id :: "header \<Rightarrow> bool" where
  "is_acceptable_request_id (Header_one s) = accepted_request_id s"
| "is_acceptable_request_id _ = False"

text \<open>\<open>resolveRequestId\<close>; the fresh UUID is an argument.\<close>

definition resolve_request_id :: "string \<Rightarrow> header \<Rightarrow> string" where
  "resolve_request_id uuid candidate =
     (case candidate of
        Header_one s \<Rightarrow> (if is_acceptable_request_id candidate then s else uuid)
      | _ \<Rightarrow> uuid)"

section \<open>The store\<close>

record request_store =
  rs_requestId :: string
  rs_userId :: "string option"
  rs_organizationId :: "string option"

text \<open>\<open>AsyncLocalStorage\<close>: no store outside a request.\<close>

type_synonym request_context = "request_store option"

definition get_request_id :: "request_context \<Rightarrow> string option" where
  "get_request_id ctx = map_option rs_requestId ctx"

definition get_user_id :: "request_context \<Rightarrow> string option" where
  "get_user_id ctx = Option.bind ctx rs_userId"

definition get_organization_id :: "request_context \<Rightarrow> string option" where
  "get_organization_id ctx = Option.bind ctx rs_organizationId"

definition set_user_id :: "string \<Rightarrow> request_context \<Rightarrow> request_context" where
  "set_user_id u ctx = map_option (\<lambda>s. s\<lparr>rs_userId := Some u\<rparr>) ctx"

definition set_organization_id :: "string \<Rightarrow> request_context \<Rightarrow> request_context" where
  "set_organization_id o' ctx = map_option (\<lambda>s. s\<lparr>rs_organizationId := Some o'\<rparr>) ctx"

text \<open>
  \<open>RequestContextMiddleware.use\<close>: the id another middleware left on the request, else the
  header's, else a new one; it goes back in the response header and opens the store.
\<close>

definition context_middleware ::
  "string \<Rightarrow> header \<Rightarrow> header \<Rightarrow> string \<times> (string \<times> string) list \<times> request_context" where
  "context_middleware uuid existing inbound =
     (let requestId =
            (case existing of
               Header_one s \<Rightarrow> (if is_acceptable_request_id existing then s
                              else resolve_request_id uuid inbound)
             | _ \<Rightarrow> resolve_request_id uuid inbound)
      in (requestId, [(request_id_header, requestId)],
          Some \<lparr>rs_requestId = requestId, rs_userId = None, rs_organizationId = None\<rparr>))"

lemma set_organization_get [simp]:
  "get_organization_id (set_organization_id o' ctx) = (if ctx = None then None else Some o')"
  "get_request_id (set_organization_id o' ctx) = get_request_id ctx"
  "get_user_id (set_organization_id o' ctx) = get_user_id ctx"
  by (cases ctx; simp add: get_organization_id_def set_organization_id_def get_request_id_def
      get_user_id_def)+

text \<open>The id is the client's own whenever the client sends an acceptable one.\<close>

lemma client_chooses_request_id:
  assumes "accepted_request_id s" and "\<not> is_acceptable_request_id existing"
  shows "fst (context_middleware uuid existing (Header_one s)) = s"
  using assms
  by (cases existing) (auto simp: context_middleware_def resolve_request_id_def Let_def)

lemma middleware_id_accepted:
  assumes "accepted_request_id uuid"
  shows "accepted_request_id (fst (context_middleware uuid existing inbound))"
  using assms
  by (auto simp: context_middleware_def resolve_request_id_def Let_def split: header.split)

end
