(* ===== verification/Organizations.thy ===== *)
theory Organizations
  imports FeatureFlags Subject RequestContext Plans
begin

text \<open>
  Organizations and their members (\<open>src/modules/organizations\<close>): the service, the guard that
  binds a request to an organization, and the resolver of the subject a request bills.

  The state is the three tables; the environment gives the ids of new rows, the time and the
  rows of the user table.
\<close>

section \<open>Tables\<close>

datatype member_role = Owner | Admin | Member

datatype org_billing_mode = Bill_user | Bill_organization

record org_row =
  og_id :: string
  og_slug :: string
  og_name :: string
  og_billingMode :: org_billing_mode

record member_row =
  om_organizationId :: string
  om_userId :: string
  om_role :: member_role
  om_createdAt :: int

record org_db =
  organizations :: "org_row list"
  members :: "member_row list"

record org_env =
  oe_newId :: "org_db \<Rightarrow> string"
  oe_now :: int
  oe_userExists :: "string \<Rightarrow> bool"

record member_view =
  mv_userId :: string
  mv_role :: member_role
  mv_createdAt :: int

definition manager_roles :: "member_role list" where
  "manager_roles = [Owner, Admin]"

definition to_member_view :: "member_row \<Rightarrow> member_view" where
  "to_member_view r =
     \<lparr>mv_userId = om_userId r, mv_role = om_role r, mv_createdAt = om_createdAt r\<rparr>"

section \<open>Reads\<close>

definition is_member_of :: "string \<Rightarrow> string \<Rightarrow> member_row \<Rightarrow> bool" where
  "is_member_of o' u r \<longleftrightarrow> om_organizationId r = o' \<and> om_userId r = u"

definition get_membership :: "string \<Rightarrow> string \<Rightarrow> org_db \<Rightarrow> member_role option" where
  "get_membership o' u db = map_option om_role (List.find (is_member_of o' u) (members db))"

definition not_a_member :: exn where
  "not_a_member = api_error 403 FORBIDDEN ''You are not a member of this organization.''"

definition require_membership :: "string \<Rightarrow> string \<Rightarrow> org_db \<Rightarrow> exn + member_role" where
  "require_membership o' u db =
     (case get_membership o' u db of None \<Rightarrow> Inl not_a_member | Some r \<Rightarrow> Inr r)"

definition require_manager :: "string \<Rightarrow> string \<Rightarrow> org_db \<Rightarrow> exn + member_role" where
  "require_manager o' u db =
     (case require_membership o' u db of
        Inl e \<Rightarrow> Inl e
      | Inr role \<Rightarrow>
          (if role \<notin> set manager_roles
           then Inl (api_error 403 FORBIDDEN ''Only an owner or admin can manage members.'')
           else Inr role))"

definition assert_user_exists :: "org_env \<Rightarrow> string \<Rightarrow> exn + unit" where
  "assert_user_exists env u =
     (if oe_userExists env u then Inr ()
      else Inl (api_error_details 404 NOT_FOUND ''User not found.'' (JObj [(''userId'', JStr u)])))"

text \<open>\<open>listMine\<close>: memberships by age, each with its organization.\<close>

definition list_mine :: "string \<Rightarrow> org_db \<Rightarrow> (org_row option \<times> member_role) list" where
  "list_mine u db =
     map (\<lambda>r. (List.find (\<lambda>o'. og_id o' = om_organizationId r) (organizations db), om_role r))
       (sort_key om_createdAt (filter (\<lambda>r. om_userId r = u) (members db)))"

definition list_members :: "string \<Rightarrow> string \<Rightarrow> org_db \<Rightarrow> exn + member_view list" where
  "list_members actor o' db =
     (case require_membership o' actor db of
        Inl e \<Rightarrow> Inl e
      | Inr _ \<Rightarrow>
          Inr (map to_member_view
                (sort_key om_createdAt (filter (\<lambda>r. om_organizationId r = o') (members db)))))"

section \<open>Writes\<close>

definition create_org_tx ::
  "org_env \<Rightarrow> string \<Rightarrow> string \<Rightarrow> string \<Rightarrow> org_db \<Rightarrow> exn + (org_row \<times> org_db)" where
  "create_org_tx env creator name slug db =
     (let og = \<lparr>og_id = oe_newId env db, og_slug = slug, og_name = name,
                og_billingMode = Bill_user\<rparr>
      in if slug \<in> og_slug ` set (organizations db) then Inl unique_violation
         else if \<not> oe_userExists env creator then Inl foreign_key_violation
         else Inr (og, \<lparr>organizations = organizations db @ [og],
                        members = members db @
                          [\<lparr>om_organizationId = og_id og, om_userId = creator, om_role = Owner,
                            om_createdAt = oe_now env\<rparr>]\<rparr>))"

definition create_organization ::
  "org_env \<Rightarrow> tx_fault \<Rightarrow> string \<Rightarrow> string \<Rightarrow> string \<Rightarrow> org_db \<Rightarrow> (exn + org_row) \<times> org_db" where
  "create_organization env fault creator name slug db =
     (case List.find (\<lambda>o'. og_slug o' = slug) (organizations db) of
        Some _ \<Rightarrow>
          (Inl (api_error_details 409 CONFLICT ''An organization with this slug already exists.''
                 (JObj [(''slug'', JStr slug)])), db)
      | None \<Rightarrow> run_tx fault (create_org_tx env creator name slug) db)"

text \<open>The upsert of \<open>addMember\<close>: an existing row takes the new role.\<close>

definition upsert_member :: "org_env \<Rightarrow> string \<Rightarrow> string \<Rightarrow> member_role \<Rightarrow> org_db \<Rightarrow> member_row \<times> org_db" where
  "upsert_member env o' u role db =
     (case List.find (is_member_of o' u) (members db) of
        Some r \<Rightarrow>
          (r\<lparr>om_role := role\<rparr>,
           db\<lparr>members := update_where (is_member_of o' u) (\<lambda>r. r\<lparr>om_role := role\<rparr>) (members db)\<rparr>)
      | None \<Rightarrow>
          (let r = \<lparr>om_organizationId = o', om_userId = u, om_role = role, om_createdAt = oe_now env\<rparr>
           in (r, db\<lparr>members := members db @ [r]\<rparr>)))"

definition add_member ::
  "org_env \<Rightarrow> string \<Rightarrow> string \<Rightarrow> string \<Rightarrow> member_role option \<Rightarrow> org_db \<Rightarrow>
     (exn + member_view) \<times> org_db" where
  "add_member env actor o' u role' db =
     (case require_manager o' actor db of
        Inl e \<Rightarrow> (Inl e, db)
      | Inr actor_role \<Rightarrow>
          (let role = (case role' of Some r \<Rightarrow> r | None \<Rightarrow> Member)
           in if role = Owner \<and> actor_role \<noteq> Owner
              then (Inl (api_error 403 FORBIDDEN ''Only an owner can grant the owner role.''), db)
              else
                (case assert_user_exists env u of
                   Inl e \<Rightarrow> (Inl e, db)
                 | Inr _ \<Rightarrow>
                     (case upsert_member env o' u role db of
                        (r, db') \<Rightarrow> (Inr (to_member_view r), db')))))"

definition owner_count :: "string \<Rightarrow> org_db \<Rightarrow> nat" where
  "owner_count o' db =
     length (filter (\<lambda>r. om_organizationId r = o' \<and> om_role r = Owner) (members db))"

definition remove_member ::
  "string \<Rightarrow> string \<Rightarrow> string \<Rightarrow> org_db \<Rightarrow> (exn + unit) \<times> org_db" where
  "remove_member actor o' u db =
     (case require_manager o' actor db of
        Inl e \<Rightarrow> (Inl e, db)
      | Inr actor_role \<Rightarrow>
          (case List.find (is_member_of o' u) (members db) of
             None \<Rightarrow> (Inl (api_error 404 NOT_FOUND ''Membership not found.''), db)
           | Some target \<Rightarrow>
               (if om_role target = Owner \<and> actor_role \<noteq> Owner
                then (Inl (api_error 403 FORBIDDEN ''Only an owner can remove an owner.''), db)
                else if om_role target = Owner \<and> owner_count o' db \<le> 1
                then (Inl (api_error 409 CONFLICT ''An organization must keep at least one owner.''), db)
                else (Inr (), db\<lparr>members := filter (\<lambda>r. \<not> is_member_of o' u r) (members db)\<rparr>))))"

section \<open>Binding a request\<close>

text \<open>
  \<open>OrganizationContextGuard.canActivate\<close>. The header is the configured one; an empty value
  counts as none.
\<close>

definition org_context_guard ::
  "org_db \<Rightarrow> bool \<Rightarrow> bool option \<times> bool option \<Rightarrow> header \<Rightarrow> string option \<Rightarrow> request_context \<Rightarrow>
     (exn + bool) \<times> request_context" where
  "org_context_guard db http public h principalId ctx =
     (if \<not> http then (Inr True, ctx)
      else if case_prod get_all_and_override public = Some True then (Inr True, ctx)
      else
        (case truthy (case h of Header_many (v # _) \<Rightarrow> Some v | Header_one v \<Rightarrow> Some v | _ \<Rightarrow> None) of
           None \<Rightarrow> (Inr True, ctx)
         | Some o' \<Rightarrow>
             (case principalId of
                None \<Rightarrow> (Inl (api_error 401 UNAUTHORIZED ''Authentication required.''), ctx)
              | Some u \<Rightarrow>
                  (case get_membership o' u db of
                     None \<Rightarrow>
                       (Inl (api_error_details 403 FORBIDDEN
                              ''You are not a member of this organization.''
                              (JObj [(''organizationId'', JStr o')])), ctx)
                   | Some _ \<Rightarrow> (Inr True, set_organization_id o' ctx)))))"

text \<open>
  \<open>BillingSubjectResolver.resolve\<close>: the user, unless the bound organization bills itself and
  the flag allows it.
\<close>

definition resolve_billing ::
  "org_db \<Rightarrow> (string \<times> bool) list \<Rightarrow> exn + flag_override list \<Rightarrow> request_context \<Rightarrow>
     string option \<Rightarrow> string \<Rightarrow> exn + billing_subject" where
  "resolve_billing db defaults flags ctx override userId =
     (case truthy (case override of Some o' \<Rightarrow> Some o' | None \<Rightarrow> get_organization_id ctx) of
        None \<Rightarrow> Inr (user_subject userId)
      | Some o' \<Rightarrow>
          (case List.find (\<lambda>g. og_id g = o') (organizations db) of
             None \<Rightarrow> Inr (user_subject userId)
           | Some og \<Rightarrow>
               (if og_billingMode og \<noteq> Bill_organization then Inr (user_subject userId)
                else
                  (case is_enabled defaults flags flag_org_billing
                          \<lparr>fc_userId = Some userId, fc_organizationId = Some o'\<rparr> of
                     Inl e \<Rightarrow> Inl e
                   | Inr enabled \<Rightarrow>
                       (if \<not> enabled then Inr (user_subject userId)
                        else Inr (organization_subject o'))))))"

section \<open>Runs\<close>

datatype org_op =
    Op_Create string string string
  | Op_Add string string string "member_role option"
  | Op_Remove string string string

fun run_org_op :: "org_env \<Rightarrow> tx_fault \<Rightarrow> org_op \<Rightarrow> org_db \<Rightarrow> org_db" where
  "run_org_op env fault (Op_Create u name slug) db = snd (create_organization env fault u name slug db)"
| "run_org_op env fault (Op_Add actor o' u role) db = snd (add_member env actor o' u role db)"
| "run_org_op env fault (Op_Remove actor o' u) db = snd (remove_member actor o' u db)"

fun run_org_ops :: "(org_env \<times> tx_fault \<times> org_op) list \<Rightarrow> org_db \<Rightarrow> org_db" where
  "run_org_ops [] db = db"
| "run_org_ops ((env, fault, op) # ops) db = run_org_ops ops (run_org_op env fault op db)"

definition empty_org_db :: org_db where
  "empty_org_db = \<lparr>organizations = [], members = []\<rparr>"

text \<open>One row per user and organization, unique slugs and ids, and every row in an organization.\<close>

definition org_tables_ok :: "org_db \<Rightarrow> bool" where
  "org_tables_ok db \<longleftrightarrow>
     distinct (map og_id (organizations db)) \<and> distinct (map og_slug (organizations db)) \<and>
     distinct (map (\<lambda>r. (om_organizationId r, om_userId r)) (members db)) \<and>
     om_organizationId ` set (members db) \<subseteq> og_id ` set (organizations db)"

definition fresh_org_ids :: "org_env \<Rightarrow> bool" where
  "fresh_org_ids env \<longleftrightarrow> (\<forall>db. oe_newId env db \<notin> og_id ` set (organizations db))"

text \<open>Every organization has an owner.\<close>

definition owned :: "org_db \<Rightarrow> bool" where
  "owned db \<longleftrightarrow> (\<forall>g\<in>set (organizations db). 0 < owner_count (og_id g) db)"

text \<open>An \<open>addMember\<close> that gives a present owner a lower role.\<close>

fun demotes_owner :: "org_db \<Rightarrow> org_op \<Rightarrow> bool" where
  "demotes_owner db (Op_Add actor o' u role) \<longleftrightarrow>
     get_membership o' u db = Some Owner \<and> role \<noteq> Some Owner"
| "demotes_owner db _ \<longleftrightarrow> False"

lemma is_member_of_role [simp]: "is_member_of o' u (r\<lparr>om_role := x\<rparr>) = is_member_of o' u r"
  by (simp add: is_member_of_def)

lemma get_membership_iff:
  assumes "org_tables_ok db"
  shows "get_membership o' u db = Some role \<longleftrightarrow>
         (\<exists>r\<in>set (members db). is_member_of o' u r \<and> om_role r = role)"
proof -
  have d: "distinct (map (\<lambda>r. (om_organizationId r, om_userId r)) (members db))"
    using assms by (simp add: org_tables_ok_def)
  have eq: "is_member_of o' u = (\<lambda>r. (om_organizationId r, om_userId r) = (o', u))"
    by (auto simp: is_member_of_def)
  show ?thesis
    unfolding get_membership_def eq using find_unique_iff[OF d, of "(o', u)"] by fastforce
qed

lemma require_manager_role:
  "require_manager o' u db = Inr role \<Longrightarrow> get_membership o' u db = Some role \<and> role \<noteq> Member"
  by (auto simp: require_manager_def require_membership_def manager_roles_def
      split: sum.splits option.splits if_splits)

text \<open>What each operation can leave behind.\<close>

lemma create_organization_after:
  "snd (create_organization env fault u name slug db) = db \<or>
   (\<exists>og r. snd (create_organization env fault u name slug db) =
        \<lparr>organizations = organizations db @ [og], members = members db @ [r]\<rparr> \<and>
        og_id og = oe_newId env db \<and> og_slug og = slug \<and> slug \<notin> og_slug ` set (organizations db) \<and>
        om_organizationId r = og_id og \<and> om_userId r = u \<and> om_role r = Owner)"
proof (cases "List.find (\<lambda>o'. og_slug o' = slug) (organizations db)")
  case None
  let ?og = "\<lparr>og_id = oe_newId env db, og_slug = slug, og_name = name, og_billingMode = Bill_user\<rparr>"
  let ?r = "\<lparr>om_organizationId = og_id ?og, om_userId = u, om_role = Owner, om_createdAt = oe_now env\<rparr>"
  have body: "slug \<notin> og_slug ` set (organizations db) \<and>
      d = \<lparr>organizations = organizations db @ [?og], members = members db @ [?r]\<rparr>"
    if "create_org_tx env u name slug db = Inr (x, d)" for x d
    using that by (auto simp: create_org_tx_def Let_def split: if_splits)
  have "snd (create_organization env fault u name slug db)
          = snd (run_tx fault (create_org_tx env u name slug) db)"
    using None by (simp add: create_organization_def)
  with run_tx_after[of fault "create_org_tx env u name slug" db] body show ?thesis
    by (elim disjE exE conjE) (simp, intro disjI2 exI[of _ ?og] exI[of _ ?r], simp)
qed (simp add: create_organization_def)

lemma add_member_after:
  "snd (add_member env actor o' u role db) = db \<or>
   (\<exists>actor_role new. get_membership o' actor db = Some actor_role \<and> actor_role \<noteq> Member \<and>
      new = (case role of Some r \<Rightarrow> r | None \<Rightarrow> Member) \<and> (new = Owner \<longrightarrow> actor_role = Owner) \<and>
      snd (add_member env actor o' u role db) = snd (upsert_member env o' u new db))"
  using require_manager_role[of o' actor db]
  by (auto simp: add_member_def Let_def split: sum.split prod.split)

lemma remove_member_after:
  "snd (remove_member actor o' u db) = db \<or>
   (\<exists>actor_role role. get_membership o' actor db = Some actor_role \<and> actor_role \<noteq> Member \<and>
      get_membership o' u db = Some role \<and>
      (role = Owner \<longrightarrow> actor_role = Owner \<and> 1 < owner_count o' db) \<and>
      snd (remove_member actor o' u db) =
        db\<lparr>members := filter (\<lambda>r. \<not> is_member_of o' u r) (members db)\<rparr>)"
  using require_manager_role[of o' actor db]
  by (auto simp: remove_member_def get_membership_def split: sum.split option.split)

lemma org_tables_ok_step [inv_intros]:
  assumes "org_tables_ok db" and "fresh_org_ids env"
  shows "org_tables_ok (run_org_op env fault op db)"
proof (cases op)
  case (Op_Create u name slug)
  have "oe_newId env db \<notin> og_id ` set (organizations db)" using assms(2) by (simp add: fresh_org_ids_def)
  with assms(1) Op_Create show ?thesis
    using create_organization_after[of env fault u name slug db]
    by (fastforce simp: org_tables_ok_def image_subset_iff)
next
  case (Op_Remove actor o' u)
  with assms(1) show ?thesis
    using remove_member_after[of actor o' u db]
    by (auto simp: org_tables_ok_def distinct_map_filter image_subset_iff)
next
  case (Op_Add actor o' u role)
  show ?thesis
    using add_member_after[of env actor o' u role db]
  proof
    assume "snd (add_member env actor o' u role db) = db"
    with assms(1) Op_Add show ?thesis by simp
  next
    assume "\<exists>actor_role new. get_membership o' actor db = Some actor_role \<and> actor_role \<noteq> Member \<and>
      new = (case role of Some r \<Rightarrow> r | None \<Rightarrow> Member) \<and> (new = Owner \<longrightarrow> actor_role = Owner) \<and>
      snd (add_member env actor o' u role db) = snd (upsert_member env o' u new db)"
    then obtain actor_role new where a: "get_membership o' actor db = Some actor_role"
      and eq: "snd (add_member env actor o' u role db) = snd (upsert_member env o' u new db)"
      by blast
    from a get_membership_iff[OF assms(1)] have o': "o' \<in> og_id ` set (organizations db)"
      using assms(1) by (fastforce simp: org_tables_ok_def is_member_of_def)
    have "org_tables_ok (snd (upsert_member env o' u new db))"
      using assms(1) o'
      by (auto simp: upsert_member_def Let_def org_tables_ok_def map_update_where set_update_where
          find_None_conv is_member_of_def split: option.split)
    with eq Op_Add show ?thesis by simp
  qed
qed

text \<open>How the number of owners changes.\<close>

lemma owner_count_append [simp]:
  "owner_count o' (db\<lparr>members := members db @ [r]\<rparr>) =
     owner_count o' db + (if om_organizationId r = o' \<and> om_role r = Owner then 1 else 0)"
  by (simp add: owner_count_def)

lemma filter_drop_unique:
  assumes "distinct (map k rows)" and "r \<in> set rows"
  shows "length (filter P (filter (\<lambda>x. k x \<noteq> k r) rows)) + (if P r then 1 else 0) = length (filter P rows)"
  using assms
proof (induction rows)
  case (Cons a rows)
  show ?case
  proof (cases "k a = k r")
    case True
    have "a = r"
    proof (rule ccontr)
      assume "a \<noteq> r"
      with Cons.prems have "r \<in> set rows" by simp
      with Cons.prems(1) True show False by (auto simp: image_iff)
    qed
    with Cons.prems have "filter (\<lambda>x. k x \<noteq> k r) rows = rows"
      by (auto simp: filter_id_conv image_iff)
    with \<open>a = r\<close> show ?thesis by simp
  next
    case False
    with Cons show ?thesis by auto
  qed
qed simp

lemma remove_owner_count:
  assumes "org_tables_ok db" and "get_membership o' u db = Some role"
  shows "owner_count g (db\<lparr>members := filter (\<lambda>r. \<not> is_member_of o' u r) (members db)\<rparr>)
           + (if g = o' \<and> role = Owner then 1 else 0) = owner_count g db"
proof -
  from assms get_membership_iff[OF assms(1)] obtain r where
    r: "r \<in> set (members db)" "is_member_of o' u r" "om_role r = role" by blast
  have d: "distinct (map (\<lambda>r. (om_organizationId r, om_userId r)) (members db))"
    using assms(1) by (simp add: org_tables_ok_def)
  have "(\<lambda>x. \<not> is_member_of o' u x)
      = (\<lambda>x. (om_organizationId x, om_userId x) \<noteq> (om_organizationId r, om_userId r))"
    using r(2) by (auto simp: is_member_of_def fun_eq_iff)
  with filter_drop_unique[OF d r(1), of "\<lambda>r. om_organizationId r = g \<and> om_role r = Owner"] r(2,3)
  show ?thesis by (auto simp: owner_count_def is_member_of_def)
qed

lemma upsert_owner_count:
  assumes "org_tables_ok db" and "get_membership o' u db = Some Owner \<longrightarrow> role = Owner"
  shows "owner_count g db \<le> owner_count g (snd (upsert_member env o' u role db))"
proof (cases "List.find (is_member_of o' u) (members db)")
  case None
  then show ?thesis by (simp add: upsert_member_def Let_def)
next
  case (Some r)
  have len: "length (filter P xs) \<le> length (filter P (update_where Q f xs))"
    if "\<forall>x\<in>set xs. Q x \<longrightarrow> P x \<longrightarrow> P (f x)" for P Q f and xs :: "member_row list"
    using that by (induction xs) auto
  have "role = Owner" if "is_member_of o' u x" "x \<in> set (members db)" "om_role x = Owner" for x
    using assms(2) get_membership_iff[OF assms(1), of o' u Owner] that by blast
  then show ?thesis
    using Some by (auto simp: upsert_member_def owner_count_def intro!: len)
qed

lemma owned_step [inv_intros]:
  assumes "org_tables_ok db" and "owned db" and "fresh_org_ids env" and "\<not> demotes_owner db op"
  shows "owned (run_org_op env fault op db)"
proof (cases op)
  case (Op_Create u name slug)
  show ?thesis
    using create_organization_after[of env fault u name slug db]
  proof (elim disjE exE conjE)
    fix og r
    assume *: "snd (create_organization env fault u name slug db) =
        \<lparr>organizations = organizations db @ [og], members = members db @ [r]\<rparr>"
      "om_organizationId r = og_id og" "om_role r = Owner"
    have "owner_count g \<lparr>organizations = organizations db @ [og], members = members db @ [r]\<rparr>
            = owner_count g db + (if g = og_id og then 1 else 0)" for g
      using *(2,3) by (simp add: owner_count_def)
    with assms(2) Op_Create * show ?thesis by (auto simp: owned_def)
  qed (use assms(2) Op_Create in simp)
next
  case (Op_Remove actor o' u)
  show ?thesis
    using remove_member_after[of actor o' u db]
  proof (elim disjE exE conjE)
    fix actor_role role
    assume *: "get_membership o' u db = Some role"
      "role = Owner \<longrightarrow> actor_role = Owner \<and> 1 < owner_count o' db"
      "snd (remove_member actor o' u db) =
        db\<lparr>members := filter (\<lambda>r. \<not> is_member_of o' u r) (members db)\<rparr>"
    have "0 < owner_count (og_id g) (db\<lparr>members := filter (\<lambda>r. \<not> is_member_of o' u r) (members db)\<rparr>)"
      if "g \<in> set (organizations db)" for g
      using remove_owner_count[OF assms(1) *(1), of "og_id g"] *(2) that assms(2)
      by (auto simp: owned_def split: if_splits)
    with Op_Remove *(3) show ?thesis by (simp add: owned_def)
  qed (use assms(2) Op_Remove in simp)
next
  case (Op_Add actor o' u role)
  show ?thesis
    using add_member_after[of env actor o' u role db]
  proof (elim disjE exE conjE)
    fix actor_role new
    assume *: "new = (case role of Some r \<Rightarrow> r | None \<Rightarrow> Member)"
      "snd (add_member env actor o' u role db) = snd (upsert_member env o' u new db)"
    have "get_membership o' u db = Some Owner \<longrightarrow> new = Owner"
      using assms(4) Op_Add *(1) by (auto split: option.split)
    from upsert_owner_count[OF assms(1) this] have
      "owner_count g db \<le> owner_count g (snd (upsert_member env o' u new db))" for g .
    moreover have "organizations (snd (upsert_member env o' u new db)) = organizations db"
      by (simp add: upsert_member_def Let_def split: option.split)
    ultimately show ?thesis
      using assms(2) Op_Add *(2) by (auto simp: owned_def intro: less_le_trans)
  qed (use assms(2) Op_Add in simp)
qed

end
