(* ===== verification/OrgProperties.thy ===== *)
theory OrgProperties
  imports Organizations
begin

text \<open>
  What organizations and flags promise: who may change a membership, when an organization
  keeps an owner and how it can lose its last one, when a request bills an organization, and
  that the flag table is the map of its scopes.
\<close>

definition sample_org_env :: org_env where
  "sample_org_env =
     \<lparr>oe_newId = (\<lambda>db. CHR ''o'' # concat (map og_id (organizations db))), oe_now = 7,
      oe_userExists = (\<lambda>u. u \<in> {''ann'', ''bob'', ''eve''})\<rparr>"

definition sample_org_db :: org_db where
  "sample_org_db = run_org_ops
     [(sample_org_env, Tx_ok, Op_Create ''ann'' ''Acme'' ''acme''),
      (sample_org_env, Tx_ok, Op_Add ''ann'' ''o'' ''bob'' (Some Admin))] empty_org_db"

lemma sample_org_db_eq:
  "sample_org_db =
     \<lparr>organizations = [\<lparr>og_id = ''o'', og_slug = ''acme'', og_name = ''Acme'', og_billingMode = Bill_user\<rparr>],
      members = [\<lparr>om_organizationId = ''o'', om_userId = ''ann'', om_role = Owner, om_createdAt = 7\<rparr>,
                 \<lparr>om_organizationId = ''o'', om_userId = ''bob'', om_role = Admin, om_createdAt = 7\<rparr>]\<rparr>"
  by code_simp

lemma sample_org_ok: "org_tables_ok sample_org_db"
  by (simp add: sample_org_db_eq org_tables_ok_def)

text \<open>No step of a run lowers the role of a present owner through \<open>addMember\<close>.\<close>

fun keeps_owners :: "(org_env \<times> tx_fault \<times> org_op) list \<Rightarrow> org_db \<Rightarrow> bool" where
  "keeps_owners [] db \<longleftrightarrow> True"
| "keeps_owners ((env, fault, op) # ops) db \<longleftrightarrow>
     \<not> demotes_owner db op \<and> keeps_owners ops (run_org_op env fault op db)"

lemma run_org_ops_inv:
  assumes "\<forall>(env, fault, op)\<in>set ops. fresh_org_ids env"
    and "keeps_owners ops db" and "org_tables_ok db" and "owned db"
  shows "org_tables_ok (run_org_ops ops db) \<and> owned (run_org_ops ops db)"
  using assms
proof (induction ops arbitrary: db)
  case (Cons x ops)
  obtain env fault op where x: "x = (env, fault, op)" by (cases x)
  from Cons.prems x have "org_tables_ok (run_org_op env fault op db)" "owned (run_org_op env fault op db)"
    by (auto intro: inv_intros)
  with Cons x show ?case by auto
qed simp

lemma fresh_sample_org [simp]: "fresh_org_ids sample_org_env"
proof -
  have "CHR ''o'' # concat (map og_id gs) \<notin> og_id ` set gs" for gs :: "org_row list"
  proof
    assume "CHR ''o'' # concat (map og_id gs) \<in> og_id ` set gs"
    then obtain g where "g \<in> set gs" "CHR ''o'' # concat (map og_id gs) = og_id g" by auto
    moreover have "g \<in> set gs \<Longrightarrow> length (og_id g) \<le> length (concat (map og_id gs))"
      by (induction gs) auto
    ultimately show False by (metis impossible_Cons)
  qed
  then show ?thesis by (simp add: fresh_org_ids_def sample_org_env_def)
qed

text \<open>
  C13. From an empty database, any run of creations, additions and removals by any callers, with
  any transaction failing, in which no \<open>addMember\<close> gives a present owner a lower role, ends
  with an owner in every organization, one membership per user and unique slugs.
\<close>

theorem organizations_keep_an_owner:
  assumes "\<forall>(env, fault, op)\<in>set ops. fresh_org_ids env" and "keeps_owners ops empty_org_db"
  shows "owned (run_org_ops ops empty_org_db) \<and> org_tables_ok (run_org_ops ops empty_org_db)"
  using run_org_ops_inv[OF assms]
  by (simp add: org_tables_ok_def owned_def empty_org_db_def)

theorem organizations_keep_an_owner_witness:
  "owned (run_org_ops
     [(sample_org_env, Tx_ok, Op_Create ''ann'' ''Acme'' ''acme''),
      (sample_org_env, Tx_ok, Op_Add ''ann'' ''o'' ''bob'' (Some Owner)),
      (sample_org_env, Tx_ok, Op_Remove ''bob'' ''o'' ''ann''),
      (sample_org_env, Tx_ok, Op_Remove ''bob'' ''o'' ''bob'')] empty_org_db)"
proof -
  have "keeps_owners
     [(sample_org_env, Tx_ok, Op_Create ''ann'' ''Acme'' ''acme''),
      (sample_org_env, Tx_ok, Op_Add ''ann'' ''o'' ''bob'' (Some Owner)),
      (sample_org_env, Tx_ok, Op_Remove ''bob'' ''o'' ''ann''),
      (sample_org_env, Tx_ok, Op_Remove ''bob'' ''o'' ''bob'')] empty_org_db"
    by code_simp
  then show ?thesis
    using organizations_keep_an_owner[of
     "[(sample_org_env, Tx_ok, Op_Create ''ann'' ''Acme'' ''acme''),
      (sample_org_env, Tx_ok, Op_Add ''ann'' ''o'' ''bob'' (Some Owner)),
      (sample_org_env, Tx_ok, Op_Remove ''bob'' ''o'' ''ann''),
      (sample_org_env, Tx_ok, Op_Remove ''bob'' ''o'' ''bob'')]"] by simp
qed

text \<open>
  C14. \<open>addMember\<close> does let an admin, who may not remove an owner nor grant the role, take it
  away: adding a present owner again without the owner role answers normally and leaves that
  user with the lower role. When the user was the only owner the organization has none left,
  although \<open>removeMember\<close> refuses exactly that.
\<close>

theorem admin_can_strip_an_owner:
  assumes "org_tables_ok db" and "get_membership o' actor db = Some Admin"
    and "get_membership o' u db = Some Owner" and "oe_userExists env u" and "role \<noteq> Some Owner"
  shows "(\<exists>v. fst (add_member env actor o' u role db) = Inr v) \<and>
         get_membership o' u (snd (add_member env actor o' u role db))
           = Some (case role of Some r \<Rightarrow> r | None \<Rightarrow> Member) \<and>
         Suc (owner_count o' (snd (add_member env actor o' u role db))) = owner_count o' db \<and>
         fst (remove_member actor o' u db)
           = Inl (api_error 403 FORBIDDEN ''Only an owner can remove an owner.'')"
proof -
  let ?new = "case role of Some r \<Rightarrow> r | None \<Rightarrow> Member"
  have new: "?new \<noteq> Owner" using assms(5) by (auto split: option.split)
  have man: "require_manager o' actor db = Inr Admin"
    using assms(2) by (simp add: require_manager_def require_membership_def manager_roles_def)
  obtain t where t: "List.find (is_member_of o' u) (members db) = Some t" "om_role t = Owner"
    using assms(3) by (auto simp: get_membership_def)
  let ?f = "update_where (is_member_of o' u) (\<lambda>r. r\<lparr>om_role := ?new\<rparr>)"
  have add: "add_member env actor o' u role db =
      (Inr (to_member_view (t\<lparr>om_role := ?new\<rparr>)), db\<lparr>members := ?f (members db)\<rparr>)"
    using man new assms(4) t
    by (simp add: add_member_def assert_user_exists_def upsert_member_def Let_def)
  have find: "List.find (is_member_of o' u) (?f xs)
      = map_option (\<lambda>r. r\<lparr>om_role := ?new\<rparr>) (List.find (is_member_of o' u) xs)" for xs
    by (induction xs) auto
  let ?P = "\<lambda>r. om_organizationId r = o' \<and> om_role r = Owner"
  have same: "owner_count o' (db\<lparr>members := ?f (members db)\<rparr>)
      = owner_count o' (db\<lparr>members := filter (\<lambda>r. \<not> is_member_of o' u r) (members db)\<rparr>)"
  proof -
    have "length (filter ?P (?f xs)) = length (filter ?P (filter (\<lambda>r. \<not> is_member_of o' u r) xs))" for xs
      using new by (induction xs) auto
    then show ?thesis by (simp add: owner_count_def)
  qed
  show ?thesis
    using remove_owner_count[OF assms(1,3), of o'] find[of "members db"] t man
    by (simp add: add same get_membership_def remove_member_def)
qed

theorem admin_can_strip_an_owner_witness:
  "owner_count ''o'' sample_org_db = 1 \<and>
   owner_count ''o'' (snd (add_member sample_org_env ''bob'' ''o'' ''ann'' None sample_org_db)) = 0"
proof -
  have "get_membership ''o'' ''bob'' sample_org_db = Some Admin"
    "get_membership ''o'' ''ann'' sample_org_db = Some Owner"
    "oe_userExists sample_org_env ''ann''" "owner_count ''o'' sample_org_db = 1"
    by (simp_all add: sample_org_db_eq get_membership_def is_member_of_def sample_org_env_def
        owner_count_def)
  with admin_can_strip_an_owner[OF sample_org_ok, of "''o''" "''bob''" "''ann''" sample_org_env None]
  show ?thesis by simp
qed

lemma upsert_membership:
  "get_membership g v (snd (upsert_member env o' u role db)) =
     (if g = o' \<and> v = u then Some role else get_membership g v db)"
proof (cases "List.find (is_member_of o' u) (members db)")
  case None
  then show ?thesis
    by (auto simp: upsert_member_def Let_def get_membership_def find_append is_member_of_def
        split: option.split)
next
  case (Some t)
  have "List.find (is_member_of g v) (update_where (is_member_of o' u) (\<lambda>r. r\<lparr>om_role := role\<rparr>) xs)
      = map_option (\<lambda>r. if is_member_of o' u r then r\<lparr>om_role := role\<rparr> else r)
          (List.find (is_member_of g v) xs)" for xs
    by (induction xs) auto
  then show ?thesis
    using Some find_SomeD[of "is_member_of g v" "members db"]
    by (cases "List.find (is_member_of g v) (members db)")
      (auto simp: upsert_member_def get_membership_def is_member_of_def)
qed

lemma remove_membership:
  "get_membership g v (db\<lparr>members := filter (\<lambda>r. \<not> is_member_of o' u r) (members db)\<rparr>) =
     (if g = o' \<and> v = u then None else get_membership g v db)"
proof -
  have "List.find (is_member_of g v) (filter (\<lambda>r. \<not> is_member_of o' u r) xs) =
      (if g = o' \<and> v = u then None else List.find (is_member_of g v) xs)" for xs
    by (induction xs) (auto, auto simp: is_member_of_def)
  then show ?thesis by (simp add: get_membership_def)
qed

text \<open>
  C15. A membership of an existing organization changes only by an addition or removal of that
  very user in that very organization, made by a caller who is its owner or admin at that
  moment; whoever becomes an owner was added by an owner, and an owner is removed only by an
  owner and never the last one.
\<close>

theorem memberships_change_by_managers_only:
  assumes "g \<in> og_id ` set (organizations db)" and "fresh_org_ids env"
    and "get_membership g v (run_org_op env fault op db) \<noteq> get_membership g v db"
  shows "\<exists>actor role. get_membership g actor db = Some role \<and> role \<noteq> Member \<and>
    ((\<exists>r. op = Op_Add actor g v r \<and> (r = Some Owner \<longrightarrow> role = Owner)) \<or>
     op = Op_Remove actor g v \<and>
     (get_membership g v db = Some Owner \<longrightarrow> role = Owner \<and> 1 < owner_count g db))"
proof (cases op)
  case (Op_Create u name slug)
  have "oe_newId env db \<noteq> g" using assms(1,2) by (auto simp: fresh_org_ids_def)
  then have "get_membership g v (run_org_op env fault op db) = get_membership g v db"
    using create_organization_after[of env fault u name slug db] Op_Create
    by (auto simp: get_membership_def find_append is_member_of_def split: option.split)
  with assms(3) show ?thesis by simp
next
  case (Op_Add actor o' u role)
  with assms(3) add_member_after[of env actor o' u role db] show ?thesis
    by (force simp: upsert_membership split: if_splits)
next
  case (Op_Remove actor o' u)
  with assms(3) remove_member_after[of actor o' u db] show ?thesis
    by (force simp: remove_membership split: if_splits)
qed

theorem memberships_change_by_managers_only_witness:
  "get_membership ''o'' ''eve'' (run_org_op sample_org_env Tx_ok
      (Op_Add ''bob'' ''o'' ''eve'' None) sample_org_db) = Some Member \<and>
   (\<exists>actor role. get_membership ''o'' actor sample_org_db = Some role \<and> role \<noteq> Member)"
proof -
  have run: "get_membership ''o'' ''eve'' (run_org_op sample_org_env Tx_ok
      (Op_Add ''bob'' ''o'' ''eve'' None) sample_org_db) = Some Member"
    and none: "get_membership ''o'' ''eve'' sample_org_db = None"
    by code_simp+
  have "''o'' \<in> og_id ` set (organizations sample_org_db)" by (simp add: sample_org_db_eq)
  from memberships_change_by_managers_only[OF this fresh_sample_org, of "''eve''" Tx_ok
      "Op_Add ''bob'' ''o'' ''eve'' None"] run none
  show ?thesis by auto
qed

text \<open>
  C16. On a non-public HTTP request of a signed-in caller whose store names no organization yet,
  the header alone decides who is billed. It names an organization when it is one non-empty
  value, or repeated with a non-empty first value; without a name (absent, empty, repeated
  nothing, or an empty first value) the guard passes, leaves the store alone and the caller is
  billed. An organization the caller does not belong to is answered 403 and not bound. One the
  caller belongs to is bound, and is billed exactly when it bills itself and the \<open>org.billing\<close>
  flag is on for the pair; otherwise the caller is billed. Flags that cannot be read fail the
  request when, and only when, they were asked.
\<close>

definition names_organization :: "header \<Rightarrow> string \<Rightarrow> bool" where
  "names_organization h v \<longleftrightarrow> v \<noteq> [] \<and> (h = Header_one v \<or> (\<exists>vs. h = Header_many (v # vs)))"

theorem org_billing_needs_membership:
  fixes db :: org_db and flags :: "exn + flag_override list" and defaults :: "(string \<times> bool) list"
    and u :: string and h :: header and ctx :: request_context
  assumes "ctx \<noteq> None" and "get_organization_id ctx = None"
    and "case_prod get_all_and_override public \<noteq> Some True"
  defines "bound \<equiv> org_context_guard db True public h (Some u) ctx"
    and "bills_itself \<equiv> (\<lambda>v. \<exists>og. List.find (\<lambda>g. og_id g = v) (organizations db) = Some og \<and>
            og_billingMode og = Bill_organization)"
  shows "((\<nexists>v. names_organization h v) \<longrightarrow>
            bound = (Inr True, ctx) \<and>
            resolve_billing db defaults flags (snd bound) None u = Inr (User_Subject u)) \<and>
         (\<forall>v. names_organization h v \<longrightarrow>
            (if get_membership v u db = None
             then api_code_of (fst bound) = Some FORBIDDEN \<and> snd bound = ctx
             else fst bound = Inr True \<and> get_organization_id (snd bound) = Some v \<and>
               resolve_billing db defaults flags (snd bound) None u =
                 (if \<not> bills_itself v then Inr (User_Subject u)
                  else (case flags of
                      Inl e \<Rightarrow> Inl e
                    | Inr rows \<Rightarrow>
                        Inr (if flag_enabled defaults rows flag_org_billing
                                  \<lparr>fc_userId = Some u, fc_organizationId = Some v\<rparr>
                             then Org_Subject v else User_Subject u)))))"
proof (intro conjI impI allI)
  let ?first = "truthy (case h of Header_many (v # _) \<Rightarrow> Some v | Header_one v \<Rightarrow> Some v | _ \<Rightarrow> None)"
  have b: "bound = (case ?first of
        None \<Rightarrow> (Inr True, ctx)
      | Some v \<Rightarrow>
          (case get_membership v u db of
             None \<Rightarrow> (Inl (api_error_details 403 FORBIDDEN ''You are not a member of this organization.''
                        (JObj [(''organizationId'', JStr v)])), ctx)
           | Some _ \<Rightarrow> (Inr True, set_organization_id v ctx)))"
    using assms(3) by (simp add: bound_def org_context_guard_def split: option.split)
  {
    assume "\<nexists>v. names_organization h v"
    then have "?first = None"
      by (auto simp: names_organization_def truthy_def split: header.splits list.splits)
    with b have "bound = (Inr True, ctx)" by simp
    then show "bound = (Inr True, ctx)"
      and "resolve_billing db defaults flags (snd bound) None u = Inr (User_Subject u)"
      using assms(2) by (simp_all add: resolve_billing_def truthy_def user_subject_def)
  }
  fix v assume "names_organization h v"
  then have v: "?first = Some v" "v \<noteq> []" "truthy (Some v) = Some v"
    by (auto simp: names_organization_def truthy_def)
  have known: "is_feature_flag_key flag_org_billing"
    by (simp add: is_feature_flag_key_def feature_flag_list_def)
  show "if get_membership v u db = None
        then api_code_of (fst bound) = Some FORBIDDEN \<and> snd bound = ctx
        else fst bound = Inr True \<and> get_organization_id (snd bound) = Some v \<and>
          resolve_billing db defaults flags (snd bound) None u =
            (if \<not> bills_itself v then Inr (User_Subject u)
             else (case flags of
                 Inl e \<Rightarrow> Inl e
               | Inr rows \<Rightarrow>
                   Inr (if flag_enabled defaults rows flag_org_billing
                             \<lparr>fc_userId = Some u, fc_organizationId = Some v\<rparr>
                        then Org_Subject v else User_Subject u)))"
  proof (cases "get_membership v u db")
    case None
    with b v show ?thesis by (simp add: api_code_of_def)
  next
    case (Some r)
    with b v(1) have "bound = (Inr True, set_organization_id v ctx)" by simp
    moreover have "get_organization_id (set_organization_id v ctx) = Some v"
      using assms(1) by auto
    ultimately show ?thesis using Some v(3) known
      by (auto simp: resolve_billing_def is_enabled_one_table assert_known_key_def bills_itself_def
          user_subject_def organization_subject_def split: option.split sum.split)
  qed
qed

definition self_billing_db :: org_db where
  "self_billing_db = sample_org_db\<lparr>organizations :=
     [\<lparr>og_id = ''o'', og_slug = ''acme'', og_name = ''Acme'', og_billingMode = Bill_organization\<rparr>]\<rparr>"

definition ann_store :: request_context where
  "ann_store = Some \<lparr>rs_requestId = ''r'', rs_userId = Some ''ann'', rs_organizationId = None\<rparr>"

theorem org_billing_needs_membership_witness:
  "resolve_billing self_billing_db [] (Inr [])
     (snd (org_context_guard self_billing_db True (None, None) (Header_many [''o'', ''p'']) (Some ''ann'')
        ann_store)) None ''ann'' = Inr (Org_Subject ''o'') \<and>
   resolve_billing self_billing_db [] (Inr [])
     (snd (org_context_guard self_billing_db True (None, None) Header_absent (Some ''ann'')
        ann_store)) None ''ann'' = Inr (User_Subject ''ann'')"
proof -
  have "get_membership ''o'' ''ann'' self_billing_db \<noteq> None"
    by (simp add: self_billing_db_def sample_org_db_eq get_membership_def is_member_of_def)
  moreover have "\<exists>og. List.find (\<lambda>g. og_id g = ''o'') (organizations self_billing_db) = Some og \<and>
      og_billingMode og = Bill_organization"
    by (simp add: self_billing_db_def)
  moreover have "flag_enabled [] [] flag_org_billing \<lparr>fc_userId = Some ''ann'', fc_organizationId = Some ''o''\<rparr>"
    by code_simp
  moreover have "names_organization (Header_many [''o'', ''p'']) ''o''" "\<nexists>v. names_organization Header_absent v"
    by (simp_all add: names_organization_def)
  moreover have "ann_store \<noteq> None" "get_organization_id ann_store = None"
    "case_prod get_all_and_override (None, None) \<noteq> Some True"
    by (simp_all add: ann_store_def get_organization_id_def get_all_and_override_def)
  note bills = org_billing_needs_membership[where db = self_billing_db and u = "''ann''" and
      defaults = "[]" and flags = "Inr []", OF this]
  ultimately show ?thesis
    using bills[where h = "Header_many [''o'', ''p'']"] bills[where h = Header_absent] by simp
qed

text \<open>
  C17. The flag table is the map of its scopes. On a table built by writes at one scope each,
  setting an override answers normally and changes that scope alone, clearing empties that
  scope alone, both keep the table well-formed, and a read answers the user's scope, else the
  organization's, else the global one, else the environment's default, else the code's.
\<close>

theorem feature_flags_refine_scopes:
  assumes "flags_ok rows" and "is_feature_flag_key k" and "single_scope u p"
    and "new_id rows \<notin> fo_id ` set rows"
  shows "fst (set_override new_id k b u p rows) = Inr () \<and>
    scopes_of (snd (set_override new_id k b u p rows)) = (scopes_of rows)((k, u, p) \<mapsto> b) \<and>
    flags_ok (snd (set_override new_id k b u p rows)) \<and>
    scopes_of (snd (clear_override k u p rows)) = (scopes_of rows)((k, u, p) := None) \<and>
    flags_ok (snd (clear_override k u p rows)) \<and>
    is_enabled defaults (Inr rows) k ctx =
      Inr (case Option.bind (truthy (fc_userId ctx)) (\<lambda>u. scopes_of rows (k, Some u, None)) of
         Some b \<Rightarrow> b
       | None \<Rightarrow>
           (case Option.bind (truthy (fc_organizationId ctx)) (\<lambda>p. scopes_of rows (k, None, Some p)) of
              Some b \<Rightarrow> b
            | None \<Rightarrow>
                (case scopes_of rows (k, None, None) of
                   Some b \<Rightarrow> b
                 | None \<Rightarrow>
                     (case map_of defaults k of Some b \<Rightarrow> b
                      | None \<Rightarrow> map_of feature_flag_code_defaults k = Some True))))"
  using scopes_of_set[OF assms(1,3,2)] scopes_of_clear[OF assms(2)] flags_ok_set[of rows new_id u p, OF assms(1,4,3)]
    flags_ok_clear[OF assms(1)] flag_enabled_scopes[OF assms(1), of defaults k ctx] assms(2)
  by (simp add: is_enabled_one_table assert_known_key_def)

theorem feature_flags_refine_scopes_witness:
  "is_enabled [] (Inr (snd (set_override (\<lambda>_. ''1'') flag_org_billing False (Some ''ann'') None [])))
     flag_org_billing \<lparr>fc_userId = Some ''ann'', fc_organizationId = Some ''o''\<rparr> = Inr False \<and>
   scopes_of (snd (set_override (\<lambda>_. ''1'') flag_org_billing False (Some ''ann'') None []))
     (flag_org_billing, Some ''ann'', None) = Some False"
proof -
  have "flags_ok []" "is_feature_flag_key flag_org_billing" "single_scope (Some ''ann'') None"
    by (simp_all add: flags_ok_def is_feature_flag_key_def feature_flag_list_def single_scope_def)
  from feature_flags_refine_scopes[OF this, of "\<lambda>_. ''1''" False]
  have "scopes_of (snd (set_override (\<lambda>_. ''1'') flag_org_billing False (Some ''ann'') None []))
     = (scopes_of [])((flag_org_billing, Some ''ann'', None) \<mapsto> False)"
    by simp
  moreover have "is_enabled [] (Inr (snd (set_override (\<lambda>_. ''1'') flag_org_billing False (Some ''ann'') None [])))
     flag_org_billing \<lparr>fc_userId = Some ''ann'', fc_organizationId = Some ''o''\<rparr> = Inr False"
    by code_simp
  ultimately show ?thesis by simp
qed

text \<open>
  A write that names a user and an organization at once, which the parameters allow, is not
  confined to one scope: the row it creates answers for that user wherever they act and for
  every member of that organization.
\<close>

theorem double_scoped_override_leaks:
  assumes "is_feature_flag_key k" and "u \<noteq> []" and "p \<noteq> []"
  shows "is_enabled defaults (Inr (snd (set_override new_id k b (Some u) (Some p) []))) k
           \<lparr>fc_userId = Some u, fc_organizationId = None\<rparr> = Inr b \<and>
         (v \<noteq> u \<longrightarrow>
          is_enabled defaults (Inr (snd (set_override new_id k b (Some u) (Some p) []))) k
            \<lparr>fc_userId = Some v, fc_organizationId = Some p\<rparr> = Inr b)"
  using assms
  by (auto simp: is_enabled_one_table assert_known_key_def set_override_def flag_enabled_def truthy_def
      collides_def split: list.split)

theorem double_scoped_override_leaks_witness:
  "is_enabled [] (Inr (snd (set_override (\<lambda>_. ''1'') flag_org_billing False (Some ''ann'') (Some ''o'') [])))
     flag_org_billing \<lparr>fc_userId = Some ''bob'', fc_organizationId = Some ''o''\<rparr> = Inr False"
  using double_scoped_override_leaks[of flag_org_billing "''ann''" "''o''" "[]" "\<lambda>_. ''1''" False "''bob''"]
  by (simp add: is_feature_flag_key_def feature_flag_list_def)

end
