(* ===== verification/CreditFlow.thy ===== *)
theory CreditFlow
  imports CreditProperties Organizations
begin

text \<open>
  Charging a request (\<open>src/modules/credits/credits.guard.ts\<close>, \<open>credits-refund.interceptor.ts\<close>,
  \<open>credits.controller.ts\<close>) and the durable retry of a refund
  (\<open>src/modules/queues/credit-compensation*\<close>).

  The job queue is BullMQ: a client \<open>add\<close> over an arbitrary state, as an argument. What the
  flow relies on is the locale \<open>job_queue\<close>.
\<close>

section \<open>Costs and keys\<close>

definition credit_costs :: "(string \<times> int) list" where
  "credit_costs = [(''demo.paid'', 1)]"

definition credit_cost :: "string \<Rightarrow> js_number" where
  "credit_cost feature = (case map_of credit_costs feature of Some n \<Rightarrow> JInt n | None \<Rightarrow> JOther)"

definition spend_key :: "string \<Rightarrow> string \<Rightarrow> string" where
  "spend_key requestId feature = ''spend:'' @ requestId @ '':'' @ feature"

definition refund_key :: "string \<Rightarrow> string \<Rightarrow> string" where
  "refund_key requestId feature = ''refund:'' @ requestId @ '':'' @ feature"

record spend_marker =
  sm_subject :: billing_subject
  sm_feature :: string
  sm_amount :: js_number
  sm_spendKey :: string
  sm_refundKey :: string

definition subject_given :: "billing_subject \<Rightarrow> subject_input" where
  "subject_given s = \<lparr>si_subject = Some s, si_userId = None\<rparr>"

section \<open>The guard\<close>

text \<open>
  \<open>CreditsGuard.canActivate\<close>: the outcome, the marker it leaves on the request and the
  credit state. \<open>billing_of\<close> is \<open>BillingSubjectResolver.resolve\<close> in this request.
\<close>

definition credits_guard ::
  "credit_env \<Rightarrow> tx_fault \<Rightarrow> bool \<Rightarrow> bool option \<times> bool option \<Rightarrow> string option \<times> string option \<Rightarrow>
     string option \<Rightarrow> (string \<Rightarrow> exn + billing_subject) \<Rightarrow> request_context \<Rightarrow> credit_world \<Rightarrow>
     (exn + bool) \<times> spend_marker option \<times> credit_world" where
  "credits_guard env fault http public meta principalId billing_of ctx w =
     (if \<not> http then (Inr True, None, w)
      else if case_prod get_all_and_override public = Some True then (Inr True, None, w)
      else
        (case truthy (case_prod get_all_and_override meta) of
           None \<Rightarrow> (Inr True, None, w)
         | Some feature \<Rightarrow>
             (case principalId of
                None \<Rightarrow> (Inl (api_error 401 UNAUTHORIZED ''Authentication required.''), None, w)
              | Some u \<Rightarrow>
                  (case billing_of u of
                     Inl e \<Rightarrow> (Inl e, None, w)
                   | Inr subject \<Rightarrow>
                       (let requestId = (case get_request_id ctx of Some r \<Rightarrow> r | None \<Rightarrow> ''unknown'');
                            marker = \<lparr>sm_subject = subject, sm_feature = feature,
                                      sm_amount = credit_cost feature,
                                      sm_spendKey = spend_key requestId feature,
                                      sm_refundKey = refund_key requestId feature\<rparr>
                        in case spend env fault (subject_given subject) (sm_amount marker)
                                 (sm_spendKey marker) (Some feature) None w of
                             (Inl e, w') \<Rightarrow> (Inl e, None, w')
                           | (Inr _, w') \<Rightarrow> (Inr True, Some marker, w'))))))"

section \<open>The queue\<close>

record compensation_job =
  cj_subject :: billing_subject
  cj_amount :: js_number
  cj_idempotencyKey :: string
  cj_feature :: "string option"
  cj_reason :: string

text \<open>\<open>queue.add(name, payload, \{ jobId \})\<close>.\<close>

type_synonym 'q queue_add = "string \<Rightarrow> compensation_job \<Rightarrow> 'q \<Rightarrow> (exn + unit) \<times> 'q"

definition compensation_job_id :: "string \<Rightarrow> string" where
  "compensation_job_id refundKey = ''credit-refund:'' @ refundKey"

definition enqueue_refund :: "'q queue_add \<Rightarrow> compensation_job \<Rightarrow> 'q \<Rightarrow> (exn + unit) \<times> 'q" where
  "enqueue_refund add payload q = add (compensation_job_id (cj_idempotencyKey payload)) payload q"

text \<open>An addition that answers leaves a job under its id; one that fails may have.\<close>

locale job_queue =
  fixes add :: "'q queue_add" and jobs :: "'q \<Rightarrow> string \<rightharpoonup> compensation_job"
  assumes add_ok: "add i job q = (Inr (), q') \<Longrightarrow>
        jobs q' = (case jobs q i of None \<Rightarrow> (jobs q)(i \<mapsto> job) | Some _ \<Rightarrow> jobs q)"
    and add_fail: "add i job q = (Inl e, q') \<Longrightarrow>
        jobs q' = jobs q \<or> jobs q' = (case jobs q i of None \<Rightarrow> (jobs q)(i \<mapsto> job) | Some _ \<Rightarrow> jobs q)"
begin

lemma enqueued:
  assumes "enqueue_refund add job q = (r, q')"
    and "jobs q (compensation_job_id (cj_idempotencyKey job)) = None"
  shows "jobs q' (compensation_job_id (cj_idempotencyKey job)) \<in> {None, Some job}"
    and "r = Inr () \<Longrightarrow> jobs q' (compensation_job_id (cj_idempotencyKey job)) = Some job"
  using add_ok[of "compensation_job_id (cj_idempotencyKey job)" job q q']
    add_fail[of "compensation_job_id (cj_idempotencyKey job)" job q _ q'] assms
  by (cases r; auto simp: enqueue_refund_def)+

end

text \<open>
  BullMQ splits a custom id at its colons and documents that an id with any other number of parts
  than three is refused. Every id of a refund has at least four, so where that rule is enforced
  \<open>add\<close> rejects every compensation.
\<close>

lemma refund_job_id_colons: "3 \<le> count_list (compensation_job_id (refund_key rid feature)) CHR '':''"
  by (simp add: compensation_job_id_def refund_key_def)

text \<open>\<open>CreditCompensationProcessor.process\<close>, on its \<open>attemptsMade\<close>-th retry.\<close>

definition process_compensation ::
  "credit_env \<Rightarrow> tx_fault \<Rightarrow> compensation_job \<Rightarrow> nat \<Rightarrow> credit_world \<Rightarrow>
     (exn + unit) \<times> credit_world" where
  "process_compensation env fault job attemptsMade w =
     (case refund env fault (subject_given (cj_subject job)) (cj_amount job) (cj_idempotencyKey job)
             (cj_feature job)
             (Some (JObj [(''reason'', JStr (cj_reason job)), (''viaQueue'', JBool True),
                          (''attempt'', JNum (int attemptsMade + 1))])) w of
        (Inl e, w') \<Rightarrow> (Inl e, w')
      | (Inr _, w') \<Rightarrow> (Inr (), w'))"

text \<open>The worker on a job it has taken: one attempt after the other, until one returns.\<close>

fun work_job ::
  "(credit_env \<times> tx_fault) list \<Rightarrow> compensation_job \<Rightarrow> nat \<Rightarrow> credit_world \<Rightarrow> bool \<times> credit_world" where
  "work_job [] job n w = (False, w)"
| "work_job ((env, fault) # rest) job n w =
     (case process_compensation env fault job n w of
        (Inr _, w') \<Rightarrow> (True, w')
      | (Inl _, w') \<Rightarrow> work_job rest job (Suc n) w')"

text \<open>
  The worker on the queue: it finds the job under its id and works on it, or finds none and does
  nothing. An \<open>add\<close> that was refused has left none.
\<close>

definition work_queued ::
  "('q \<Rightarrow> string \<rightharpoonup> compensation_job) \<Rightarrow> string \<Rightarrow> (credit_env \<times> tx_fault) list \<Rightarrow> nat \<Rightarrow> 'q \<Rightarrow>
     credit_world \<Rightarrow> bool \<times> credit_world" where
  "work_queued jobs i tries attemptsMade q w =
     (case jobs q i of None \<Rightarrow> (False, w) | Some job \<Rightarrow> work_job tries job attemptsMade w)"

section \<open>The refund interceptor\<close>

definition queue_compensation ::
  "'q queue_add option \<Rightarrow> spend_marker \<Rightarrow> 'q \<Rightarrow> 'q" where
  "queue_compensation compensations marker q =
     (case compensations of
        None \<Rightarrow> q
      | Some add \<Rightarrow>
          snd (enqueue_refund add
            \<lparr>cj_subject = sm_subject marker, cj_amount = sm_amount marker,
             cj_idempotencyKey = sm_refundKey marker, cj_feature = Some (sm_feature marker),
             cj_reason = ''handler_failure_compensation_retry''\<rparr> q))"

text \<open>A value thrown that is no \<open>Error\<close> has no message; the model's errors all have one.\<close>

definition refund_metadata :: "spend_marker \<Rightarrow> exn \<Rightarrow> json" where
  "refund_metadata marker error =
     JObj [(''reason'', JStr ''handler_failure_compensation''),
           (''spendIdempotencyKey'', JStr (sm_spendKey marker)),
           (''error'', JStr (exn_message error))]"

definition refund_if_needed ::
  "credit_env \<Rightarrow> tx_fault \<Rightarrow> 'q queue_add option \<Rightarrow> spend_marker option \<Rightarrow> exn \<Rightarrow>
     credit_world \<Rightarrow> 'q \<Rightarrow> credit_world \<times> 'q" where
  "refund_if_needed env fault compensations marker error w q =
     (case marker of
        None \<Rightarrow> (w, q)
      | Some m \<Rightarrow>
          (case refund env fault (subject_given (sm_subject m)) (sm_amount m) (sm_refundKey m)
                  (Some (sm_feature m)) (Some (refund_metadata m error)) w of
             (Inr _, w') \<Rightarrow> (w', q)
           | (Inl _, w') \<Rightarrow> (w', queue_compensation compensations m q)))"

text \<open>\<open>intercept\<close>, around a handler whose outcome is given.\<close>

definition refund_intercept ::
  "credit_env \<Rightarrow> tx_fault \<Rightarrow> 'q queue_add option \<Rightarrow> bool \<Rightarrow> spend_marker option \<Rightarrow> exn + 'a \<Rightarrow>
     credit_world \<Rightarrow> 'q \<Rightarrow> (exn + 'a) \<times> credit_world \<times> 'q" where
  "refund_intercept env fault compensations http marker outcome w q =
     (case outcome of
        Inr v \<Rightarrow> (Inr v, w, q)
      | Inl error \<Rightarrow>
          (if \<not> http then (Inl error, w, q)
           else (Inl error, refund_if_needed env fault compensations marker error w q)))"

section \<open>The account's endpoints\<close>

record ledger_view =
  lv_id :: string
  lv_type :: ledger_type
  lv_amount :: int
  lv_balanceAfter :: int
  lv_feature :: "string option"
  lv_createdAt :: int

text \<open>
  \<open>CreditsController\<close>. A limit that is not a decimal integer reads as \<open>NaN\<close>, which is not
  finite.
\<close>

definition credits_balance ::
  "(string \<Rightarrow> exn + billing_subject) \<Rightarrow> string \<Rightarrow> credit_db \<Rightarrow> exn + (int \<times> string)" where
  "credits_balance billing_of userId db =
     (case billing_of userId of
        Inl e \<Rightarrow> Inl e
      | Inr s \<Rightarrow>
          Inr (get_balance (Inl s) db,
               case s of User_Subject _ \<Rightarrow> ''user'' | Org_Subject _ \<Rightarrow> ''organization''))"

definition credits_ledger ::
  "(string \<Rightarrow> exn + billing_subject) \<Rightarrow> string \<Rightarrow> string option \<Rightarrow> credit_db \<Rightarrow> exn + ledger_view list" where
  "credits_ledger billing_of userId limitRaw db =
     (case billing_of userId of
        Inl e \<Rightarrow> Inl e
      | Inr s \<Rightarrow>
          (let limit = (case truthy limitRaw of
                          Some x \<Rightarrow> (case parse_int x of Some n \<Rightarrow> n | None \<Rightarrow> 20)
                        | None \<Rightarrow> 20)
           in Inr (map (\<lambda>e. \<lparr>lv_id = e_id e, lv_type = e_type e, lv_amount = e_amount e,
                             lv_balanceAfter = e_balanceAfter e, lv_feature = e_feature e,
                             lv_createdAt = e_createdAt e\<rparr>)
                    (list_ledger (Inl s) limit db))))"

section \<open>An in-memory queue\<close>

text \<open>A queue with a script of faults, as the witnesses use it: refused, or done and unanswered.\<close>

record mem_queue =
  mq_jobs :: "string \<rightharpoonup> compensation_job"
  mq_script :: "tx_fault list"

definition mem_add :: "mem_queue queue_add" where
  "mem_add i job q =
     (let q' = q\<lparr>mq_script := drop 1 (mq_script q)\<rparr>;
          added = q'\<lparr>mq_jobs := (case mq_jobs q i of None \<Rightarrow> (mq_jobs q)(i \<mapsto> job)
                                 | Some _ \<Rightarrow> mq_jobs q)\<rparr>
      in case mq_script q of
           Tx_lost e # _ \<Rightarrow> (Inl e, q')
         | Tx_unreported e # _ \<Rightarrow> (Inl e, added)
         | _ \<Rightarrow> (Inr (), added))"

interpretation memq: job_queue mem_add mq_jobs
  by unfold_locales (auto simp: mem_add_def Let_def split: list.splits tx_fault.splits)

end
