(* ===== verification/CreditFlowProperties.thy ===== *)
theory CreditFlowProperties
  imports CreditFlow
begin

text \<open>
  What charging a request promises: a failed handler costs nothing in the end, exactly once,
  whatever fails on the way; and what follows from the keys being built from the request id.
\<close>

section \<open>A refund that may have to be tried again\<close>

text \<open>The refund's parameters, apart from the metadata of the attempt.\<close>

definition refund_params :: "billing_subject \<Rightarrow> int \<Rightarrow> string \<Rightarrow> string option \<Rightarrow> json option \<Rightarrow> apply_params" where
  "refund_params s n k f m =
     \<lparr>ap_subject = s, ap_type = Refund, ap_amount = n, ap_delta = n, ap_idempotencyKey = k,
      ap_feature = f, ap_metadata = m, ap_failIfInsufficient = False\<rparr>"

lemma refund_apply:
  assumes "0 < n"
  shows "refund env fault (subject_given s) (JInt n) k f m w
           = apply_mutation env fault (refund_params s n k f m) w"
  using assms by (simp add: refund_def subject_given_def resolve_subject_def refund_params_def)

text \<open>
  Where a refund stands: not applied, at the balances \<open>bal\<close> and the ledger \<open>es\<close>; or applied
  once, the subject's balance up by \<open>n\<close> and one entry more.
\<close>

definition refund_open ::
  "string \<Rightarrow> (billing_subject \<Rightarrow> int) \<Rightarrow> ledger_entry list \<Rightarrow> credit_db \<Rightarrow> bool" where
  "refund_open k bal es db \<longleftrightarrow>
     credit_inv db \<and> find_entry k db = None \<and> ledger db = es \<and>
     (\<forall>t. get_balance (Inl t) db = bal t)"

definition refund_settled ::
  "billing_subject \<Rightarrow> int \<Rightarrow> string \<Rightarrow> string option \<Rightarrow> (billing_subject \<Rightarrow> int) \<Rightarrow>
     ledger_entry list \<Rightarrow> credit_db \<Rightarrow> bool" where
  "refund_settled s n k f bal es db \<longleftrightarrow>
     credit_inv db \<and>
     (\<exists>ex. find_entry k db = Some ex \<and> ledger db = es @ [ex] \<and>
        (\<forall>m. replay_matches ex (refund_params s n k f m))) \<and>
     (\<forall>t. get_balance (Inl t) db = (if t = s then bal s + n else bal t))"

lemma replay_matches_metadata:
  "replay_matches ex (refund_params s n k f m) = replay_matches ex (refund_params s n k f m')"
  by (simp add: replay_matches_def refund_params_def)

text \<open>Any attempt, with any fault, moves from open to open or settled, and stays settled.\<close>

lemma refund_attempt:
  assumes "fresh_ids env" and "ce_ownerExists env s" and "0 < n" and "int4 n" and "int4 (bal s + n)"
    and "refund_open k bal es (cw_db w) \<or> refund_settled s n k f bal es (cw_db w)"
    and "refund env fault (subject_given s) (JInt n) k f m w = (r, w')"
  shows "refund_open k bal es (cw_db w') \<or> refund_settled s n k f bal es (cw_db w')"
    and "\<And>v. r = Inr v \<Longrightarrow> refund_settled s n k f bal es (cw_db w')"
    and "fault = Tx_ok \<Longrightarrow> \<exists>v. r = Inr v"
    and "\<forall>e. fault \<noteq> Tx_lost e \<Longrightarrow> refund_settled s n k f bal es (cw_db w')"
    and "fault = Tx_lost e' \<Longrightarrow> cw_db w' = cw_db w \<and> r = Inl e'"
    and "fault = Tx_unreported e' \<Longrightarrow> r = Inl e'"
proof -
  let ?p = "refund_params s n k f m"
  have run: "apply_mutation env fault ?p w = (r, w')"
    using assms(7) refund_apply[OF assms(3)] by simp
  have db: "cw_db w' = snd (run_tx fault (apply_tx env ?p) (cw_db w))"
    and res: "r = fst (run_tx fault (apply_tx env ?p) (cw_db w))"
    using apply_mutation_db[of env fault ?p w] apply_mutation_result[of env fault ?p w] run by simp_all
  have tx: "\<exists>v d. apply_tx env ?p (cw_db w) = Inr (v, d) \<and> refund_settled s n k f bal es d"
    using assms(6)
  proof
    assume o': "refund_open k bal es (cw_db w)"
    then have inv: "credit_inv (cw_db w)" and none: "find_entry k (cw_db w) = None"
      and led: "ledger (cw_db w) = es" and b: "\<And>t. get_balance (Inl t) (cw_db w) = bal t"
      by (auto simp: refund_open_def)
    have ok: "params_ok ?p" using assms(3) by (simp add: params_ok_def refund_params_def)
    from apply_tx_fresh[OF inv assms(1) ok] none assms(2,4,5) b
    obtain v d where vd: "apply_tx env ?p (cw_db w) = Inr (v, d)" "ledger d = es @ [mr_entry v]"
      "\<And>t. get_balance (Inl t) d = (if t = s then bal s + n else bal t)"
      by (auto simp: refund_params_def led)
    moreover have "credit_inv d" by (rule apply_tx_inv[OF inv assms(1) ok vd(1)])
    moreover have "find_entry k d = Some (mr_entry v)" "replay_matches (mr_entry v) ?p"
      using apply_tx_writes(1,2)[OF vd(1)] by (simp_all add: refund_params_def)
    moreover from this(2) have "\<forall>m'. replay_matches (mr_entry v) (refund_params s n k f m')"
      using replay_matches_metadata by blast
    ultimately show ?thesis by (auto simp: refund_settled_def)
  next
    assume st: "refund_settled s n k f bal es (cw_db w)"
    then obtain ex where "find_entry k (cw_db w) = Some ex" "replay_matches ex ?p"
      by (auto simp: refund_settled_def)
    with st show ?thesis by (auto simp: apply_tx_def refund_params_def)
  qed
  then obtain v d where vd: "apply_tx env ?p (cw_db w) = Inr (v, d)" "refund_settled s n k f bal es d"
    by blast
  show "refund_open k bal es (cw_db w') \<or> refund_settled s n k f bal es (cw_db w')"
    using db vd assms(6) by (cases fault) (auto simp: run_tx_def)
  show "\<And>v. r = Inr v \<Longrightarrow> refund_settled s n k f bal es (cw_db w')"
    using db res vd by (cases fault) (auto simp: run_tx_def)
  show "fault = Tx_ok \<Longrightarrow> \<exists>v. r = Inr v"
    using res vd by simp
  show "\<forall>e. fault \<noteq> Tx_lost e \<Longrightarrow> refund_settled s n k f bal es (cw_db w')"
    using db vd by (cases fault) (auto simp: run_tx_def)
  show "fault = Tx_lost e' \<Longrightarrow> cw_db w' = cw_db w \<and> r = Inl e'" and "fault = Tx_unreported e' \<Longrightarrow> r = Inl e'"
    using db res vd by (simp_all add: run_tx_def)
qed

text \<open>The worker keeps at it, and one attempt whose commit is not lost settles the refund.\<close>

lemma work_job_settles:
  assumes "\<forall>(env, fault)\<in>set tries. fresh_ids env \<and> ce_ownerExists env s"
    and "0 < n" and "int4 n" and "int4 (bal s + n)"
    and "refund_open k bal es (cw_db w) \<or> refund_settled s n k f bal es (cw_db w)"
    and "cj_subject job = s" and "cj_amount job = JInt n" and "cj_idempotencyKey job = k"
    and "cj_feature job = f"
  shows "(refund_open k bal es (cw_db (snd (work_job tries job i w))) \<or>
          refund_settled s n k f bal es (cw_db (snd (work_job tries job i w)))) \<and>
         (refund_settled s n k f bal es (cw_db w) \<or> Tx_ok \<in> snd ` set tries \<longrightarrow>
            refund_settled s n k f bal es (cw_db (snd (work_job tries job i w))))"
  using assms(1,5)
proof (induction tries arbitrary: w i)
  case Nil
  then show ?case by simp
next
  case (Cons x tries)
  obtain env fault where x: "x = (env, fault)" by (cases x)
  let ?m = "Some (JObj [(''reason'', JStr (cj_reason job)), (''viaQueue'', JBool True),
                        (''attempt'', JNum (int i + 1))])"
  obtain r w1 where run: "refund env fault (subject_given s) (JInt n) k f ?m w = (r, w1)"
    by (cases "refund env fault (subject_given s) (JInt n) k f ?m w")
  have env: "fresh_ids env" "ce_ownerExists env s"
    and rest: "\<forall>(env, fault)\<in>set tries. fresh_ids env \<and> ce_ownerExists env s" using Cons.prems(1) x by auto
  note att = refund_attempt[OF env assms(2-4) Cons.prems(2) run]
  show ?case
  proof (cases r)
    case (Inr v)
    with att(2)[OF Inr] show ?thesis
      using run x assms(6-9) by (simp add: process_compensation_def)
  next
    case (Inl e)
    then have "fault \<noteq> Tx_ok" using att(3) by auto
    moreover have "refund_settled s n k f bal es (cw_db w1)" if "refund_settled s n k f bal es (cw_db w)"
      using that att(4,5) by (cases fault) simp_all
    ultimately show ?thesis
      using Cons.IH[OF rest att(1), of "Suc i"] run x Inl assms(6-9)
      by (auto simp: process_compensation_def)
  qed
qed

section \<open>The request\<close>

text \<open>One charged request: the guard, and around the handler's outcome the interceptor.\<close>

definition charged_request ::
  "credit_env \<Rightarrow> tx_fault \<Rightarrow> credit_env \<Rightarrow> tx_fault \<Rightarrow> 'q queue_add option \<Rightarrow> string \<Rightarrow> string \<Rightarrow>
     billing_subject \<Rightarrow> request_context \<Rightarrow> exn + 'a \<Rightarrow> credit_world \<Rightarrow> 'q \<Rightarrow>
     (exn + 'a) \<times> credit_world \<times> 'q" where
  "charged_request env1 fault1 env2 fault2 compensations feature userId subject ctx handler w q =
     (case credits_guard env1 fault1 True (None, None) (Some feature, None) (Some userId)
             (\<lambda>_. Inr subject) ctx w of
        (Inl e, _, w1) \<Rightarrow> (Inl e, w1, q)
      | (Inr _, marker, w1) \<Rightarrow>
          refund_intercept env2 fault2 compensations True marker handler w1 q)"

lemma guard_charges:
  assumes "feature \<noteq> []"
  shows "credits_guard env fault True (None, None) (Some feature, None) (Some u) (\<lambda>_. Inr s)
           (Some st) w =
     (case spend env fault (subject_given s) (credit_cost feature)
             (spend_key (rs_requestId st) feature) (Some feature) None w of
        (Inl e, w') \<Rightarrow> (Inl e, None, w')
      | (Inr _, w') \<Rightarrow>
          (Inr True,
           Some \<lparr>sm_subject = s, sm_feature = feature, sm_amount = credit_cost feature,
                 sm_spendKey = spend_key (rs_requestId st) feature,
                 sm_refundKey = refund_key (rs_requestId st) feature\<rparr>, w'))"
  using assms
  by (simp add: credits_guard_def get_all_and_override_def truthy_def get_request_id_def Let_def)

lemma subject_given_eq: "subject_given s = of_subject s"
  by (simp add: subject_given_def of_subject_def)

definition cost_job :: "spend_marker \<Rightarrow> compensation_job" where
  "cost_job m =
     \<lparr>cj_subject = sm_subject m, cj_amount = sm_amount m, cj_idempotencyKey = sm_refundKey m,
      cj_feature = Some (sm_feature m), cj_reason = ''handler_failure_compensation_retry''\<rparr>"

text \<open>The two places a charged request with a failed handler can end in.\<close>

definition gave_back :: "credit_world \<Rightarrow> credit_world \<Rightarrow> bool" where
  "gave_back w w' \<longleftrightarrow>
     (\<forall>t. get_balance (Inl t) (cw_db w') = get_balance (Inl t) (cw_db w)) \<and>
     (\<exists>spent back. ledger (cw_db w') = ledger (cw_db w) @ [spent, back])"

definition kept_price :: "billing_subject \<Rightarrow> int \<Rightarrow> credit_world \<Rightarrow> credit_world \<Rightarrow> bool" where
  "kept_price s n w w' \<longleftrightarrow>
     (\<forall>t. get_balance (Inl t) (cw_db w') = get_balance (Inl t) (cw_db w) - (if t = s then n else 0)) \<and>
     (\<exists>spent. ledger (cw_db w') = ledger (cw_db w) @ [spent])"

text \<open>The guard's spend, and where the refund stands after it.\<close>

lemma charged_then_open:
  assumes "credit_inv (cw_db w)" and "credit_cost feature = JInt n"
    and "0 < n" and "int4 n" and "n \<le> get_balance (Inl s) (cw_db w)"
    and "find_entry (spend_key rid feature) (cw_db w) = None"
    and "find_entry (refund_key rid feature) (cw_db w) = None"
    and "fresh_ids env1" and "ce_ownerExists env1 s"
  obtains v w1 where
    "spend env1 Tx_ok (subject_given s) (credit_cost feature) (spend_key rid feature) (Some feature) None w
       = (Inr v, w1)"
    and "ledger (cw_db w1) = ledger (cw_db w) @ [mr_entry v]"
    and "refund_open (refund_key rid feature)
           (\<lambda>t. if t = s then get_balance (Inl s) (cw_db w) - n else get_balance (Inl t) (cw_db w))
           (ledger (cw_db w) @ [mr_entry v]) (cw_db w1)"
proof -
  let ?sk = "spend_key rid feature" and ?rk = "refund_key rid feature"
  let ?b1 = "\<lambda>t. if t = s then get_balance (Inl s) (cw_db w) - n else get_balance (Inl t) (cw_db w)"
  from spend_effect[OF assms(1) assms(8) assms(6) assms(9) assms(3,4), of "Some feature" None]
  obtain v w1 where sp: "spend env1 Tx_ok (of_subject s) (JInt n) ?sk (Some feature) None w = (Inr v, w1)"
    and led: "ledger (cw_db w1) = ledger (cw_db w) @ [mr_entry v]"
    and bal: "\<And>t. get_balance (Inl t) (cw_db w1) = ?b1 t"
    using assms(5) by (simp only: if_True) blast
  have op: "run_credit_op env1 Tx_ok (Op_Spend (of_subject s) (JInt n) ?sk (Some feature) None) w = (Inr v, w1)"
    using sp by simp
  have inv1: "credit_inv (cw_db w1)"
    using run_credit_op_inv[OF assms(1) assms(8), of Tx_ok "Op_Spend (of_subject s) (JInt n) ?sk (Some feature) None"] op
    by simp
  have vkey: "e_idempotencyKey (mr_entry v) = ?sk"
  proof -
    let ?p = "\<lparr>ap_subject = s, ap_type = Spend, ap_amount = n, ap_delta = - n, ap_idempotencyKey = ?sk,
       ap_feature = Some feature, ap_metadata = None, ap_failIfInsufficient = True\<rparr>"
    have am: "apply_mutation env1 Tx_ok ?p w = (Inr v, w1)"
      using sp assms(3) by (simp add: spend_def)
    have "run_tx Tx_ok (apply_tx env1 ?p) (cw_db w) = (Inr v, cw_db w1)"
      using apply_mutation_result[of env1 Tx_ok ?p w] apply_mutation_db[of env1 Tx_ok ?p w] am
      by (simp add: prod_eq_iff)
    from find_SomeD[OF apply_tx_writes(1)[OF run_tx_return[OF this], unfolded find_entry_def]]
    show ?thesis by simp
  qed
  have "?sk \<noteq> ?rk" by (simp add: spend_key_def refund_key_def)
  then have "refund_open ?rk ?b1 (ledger (cw_db w) @ [mr_entry v]) (cw_db w1)"
    using inv1 led bal assms(7) vkey
    by (simp add: refund_open_def find_entry_def find_append)
  with that sp led assms(2) show thesis by (simp add: subject_given_eq)
qed

lemma refund_ends:
  assumes "led1 = ledger (cw_db w) @ [spent]"
    and "b1 = (\<lambda>t. if t = s then get_balance (Inl s) (cw_db w) - n else get_balance (Inl t) (cw_db w))"
  shows "refund_open k b1 led1 (cw_db w') \<Longrightarrow> kept_price s n w w'"
    and "refund_settled s n k f b1 led1 (cw_db w') \<Longrightarrow> gave_back w w'"
  using assms by (auto simp: refund_open_def refund_settled_def kept_price_def gave_back_def)

text \<open>
  C19. A handler that fails costs nothing as long as one of its refunds reaches the ledger, and
  otherwise costs exactly the price. The guard took the price with fresh keys; the caller sees the
  handler's own error, whatever happens to the inline refund. When the refund's commit is not
  lost (acknowledged or not), every balance is what it was and the ledger has exactly the spend
  and one refund more, before and after whatever the worker does. When it is lost, the job is
  handed to the queue, if there is one. A job that is there (an \<open>add\<close> that answers leaves it)
  moves the books from the one place to the other and nowhere else, however many of its attempts
  fail, and one attempt of the worker that is not disturbed gives the price back. Without a job
  (no queue service, or an \<open>add\<close> that was refused) the worker does nothing, and the caller stays
  charged: the residual the source speaks of.
\<close>

theorem failed_handler_costs_nothing:
  fixes w :: credit_world and st :: request_store and feature :: string and compensations :: "'q queue_add option"
    and jobs :: "'q \<Rightarrow> string \<rightharpoonup> compensation_job"
  assumes "credit_inv (cw_db w)" and "map_of credit_costs feature = Some n" and "feature \<noteq> []"
    and "0 < n" and "int4 n" and "n \<le> get_balance (Inl s) (cw_db w)"
    and "find_entry (spend_key (rs_requestId st) feature) (cw_db w) = None"
    and "find_entry (refund_key (rs_requestId st) feature) (cw_db w) = None"
    and "fresh_ids env1" and "ce_ownerExists env1 s" and "fresh_ids env2" and "ce_ownerExists env2 s"
    and "\<forall>(env, fault)\<in>set tries. fresh_ids env \<and> ce_ownerExists env s"
    and "\<forall>add. compensations = Some add \<longrightarrow> job_queue add jobs"
    and "jobs q (compensation_job_id (refund_key (rs_requestId st) feature)) = None"
    and "charged_request env1 Tx_ok env2 fault compensations feature u s (Some st) (Inl e) w q
           = (r :: exn + 'a, w', q')"
  defines "i \<equiv> compensation_job_id (refund_key (rs_requestId st) feature)"
    and "job \<equiv> cost_job \<lparr>sm_subject = s, sm_feature = feature, sm_amount = JInt n,
        sm_spendKey = spend_key (rs_requestId st) feature,
        sm_refundKey = refund_key (rs_requestId st) feature\<rparr>"
  shows "r = Inl e \<and>
    (fault = Tx_ok \<longrightarrow> q' = q) \<and>
    (fault \<noteq> Tx_ok \<longrightarrow>
       (case compensations of
          None \<Rightarrow> q' = q
        | Some add \<Rightarrow> q' = snd (enqueue_refund add job q) \<and>
            (fst (enqueue_refund add job q) = Inr () \<longrightarrow> jobs q' i = Some job))) \<and>
    (if \<forall>x. fault \<noteq> Tx_lost x then
       gave_back w w' \<and> (\<forall>m. gave_back w (snd (work_queued jobs i tries m q' w')))
     else if jobs q' i = None then
       kept_price s n w w' \<and> (\<forall>m. work_queued jobs i tries m q' w' = (False, w'))
     else
       (\<forall>m. let w'' = snd (work_queued jobs i tries m q' w')
            in (gave_back w w'' \<or> kept_price s n w w'') \<and>
               (Tx_ok \<in> snd ` set tries \<longrightarrow> gave_back w w'')))"
proof -
  let ?rk = "refund_key (rs_requestId st) feature"
  let ?b1 = "\<lambda>t. if t = s then get_balance (Inl s) (cw_db w) - n else get_balance (Inl t) (cw_db w)"
  have cost: "credit_cost feature = JInt n" using assms(2) by (simp add: credit_cost_def)
  obtain v w1 where sp: "spend env1 Tx_ok (subject_given s) (credit_cost feature)
        (spend_key (rs_requestId st) feature) (Some feature) None w = (Inr v, w1)"
    and opened: "refund_open ?rk ?b1 (ledger (cw_db w) @ [mr_entry v]) (cw_db w1)"
    using charged_then_open[OF assms(1) cost assms(4-10)] by blast
  let ?es = "ledger (cw_db w) @ [mr_entry v]"
  obtain r2 w2 where rf: "refund env2 fault (subject_given s) (JInt n) ?rk (Some feature)
        (Some (refund_metadata \<lparr>sm_subject = s, sm_feature = feature, sm_amount = JInt n,
           sm_spendKey = spend_key (rs_requestId st) feature, sm_refundKey = ?rk\<rparr> e)) w1 = (r2, w2)"
    by fastforce
  have rng: "int4 (?b1 s + n)" using get_balance_int4[OF assms(1)] by simp
  note att = refund_attempt[OF assms(11,12,4,5) rng disjI1[OF opened] rf]
  have req: "r = Inl e \<and> w' = w2"
    and sent: "q' = (case r2 of Inr _ \<Rightarrow> q
            | Inl _ \<Rightarrow> (case compensations of None \<Rightarrow> q | Some add \<Rightarrow> snd (enqueue_refund add job q)))"
    using assms(16)[unfolded charged_request_def guard_charges[OF assms(3)] sp
        sum.case prod.case refund_intercept_def] rf cost
    by (auto simp: refund_if_needed_def queue_compensation_def job_def cost_job_def
        split: sum.splits option.splits)
  have jid: "i = compensation_job_id (cj_idempotencyKey job)" by (simp add: i_def job_def cost_job_def)
  have there: "jobs q' i \<in> {None, Some job}"
    using sent job_queue.enqueued(1)[of _ jobs job q] assms(14,15) jid
    by (auto simp: i_def[symmetric] split: sum.splits option.splits) (metis prod.collapse)
  have handed: "jobs q' i = Some job"
    if "compensations = Some add" "fst (enqueue_refund add job q) = Inr ()" "\<exists>x. r2 = Inl x" for add
    using that sent job_queue.enqueued(2)[of add jobs job q] assms(14,15) jid
    by (auto simp: i_def[symmetric]) (metis prod.collapse)
  have answer: "(\<exists>x. r2 = Inl x) \<longleftrightarrow> fault \<noteq> Tx_ok"
    using att(3,5,6) by (cases fault) auto
  have ends: "refund_open ?rk ?b1 ?es (cw_db x) \<Longrightarrow> kept_price s n w x"
    "refund_settled s n ?rk (Some feature) ?b1 ?es (cw_db x) \<Longrightarrow> gave_back w x" for x
    by (rule refund_ends[OF refl refl], assumption)+
  have work: "jobs q' i = Some job \<Longrightarrow> work_queued jobs i tries m q' x = work_job tries job m x"
    "jobs q' i = None \<Longrightarrow> work_queued jobs i tries m q' x = (False, x)" for m x
    by (simp_all add: work_queued_def)
  note settles = work_job_settles[OF assms(13,4,5) rng att(1), of job]
  have settles: "(refund_open ?rk ?b1 ?es (cw_db (snd (work_job tries job m w2))) \<or>
      refund_settled s n ?rk (Some feature) ?b1 ?es (cw_db (snd (work_job tries job m w2)))) \<and>
     (refund_settled s n ?rk (Some feature) ?b1 ?es (cw_db w2) \<or> Tx_ok \<in> snd ` set tries \<longrightarrow>
        refund_settled s n ?rk (Some feature) ?b1 ?es (cw_db (snd (work_job tries job m w2))))" for m
    by (rule settles) (simp_all add: job_def cost_job_def)
  have queue: "(fault = Tx_ok \<longrightarrow> q' = q) \<and>
    (fault \<noteq> Tx_ok \<longrightarrow>
       (case compensations of
          None \<Rightarrow> q' = q
        | Some add \<Rightarrow> q' = snd (enqueue_refund add job q) \<and>
            (fst (enqueue_refund add job q) = Inr () \<longrightarrow> jobs q' i = Some job)))"
    using sent answer handed by (auto split: sum.splits option.splits)
  show ?thesis
  proof (cases "\<forall>x. fault \<noteq> Tx_lost x")
    case True
    have "refund_settled s n ?rk (Some feature) ?b1 ?es (cw_db w2)" by (rule att(4)[OF True])
    with settles ends(2) have "gave_back w w2" "gave_back w (snd (work_job tries job m w2))" for m by blast+
    with True req queue there work show ?thesis by auto
  next
    case False
    then obtain x where lost: "fault = Tx_lost x" by blast
    from att(5)[OF lost] opened have kept: "kept_price s n w w2" using ends(1) by simp
    show ?thesis
    proof (cases "jobs q' i = None")
      case True
      with lost req queue kept show ?thesis by (simp add: work(2))
    next
      case waiting: False
      with there have "jobs q' i = Some job" by simp
      moreover have "(gave_back w (snd (work_job tries job m w2)) \<or> kept_price s n w (snd (work_job tries job m w2))) \<and>
          (Tx_ok \<in> snd ` set tries \<longrightarrow> gave_back w (snd (work_job tries job m w2)))" for m
        using settles[of m] ends by blast
      ultimately show ?thesis using lost req queue by (simp add: work(1) Let_def)
    qed
  qed
qed

text \<open>A wallet of five credits and a request that buys one.\<close>

definition paid_store :: request_store where
  "paid_store = \<lparr>rs_requestId = ''r1'', rs_userId = Some ''u'', rs_organizationId = None\<rparr>"

text \<open>The refund is lost; the queue takes the job, or refuses it.\<close>

definition lost_refund :: "mem_queue queue_add option \<Rightarrow> tx_fault list \<Rightarrow>
    (exn + unit) \<times> credit_world \<times> mem_queue" where
  "lost_refund compensations script =
     charged_request sample_env Tx_ok sample_env (Tx_lost (OtherExn ''late'')) compensations ''demo.paid''
       ''u'' (User_Subject ''u'') (Some paid_store) (Inl (OtherExn ''boom'')) sample_world
       \<lparr>mq_jobs = Map.empty, mq_script = script\<rparr>"

theorem failed_handler_costs_nothing_witness:
  "gave_back sample_world (snd (work_queued mq_jobs (compensation_job_id (refund_key ''r1'' ''demo.paid''))
      [(sample_env, Tx_lost (OtherExn ''down'')), (sample_env, Tx_ok)] 0
      (snd (snd (lost_refund (Some mem_add) []))) (fst (snd (lost_refund (Some mem_add) []))))) \<and>
   kept_price (User_Subject ''u'') 1 sample_world
     (fst (snd (lost_refund (Some mem_add) [Tx_lost (OtherExn ''Custom Id cannot contain :'')])))"
proof -
  let ?i = "compensation_job_id (refund_key ''r1'' ''demo.paid'')"
  let ?tries = "[(sample_env, Tx_lost (OtherExn ''down'')), (sample_env, Tx_ok)]"
  have keys: "find_entry (spend_key ''r1'' ''demo.paid'') (cw_db sample_world) = None"
    "find_entry (refund_key ''r1'' ''demo.paid'') (cw_db sample_world) = None"
    by (simp_all add: sample_world_def sample_ops_def credit_eval spend_key_def refund_key_def)
  have bal: "get_balance (Inl (User_Subject ''u'')) (cw_db sample_world) = 9"
    using sample_world_balance by (simp add: get_balance_def user_subject_def)
  have own: "ce_ownerExists sample_env s" for s by (simp add: sample_env_def)
  have cost: "map_of credit_costs ''demo.paid'' = Some 1" by (simp add: credit_costs_def)
  have run: "charged_request sample_env Tx_ok sample_env (Tx_lost (OtherExn ''late'')) (Some mem_add) ''demo.paid''
       ''u'' (User_Subject ''u'') (Some paid_store) (Inl (OtherExn ''boom'')) sample_world
       \<lparr>mq_jobs = Map.empty, mq_script = script\<rparr> =
     (fst (lost_refund (Some mem_add) script), fst (snd (lost_refund (Some mem_add) script)),
      snd (snd (lost_refund (Some mem_add) script)))" for script
    by (simp add: lost_refund_def)
  have queue: "\<forall>add. Some mem_add = Some add \<longrightarrow> job_queue add mq_jobs"
    by (simp add: memq.job_queue_axioms)
  have store: "rs_requestId paid_store = ''r1''" by (simp add: paid_store_def)
  have tries: "\<forall>(env, fault)\<in>set ?tries. fresh_ids env \<and> ce_ownerExists env (User_Subject ''u'')"
    by (simp add: own)
  have rest: "''demo.paid'' \<noteq> []" "(0::int) < 1" "int4 1"
    "1 \<le> get_balance (Inl (User_Subject ''u'')) (cw_db sample_world)" "fresh_ids sample_env"
    "mq_jobs \<lparr>mq_jobs = Map.empty, mq_script = script\<rparr> ?i = None" for script
    by (simp_all add: int4_def bal)
  note costs = failed_handler_costs_nothing[OF sample_world_inv cost rest(1-4), where st = paid_store,
      unfolded store, OF keys rest(5) own rest(5) own tries queue rest(6) run]
  have taken: "gave_back sample_world (snd (work_queued mq_jobs ?i ?tries 0
      (snd (snd (lost_refund (Some mem_add) []))) (fst (snd (lost_refund (Some mem_add) [])))))"
    using costs[of "[]"] by (auto simp: Let_def enqueue_refund_def mem_add_def cost_job_def)
  have refused: "kept_price (User_Subject ''u'') 1 sample_world
      (fst (snd (lost_refund (Some mem_add) [Tx_lost (OtherExn ''Custom Id cannot contain :'')])))"
    using costs[of "[Tx_lost (OtherExn ''Custom Id cannot contain :'')]"]
    by (auto simp: Let_def enqueue_refund_def mem_add_def cost_job_def)
  show ?thesis using taken refused by blast
qed

text \<open>
  C20. The keys are built from the request id, and the id is the client's own when it sends one
  of the accepted form. So a client that repeats the id of a request it was charged for is
  admitted by the guard again, at any later time and whatever it spent or was refunded
  since, without being charged: the spend replays and the credit state does not change.
\<close>

theorem repeated_request_id_is_free:
  assumes "accepted_request_id rid" and "feature \<noteq> []"
    and "context_middleware uuid1 Header_absent (Header_one rid) = (i1, h1, ctx1)"
    and "context_middleware uuid2 Header_absent (Header_one rid) = (i2, h2, ctx2)"
    and "credits_guard env1 Tx_ok True (None, None) (Some feature, None) (Some u) (\<lambda>_. Inr s) ctx1 w
           = (Inr True, marker, w1)"
  shows "credits_guard env2 Tx_ok True (None, None) (Some feature, None) (Some u) (\<lambda>_. Inr s) ctx2
           (run_credit_ops ops w1) = (Inr True, marker, run_credit_ops ops w1)"
proof -
  let ?st = "\<lparr>rs_requestId = rid, rs_userId = None, rs_organizationId = None\<rparr>"
  have ctx: "ctx1 = Some ?st" "ctx2 = Some ?st"
    using assms(1,3,4) by (auto simp: context_middleware_def resolve_request_id_def Let_def)
  let ?op = "Op_Spend (subject_given s) (credit_cost feature) (spend_key rid feature) (Some feature) None"
  note g = assms(5)[unfolded ctx guard_charges[OF assms(2)]]
  obtain v where sp: "run_credit_op env1 Tx_ok ?op w = (Inr v, w1)"
    and m: "marker = Some \<lparr>sm_subject = s, sm_feature = feature, sm_amount = credit_cost feature,
                 sm_spendKey = spend_key rid feature, sm_refundKey = refund_key rid feature\<rparr>"
    using g by (auto split: prod.splits sum.splits)
  from replay_again[OF sp, of env2 ops] show ?thesis
    unfolding ctx guard_charges[OF assms(2)] m by simp
qed

theorem repeated_request_id_is_free_witness:
  "\<exists>marker w1. credits_guard sample_env Tx_ok True (None, None) (Some ''demo.paid'', None) (Some ''u'')
       (\<lambda>_. Inr (User_Subject ''u'')) (Some \<lparr>rs_requestId = ''r1'', rs_userId = None, rs_organizationId = None\<rparr>)
       sample_world = (Inr True, marker, w1) \<and>
     get_balance (Inr ''u'') (cw_db w1) = 8 \<and>
     credits_guard sample_env Tx_ok True (None, None) (Some ''demo.paid'', None) (Some ''u'')
       (\<lambda>_. Inr (User_Subject ''u'')) (Some \<lparr>rs_requestId = ''r1'', rs_userId = None, rs_organizationId = None\<rparr>)
       w1 = (Inr True, marker, w1)"
proof -
  let ?st = "\<lparr>rs_requestId = ''r1'', rs_userId = None, rs_organizationId = None\<rparr>"
  let ?guard = "\<lambda>w. credits_guard sample_env Tx_ok True (None, None) (Some ''demo.paid'', None) (Some ''u'')
       (\<lambda>_. Inr (User_Subject ''u'')) (Some ?st) w"
  have acc: "accepted_request_id ''r1''"
    by (simp add: accepted_request_id_def request_id_char_def)
  have ctx: "context_middleware ''x'' Header_absent (Header_one ''r1'')
      = (''r1'', [(request_id_header, ''r1'')], Some ?st)"
    using acc by (simp add: context_middleware_def resolve_request_id_def Let_def)
  obtain marker w1 where g: "?guard sample_world = (Inr True, marker, w1)"
    and b: "get_balance (Inr ''u'') (cw_db w1) = 8"
    by (simp add: guard_charges credit_cost_def credit_costs_def subject_given_def spend_key_def
        sample_world_def sample_ops_def credit_eval)
  show ?thesis
    using repeated_request_id_is_free[OF acc _ ctx ctx g, of sample_env "[]"] g b by auto
qed

end
