(* ===== verification/Throttling.thy ===== *)
theory Throttling
  imports Redis
begin

text \<open>
  Admission control over Redis counters: the storage and the guard of
  \<open>src/modules/throttling\<close>, the agent throttle
  (\<open>src/modules/mcp/mcp-throttle.service.ts\<close>) and the session cache and rate-limit counters
  behind Better Auth (\<open>src/modules/auth/redis-secondary-storage.ts\<close>).

  Durations that reach the storage are milliseconds, those of the configuration seconds.
  \<open>ThrottlerGuard\<close> itself is a library class: the guard's \<open>super.handleRequest\<close> is an
  argument, and the locale \<open>throttler_base\<close> states what its documentation says of it.
\<close>

section \<open>The storage\<close>

text \<open>\<open>Math.ceil(ms / 1000)\<close>.\<close>

definition ceil_seconds :: "int \<Rightarrow> int" where
  "ceil_seconds ms = (ms + 999) div 1000"

lemma ceil_seconds_bounds: "ms \<le> 1000 * ceil_seconds ms" "1000 * ceil_seconds ms < ms + 1000"
  using div_bounds[of 1000 "ms + 999"] unfolding ceil_seconds_def by linarith+

lemma ceil_seconds_pos: "0 < ms \<Longrightarrow> 0 < ceil_seconds ms"
  using ceil_seconds_bounds(1)[of ms] by linarith

record throttle_record =
  tr_totalHits :: int
  tr_timeToExpire :: int
  tr_isBlocked :: bool
  tr_timeToBlockExpire :: int

definition hits_key :: "string \<Rightarrow> string \<Rightarrow> string" where
  "hits_key name k = ''throttle:'' @ name @ '':'' @ k"

definition block_key :: "string \<Rightarrow> string \<Rightarrow> string" where
  "block_key name k = ''throttle:'' @ name @ '':block:'' @ k"

definition blocked_record :: "int \<Rightarrow> int \<Rightarrow> throttle_record" where
  "blocked_record limit blockPttl =
     \<lparr>tr_totalHits = limit + 1, tr_timeToExpire = ceil_seconds blockPttl,
      tr_isBlocked = True, tr_timeToBlockExpire = ceil_seconds blockPttl\<rparr>"

text \<open>The part of \<open>increment\<close> after the counter has its expiry: block over the limit.\<close>

definition judge_hits ::
  "'s redis \<Rightarrow> string \<Rightarrow> int \<Rightarrow> int \<Rightarrow> int \<Rightarrow> int \<Rightarrow> 's \<Rightarrow> (exn + throttle_record) \<times> 's" where
  "judge_hits R blk limit blockDuration hits hitsPttl s =
     (let timeToExpire = max 1 (ceil_seconds hitsPttl)
      in if hits > limit then
           (case rd_set_px R blk ''1'' blockDuration s of
              (Inl e, s') \<Rightarrow> (Inl e, s')
            | (Inr _, s') \<Rightarrow>
                (Inr \<lparr>tr_totalHits = hits, tr_timeToExpire = timeToExpire, tr_isBlocked = True,
                      tr_timeToBlockExpire = max 1 (ceil_seconds blockDuration)\<rparr>, s'))
         else
           (Inr \<lparr>tr_totalHits = hits, tr_timeToExpire = timeToExpire, tr_isBlocked = False,
                 tr_timeToBlockExpire = 0\<rparr>, s))"

text \<open>A counter without an expiry gets one, whoever created it.\<close>

definition ensure_expiry ::
  "'s redis \<Rightarrow> string \<Rightarrow> int \<Rightarrow> int \<Rightarrow> int \<Rightarrow> 's \<Rightarrow> (exn + int) \<times> 's" where
  "ensure_expiry R hk ttl hits hitsPttl s =
     (if hits = 1 \<or> hitsPttl < 0 then
        (case rd_pexpire R hk ttl s of (Inl e, s') \<Rightarrow> (Inl e, s') | (Inr _, s') \<Rightarrow> (Inr ttl, s'))
      else (Inr hitsPttl, s))"

definition throttle_increment ::
  "'s redis \<Rightarrow> string \<Rightarrow> int \<Rightarrow> int \<Rightarrow> int \<Rightarrow> string \<Rightarrow> 's \<Rightarrow> (exn + throttle_record) \<times> 's" where
  "throttle_increment R k ttl limit blockDuration name s =
     (case rd_pttl R (block_key name k) s of
        (Inl e, s1) \<Rightarrow> (Inl e, s1)
      | (Inr blockPttl, s1) \<Rightarrow>
          (if blockPttl > 0 then (Inr (blocked_record limit blockPttl), s1)
           else
             (case rd_incr R (hits_key name k) s1 of
                (Inl e, s2) \<Rightarrow> (Inl e, s2)
              | (Inr hits, s2) \<Rightarrow>
                  (case rd_pttl R (hits_key name k) s2 of
                     (Inl e, s3) \<Rightarrow> (Inl e, s3)
                   | (Inr hitsPttl, s3) \<Rightarrow>
                       (case ensure_expiry R (hits_key name k) ttl hits hitsPttl s3 of
                          (Inl e, s4) \<Rightarrow> (Inl e, s4)
                        | (Inr hitsPttl', s4) \<Rightarrow>
                            judge_hits R (block_key name k) limit blockDuration hits hitsPttl' s4)))))"

section \<open>The guard\<close>

record throttle_window =
  tw_windowSeconds :: int
  tw_max :: int

record throttle_windows =
  tws_burst :: throttle_window
  tws_minute :: throttle_window

record throttle_config =
  tc_burst :: throttle_window
  tc_minute :: throttle_window
  tc_strict :: throttle_windows

text \<open>The named throttlers of \<open>ThrottlerModule.forRootAsync\<close>; \<open>seconds\<close> is milliseconds.\<close>

record named_throttler =
  nt_name :: string
  nt_ttl :: int
  nt_limit :: int

definition named_throttlers :: "throttle_config \<Rightarrow> named_throttler list" where
  "named_throttlers c =
     [\<lparr>nt_name = ''burst'', nt_ttl = 1000 * tw_windowSeconds (tc_burst c), nt_limit = tw_max (tc_burst c)\<rparr>,
      \<lparr>nt_name = ''minute'', nt_ttl = 1000 * tw_windowSeconds (tc_minute c),
       nt_limit = tw_max (tc_minute c)\<rparr>]"

record throttle_props =
  tp_limit :: int
  tp_ttl :: int
  tp_blockDuration :: int
  tp_name :: string

definition get_tracker :: "string option \<Rightarrow> string option \<Rightarrow> string" where
  "get_tracker principalId ip =
     (case principalId of
        Some u \<Rightarrow> (if u \<noteq> [] then ''user:'' @ u
                 else ''ip:'' @ (case ip of Some a \<Rightarrow> a | None \<Rightarrow> ''unknown''))
      | None \<Rightarrow> ''ip:'' @ (case ip of Some a \<Rightarrow> a | None \<Rightarrow> ''unknown''))"

text \<open>The metadata of the handler wins over the one of the class.\<close>

definition policy_for :: "bool option \<times> bool option \<Rightarrow> string" where
  "policy_for meta =
     (let isStrict = (case fst meta of Some b \<Rightarrow> Some b | None \<Rightarrow> snd meta)
      in if isStrict = Some True then ''strict'' else ''default'')"

definition generate_key :: "bool option \<times> bool option \<Rightarrow> string \<Rightarrow> string" where
  "generate_key meta tracker = policy_for meta @ '':'' @ tracker"

definition strict_props :: "throttle_config \<Rightarrow> throttle_props \<Rightarrow> throttle_props" where
  "strict_props c p =
     (let policy = (if tp_name p = ''minute'' then tws_minute (tc_strict c) else tws_burst (tc_strict c))
      in p\<lparr>tp_limit := tw_max policy, tp_ttl := tw_windowSeconds policy * 1000,
           tp_blockDuration := tw_windowSeconds policy * 1000\<rparr>)"

text \<open>\<open>throwThrottlingException\<close>: the response header it sets, and what it throws.\<close>

definition retry_after_of :: "throttle_record \<Rightarrow> string" where
  "retry_after_of r = show_int (max 1 (tr_timeToBlockExpire r))"

definition throttling_exception :: "int \<Rightarrow> throttle_record \<Rightarrow> (string \<times> string) list \<times> exn" where
  "throttling_exception limit r =
     ([(''Retry-After'', retry_after_of r)],
      api_error_headers 429 RATE_LIMITED ''Too many requests. Try again later.''
        (JObj [(''limit'', JNum limit), (''remaining'', JNum 0)])
        [(''Retry-After'', retry_after_of r)])"

record 's throttle_world =
  th_conn :: 's
  th_headers :: "(string \<times> string) list"

text \<open>
  The library's \<open>handleRequest\<close>: it is given the storage's \<open>increment\<close>, \<open>generateKey\<close>, the
  tracker, the overridden \<open>throwThrottlingException\<close> and the request's properties.
\<close>

type_synonym 's base_handler =
  "(string \<Rightarrow> int \<Rightarrow> int \<Rightarrow> int \<Rightarrow> string \<Rightarrow> 's \<Rightarrow> (exn + throttle_record) \<times> 's) \<Rightarrow>
   (string \<Rightarrow> string) \<Rightarrow> string \<Rightarrow> (int \<Rightarrow> throttle_record \<Rightarrow> (string \<times> string) list \<times> exn) \<Rightarrow>
   throttle_props \<Rightarrow> 's throttle_world \<Rightarrow> (exn + bool) \<times> 's throttle_world"

definition rate_limiting_unavailable :: exn where
  "rate_limiting_unavailable =
     api_error 503 SERVICE_UNAVAILABLE ''Rate limiting temporarily unavailable.''"

definition handle_request ::
  "'s base_handler \<Rightarrow> (exn \<Rightarrow> bool) \<Rightarrow> 's redis \<Rightarrow> throttle_config \<Rightarrow> bool option \<times> bool option \<Rightarrow>
     string \<Rightarrow> throttle_props \<Rightarrow> 's throttle_world \<Rightarrow> (exn + bool) \<times> 's throttle_world" where
  "handle_request super is_throttler_exception R c meta tracker props w =
     (let props' = (if policy_for meta = ''strict'' then strict_props c props else props)
      in case super (throttle_increment R) (generate_key meta) tracker throttling_exception props' w of
           (Inr b, w') \<Rightarrow> (Inr b, w')
         | (Inl e, w') \<Rightarrow>
             (if is_throttler_exception e \<or> api_code e \<noteq> None then (Inl e, w')
              else (Inl rate_limiting_unavailable, w')))"

text \<open>
  What the documentation of \<open>ThrottlerGuard\<close> says: the request is counted under its key, a
  blocked record is answered by \<open>throwThrottlingException\<close>, and an error of the storage is
  the error of the call. Beside that the library sets headers of its own.
\<close>

locale throttler_base =
  fixes super :: "'s base_handler"
  assumes base_error: "inc (gen trk) (tp_ttl p) (tp_limit p) (tp_blockDuration p) (tp_name p) (th_conn w)
            = (Inl e, s') \<Longrightarrow>
        \<exists>w'. super inc gen trk thr p w = (Inl e, w') \<and> th_conn w' = s'"
    and base_admit: "inc (gen trk) (tp_ttl p) (tp_limit p) (tp_blockDuration p) (tp_name p) (th_conn w)
            = (Inr r, s') \<Longrightarrow> \<not> tr_isBlocked r \<Longrightarrow>
        \<exists>w'. super inc gen trk thr p w = (Inr True, w') \<and> th_conn w' = s'"
    and base_block: "inc (gen trk) (tp_ttl p) (tp_limit p) (tp_blockDuration p) (tp_name p) (th_conn w)
            = (Inr r, s') \<Longrightarrow> tr_isBlocked r \<Longrightarrow>
        \<exists>w'. super inc gen trk thr p w = (Inl (snd (thr (tp_limit p) r)), w') \<and> th_conn w' = s' \<and>
             set (fst (thr (tp_limit p) r)) \<subseteq> set (th_headers w')"

section \<open>The agent throttle\<close>

datatype mcp_denial = Rate_limited | Store_unavailable

definition mcp_hit :: "'s redis \<Rightarrow> string \<Rightarrow> int \<Rightarrow> int \<Rightarrow> 's \<Rightarrow> (exn + bool) \<times> 's" where
  "mcp_hit R k windowSeconds limit s =
     (case rd_incr R k s of
        (Inl e, s1) \<Rightarrow> (Inl e, s1)
      | (Inr count, s1) \<Rightarrow>
          (case (if count = 1 then rd_expire R k windowSeconds s1 else (Inr (), s1)) of
             (Inl e, s2) \<Rightarrow> (Inl e, s2)
           | (Inr _, s2) \<Rightarrow> (Inr (count \<le> limit), s2)))"

definition mcp_key :: "string \<Rightarrow> string \<Rightarrow> string" where
  "mcp_key window userId = ''mcp:throttle:'' @ window @ '':u:'' @ userId"

definition mcp_consume ::
  "'s redis \<Rightarrow> throttle_windows \<Rightarrow> string \<Rightarrow> 's \<Rightarrow> mcp_denial option \<times> 's" where
  "mcp_consume R c userId s =
     (case mcp_hit R (mcp_key ''burst'' userId) (tw_windowSeconds (tws_burst c))
             (tw_max (tws_burst c)) s of
        (Inl _, s1) \<Rightarrow> (Some Store_unavailable, s1)
      | (Inr False, s1) \<Rightarrow> (Some Rate_limited, s1)
      | (Inr True, s1) \<Rightarrow>
          (case mcp_hit R (mcp_key ''minute'' userId) (tw_windowSeconds (tws_minute c))
                  (tw_max (tws_minute c)) s1 of
             (Inl _, s2) \<Rightarrow> (Some Store_unavailable, s2)
           | (Inr False, s2) \<Rightarrow> (Some Rate_limited, s2)
           | (Inr True, s2) \<Rightarrow> (None, s2)))"

section \<open>Secondary storage\<close>

text \<open>The session cache fails open: an error reads as a miss, and a lost write is no error.\<close>

definition cache_get :: "'s redis \<Rightarrow> string \<Rightarrow> 's \<Rightarrow> string option \<times> 's" where
  "cache_get R k s = (case rd_get R k s of (Inr x, s') \<Rightarrow> (x, s') | (Inl _, s') \<Rightarrow> (None, s'))"

definition cache_set :: "'s redis \<Rightarrow> string \<Rightarrow> string \<Rightarrow> int option \<Rightarrow> 's \<Rightarrow> 's" where
  "cache_set R k x ttl s =
     (case ttl of
        Some t \<Rightarrow> (if t > 0 then snd (rd_set_ex R k x t s) else snd (rd_set R k x s))
      | None \<Rightarrow> snd (rd_set R k x s))"

definition cache_delete :: "'s redis \<Rightarrow> string \<Rightarrow> 's \<Rightarrow> 's" where
  "cache_delete R k s = snd (rd_del R k s)"

definition rate_limit_prefix :: string where
  "rate_limit_prefix = ''auth:ratelimit:''"

definition rate_limiter_unavailable :: exn where
  "rate_limiter_unavailable = AuthApiExn 503 (Some
     ''Sign-in is temporarily unavailable. Please try again in a moment.'')"

definition auth_increment :: "'s redis \<Rightarrow> string \<Rightarrow> int \<Rightarrow> 's \<Rightarrow> (exn + int) \<times> 's" where
  "auth_increment R k ttlSeconds s =
     (let counter = rate_limit_prefix @ k
      in case rd_incr R counter s of
           (Inl _, s1) \<Rightarrow> (Inl rate_limiter_unavailable, s1)
         | (Inr count, s1) \<Rightarrow>
             (if count = 1 \<and> ttlSeconds > 0 then
                (case rd_expire R counter ttlSeconds s1 of
                   (Inl _, s2) \<Rightarrow> (Inl rate_limiter_unavailable, s2)
                 | (Inr _, s2) \<Rightarrow> (Inr count, s2))
              else (Inr count, s1)))"

end
