(* ===== verification/CounterRuns.thy ===== *)
theory CounterRuns
  imports Redis
begin

text \<open>
  Runs of calls on shared Redis keys, with time and other clients between the calls, and the
  tally of a counter: how many units the calls of a window have taken of it.
\<close>

section \<open>Runs\<close>

text \<open>Time passes, and nobody else writes the keys in question.\<close>

definition later :: "string set \<Rightarrow> rview \<Rightarrow> rview \<Rightarrow> bool" where
  "later K v v' \<longleftrightarrow> rv_clock v \<le> rv_clock v' \<and> (\<forall>k\<in>K. rv_data v' k = rv_data v k)"

inductive call_run ::
  "('s \<Rightarrow> rview) \<Rightarrow> string set \<Rightarrow> ('s \<Rightarrow> 'r \<times> 's) \<Rightarrow> 's \<Rightarrow> 'r list \<Rightarrow> 's \<Rightarrow> bool"
  for view :: "'s \<Rightarrow> rview" and K :: "string set" and call :: "'s \<Rightarrow> 'r \<times> 's" and s :: 's where
  run_start: "call_run view K call s [] s"
| run_call: "call_run view K call s rs s1 \<Longrightarrow> call s1 = (r, s2) \<Longrightarrow> call_run view K call s (rs @ [r]) s2"
| run_wait: "call_run view K call s rs s1 \<Longrightarrow> later K (view s1) (view s2) \<Longrightarrow> call_run view K call s rs s2"

lemma later_subset: "later K v v' \<Longrightarrow> L \<subseteq> K \<Longrightarrow> later L v v'"
  unfolding later_def by blast

lemma call_run_clock:
  assumes "call_run view K call s rs s'"
    and "\<And>s1 r s2. call s1 = (r, s2) \<Longrightarrow> rv_clock (view s2) = rv_clock (view s1)"
  shows "rv_clock (view s) \<le> rv_clock (view s')"
  using assms(1)
proof (induction rule: call_run.induct)
  case (run_call rs s1 r s2)
  with assms(2) show ?case by metis
next
  case (run_wait rs s1 s2)
  then show ?case by (simp add: later_def)
qed simp

text \<open>
  An invariant of the state and of the answers so far, over the part of a run that ends
  before the time \<open>T\<close>.
\<close>

lemma call_run_invariant:
  assumes run: "call_run view K call s rs s'"
    and clock: "\<And>s1 r s2. call s1 = (r, s2) \<Longrightarrow> rv_clock (view s2) = rv_clock (view s1)"
    and start: "I [] (view s)"
    and step: "\<And>rs s1 r s2. call s1 = (r, s2) \<Longrightarrow> rv_clock (view s1) < T \<Longrightarrow> I rs (view s1) \<Longrightarrow>
           I (rs @ [r]) (view s2)"
    and wait: "\<And>rs v v'. I rs v \<Longrightarrow> later K v v' \<Longrightarrow> rv_clock v' < T \<Longrightarrow> I rs v'"
    and before: "rv_clock (view s') < T"
  shows "I rs (view s')"
  using run before
proof (induction rule: call_run.induct)
  case run_start
  show ?case by (rule start)
next
  case (run_call rs s1 r s2)
  with clock[OF run_call.hyps(2)] step[OF run_call.hyps(2)] show ?case by simp
next
  case (run_wait rs s1 s2)
  then have "rv_clock (view s1) < T" by (simp add: later_def)
  with run_wait wait show ?case by blast
qed

section \<open>The tally of a counter\<close>

text \<open>
  At least \<open>a\<close> units are on the counter, and it will not expire before \<open>T\<close>.
\<close>

definition tally :: "string \<Rightarrow> int \<Rightarrow> int \<Rightarrow> rview \<Rightarrow> bool" where
  "tally k T a v \<longleftrightarrow>
     (case rv_lookup v k of
        None \<Rightarrow> a \<le> 0
      | Some (x, e) \<Rightarrow>
          (\<exists>m. parse_int x = Some m \<and> a \<le> m) \<and> (case e of None \<Rightarrow> True | Some t \<Rightarrow> T \<le> t))"

lemma tally_cong:
  "tally k T a v \<Longrightarrow> rv_lookup v' k = rv_lookup v k \<Longrightarrow> tally k T a v'"
  by (simp add: tally_def)

lemma tally_later:
  assumes "tally k T a v" and "later K v v'" and "k \<in> K" and "rv_clock v' < T"
  shows "tally k T a v'"
proof -
  have d: "rv_data v' k = rv_data v k" "rv_clock v \<le> rv_clock v'"
    using assms(2,3) by (simp_all add: later_def)
  show ?thesis
    using assms(1,4) d
    by (auto simp: tally_def rv_lookup_def split: option.splits prod.splits if_splits)
qed

lemma tally_incr:
  assumes "tally k T a v" and "sem_incrby 1 k v = (Inr n, v')"
  shows "tally k T (a + 1) v'" and "a + 1 \<le> n"
  using assms rv_expiry_live[of v k]
  by (auto simp: tally_def sem_incrby_def rv_count_def rv_text_def rv_expiry_def
      split: option.splits prod.splits)

lemma tally_less: "tally k T a v \<Longrightarrow> b \<le> a \<Longrightarrow> tally k T b v"
  by (force simp: tally_def split: option.splits)

lemma tally_pexpire:
  assumes "tally k T a v" and "sem_pexpire k ms v = (Inr (), v')" and "T \<le> rv_clock v + ms" and "0 < ms"
  shows "tally k T a v'"
  using assms by (auto simp: tally_def sem_pexpire_def split: option.splits prod.splits)

text \<open>Other keys are left alone by a command on one key.\<close>

lemma incrby_others:
  "sem_incrby d k v = (Inr n, v') \<Longrightarrow> k' \<noteq> k \<Longrightarrow> rv_lookup v' k' = rv_lookup v k'"
  by (auto simp: sem_incrby_def split: option.splits)

lemma pexpire_others:
  "sem_pexpire k ms v = (Inr (), v') \<Longrightarrow> k' \<noteq> k \<Longrightarrow> rv_lookup v' k' = rv_lookup v k'"
  by (auto simp: sem_pexpire_def split: option.splits prod.splits if_splits)

lemma set_px_others:
  "sem_set_px k x ms v = (Inr (), v') \<Longrightarrow> k' \<noteq> k \<Longrightarrow> rv_lookup v' k' = rv_lookup v k'"
  by (auto simp: sem_set_px_def split: if_splits)

lemma set_nx_others:
  "sem_set_nx k x v = (Inr (), v') \<Longrightarrow> k' \<noteq> k \<Longrightarrow> rv_lookup v' k' = rv_lookup v k'"
  by (auto simp: sem_set_nx_def split: if_splits)

lemma incrby_clock: "sem_incrby d k v = (Inr n, v') \<Longrightarrow> rv_clock v' = rv_clock v"
  by (auto simp: sem_incrby_def split: option.splits)

lemma pexpire_clock: "sem_pexpire k ms v = (Inr (), v') \<Longrightarrow> rv_clock v' = rv_clock v"
  by (auto simp: sem_pexpire_def split: option.splits prod.splits if_splits)

lemma incrby_live: "sem_incrby d k v = (Inr n, v') \<Longrightarrow> rv_lookup v' k \<noteq> None"
  using rv_expiry_live[of v k] by (auto simp: sem_incrby_def split: option.splits)

lemma pexpire_expiry:
  "sem_pexpire k ms v = (Inr (), v') \<Longrightarrow> rv_lookup v k \<noteq> None \<Longrightarrow> 0 < ms \<Longrightarrow>
   rv_expiry v' k = Some (rv_clock v + ms)"
  by (auto simp: sem_pexpire_def rv_expiry_def split: option.splits prod.splits)

lemma set_px_clock: "sem_set_px k x ms v = (Inr (), v') \<Longrightarrow> rv_clock v' = rv_clock v"
  by (auto simp: sem_set_px_def split: if_splits)

lemma pttl_same: "sem_pttl k v = (Inr n, v') \<Longrightarrow> v' = v"
  by (simp add: sem_pttl_def)

lemma does_any:
  assumes "does_command view call sem" and "call s = (r, s')"
  shows "view s' = view s \<or> (\<exists>x. sem (view s) = (Inr x, view s'))"
  using assms does_command_ok[OF assms(1)] does_command_fail(2)[OF assms(1)] by (cases r) blast+

lemma does_unit:
  assumes "does_command view call sem" and "call s = (r, s')"
  shows "view s' = view s \<or> sem (view s) = (Inr (), view s')"
  using does_any[OF assms] by auto

text \<open>Only the keys of \<open>K\<close> may have changed, and no time has passed.\<close>

definition touches :: "string set \<Rightarrow> rview \<Rightarrow> rview \<Rightarrow> bool" where
  "touches K v v' \<longleftrightarrow> rv_clock v' = rv_clock v \<and> (\<forall>k. k \<notin> K \<longrightarrow> rv_lookup v' k = rv_lookup v k)"

lemma touches_refl [simp]: "touches K v v"
  by (simp add: touches_def)

lemma touches_trans: "touches K u v \<Longrightarrow> touches L v w \<Longrightarrow> K \<subseteq> M \<Longrightarrow> L \<subseteq> M \<Longrightarrow> touches M u w"
  by (fastforce simp: touches_def)

lemma touches_mono: "touches K u v \<Longrightarrow> K \<subseteq> M \<Longrightarrow> touches M u v"
  by (fastforce simp: touches_def)

lemma tally_touches: "touches K v v' \<Longrightarrow> k \<notin> K \<Longrightarrow> tally k T a v \<Longrightarrow> tally k T a v'"
  by (simp add: touches_def tally_def)

context redis_store
begin

text \<open>A command on \<open>k\<close>, answered or not, keeps the clock and the other keys.\<close>

lemma incr_keeps:
  assumes "rd_incr R k s = (r, s')"
  shows "touches {k} (view s) (view s')"
    and "tally k' T a (view s) \<Longrightarrow> tally k' T a (view s')"
    and "r = Inr n \<Longrightarrow> tally k T a (view s) \<Longrightarrow> tally k T (a + 1) (view s') \<and> a + 1 \<le> n"
proof -
  have *: "view s' = view s \<or> (\<exists>n. sem_incrby 1 k (view s) = (Inr n, view s'))"
    using does_any[OF does_incr assms] .
  then show t: "touches {k} (view s) (view s')"
    unfolding touches_def using incrby_clock incrby_others by (metis singletonI)
  from * show "tally k' T a (view s) \<Longrightarrow> tally k' T a (view s')"
    using tally_touches[OF t, of k' T a] tally_incr(1)[of k T a "view s"]
      tally_less[of k T "a + 1" "view s'" a]
    by (cases "k' = k") auto
  show "r = Inr n \<Longrightarrow> tally k T a (view s) \<Longrightarrow> tally k T (a + 1) (view s') \<and> a + 1 \<le> n"
    using does_command_ok[OF does_incr] assms tally_incr by metis
qed

lemma pexpire_keeps:
  assumes "rd_pexpire R k ms s = (r, s')"
  shows "touches {k} (view s) (view s')"
    and "tally k' T a (view s) \<Longrightarrow> 0 < ms \<Longrightarrow> T \<le> rv_clock (view s) + ms \<Longrightarrow> tally k' T a (view s')"
proof -
  have *: "view s' = view s \<or> sem_pexpire k ms (view s) = (Inr (), view s')"
    using does_unit[OF does_pexpire assms] .
  then show t: "touches {k} (view s) (view s')"
    unfolding touches_def using pexpire_clock pexpire_others by (metis singletonI)
  from * show "tally k' T a (view s) \<Longrightarrow> 0 < ms \<Longrightarrow> T \<le> rv_clock (view s) + ms \<Longrightarrow> tally k' T a (view s')"
    using tally_touches[OF t, of k' T a] tally_pexpire by (cases "k' = k") auto
qed

lemma expire_keeps:
  assumes "rd_expire R k secs s = (r, s')"
  shows "touches {k} (view s) (view s')"
    and "tally k' T a (view s) \<Longrightarrow> 0 < secs \<Longrightarrow> T \<le> rv_clock (view s) + 1000 * secs \<Longrightarrow>
         tally k' T a (view s')"
proof -
  have *: "view s' = view s \<or> sem_pexpire k (1000 * secs) (view s) = (Inr (), view s')"
    using does_unit[OF does_expire assms] unfolding sem_expire_def .
  then show t: "touches {k} (view s) (view s')"
    unfolding touches_def using pexpire_clock pexpire_others by (metis singletonI)
  show "tally k' T a (view s')" if "tally k' T a (view s)" "0 < secs" "T \<le> rv_clock (view s) + 1000 * secs"
  proof (cases "k' = k")
    case True
    have "0 < 1000 * secs" using that(2) by simp
    with True * that tally_pexpire show ?thesis by metis
  next
    case False
    with tally_touches[OF t] that show ?thesis by simp
  qed
qed

lemma set_px_keeps:
  assumes "rd_set_px R k x ms s = (r, s')"
  shows "touches {k} (view s) (view s')"
  using does_unit[OF does_set_px assms] set_px_clock set_px_others
  unfolding touches_def by (metis singletonI)

text \<open>What a client throws is not one of the program's own errors.\<close>

lemma client_errors:
  "rd_incr R k s = (Inl e, s') \<Longrightarrow> api_code e = None"
  "rd_pttl R k s = (Inl e, s') \<Longrightarrow> api_code e = None"
  "rd_pexpire R k ms s = (Inl e, s') \<Longrightarrow> api_code e = None"
  "rd_set_px R k x ms s = (Inl e, s') \<Longrightarrow> api_code e = None"
  using does_command_fail(1)[OF does_incr] does_command_fail(1)[OF does_pttl]
    does_command_fail(1)[OF does_pexpire] does_command_fail(1)[OF does_set_px] by blast+

lemma pttl_keeps:
  assumes "rd_pttl R k s = (r, s')"
  shows "view s' = view s"
    and "r = Inr n \<Longrightarrow> n = (case rv_lookup (view s) k of None \<Rightarrow> - 2 | Some (_, None) \<Rightarrow> - 1
           | Some (_, Some t) \<Rightarrow> t - rv_clock (view s))"
proof -
  have *: "view s' = view s \<or> (\<exists>n. sem_pttl k (view s) = (Inr n, view s'))"
    using does_any[OF does_pttl assms] .
  then show "view s' = view s" using pttl_same by metis
  show "n = (case rv_lookup (view s) k of None \<Rightarrow> - 2 | Some (_, None) \<Rightarrow> - 1
           | Some (_, Some t) \<Rightarrow> t - rv_clock (view s))"
    if "r = Inr n"
  proof -
    from that does_command_ok[OF does_pttl] assms have "sem_pttl k (view s) = (Inr n, view s')" by blast
    then show ?thesis unfolding sem_pttl_def prod.inject sum.inject by (elim conjE) (rule sym)
  qed
qed

end

end
