(* ===== verification/ThrottleContract.thy ===== *)
theory ThrottleContract
  imports Throttling CounterRuns
begin

text \<open>
  What one increment of a throttle counter does, over any Redis with the documented
  behaviour, and how its keys separate policies, trackers and windows.
\<close>

section \<open>Keys\<close>

definition throttle_keys :: "string \<Rightarrow> string \<Rightarrow> string set" where
  "throttle_keys name k = {hits_key name k, block_key name k}"

lemma hits_not_block: "hits_key name k \<noteq> block_key name k"
  by (auto simp: hits_key_def block_key_def)

text \<open>The keys of two triples of window, policy and tracker are apart unless all three agree.\<close>

lemma window_name_eq:
  assumes "name \<in> {''burst'', ''minute''}" and "name' \<in> {''burst'', ''minute''}"
  shows "name @ CHR '':'' # x = name' @ CHR '':'' # y \<longleftrightarrow> name = name' \<and> x = y"
  using assms by auto

lemma policy_eq: "generate_key meta trk = generate_key meta' trk' \<longleftrightarrow>
    policy_for meta = policy_for meta' \<and> trk = trk'"
  by (simp add: generate_key_def policy_for_def Let_def)

lemma generated_not_block: "generate_key meta trk \<noteq> ''block:'' @ x"
  by (simp add: generate_key_def policy_for_def Let_def)

lemma key_forms:
  "hits_key name k = ''throttle:'' @ name @ CHR '':'' # k"
  "block_key name k = ''throttle:'' @ name @ CHR '':'' # (''block:'' @ k)"
  by (simp_all add: hits_key_def block_key_def)

lemma throttle_keys_apart:
  assumes "name \<in> {''burst'', ''minute''}" and "name' \<in> {''burst'', ''minute''}"
    and "(name, policy_for meta, trk) \<noteq> (name', policy_for meta', trk')"
  shows "throttle_keys name (generate_key meta trk) \<inter> throttle_keys name' (generate_key meta' trk') = {}"
proof -
  have ne: "\<not> (name = name' \<and> generate_key meta trk = generate_key meta' trk')"
    using assms(3) unfolding policy_eq by blast
  show ?thesis
    unfolding throttle_keys_def key_forms disjoint_iff insert_iff empty_iff
    using ne generated_not_block[of meta trk] generated_not_block[of meta' trk', symmetric]
      window_name_eq[OF assms(1,2)] same_append_eq
    by metis
qed

section \<open>One increment\<close>

text \<open>What an answer says of the keyspace before and after.\<close>

definition throttle_answer ::
  "string \<Rightarrow> string \<Rightarrow> int \<Rightarrow> throttle_record \<Rightarrow> rview \<Rightarrow> rview \<Rightarrow> bool" where
  "throttle_answer name k limit x v v' \<longleftrightarrow>
     (if tr_isBlocked x then
        (rv_expiry v (block_key name k) \<noteq> None \<or>
         (\<exists>n. rv_count v (hits_key name k) = Some n \<and> limit \<le> n)) \<and>
        (\<exists>b. rv_expiry v' (block_key name k) = Some b \<and>
             b \<le> rv_clock v' + 1000 * tr_timeToBlockExpire x)
      else
        rv_expiry v (block_key name k) = None \<and>
        (\<exists>n. rv_count v (hits_key name k) = Some n \<and> n < limit \<and>
             rv_count v' (hits_key name k) = Some (n + 1)) \<and>
        rv_expiry v' (hits_key name k) \<noteq> None)"

definition throttle_admitted :: "exn + throttle_record \<Rightarrow> bool" where
  "throttle_admitted r = (case r of Inr x \<Rightarrow> \<not> tr_isBlocked x | Inl _ \<Rightarrow> False)"

section \<open>When the storage fails\<close>

text \<open>
  The commands of an increment that were answered so far, each on one of its keys; and a
  command that fails after them. An expiry that is set is positive, as Redis demands.
\<close>

inductive answered :: "'s redis \<Rightarrow> string set \<Rightarrow> 's \<Rightarrow> 's \<Rightarrow> bool"
  for R :: "'s redis" and K :: "string set" and s :: 's where
  answered_none: "answered R K s s"
| answered_pttl: "answered R K s s1 \<Longrightarrow> k \<in> K \<Longrightarrow> rd_pttl R k s1 = (Inr n, s2) \<Longrightarrow> answered R K s s2"
| answered_incr: "answered R K s s1 \<Longrightarrow> k \<in> K \<Longrightarrow> rd_incr R k s1 = (Inr n, s2) \<Longrightarrow> answered R K s s2"
| answered_pexpire: "answered R K s s1 \<Longrightarrow> k \<in> K \<Longrightarrow> rd_pexpire R k ms s1 = (Inr u, s2) \<Longrightarrow> answered R K s s2"

definition command_failed :: "'s redis \<Rightarrow> string set \<Rightarrow> 's \<Rightarrow> 's \<Rightarrow> bool" where
  "command_failed R K s s' \<longleftrightarrow>
     (\<exists>s1 k e. answered R K s s1 \<and> k \<in> K \<and>
        (rd_pttl R k s1 = (Inl e, s') \<or> rd_incr R k s1 = (Inl e, s') \<or>
         (\<exists>ms>0. rd_pexpire R k ms s1 = (Inl e, s')) \<or>
         (\<exists>x. \<exists>ms>0. rd_set_px R k x ms s1 = (Inl e, s'))))"

lemma command_failedI:
  assumes "answered R K s s1" and "k \<in> K"
  shows "rd_pttl R k s1 = (Inl e, s') \<Longrightarrow> command_failed R K s s'"
    and "rd_incr R k s1 = (Inl e, s') \<Longrightarrow> command_failed R K s s'"
    and "rd_pexpire R k ms s1 = (Inl e, s') \<Longrightarrow> 0 < ms \<Longrightarrow> command_failed R K s s'"
    and "rd_set_px R k x ms s1 = (Inl e, s') \<Longrightarrow> 0 < ms \<Longrightarrow> command_failed R K s s'"
  using assms unfolding command_failed_def by blast+

lemma increment_error:
  assumes "throttle_increment R k ttl limit bd name s = (Inl e, s')" and "0 < ttl" and "0 < bd"
  shows "command_failed R (throttle_keys name k) s s'"
proof -
  let ?K = "throttle_keys name k"
  have keys: "block_key name k \<in> ?K" "hits_key name k \<in> ?K" by (simp_all add: throttle_keys_def)
  obtain r1 s1 where 1: "rd_pttl R (block_key name k) s = (r1, s1)" by fastforce
  obtain r2 s2 where 2: "rd_incr R (hits_key name k) s1 = (r2, s2)" by fastforce
  obtain r3 s3 where 3: "rd_pttl R (hits_key name k) s2 = (r3, s3)" by fastforce
  show ?thesis
  proof (cases r1)
    case (Inl e1)
    with assms(1) 1 show ?thesis
      by (auto simp: throttle_increment_def intro: command_failedI(1)[OF answered_none keys(1)])
  next
    case (Inr b)
    have a1: "answered R ?K s s1" by (rule answered_pttl[OF answered_none keys(1) 1[unfolded Inr]])
    have low: "\<not> b > 0" using assms(1) 1 Inr by (auto simp: throttle_increment_def)
    show ?thesis
    proof (cases r2)
      case (Inl e2)
      with assms(1) 1 2 \<open>r1 = Inr b\<close> low show ?thesis
        by (auto simp: throttle_increment_def intro: command_failedI(2)[OF a1 keys(2)])
    next
      case (Inr hits)
      have a2: "answered R ?K s s2" by (rule answered_incr[OF a1 keys(2) 2[unfolded Inr]])
      show ?thesis
      proof (cases r3)
        case (Inl e3)
        with assms(1) 1 2 3 \<open>r1 = Inr b\<close> \<open>r2 = Inr hits\<close> low show ?thesis
          by (auto simp: throttle_increment_def intro: command_failedI(1)[OF a2 keys(2)])
      next
        case (Inr p)
        have a3: "answered R ?K s s3" by (rule answered_pttl[OF a2 keys(2) 3[unfolded Inr]])
        obtain r4 s4 where 4: "ensure_expiry R (hits_key name k) ttl hits p s3 = (r4, s4)" by fastforce
        have rest: "(case r4 of Inl e \<Rightarrow> (Inl e, s4)
            | Inr p' \<Rightarrow> judge_hits R (block_key name k) limit bd hits p' s4) = (Inl e, s')"
          using assms(1) 1 2 3 4 \<open>r1 = Inr b\<close> \<open>r2 = Inr hits\<close> Inr low by (simp add: throttle_increment_def)
        have a4: "answered R ?K s s4" if "r4 = Inr p'" for p'
          using 4 that a3 answered_pexpire[OF a3 keys(2)]
          by (auto simp: ensure_expiry_def split: if_splits prod.splits sum.splits)
        show ?thesis
          using rest 4 command_failedI(3)[OF a3 keys(2) _ assms(2)] command_failedI(4)[OF a4 keys(1) _ assms(3)]
          by (cases r4) (auto simp: ensure_expiry_def judge_hits_def Let_def split: if_splits prod.splits sum.splits)
      qed
    qed
  qed
qed

context redis_store
begin

lemma ensure_expiry_effect:
  assumes "ensure_expiry R k ttl hits p s = (r, s')"
  shows "touches {k} (view s) (view s')"
    and "tally k' T a (view s) \<Longrightarrow> 0 < ttl \<Longrightarrow> T \<le> rv_clock (view s) + ttl \<Longrightarrow> tally k' T a (view s')"
    and "r = Inl e \<Longrightarrow> api_code e = None"
  using assms pexpire_keeps client_errors(3)
  by (auto simp: ensure_expiry_def split: if_splits prod.splits sum.splits)

lemma judge_hits_effect:
  assumes "judge_hits R blk limit bd hits p s = (r, s')"
  shows "touches {blk} (view s) (view s')"
    and "throttle_admitted r \<Longrightarrow> hits \<le> limit"
    and "r = Inl e \<Longrightarrow> api_code e = None"
  using assms set_px_keeps client_errors(4)
  by (auto simp: judge_hits_def Let_def throttle_admitted_def split: if_splits prod.splits sum.splits)

lemma increment_touches:
  assumes "throttle_increment R k ttl limit bd name s = (r, s')"
  shows "touches (throttle_keys name k) (view s) (view s') \<and> (\<forall>e. r = Inl e \<longrightarrow> api_code e = None)"
proof -
  let ?b = "block_key name k" and ?h = "hits_key name k"
  obtain r1 s1 where 1: "rd_pttl R ?b s = (r1, s1)" by fastforce
  obtain r2 s2 where 2: "rd_incr R ?h s1 = (r2, s2)" by fastforce
  obtain r3 s3 where 3: "rd_pttl R ?h s2 = (r3, s3)" by fastforce
  have v: "view s1 = view s" "view s3 = view s2" using 1 3 pttl_keeps(1) by blast+
  have t2: "touches {?h} (view s) (view s2)" using incr_keeps(1)[OF 2] v by simp
  have err: "r1 = Inl e \<Longrightarrow> api_code e = None" "r2 = Inl e \<Longrightarrow> api_code e = None"
    "r3 = Inl e \<Longrightarrow> api_code e = None" for e using 1 2 3 client_errors by blast+
  have sub: "{?h} \<subseteq> throttle_keys name k" "{?b} \<subseteq> throttle_keys name k"
    by (auto simp: throttle_keys_def)
  note big = touches_mono[OF t2 sub(1)]
  show ?thesis
  proof (cases r1)
    case (Inl e)
    with assms 1 v err(1) show ?thesis by (auto simp: throttle_increment_def)
  next
    case (Inr b)
    note r1 = Inr
    show ?thesis
    proof (cases "b > 0")
      case True
      with assms 1 v r1 show ?thesis by (auto simp: throttle_increment_def)
    next
      case False
      show ?thesis
      proof (cases "\<exists>hits p. r2 = Inr hits \<and> r3 = Inr p")
        case True
        then obtain hits p where hp: "r2 = Inr hits" "r3 = Inr p" by blast
        obtain r4 s4 where 4: "ensure_expiry R ?h ttl hits p s3 = (r4, s4)" by fastforce
        note t4 = touches_trans[OF t2[folded v(2)] ensure_expiry_effect(1)[OF 4] sub(1) sub(1)]
        show ?thesis
        proof (cases r4)
          case (Inl e)
          with assms 1 2 3 4 r1 False hp t4 ensure_expiry_effect(3)[OF 4] show ?thesis
            by (auto simp: throttle_increment_def)
        next
          case (Inr p')
          with assms 1 2 3 4 r1 False hp
          have j: "judge_hits R ?b limit bd hits p' s4 = (r, s')" by (simp add: throttle_increment_def)
          show ?thesis
            using touches_trans[OF t4 judge_hits_effect(1)[OF j] subset_refl sub(2)]
              judge_hits_effect(3)[OF j] by simp
        qed
      next
        case nope: False
        with assms 1 2 3 r1 False big v(2) err show ?thesis
          by (cases r2; cases r3) (auto simp: throttle_increment_def)
      qed
    qed
  qed
qed

text \<open>A unit admitted is a unit on the counter, within the limit.\<close>

lemma increment_tally:
  assumes "throttle_increment R k ttl limit bd name s = (r, s')"
    and "tally (hits_key name k) T a (view s)" and "0 < ttl" and "T \<le> rv_clock (view s) + ttl"
  shows "tally (hits_key name k) T (if throttle_admitted r then a + 1 else a) (view s') \<and>
         (throttle_admitted r \<longrightarrow> a + 1 \<le> limit)"
proof -
  let ?b = "block_key name k" and ?h = "hits_key name k"
  have hb: "?h \<notin> {?b}" using hits_not_block by simp
  obtain r1 s1 where 1: "rd_pttl R ?b s = (r1, s1)" by fastforce
  obtain r2 s2 where 2: "rd_incr R ?h s1 = (r2, s2)" by fastforce
  obtain r3 s3 where 3: "rd_pttl R ?h s2 = (r3, s3)" by fastforce
  have v: "view s1 = view s" "view s3 = view s2" using 1 3 pttl_keeps(1) by blast+
  have t1: "tally ?h T a (view s1)" using assms(2) v by simp
  have t2: "tally ?h T a (view s2)" using incr_keeps(2)[OF 2 t1] .
  show ?thesis
  proof (cases "(\<exists>b. r1 = Inr b \<and> \<not> b > 0) \<and> (\<exists>hits. r2 = Inr hits) \<and> (\<exists>p. r3 = Inr p)")
    case False
    then show ?thesis
      using assms(1,2) 1 2 3 v t2
      by (cases r1; cases r2; cases r3)
        (auto simp: throttle_increment_def throttle_admitted_def blocked_record_def split: if_splits)
  next
    case True
    then obtain b hits p where b: "r1 = Inr b" "\<not> b > 0" and hp: "r2 = Inr hits" "r3 = Inr p" by blast
    have up: "tally ?h T (a + 1) (view s3)" "a + 1 \<le> hits"
      using incr_keeps(3)[OF 2 hp(1) t1] v by simp_all
    have clk: "T \<le> rv_clock (view s3) + ttl"
      using incr_keeps(1)[OF 2] assms(4) v by (simp add: touches_def)
    obtain r4 s4 where 4: "ensure_expiry R ?h ttl hits p s3 = (r4, s4)" by fastforce
    have t4: "tally ?h T (a + 1) (view s4)" using ensure_expiry_effect(2)[OF 4 up(1) assms(3) clk] .
    show ?thesis
    proof (cases r4)
      case (Inl e)
      with assms(1) 1 2 3 4 b hp have "r = Inl e" "s' = s4" by (simp_all add: throttle_increment_def)
      with tally_less[OF t4, of a] show ?thesis by (simp add: throttle_admitted_def)
    next
      case (Inr p')
      with assms(1) 1 2 3 4 b hp
      have j: "judge_hits R ?b limit bd hits p' s4 = (r, s')" by (simp add: throttle_increment_def)
      have t: "tally ?h T (a + 1) (view s')"
        using tally_touches[OF judge_hits_effect(1)[OF j] hb t4] .
      with tally_less[OF t, of a] judge_hits_effect(2)[OF j] up(2) show ?thesis by auto
    qed
  qed
qed

lemma pttl_expiry:
  assumes "rd_pttl R k s = (Inr p, s')"
  shows "0 < p \<longleftrightarrow> rv_expiry (view s) k \<noteq> None"
    and "0 \<le> p \<Longrightarrow> rv_expiry (view s) k = Some (rv_clock (view s) + p)"
proof -
  have p: "p = (case rv_lookup (view s) k of None \<Rightarrow> - 2 | Some (_, None) \<Rightarrow> - 1
           | Some (_, Some t) \<Rightarrow> t - rv_clock (view s))"
    using pttl_keeps(2)[OF assms] by simp
  show "0 < p \<longleftrightarrow> rv_expiry (view s) k \<noteq> None"
    and "0 \<le> p \<Longrightarrow> rv_expiry (view s) k = Some (rv_clock (view s) + p)"
    using p rv_expiry_live[of "view s" k]
    by (auto simp: rv_expiry_def split: option.splits prod.splits)
qed

lemma ensure_expiry_sets:
  assumes "ensure_expiry R k ttl hits p s = (Inr p', s')"
    and "rd_pttl R k s0 = (Inr p, s)" and "rv_lookup (view s) k \<noteq> None" and "0 < ttl"
  shows "rv_expiry (view s') k \<noteq> None \<and> rv_count (view s') k = rv_count (view s) k"
proof (cases "hits = 1 \<or> p < 0")
  case True
  with assms(1) have "rd_pexpire R k ttl s = (Inr (), s')"
    by (auto simp: ensure_expiry_def split: prod.splits sum.splits)
  with does_command_ok[OF does_pexpire] have e: "sem_pexpire k ttl (view s) = (Inr (), view s')" by blast
  from pexpire_expiry[OF e assms(3,4)] rv_count_pexpire(1)[OF e assms(4)] show ?thesis by simp
next
  case False
  with assms(1) have "s' = s" by (simp add: ensure_expiry_def)
  with False pttl_expiry(2)[OF assms(2)] pttl_keeps(1)[OF assms(2)] show ?thesis by simp
qed

lemma judge_answer:
  assumes "judge_hits R blk limit bd hits p s = (Inr x, s')" and "0 < bd"
  shows "(tr_isBlocked x \<longleftrightarrow> limit < hits) \<and> (\<not> tr_isBlocked x \<longrightarrow> s' = s) \<and>
         (tr_isBlocked x \<longrightarrow> (\<exists>b. rv_expiry (view s') blk = Some b \<and>
             b \<le> rv_clock (view s') + 1000 * tr_timeToBlockExpire x))"
proof (cases "limit < hits")
  case True
  with assms(1) have call: "rd_set_px R blk ''1'' bd s = (Inr (), s')"
    and x: "tr_isBlocked x" "tr_timeToBlockExpire x = max 1 (ceil_seconds bd)"
    by (auto simp: judge_hits_def Let_def split: prod.splits sum.splits)
  from does_command_ok[OF does_set_px call] assms(2)
  have "view s' = rv_put blk ''1'' (Some (rv_clock (view s) + bd)) (view s)"
    by (simp add: sem_set_px_def split: if_splits)
  then have "rv_expiry (view s') blk = Some (rv_clock (view s') + bd)"
    using assms(2) by (simp add: rv_expiry_def)
  moreover have "bd \<le> 1000 * max 1 (ceil_seconds bd)"
    using ceil_seconds_bounds(1)[of bd] by linarith
  ultimately show ?thesis using True x by auto
next
  case False
  with assms show ?thesis by (auto simp: judge_hits_def Let_def)
qed

lemma increment_answer:
  assumes "throttle_increment R k ttl limit bd name s = (Inr x, s')" and "0 < ttl" and "0 < bd"
  shows "throttle_answer name k limit x (view s) (view s')"
proof -
  let ?b = "block_key name k" and ?h = "hits_key name k"
  obtain b s1 where 1: "rd_pttl R ?b s = (Inr b, s1)"
    using assms(1) by (auto simp: throttle_increment_def split: prod.splits sum.splits)
  note v1 = pttl_keeps(1)[OF 1]
  show ?thesis
  proof (cases "b > 0")
    case True
    with assms(1) 1 have r: "x = blocked_record limit b" "s' = s1" by (simp_all add: throttle_increment_def)
    with True pttl_expiry[OF 1] ceil_seconds_bounds(1)[of b] v1 show ?thesis
      by (simp add: throttle_answer_def blocked_record_def)
  next
    case False
    with assms(1) 1 obtain hits s2 p s3 p' s4
      where 2: "rd_incr R ?h s1 = (Inr hits, s2)" and 3: "rd_pttl R ?h s2 = (Inr p, s3)"
        and 4: "ensure_expiry R ?h ttl hits p s3 = (Inr p', s4)"
        and j: "judge_hits R ?b limit bd hits p' s4 = (Inr x, s')"
      by (auto simp: throttle_increment_def split: prod.splits sum.splits)
    note incr = does_command_ok[OF does_incr 2]
    have n: "rv_count (view s) ?h = Some (hits - 1)" "rv_count (view s2) ?h = Some hits"
      using rv_count_incrby[OF incr] v1 by simp_all
    have live: "rv_lookup (view s3) ?h \<noteq> None"
      using incrby_live[OF incr] pttl_keeps(1)[OF 3] by simp
    from ensure_expiry_sets[OF 4 3 live assms(2)] n pttl_keeps(1)[OF 3]
    have "rv_expiry (view s4) ?h \<noteq> None" "rv_count (view s4) ?h = Some hits" by simp_all
    then show ?thesis
      using judge_answer[OF j assms(3)] n(1) False pttl_expiry(1)[OF 1]
      by (auto simp: throttle_answer_def)
  qed
qed

text \<open>Within a window that starts with no counter, at most \<open>limit\<close> calls are admitted.\<close>

lemma throttle_window:
  assumes run: "call_run view (throttle_keys name k) (throttle_increment R k ttl limit bd name) s rs s'"
    and fresh: "rv_lookup (view s) (hits_key name k) = None"
    and pos: "0 < ttl" "0 \<le> limit"
    and short: "rv_clock (view s') < rv_clock (view s) + ttl"
  shows "int (length (filter throttle_admitted rs)) \<le> limit"
proof -
  let ?h = "hits_key name k" and ?T = "rv_clock (view s) + ttl"
  define I where "I rs v \<longleftrightarrow> tally ?h ?T (int (length (filter throttle_admitted rs))) v \<and>
      int (length (filter throttle_admitted rs)) \<le> limit \<and> rv_clock (view s) \<le> rv_clock v" for rs v
  have clock: "rv_clock (view s2) = rv_clock (view s1)"
    if "throttle_increment R k ttl limit bd name s1 = (r, s2)" for s1 r s2
    using increment_touches[OF that] by (simp add: touches_def)
  have step: "I (rs @ [r]) (view s2)"
    if "throttle_increment R k ttl limit bd name s1 = (r, s2)" "I rs (view s1)" for rs s1 r s2
    using increment_tally[OF that(1), of ?T "int (length (filter throttle_admitted rs))"] pos
      that(2) clock[OF that(1)]
    by (auto simp: I_def add.commute split: if_splits)
  have wait: "I rs v'" if "I rs v" "later (throttle_keys name k) v v'" "rv_clock v' < ?T" for rs v v'
    using that tally_later[OF _ that(2) _ that(3), of ?h]
    by (auto simp: I_def throttle_keys_def later_def)
  have start: "I [] (view s)" using fresh pos by (simp add: I_def tally_def)
  have "I rs (view s')"
    by (rule call_run_invariant[where I=I, OF run clock start step wait short])
  then show ?thesis by (simp add: I_def)
qed

end

end
