(* ===== verification/ThrottleProperties.thy ===== *)
theory ThrottleProperties
  imports ThrottleContract
begin

text \<open>
  The properties of admission control: the window bound of the Redis storage, the decision of
  the guard and the separation of its policies, the agent throttle and the counters of the
  credential rate limiter.
\<close>

section \<open>A base handler\<close>

text \<open>The documented behaviour of the library, as a function, for the witnesses.\<close>

definition plain_base :: "'s base_handler" where
  "plain_base inc gen trk thr p w =
     (case inc (gen trk) (tp_ttl p) (tp_limit p) (tp_blockDuration p) (tp_name p) (th_conn w) of
        (Inl e, s') \<Rightarrow> (Inl e, w\<lparr>th_conn := s'\<rparr>)
      | (Inr r, s') \<Rightarrow>
          (if tr_isBlocked r then
             (Inl (snd (thr (tp_limit p) r)),
              w\<lparr>th_conn := s', th_headers := th_headers w @ fst (thr (tp_limit p) r)\<rparr>)
           else (Inr True, w\<lparr>th_conn := s'\<rparr>)))"

interpretation plain: throttler_base plain_base
  by unfold_locales (simp_all add: plain_base_def)

definition effective_props ::
  "throttle_config \<Rightarrow> bool option \<times> bool option \<Rightarrow> throttle_props \<Rightarrow> throttle_props" where
  "effective_props c meta props = (if policy_for meta = ''strict'' then strict_props c props else props)"

lemma effective_name [simp]: "tp_name (effective_props c meta props) = tp_name props"
  by (simp add: effective_props_def strict_props_def Let_def)

context throttler_base
begin

text \<open>The guard's answer, by the answer of the storage.\<close>

lemma guard_cases:
  assumes "throttle_increment R (generate_key meta trk) (tp_ttl (effective_props c meta props))
      (tp_limit (effective_props c meta props)) (tp_blockDuration (effective_props c meta props))
      (tp_name props) (th_conn w) = (a, s')"
    and "handle_request super is_te R c meta trk props w = (r, w')"
  shows "th_conn w' = s' \<and>
     (case a of
        Inl e \<Rightarrow> is_te e \<or> api_code e \<noteq> None \<or> r = Inl rate_limiting_unavailable
      | Inr x \<Rightarrow>
          (if tr_isBlocked x then
             r = Inl (snd (throttling_exception (tp_limit (effective_props c meta props)) x)) \<and>
             (''Retry-After'', retry_after_of x) \<in> set (th_headers w')
           else r = Inr True))"
proof -
  let ?p = "effective_props c meta props"
  let ?inc = "throttle_increment R" and ?gen = "generate_key meta" and ?thr = throttling_exception
  have h: "handle_request super is_te R c meta trk props w =
      (case super ?inc ?gen trk ?thr ?p w of
         (Inr b, w') \<Rightarrow> (Inr b, w')
       | (Inl e, w') \<Rightarrow> (if is_te e \<or> api_code e \<noteq> None then (Inl e, w')
                       else (Inl rate_limiting_unavailable, w')))"
    unfolding handle_request_def effective_props_def Let_def ..
  have inc: "?inc (?gen trk) (tp_ttl ?p) (tp_limit ?p) (tp_blockDuration ?p) (tp_name ?p) (th_conn w) = (a, s')"
    using assms(1) by simp
  show ?thesis
  proof (cases a)
    case (Inl e)
    with base_error[of ?inc ?gen trk ?p w e s' ?thr] inc
    obtain w2 where "super ?inc ?gen trk ?thr ?p w = (Inl e, w2)" "th_conn w2 = s'" by auto
    with assms(2) h Inl show ?thesis by (auto split: if_splits)
  next
    case (Inr x)
    show ?thesis
    proof (cases "tr_isBlocked x")
      case True
      with base_block[of ?inc ?gen trk ?p w x s' ?thr] inc Inr
      obtain w2 where "super ?inc ?gen trk ?thr ?p w = (Inl (snd (?thr (tp_limit ?p) x)), w2)"
        "th_conn w2 = s'" "set (fst (?thr (tp_limit ?p) x)) \<subseteq> set (th_headers w2)" by auto
      with assms(2) h Inr True show ?thesis by (auto simp: throttling_exception_def)
    next
      case False
      with base_admit[of ?inc ?gen trk ?p w x s' ?thr] inc Inr
      obtain w2 where "super ?inc ?gen trk ?thr ?p w = (Inr True, w2)" "th_conn w2 = s'" by auto
      with assms(2) h Inr False show ?thesis by simp
    qed
  qed
qed

end

section \<open>The agent throttle, call by call\<close>

definition mcp_keys :: "string \<Rightarrow> string set" where
  "mcp_keys u = {mcp_key ''burst'' u, mcp_key ''minute'' u}"

lemma mcp_keys_apart: "mcp_key ''burst'' u \<noteq> mcp_key ''minute'' u"
  by (simp add: mcp_key_def)

definition mcp_admitted :: "mcp_denial option \<Rightarrow> bool" where
  "mcp_admitted r \<longleftrightarrow> r = None"

abbreviation admissions :: "mcp_denial option list \<Rightarrow> int" where
  "admissions rs \<equiv> int (length (filter mcp_admitted rs))"

text \<open>At least \<open>a + 1\<close> units on a counter that has no expiry.\<close>

definition stuck :: "string \<Rightarrow> int \<Rightarrow> rview \<Rightarrow> bool" where
  "stuck k a v \<longleftrightarrow>
     (case rv_lookup v k of
        Some (x, None) \<Rightarrow> (case parse_int x of Some m \<Rightarrow> a + 1 \<le> m | None \<Rightarrow> False)
      | _ \<Rightarrow> False)"

lemma stuck_incr:
  assumes "stuck k a v" and "sem_incrby 1 k v = (Inr n, v')"
  shows "stuck k (a + 1) v' \<and> stuck k a v' \<and> a + 2 \<le> n"
  using assms
  by (auto simp: stuck_def sem_incrby_def rv_count_def rv_text_def rv_expiry_def split: option.splits)

lemma stuck_fresh:
  assumes "rv_lookup v k = None" and "sem_incrby 1 k v = (Inr n, v')"
  shows "n = 1 \<and> stuck k 0 v'"
  using assms by (auto simp: sem_incrby_def rv_count_def rv_text_def rv_expiry_def stuck_def)

lemma stuck_less: "stuck k a v \<Longrightarrow> b \<le> a \<Longrightarrow> stuck k b v"
  by (auto simp: stuck_def split: option.splits)

lemma stuck_later: "stuck k a v \<Longrightarrow> later K v v' \<Longrightarrow> k \<in> K \<Longrightarrow> stuck k a v'"
  by (auto simp: stuck_def later_def rv_lookup_def split: option.splits prod.splits if_splits)

context redis_store
begin

lemma mcp_hit_effect:
  assumes "mcp_hit R k secs limit s = (r, s')"
  shows "touches {k} (view s) (view s')"
    and "tally k T a (view s) \<Longrightarrow> 0 < secs \<Longrightarrow> T \<le> rv_clock (view s) + 1000 * secs \<Longrightarrow>
         tally k T (if r = Inr True then a + 1 else a) (view s') \<and> (r = Inr True \<longrightarrow> a + 1 \<le> limit)"
proof -
  obtain r1 s1 where 1: "rd_incr R k s = (r1, s1)" by fastforce
  obtain r2 s2 where 2: "rd_expire R k secs s1 = (r2, s2)" by fastforce
  note t1 = incr_keeps(1)[OF 1] and t2 = expire_keeps(1)[OF 2]
  have t12: "touches {k} (view s) (view s2)" by (rule touches_trans[OF t1 t2]) auto
  show "touches {k} (view s) (view s')"
    using assms 1 2 t1 t12 by (auto simp: mcp_hit_def split: sum.splits if_splits)
  show "tally k T (if r = Inr True then a + 1 else a) (view s') \<and> (r = Inr True \<longrightarrow> a + 1 \<le> limit)"
    if t: "tally k T a (view s)" and pos: "0 < secs" "T \<le> rv_clock (view s) + 1000 * secs"
  proof (cases r1)
    case (Inl e)
    with assms 1 incr_keeps(2)[OF 1 t] show ?thesis by (auto simp: mcp_hit_def)
  next
    case (Inr n)
    have up: "tally k T (a + 1) (view s1)" "a + 1 \<le> n" using incr_keeps(3)[OF 1 Inr t] by simp_all
    have "T \<le> rv_clock (view s1) + 1000 * secs" using t1 pos(2) by (simp add: touches_def)
    note up2 = expire_keeps(2)[OF 2 up(1) pos(1) this]
    have "(s' = s1 \<or> s' = s2) \<and> (r = Inr True \<longrightarrow> n \<le> limit)"
      using assms 1 2 Inr by (auto simp: mcp_hit_def split: sum.splits if_splits)
    then show ?thesis
      using up up2 tally_less[OF up(1), of a] tally_less[OF up2, of a] by auto
  qed
qed

lemma mcp_consume_effect:
  assumes "mcp_consume R c u s = (r, s')"
  shows "touches (mcp_keys u) (view s) (view s')"
    and "tally (mcp_key ''burst'' u) T a (view s) \<Longrightarrow> 0 < tw_windowSeconds (tws_burst c) \<Longrightarrow>
         T \<le> rv_clock (view s) + 1000 * tw_windowSeconds (tws_burst c) \<Longrightarrow>
         tally (mcp_key ''burst'' u) T (if r = None then a + 1 else a) (view s') \<and>
         (r = None \<longrightarrow> a + 1 \<le> tw_max (tws_burst c))"
    and "tally (mcp_key ''minute'' u) T a (view s) \<Longrightarrow> 0 < tw_windowSeconds (tws_minute c) \<Longrightarrow>
         T \<le> rv_clock (view s) + 1000 * tw_windowSeconds (tws_minute c) \<Longrightarrow>
         tally (mcp_key ''minute'' u) T (if r = None then a + 1 else a) (view s') \<and>
         (r = None \<longrightarrow> a + 1 \<le> tw_max (tws_minute c))"
proof -
  let ?b = "mcp_key ''burst'' u" and ?m = "mcp_key ''minute'' u"
  obtain r1 s1 where 1: "mcp_hit R ?b (tw_windowSeconds (tws_burst c)) (tw_max (tws_burst c)) s = (r1, s1)"
    by fastforce
  obtain r2 s2 where 2: "mcp_hit R ?m (tw_windowSeconds (tws_minute c)) (tw_max (tws_minute c)) s1 = (r2, s2)"
    by fastforce
  have res: "(if r1 = Inr True then s' = s2 \<and> (r = None \<longleftrightarrow> r2 = Inr True) else s' = s1 \<and> r \<noteq> None)"
    using assms 1 2 by (auto simp: mcp_consume_def split: sum.splits bool.splits)
  note t1 = mcp_hit_effect(1)[OF 1] and t2 = mcp_hit_effect(1)[OF 2]
  have sub: "{?b} \<subseteq> mcp_keys u" "{?m} \<subseteq> mcp_keys u" by (auto simp: mcp_keys_def)
  show "touches (mcp_keys u) (view s) (view s')"
    using res touches_mono[OF t1 sub(1)] touches_trans[OF t1 t2 sub] by (auto split: if_splits)
  show "tally ?b T (if r = None then a + 1 else a) (view s') \<and> (r = None \<longrightarrow> a + 1 \<le> tw_max (tws_burst c))"
    if "tally ?b T a (view s)" "0 < tw_windowSeconds (tws_burst c)"
      "T \<le> rv_clock (view s) + 1000 * tw_windowSeconds (tws_burst c)"
  proof -
    note h = mcp_hit_effect(2)[OF 1 that]
    have keep: "tally ?b T x (view s2)" if "tally ?b T x (view s1)" for x
      using tally_touches[OF t2 _ that] mcp_keys_apart by simp
    show ?thesis using res h keep[of "a + 1"] tally_less[of ?b T "a + 1" _ a]
      by (auto split: if_splits)
  qed
  show "tally ?m T (if r = None then a + 1 else a) (view s') \<and> (r = None \<longrightarrow> a + 1 \<le> tw_max (tws_minute c))"
    if t: "tally ?m T a (view s)" and pos: "0 < tw_windowSeconds (tws_minute c)"
      "T \<le> rv_clock (view s) + 1000 * tw_windowSeconds (tws_minute c)"
  proof -
    have m1: "tally ?m T a (view s1)" using tally_touches[OF t1 _ t] mcp_keys_apart[symmetric] by simp
    have "T \<le> rv_clock (view s1) + 1000 * tw_windowSeconds (tws_minute c)"
      using t1 pos(2) by (simp add: touches_def)
    from mcp_hit_effect(2)[OF 2 m1 pos(1) this] res m1 show ?thesis by (auto split: if_splits)
  qed
qed

lemma mcp_clock:
  "mcp_consume R c u s1 = (r, s2) \<Longrightarrow> rv_clock (view s2) = rv_clock (view s1)"
  using mcp_consume_effect(1) by (fastforce simp: touches_def)

text \<open>The bound of one window, for either of the two keys.\<close>

lemma mcp_window:
  assumes run: "call_run view (mcp_keys u) (mcp_consume R c u) s rs s'"
    and key: "k \<in> mcp_keys u" and fresh: "rv_lookup (view s) k = None"
    and pos: "0 \<le> limit" and short: "rv_clock (view s') < rv_clock (view s) + len"
    and one: "\<And>s1 r s2 a. mcp_consume R c u s1 = (r, s2) \<Longrightarrow>
        tally k (rv_clock (view s) + len) a (view s1) \<Longrightarrow>
        rv_clock (view s) + len \<le> rv_clock (view s1) + len \<Longrightarrow>
        tally k (rv_clock (view s) + len) (if r = None then a + 1 else a) (view s2) \<and>
        (r = None \<longrightarrow> a + 1 \<le> limit)"
  shows "admissions rs \<le> limit"
proof -
  let ?T = "rv_clock (view s) + len"
  define I where "I rs v \<longleftrightarrow> tally k ?T (admissions rs) v \<and> admissions rs \<le> limit \<and>
      rv_clock (view s) \<le> rv_clock v" for rs v
  have step: "I (rs @ [r]) (view s2)" if "mcp_consume R c u s1 = (r, s2)" "I rs (view s1)" for rs s1 r s2
    using one[OF that(1), of "admissions rs"] that(2) mcp_clock[OF that(1)]
    by (auto simp: I_def mcp_admitted_def add.commute split: if_splits)
  have wait: "I rs v'" if "I rs v" "later (mcp_keys u) v v'" "rv_clock v' < ?T" for rs v v'
    using that tally_later[OF _ that(2) key that(3)] by (auto simp: I_def later_def)
  have start: "I [] (view s)" using fresh pos by (simp add: I_def tally_def)
  have "I rs (view s')"
    by (rule call_run_invariant[where I=I, OF run mcp_clock start step wait short])
  then show ?thesis by (simp add: I_def)
qed

text \<open>A counter that lost its expiry is never given one again: it only ever grows.\<close>

lemma mcp_hit_stuck:
  assumes "mcp_hit R k secs limit s = (r, s')" and "stuck k a (view s)" and "0 \<le> a"
  shows "stuck k (if r = Inr True then a + 1 else a) (view s') \<and> (r = Inr True \<longrightarrow> a + 2 \<le> limit)"
proof -
  obtain r1 s1 where 1: "rd_incr R k s = (r1, s1)" by fastforce
  note any = does_any[OF does_incr 1]
  show ?thesis
  proof (cases r1)
    case (Inl e)
    with assms(1) 1 have "r = Inl e" "s' = s1" by (simp_all add: mcp_hit_def)
    with any assms(2) stuck_incr[OF assms(2)] show ?thesis by auto
  next
    case (Inr n)
    with 1 does_command_ok[OF does_incr] have i: "sem_incrby 1 k (view s) = (Inr n, view s1)" by blast
    note up = stuck_incr[OF assms(2) i]
    then have "n \<noteq> 1" using assms(3) by simp
    with assms(1) 1 Inr have "r = Inr (n \<le> limit)" "s' = s1" by (simp_all add: mcp_hit_def)
    with up show ?thesis by auto
  qed
qed

lemma mcp_consume_stuck:
  assumes "mcp_consume R c u s = (r, s')" and "stuck (mcp_key ''burst'' u) a (view s)" and "0 \<le> a"
  shows "stuck (mcp_key ''burst'' u) (if r = None then a + 1 else a) (view s') \<and>
         (r = None \<longrightarrow> a + 2 \<le> tw_max (tws_burst c))"
proof -
  let ?b = "mcp_key ''burst'' u" and ?m = "mcp_key ''minute'' u"
  obtain r1 s1 where 1: "mcp_hit R ?b (tw_windowSeconds (tws_burst c)) (tw_max (tws_burst c)) s = (r1, s1)"
    by fastforce
  obtain r2 s2 where 2: "mcp_hit R ?m (tw_windowSeconds (tws_minute c)) (tw_max (tws_minute c)) s1 = (r2, s2)"
    by fastforce
  have res: "(if r1 = Inr True then s' = s2 else s' = s1 \<and> r \<noteq> None)"
    using assms(1) 1 2 by (auto simp: mcp_consume_def split: sum.splits bool.splits)
  note h = mcp_hit_stuck[OF 1 assms(2,3)]
  have "stuck ?b x (view s2)" if "stuck ?b x (view s1)" for x
    using that mcp_hit_effect(1)[OF 2] mcp_keys_apart by (simp add: stuck_def touches_def)
  with h res stuck_less[of ?b "a + 1" _ a] show ?thesis by (auto split: if_splits)
qed

lemma mcp_stuck_run:
  assumes run: "call_run view (mcp_keys u) (mcp_consume R c u) s rs s'"
    and "stuck (mcp_key ''burst'' u) 0 (view s)"
  shows "admissions rs \<le> max 0 (tw_max (tws_burst c) - 1) \<and>
         stuck (mcp_key ''burst'' u) (admissions rs) (view s')"
proof -
  let ?b = "mcp_key ''burst'' u"
  define I where "I rs v \<longleftrightarrow> stuck ?b (admissions rs) v \<and>
      admissions rs \<le> max 0 (tw_max (tws_burst c) - 1)" for rs v
  have step: "I (rs @ [r]) (view s2)" if "mcp_consume R c u s1 = (r, s2)" "I rs (view s1)" for rs s1 r s2
    using mcp_consume_stuck[OF that(1), of "admissions rs"] that(2)
    by (auto simp: I_def mcp_admitted_def add.commute split: if_splits)
  have wait: "I rs v'" if "I rs v" "later (mcp_keys u) v v'" for rs v v'
    using that stuck_later[of ?b "admissions rs" v "mcp_keys u" v'] by (auto simp: I_def mcp_keys_def)
  have start: "I [] (view s)" using assms(2) by (simp add: I_def)
  have "I rs (view s')"
    by (rule call_run_invariant[where I=I and T="rv_clock (view s') + 1", OF run mcp_clock start])
      (use step wait in auto)
  then show ?thesis by (simp add: I_def)
qed

text \<open>The credential rate limiter's counter.\<close>

lemma auth_increment_effect:
  assumes "auth_increment R k ttl s = (r, s')"
  shows "touches {rate_limit_prefix @ k} (view s) (view s')"
    and "r = Inl e \<Longrightarrow> e = rate_limiter_unavailable"
    and "r = Inr n \<Longrightarrow> rv_count (view s) (rate_limit_prefix @ k) = Some (n - 1) \<and>
         rv_count (view s') (rate_limit_prefix @ k) = Some n"
proof -
  let ?k = "rate_limit_prefix @ k"
  obtain r1 s1 where 1: "rd_incr R ?k s = (r1, s1)" by fastforce
  obtain r2 s2 where 2: "rd_expire R ?k ttl s1 = (r2, s2)" by fastforce
  note t1 = incr_keeps(1)[OF 1]
  have t2: "touches {?k} (view s) (view s2)" by (rule touches_trans[OF t1 expire_keeps(1)[OF 2]]) auto
  show "touches {?k} (view s) (view s')" and "r = Inl e \<Longrightarrow> e = rate_limiter_unavailable"
    using assms 1 2 t1 t2 by (auto simp: auth_increment_def Let_def split: sum.splits if_splits)
  show "rv_count (view s) ?k = Some (n - 1) \<and> rv_count (view s') ?k = Some n" if "r = Inr n"
  proof -
    have r1: "r1 = Inr n" and s': "s' = s1 \<or> (0 < ttl \<and> r2 = Inr () \<and> s' = s2)"
      using assms 1 2 that by (auto simp: auth_increment_def Let_def split: sum.splits if_splits)
    from 1 r1 does_command_ok[OF does_incr] have i: "sem_incrby 1 ?k (view s) = (Inr n, view s1)" by blast
    note c = rv_count_incrby(1,2)[OF i]
    show ?thesis
    proof (cases "s' = s1")
      case False
      with s' 2 have "rd_expire R ?k ttl s1 = (Inr (), s')" "0 < 1000 * ttl" by auto
      with does_command_ok[OF does_expire] have "sem_pexpire ?k (1000 * ttl) (view s1) = (Inr (), view s')"
        unfolding sem_expire_def by blast
      from rv_count_pexpire(1)[OF this \<open>0 < 1000 * ttl\<close>] c show ?thesis by simp
    qed (use c in simp)
  qed
qed

lemma cache_get_effect:
  assumes "cache_get R k s = (x, s')"
  shows "view s' = view s" and "x = None \<or> x = rv_text (view s) k"
proof -
  obtain r where "rd_get R k s = (r, s')" "x = (case r of Inr y \<Rightarrow> y | Inl _ \<Rightarrow> None)"
    using assms by (auto simp: cache_get_def split: prod.splits sum.splits)
  with does_any[OF does_get, of k s r s'] does_command_ok[OF does_get]
  show "view s' = view s" and "x = None \<or> x = rv_text (view s) k"
    by (cases r; force simp: sem_get_def)+
qed

end

section \<open>Properties\<close>

text \<open>C21.
  The Redis throttle storage enforces its limit over a window: from a moment at which no
  counter stands under the key, and for less than the window's length, at most \<open>limit\<close> calls
  are answered as not blocked, whatever faults the commands meet (an increment or an expiry
  that is lost or unanswered included), however long the pauses, and whatever other clients
  write elsewhere.
\<close>

theorem throttle_window_never_oversells:
  assumes "redis_store R view"
    and "call_run view (throttle_keys name k) (throttle_increment R k ttl limit blockDuration name) s rs s'"
    and "rv_lookup (view s) (hits_key name k) = None" and "0 < ttl" and "0 \<le> limit"
    and "rv_clock (view s') < rv_clock (view s) + ttl"
  shows "int (length (filter throttle_admitted rs)) \<le> limit"
  by (rule redis_store.throttle_window[OF assms])

definition quiet_redis :: mem_conn where
  "quiet_redis = \<lparr>mc_view = \<lparr>rv_clock = 1000, rv_data = Map.empty\<rparr>, mc_script = []\<rparr>"

lemma one_throttle_call:
  "call_run mc_view (throttle_keys ''burst'' ''default:user:u'')
     (throttle_increment mem_redis ''default:user:u'' 10000 1 10000 ''burst'') quiet_redis
     [fst (throttle_increment mem_redis ''default:user:u'' 10000 1 10000 ''burst'' quiet_redis)]
     (snd (throttle_increment mem_redis ''default:user:u'' 10000 1 10000 ''burst'' quiet_redis))"
  using run_call[OF run_start[of mc_view _ _ quiet_redis] prod.collapse[symmetric]] by simp

theorem throttle_window_never_oversells_witness:
  "int (length (filter throttle_admitted
     [fst (throttle_increment mem_redis ''default:user:u'' 10000 1 10000 ''burst'' quiet_redis)])) \<le> 1 \<and>
   throttle_admitted
     (fst (throttle_increment mem_redis ''default:user:u'' 10000 1 10000 ''burst'' quiet_redis))"
proof
  let ?r = "throttle_increment mem_redis ''default:user:u'' 10000 1 10000 ''burst'' quiet_redis"
  have eval: "throttle_admitted (fst ?r)" "rv_clock (mc_view (snd ?r)) = 1000"
    "rv_lookup (mc_view quiet_redis) (hits_key ''burst'' ''default:user:u'') = None"
    "rv_clock (mc_view quiet_redis) = 1000"
    by code_simp+
  show "int (length (filter throttle_admitted [fst ?r])) \<le> 1"
    by (rule throttle_window_never_oversells[OF mem.redis_store_axioms one_throttle_call])
      (simp_all only: eval)
  show "throttle_admitted (fst ?r)" by (rule eval(1))
qed

text \<open>C22.
  The throttle guard decides by the counter of its policy, tracker and window alone, and fails
  closed. It writes no key of another policy, tracker or window, so a block under the strict
  ceiling never denies a route under the default one. When the storage answers, so does the
  guard, by that answer: it admits when no block stands and the counter was below the effective
  limit, leaving a counter that will expire; and it answers the 429, never anything else, over
  the limit or under a standing block, with a \<open>Retry-After\<close> that covers what is left of the
  block. The 503 is left for the calls in which a command of Redis on one of the two keys
  failed.
\<close>

theorem throttle_guard_decides:
  assumes "throttler_base super" and "redis_store R view"
    and "handle_request super is_te R c meta trk props w = (r, w')"
    and "0 < tp_ttl (effective_props c meta props)" and "0 < tp_blockDuration (effective_props c meta props)"
    and "\<forall>e. is_te e \<longrightarrow> (\<forall>k ttl l b n s s'. throttle_increment R k ttl l b n s \<noteq> (Inl e, s'))"
    and "tp_name props \<in> {''burst'', ''minute''}" and "name' \<in> {''burst'', ''minute''}"
    and "(tp_name props, policy_for meta, trk) \<noteq> (name', policy_for meta', trk')"
  shows "(\<forall>k\<in>throttle_keys name' (generate_key meta' trk').
            rv_lookup (view (th_conn w')) k = rv_lookup (view (th_conn w)) k) \<and>
         (r = Inl rate_limiting_unavailable \<and>
            command_failed R (throttle_keys (tp_name props) (generate_key meta trk)) (th_conn w) (th_conn w') \<or>
          (\<exists>x. throttle_answer (tp_name props) (generate_key meta trk)
                 (tp_limit (effective_props c meta props)) x (view (th_conn w)) (view (th_conn w')) \<and>
               (if tr_isBlocked x then
                  r = Inl (snd (throttling_exception (tp_limit (effective_props c meta props)) x)) \<and>
                  (''Retry-After'', retry_after_of x) \<in> set (th_headers w')
                else r = Inr True)))"
proof -
  let ?p = "effective_props c meta props"
  obtain a s' where inc: "throttle_increment R (generate_key meta trk) (tp_ttl ?p) (tp_limit ?p)
      (tp_blockDuration ?p) (tp_name props) (th_conn w) = (a, s')" by fastforce
  note touch = redis_store.increment_touches[OF assms(2) inc]
  note cases = throttler_base.guard_cases[OF assms(1) inc assms(3)]
  have others: "\<forall>k\<in>throttle_keys name' (generate_key meta' trk').
      rv_lookup (view (th_conn w')) k = rv_lookup (view (th_conn w)) k"
    using touch cases throttle_keys_apart[OF assms(7-9)] by (auto simp: touches_def)
  show ?thesis
  proof (cases a)
    case (Inl e)
    with inc assms(6) have "\<not> is_te e" by metis
    with cases touch Inl others increment_error[OF inc[unfolded Inl] assms(4,5)] show ?thesis by auto
  next
    case (Inr x)
    from redis_store.increment_answer[OF assms(2) inc[unfolded Inr] assms(4,5)] cases Inr others
    show ?thesis by auto
  qed
qed

text \<open>A connection that answers everything fails no command, so there the 503 is not an answer.\<close>

lemma calm_client_answers:
  assumes "answered mem_redis K s s1" and "mc_script s = []"
    and "\<forall>k\<in>K. \<exists>n. rv_count (mc_view s) k = Some n"
  shows "mc_script s1 = [] \<and> (\<forall>k\<in>K. \<exists>n. rv_count (mc_view s1) k = Some n)"
  using assms
proof (induction rule: answered.induct)
  case (answered_pexpire s1 k ms u s2)
  then show ?case
    by (auto simp: mem_redis_def mem_call_def sem_pexpire_def rv_count_def rv_text_def Let_def
        split: option.splits if_splits)
qed (auto simp: mem_redis_def mem_call_def sem_pttl_def Let_def rv_count_incrby(2)
      split: prod.splits sum.splits)

lemma calm_client_never_fails:
  assumes "mc_script s = []" and "\<forall>k\<in>K. \<exists>n. rv_count (mc_view s) k = Some n"
  shows "\<not> command_failed mem_redis K s s'"
proof
  assume "command_failed mem_redis K s s'"
  then obtain s1 k e where run: "answered mem_redis K s s1" "k \<in> K" and bad:
      "rd_pttl mem_redis k s1 = (Inl e, s') \<or> rd_incr mem_redis k s1 = (Inl e, s') \<or>
       (\<exists>ms>0. rd_pexpire mem_redis k ms s1 = (Inl e, s')) \<or>
       (\<exists>x. \<exists>ms>0. rd_set_px mem_redis k x ms s1 = (Inl e, s'))"
    unfolding command_failed_def by blast
  from calm_client_answers[OF run(1) assms] run(2)
  obtain n where "mc_script s1 = []" "rv_count (mc_view s1) k = Some n" by blast
  with bad show False
    by (auto simp: mem_redis_def mem_call_def sem_pttl_def sem_incrby_def sem_pexpire_def sem_set_px_def Let_def)
qed

definition demo_throttle :: throttle_config where
  "demo_throttle =
     \<lparr>tc_burst = \<lparr>tw_windowSeconds = 10, tw_max = 20\<rparr>, tc_minute = \<lparr>tw_windowSeconds = 60, tw_max = 60\<rparr>,
      tc_strict = \<lparr>tws_burst = \<lparr>tw_windowSeconds = 5, tw_max = 0\<rparr>,
                   tws_minute = \<lparr>tw_windowSeconds = 60, tw_max = 10\<rparr>\<rparr>\<rparr>"

definition demo_props :: throttle_props where
  "demo_props = \<lparr>tp_limit = 20, tp_ttl = 10000, tp_blockDuration = 10000, tp_name = ''burst''\<rparr>"

definition demo_strict_call :: "(exn + bool) \<times> mem_conn throttle_world" where
  "demo_strict_call =
     handle_request plain_base (\<lambda>_. False) mem_redis demo_throttle (Some True, None) ''user:u'' demo_props
       \<lparr>th_conn = quiet_redis, th_headers = []\<rparr>"

theorem throttle_guard_decides_witness:
  "fst demo_strict_call = Inl (api_error_headers 429 RATE_LIMITED ''Too many requests. Try again later.''
     (JObj [(''limit'', JNum 0), (''remaining'', JNum 0)]) [(''Retry-After'', ''5'')]) \<and>
   rv_lookup (mc_view (th_conn (snd demo_strict_call)))
     (block_key ''burst'' (generate_key (None, None) ''user:u'')) = None"
proof
  show "fst demo_strict_call = Inl (api_error_headers 429 RATE_LIMITED ''Too many requests. Try again later.''
     (JObj [(''limit'', JNum 0), (''remaining'', JNum 0)]) [(''Retry-After'', ''5'')])"
    by code_simp
  have call: "handle_request plain_base (\<lambda>_. False) mem_redis demo_throttle (Some True, None) ''user:u''
      demo_props \<lparr>th_conn = quiet_redis, th_headers = []\<rparr> = (fst demo_strict_call, snd demo_strict_call)"
    by (simp add: demo_strict_call_def)
  have none: "rv_lookup (mc_view quiet_redis) k = None" for k
    by (simp add: rv_lookup_def quiet_redis_def)
  from throttle_guard_decides[OF plain.throttler_base_axioms mem.redis_store_axioms call,
      of "''burst''" "(None, None)" "''user:u''"]
  show "rv_lookup (mc_view (th_conn (snd demo_strict_call)))
     (block_key ''burst'' (generate_key (None, None) ''user:u'')) = None"
    by (simp add: none throttle_keys_def effective_props_def policy_for_def strict_props_def demo_props_def
        demo_throttle_def)
qed

text \<open>C23.
  The agent throttle is bounded by both of its windows at once: from a moment without a
  burst counter and for less than the burst window, at most \<open>burst.max\<close> invocations of the
  user are admitted, and likewise for the minute window, whatever commands fail.
\<close>

theorem mcp_throttle_bounded_by_both_windows:
  assumes "redis_store R view"
    and "call_run view (mcp_keys u) (mcp_consume R c u) s rs s'"
    and "0 < tw_windowSeconds (tws_burst c)" and "0 < tw_windowSeconds (tws_minute c)"
    and "0 \<le> tw_max (tws_burst c)" and "0 \<le> tw_max (tws_minute c)"
  shows "(rv_lookup (view s) (mcp_key ''burst'' u) = None \<and>
          rv_clock (view s') < rv_clock (view s) + 1000 * tw_windowSeconds (tws_burst c) \<longrightarrow>
            admissions rs \<le> tw_max (tws_burst c)) \<and>
         (rv_lookup (view s) (mcp_key ''minute'' u) = None \<and>
          rv_clock (view s') < rv_clock (view s) + 1000 * tw_windowSeconds (tws_minute c) \<longrightarrow>
            admissions rs \<le> tw_max (tws_minute c))"
proof -
  note one = redis_store.mcp_consume_effect[OF assms(1), of c u]
  note bound = redis_store.mcp_window[OF assms(1,2)]
  have burst: "admissions rs \<le> tw_max (tws_burst c)"
    if "rv_lookup (view s) (mcp_key ''burst'' u) = None"
      "rv_clock (view s') < rv_clock (view s) + 1000 * tw_windowSeconds (tws_burst c)"
    by (rule bound[OF _ that(1) assms(5) that(2)]) (use one(2) assms(3) in \<open>simp_all add: mcp_keys_def\<close>)
  have minute: "admissions rs \<le> tw_max (tws_minute c)"
    if "rv_lookup (view s) (mcp_key ''minute'' u) = None"
      "rv_clock (view s') < rv_clock (view s) + 1000 * tw_windowSeconds (tws_minute c)"
    by (rule bound[OF _ that(1) assms(6) that(2)]) (use one(3) assms(4) in \<open>simp_all add: mcp_keys_def\<close>)
  show ?thesis using burst minute by blast
qed

definition demo_mcp :: throttle_windows where
  "demo_mcp = \<lparr>tws_burst = \<lparr>tw_windowSeconds = 10, tw_max = 2\<rparr>,
               tws_minute = \<lparr>tw_windowSeconds = 60, tw_max = 5\<rparr>\<rparr>"

lemma mcp_run_once:
  "call_run mc_view (mcp_keys u) (mcp_consume mem_redis c u) s
     [fst (mcp_consume mem_redis c u s)] (snd (mcp_consume mem_redis c u s))"
  using run_call[OF run_start[of mc_view _ _ s] prod.collapse[symmetric]] by simp

theorem mcp_throttle_bounded_by_both_windows_witness:
  "admissions [fst (mcp_consume mem_redis demo_mcp ''u'' quiet_redis)] \<le> 2 \<and>
   fst (mcp_consume mem_redis demo_mcp ''u'' quiet_redis) = None"
proof
  let ?c = "mcp_consume mem_redis demo_mcp ''u'' quiet_redis"
  have eval: "fst ?c = None" "rv_clock (mc_view (snd ?c)) = 1000" "rv_clock (mc_view quiet_redis) = 1000"
    by code_simp+
  have none: "rv_lookup (mc_view quiet_redis) k = None" for k
    by (simp add: rv_lookup_def quiet_redis_def)
  have "admissions [fst ?c] \<le> tw_max (tws_burst demo_mcp)"
    using mcp_throttle_bounded_by_both_windows[OF mem.redis_store_axioms
        mcp_run_once[where u="''u''" and c=demo_mcp and s=quiet_redis]] none eval
    by (simp add: demo_mcp_def)
  then show "admissions [fst ?c] \<le> 2" by (simp add: demo_mcp_def)
  show "fst ?c = None" by (rule eval(1))
qed

text \<open>
  One lost \<open>EXPIRE\<close> denies an agent for good. When the first call of a window increments its
  burst counter and the expiry is refused, the call reports the store as unavailable, the
  counter stays without an expiry in every later state, however much time passes, and no more
  than \<open>burst.max - 1\<close> invocations of that user are ever admitted again.
\<close>

theorem mcp_lost_expiry_denies_for_good:
  assumes "redis_store R view" and "rv_lookup (view s0) (mcp_key ''burst'' u) = None"
    and "rd_incr R (mcp_key ''burst'' u) s0 = (Inr n, s1)"
    and "rd_expire R (mcp_key ''burst'' u) (tw_windowSeconds (tws_burst c)) s1 = (Inl e, s)"
    and "view s = view s1"
    and "call_run view (mcp_keys u) (mcp_consume R c u) s rs s'"
  shows "mcp_consume R c u s0 = (Some Store_unavailable, s) \<and>
         admissions rs \<le> max 0 (tw_max (tws_burst c) - 1) \<and>
         (\<exists>x. rv_lookup (view s') (mcp_key ''burst'' u) = Some (x, None))"
proof -
  let ?b = "mcp_key ''burst'' u"
  have i: "sem_incrby 1 ?b (view s0) = (Inr n, view s1)"
    using does_command_ok[OF redis_store.does_incr[OF assms(1)] assms(3)] .
  from stuck_fresh[OF assms(2) this] have n: "n = 1" and "stuck ?b 0 (view s)"
    using assms(5) by simp_all
  from redis_store.mcp_stuck_run[OF assms(1,6) this(2)]
  have "admissions rs \<le> max 0 (tw_max (tws_burst c) - 1)" "stuck ?b (admissions rs) (view s')" by simp_all
  moreover have "mcp_consume R c u s0 = (Some Store_unavailable, s)"
    using assms(3,4) n by (simp add: mcp_consume_def mcp_hit_def)
  ultimately show ?thesis by (auto simp: stuck_def split: option.splits)
qed

definition faulty_redis :: mem_conn where
  "faulty_redis = quiet_redis\<lparr>mc_script := [Cmd_ok, Cmd_refused]\<rparr>"

definition lost_expiry :: mem_conn where
  "lost_expiry = snd (mcp_consume mem_redis demo_mcp ''u'' faulty_redis)"

definition much_later :: mem_conn where
  "much_later = lost_expiry\<lparr>mc_view := (mc_view lost_expiry)\<lparr>rv_clock := 99999999\<rparr>\<rparr>"

theorem mcp_lost_expiry_denies_for_good_witness:
  "fst (mcp_consume mem_redis demo_mcp ''u'' faulty_redis) = Some Store_unavailable \<and>
   (\<exists>x. rv_lookup (mc_view much_later) (mcp_key ''burst'' ''u'') = Some (x, None))"
proof -
  let ?b = "mcp_key ''burst'' ''u''"
  let ?i = "rd_incr mem_redis ?b faulty_redis"
  let ?x = "rd_expire mem_redis ?b 10 (snd ?i)"
  have i: "?i = (Inr 1, snd ?i)"
    by (simp add: faulty_redis_def quiet_redis_def mem_redis_def mem_call_def sem_incrby_def
        rv_count_def rv_text_def rv_lookup_def)
  have x: "?x = (Inl connection_lost, snd ?x)" "mc_view (snd ?x) = mc_view (snd ?i)"
    by (simp_all add: faulty_redis_def quiet_redis_def mem_redis_def mem_call_def sem_incrby_def
        rv_count_def rv_text_def rv_lookup_def)
  have none: "rv_lookup (mc_view faulty_redis) ?b = None"
    by (simp add: rv_lookup_def faulty_redis_def quiet_redis_def)
  have x': "rd_expire mem_redis ?b (tw_windowSeconds (tws_burst demo_mcp)) (snd ?i) = (Inl connection_lost, snd ?x)"
    using x(1) by (simp add: demo_mcp_def)
  have claim: "mcp_consume mem_redis demo_mcp ''u'' faulty_redis = (Some Store_unavailable, snd ?x) \<and>
       admissions rs \<le> max 0 (tw_max (tws_burst demo_mcp) - 1) \<and>
       (\<exists>y. rv_lookup (mc_view s') ?b = Some (y, None))"
    if "call_run mc_view (mcp_keys ''u'') (mcp_consume mem_redis demo_mcp ''u'') (snd ?x) rs s'" for rs s'
    by (rule mcp_lost_expiry_denies_for_good[OF mem.redis_store_axioms none i x' x(2) that])
  have lost: "snd ?x = lost_expiry"
    using claim[OF run_start] by (simp add: lost_expiry_def)
  have waited: "later (mcp_keys ''u'') (mc_view lost_expiry) (mc_view much_later)"
    unfolding later_def much_later_def by (simp, code_simp)
  have run: "call_run mc_view (mcp_keys ''u'') (mcp_consume mem_redis demo_mcp ''u'') lost_expiry [] much_later"
    by (rule run_wait, rule run_start, rule waited)
  show ?thesis using claim[OF run[folded lost]] by simp
qed

end
