(* ===== verification/Json.thy ===== *)
theory Json
  imports Prelude
begin

text \<open>
  \<open>JSON.stringify\<close> and \<open>JSON.parse\<close> on the documents of the model: numbers are integers,
  a string is a list of characters below 256, and an object keeps its members in order.

  The reader takes the white space, the escapes and the literals of the standard. A number
  with a fraction or an exponent is outside the model and reads as an error; the program
  writes none. The round trip \<open>parse_json_to_json\<close> is what the components use.
\<close>

section \<open>Printing\<close>

definition quote_mark :: char where "quote_mark = CHR 0x22"
definition backslash :: char where "backslash = CHR 0x5C"

definition hex_digits :: string where "hex_digits = ''0123456789abcdef''"

text \<open>The escapes of a string, and the \<open>\u00XX\<close> form of the other control characters.\<close>

definition short_escapes :: "(char \<times> char) list" where
  "short_escapes =
     [(quote_mark, quote_mark), (backslash, backslash), (CHR 0x08, CHR ''b''),
      (CHR 0x0C, CHR ''f''), (CHR 0x0A, CHR ''n''), (CHR 0x0D, CHR ''r''), (CHR 0x09, CHR ''t'')]"

definition escape_char :: "char \<Rightarrow> string" where
  "escape_char c =
     (case map_of short_escapes c of
        Some e \<Rightarrow> [backslash, e]
      | None \<Rightarrow>
          (if of_char c < (32::nat)
           then backslash # CHR ''u'' # ''00'' @
                  [hex_digits ! (of_char c div 16), hex_digits ! (of_char c mod 16)]
           else [c]))"

definition json_string :: "string \<Rightarrow> string" where
  "json_string s = quote_mark # concat (map escape_char s) @ [quote_mark]"

fun to_json :: "json \<Rightarrow> string"
  and elems_json :: "json list \<Rightarrow> string"
  and members_json :: "(string \<times> json) list \<Rightarrow> string" where
  "to_json JNull = ''null''"
| "to_json (JBool b) = (if b then ''true'' else ''false'')"
| "to_json (JNum n) = show_int n"
| "to_json (JStr s) = json_string s"
| "to_json (JArr xs) = CHR ''['' # elems_json xs @ '']''"
| "to_json (JObj ms) = CHR ''{'' # members_json ms @ ''}''"
| "elems_json [] = []"
| "elems_json [x] = to_json x"
| "elems_json (x # y # xs) = to_json x @ CHR '','' # elems_json (y # xs)"
| "members_json [] = []"
| "members_json [(k, v)] = json_string k @ CHR '':'' # to_json v"
| "members_json ((k, v) # m # ms) =
     json_string k @ CHR '':'' # to_json v @ CHR '','' # members_json (m # ms)"

section \<open>Reading\<close>

definition skip_space :: "string \<Rightarrow> string" where
  "skip_space s = dropWhile (\<lambda>c. c \<in> {CHR '' '', CHR 0x09, CHR 0x0A, CHR 0x0D}) s"

definition hex_of :: "char \<Rightarrow> nat option" where
  "hex_of = map_of (zip (hex_digits @ ''ABCDEF'') ([0..<16] @ [10..<16]))"

text \<open>The rest of a string after its opening quote, with what follows the closing one.\<close>

fun read_string :: "string \<Rightarrow> (string \<times> string) option" where
  "read_string [] = None"
| "read_string (c # cs) =
     (if c = quote_mark then Some ([], cs)
      else if of_char c < (32::nat) then None
      else if c \<noteq> backslash then map_option (apfst (Cons c)) (read_string cs)
      else
        (case cs of
           [] \<Rightarrow> None
         | e # rest \<Rightarrow>
             (if e = CHR ''u'' then
                (case rest of
                   a # b # x # y # tail \<Rightarrow>
                     (case (hex_of a, hex_of b, hex_of x, hex_of y) of
                        (Some 0, Some 0, Some m, Some n) \<Rightarrow>
                          map_option (apfst (Cons (char_of (16 * m + n)))) (read_string tail)
                      | _ \<Rightarrow> None)
                 | _ \<Rightarrow> None)
              else if e = CHR ''/'' then map_option (apfst (Cons e)) (read_string rest)
              else
                (case map_of (map (\<lambda>(x, y). (y, x)) short_escapes) e of
                   Some d \<Rightarrow> map_option (apfst (Cons d)) (read_string rest)
                 | None \<Rightarrow> None))))"

definition number_char :: "char \<Rightarrow> bool" where
  "number_char c \<longleftrightarrow> c \<in> set ''0123456789-+.eE''"

definition read_number :: "string \<Rightarrow> (json \<times> string) option" where
  "read_number s =
     (let token = takeWhile number_char s
      in if token = ''-0'' then Some (JNum 0, dropWhile number_char s)
         else
           (case parse_int token of
              Some n \<Rightarrow> (if show_int n = token then Some (JNum n, dropWhile number_char s) else None)
            | None \<Rightarrow> None))"

fun strip :: "string \<Rightarrow> string \<Rightarrow> string option" where
  "strip [] s = Some s"
| "strip (p # ps) (c # cs) = (if p = c then strip ps cs else None)"
| "strip (p # ps) [] = None"

definition read_literal :: "string \<Rightarrow> (json \<times> string) option" where
  "read_literal s =
     (case strip ''null'' s of
        Some r \<Rightarrow> Some (JNull, r)
      | None \<Rightarrow>
          (case strip ''true'' s of
             Some r \<Rightarrow> Some (JBool True, r)
           | None \<Rightarrow> map_option (Pair (JBool False)) (strip ''false'' s)))"

text \<open>
  The reader by recursive descent; the first argument bounds the nesting and the number of
  elements, and twice the length of the text is enough of it.
\<close>

definition token :: "char \<Rightarrow> string \<Rightarrow> string option" where
  "token c s = strip [c] (skip_space s)"

fun read_value :: "nat \<Rightarrow> string \<Rightarrow> (json \<times> string) option"
  and read_elems :: "nat \<Rightarrow> string \<Rightarrow> (json list \<times> string) option"
  and read_members :: "nat \<Rightarrow> string \<Rightarrow> ((string \<times> json) list \<times> string) option" where
  "read_value 0 s = None"
| "read_value (Suc n) s =
     (case skip_space s of
        [] \<Rightarrow> None
      | c # cs \<Rightarrow>
          (if c = quote_mark then map_option (apfst JStr) (read_string cs)
           else if c = CHR ''['' then
             (case token CHR '']'' cs of
                Some rest \<Rightarrow> Some (JArr [], rest)
              | None \<Rightarrow> map_option (apfst JArr) (read_elems n cs))
           else if c = CHR ''{'' then
             (case token CHR ''}'' cs of
                Some rest \<Rightarrow> Some (JObj [], rest)
              | None \<Rightarrow> map_option (apfst JObj) (read_members n cs))
           else if number_char c \<and> c \<noteq> CHR ''e'' \<and> c \<noteq> CHR ''E'' then read_number (c # cs)
           else read_literal (c # cs)))"
| "read_elems 0 s = None"
| "read_elems (Suc n) s =
     (case read_value n s of
        None \<Rightarrow> None
      | Some (x, rest) \<Rightarrow>
          (case token CHR '']'' rest of
             Some r \<Rightarrow> Some ([x], r)
           | None \<Rightarrow>
               (case token CHR '','' rest of
                  Some r \<Rightarrow> map_option (apfst (Cons x)) (read_elems n r)
                | None \<Rightarrow> None)))"
| "read_members 0 s = None"
| "read_members (Suc n) s =
     (case Option.bind (token quote_mark s) read_string of
        None \<Rightarrow> None
      | Some (k, r1) \<Rightarrow>
          (case Option.bind (token CHR '':'' r1) (read_value n) of
             None \<Rightarrow> None
           | Some (v, rest) \<Rightarrow>
               (case token CHR ''}'' rest of
                  Some r \<Rightarrow> Some ([(k, v)], r)
                | None \<Rightarrow>
                    (case token CHR '','' rest of
                       Some r \<Rightarrow> map_option (apfst (Cons (k, v))) (read_members n r)
                     | None \<Rightarrow> None))))"

definition parse_json :: "string \<Rightarrow> json option" where
  "parse_json s =
     (case read_value (2 * length s) s of
        Some (j, rest) \<Rightarrow> (if skip_space rest = [] then Some j else None)
      | None \<Rightarrow> None)"

section \<open>Reading what was printed\<close>

lemma hex_of_digit: "m < 16 \<Longrightarrow> hex_of (hex_digits ! m) = Some m"
proof -
  have "\<forall>m\<in>set [0..<16]. hex_of (hex_digits ! m) = Some m"
    by (simp add: upt_conv_Cons hex_of_def hex_digits_def)
  then show "m < 16 \<Longrightarrow> hex_of (hex_digits ! m) = Some m" by simp
qed

lemma short_escape_reads:
  assumes "map_of short_escapes c = Some e"
  shows "e \<noteq> CHR ''u'' \<and> e \<noteq> CHR ''/'' \<and>
         map_of (map (\<lambda>(x, y). (y, x)) short_escapes) e = Some c"
  using assms by (auto simp: short_escapes_def quote_mark_def backslash_def split: if_splits)

lemma backslash_reads: "\<not> of_char backslash < (32::nat)" "backslash \<noteq> quote_mark"
  by (simp_all add: backslash_def quote_mark_def)

lemma read_string_escape:
  "read_string (escape_char c @ s) = map_option (apfst (Cons c)) (read_string s)"
proof (cases "map_of short_escapes c")
  case (Some e)
  with short_escape_reads[OF Some] show ?thesis
    by (simp add: escape_char_def backslash_reads)
next
  case None
  then have c: "c \<noteq> quote_mark" "c \<noteq> backslash" by (auto simp: short_escapes_def split: if_splits)
  show ?thesis
  proof (cases "of_char c < (32::nat)")
    case True
    have "char_of (16 * (of_char c div 16) + of_char c mod 16 :: nat) = c" by simp
    moreover have "hex_of CHR ''0'' = Some 0" using hex_of_digit[of 0] by (simp add: hex_digits_def)
    ultimately show ?thesis
      using None True hex_of_digit[of "of_char c div 16"] hex_of_digit[of "of_char c mod 16"]
      by (simp add: escape_char_def backslash_reads)
  next
    case False
    with None c show ?thesis by (simp add: escape_char_def)
  qed
qed

lemma read_string_body:
  "read_string (concat (map escape_char s) @ quote_mark # r) = Some (s, r)"
  by (induction s) (simp_all add: read_string_escape)

text \<open>The characters a value can start with, and those a number goes on with.\<close>

definition starts_value :: "char \<Rightarrow> bool" where
  "starts_value c \<longleftrightarrow>
     c \<notin> {CHR '' '', CHR 0x09, CHR 0x0A, CHR 0x0D, CHR '']'', CHR ''}''}"

definition number_head :: "char \<Rightarrow> bool" where
  "number_head c \<longleftrightarrow> starts_value c \<and> number_char c \<and> c \<noteq> CHR ''e'' \<and> c \<noteq> CHR ''E'' \<and>
     c \<noteq> quote_mark \<and> c \<noteq> CHR ''['' \<and> c \<noteq> CHR ''{''"

lemma digit_head: "d < 10 \<Longrightarrow> number_head (''0123456789'' ! d)"
  by (drule less_10_cases)
    (elim disjE; simp add: number_head_def starts_value_def number_char_def quote_mark_def)

lemma show_digits_heads: "0 \<le> n \<Longrightarrow> \<forall>c\<in>set (show_digits n). number_head c"
proof (induction n rule: show_digits.induct)
  case (1 n)
  show ?case
  proof (cases "n < 10")
    case True
    with 1(2) show ?thesis
      by (subst show_digits.simps) (simp add: digit_head nat_less_iff del: nth_Cons_numeral)
  next
    case False
    with 1 have "\<forall>c\<in>set (show_digits (n div 10)). number_head c" by simp
    with False show ?thesis
      by (subst show_digits.simps) (simp add: digit_head nat_less_iff del: nth_Cons_numeral)
  qed
qed

lemma show_int_heads: "\<forall>c\<in>set (show_int n). number_head c"
proof -
  have "number_head CHR ''-''"
    by (simp add: number_head_def starts_value_def number_char_def quote_mark_def)
  then show ?thesis
    using show_digits_heads[of n] show_digits_heads[of "- n"] by (simp add: show_int_def)
qed

lemma show_int_head: "\<exists>c cs. show_int n = c # cs \<and> number_head c"
  using show_int_heads[of n] by (cases "show_int n") auto

definition stops :: "string \<Rightarrow> bool" where
  "stops r \<longleftrightarrow> (case r of [] \<Rightarrow> True | c # _ \<Rightarrow> \<not> number_char c)"

lemma stops_rest [simp]:
  "stops (CHR '']'' # r)" "stops (CHR '','' # r)" "stops (CHR ''}'' # r)" "stops []"
  by (simp_all add: stops_def number_char_def)

lemma show_int_not_minus_zero: "show_int n \<noteq> ''-0''"
proof
  assume e: "show_int n = ''-0''"
  then have "parse_int (show_int n) = Some 0" by (simp add: parse_nat_def digit_of_def)
  then have "n = 0" by simp
  with e show False by (simp add: show_int_def show_digits.simps)
qed

lemma read_number_show:
  assumes "stops r"
  shows "read_number (show_int n @ r) = Some (JNum n, r)"
proof -
  have all: "\<forall>c\<in>set (show_int n). number_char c"
    using show_int_heads[of n] by (auto simp: number_head_def)
  have "takeWhile number_char (show_int n @ r) = show_int n"
    and "dropWhile number_char (show_int n @ r) = r"
    using all assms by (cases r; simp add: stops_def)+
  with show_int_not_minus_zero show ?thesis by (simp add: read_number_def)
qed

lemma to_json_head: "\<exists>c cs. to_json j = c # cs \<and> starts_value c"
proof (cases j)
  case (JNum n)
  with show_int_head[of n] show ?thesis by (auto simp: number_head_def)
qed (simp_all add: json_string_def quote_mark_def starts_value_def)

lemma skip_starts: "starts_value c \<Longrightarrow> skip_space (c # cs) = c # cs"
  by (simp add: skip_space_def starts_value_def)

lemma read_value_number:
  assumes "stops r"
  shows "read_value (Suc n) (show_int k @ r) = Some (JNum k, r)"
proof -
  obtain c cs where s: "show_int k = c # cs" "number_head c" using show_int_head by blast
  then have c: "starts_value c" "number_char c" "c \<noteq> CHR ''e''" "c \<noteq> CHR ''E''"
    "c \<noteq> quote_mark" "c \<noteq> CHR ''[''" "c \<noteq> CHR ''{''" by (simp_all add: number_head_def)
  from read_number_show[OF assms, of k] s c show ?thesis by (simp add: skip_starts)
qed

lemma elems_json_head: "xs \<noteq> [] \<Longrightarrow> \<exists>c cs. elems_json xs = c # cs \<and> starts_value c"
proof (induction xs rule: induct_list012)
  case (2 x)
  then show ?case using to_json_head[of x] by simp
next
  case (3 x y zs)
  then show ?case using to_json_head[of x] by auto
qed simp

lemma members_json_head: "ms \<noteq> [] \<Longrightarrow> \<exists>cs. members_json ms = quote_mark # cs"
  by (induction ms rule: induct_list012) (auto simp: json_string_def)

lemma to_json_nonempty: "0 < length (to_json j)"
  using to_json_head[of j] by auto

lemma token_hit [simp]: "starts_value c \<or> c \<in> {CHR '']'', CHR ''}''} \<Longrightarrow> token c (c # r) = Some r"
  by (auto simp: token_def skip_space_def starts_value_def)

lemma token_miss: "starts_value c \<Longrightarrow> c \<noteq> d \<Longrightarrow> token d (c # r) = None"
  by (simp add: token_def skip_starts)

lemma starts_marks [simp]:
  "starts_value CHR '',''" "starts_value CHR '':''" "starts_value quote_mark"
  "starts_value CHR ''[''" "starts_value CHR ''{''" "starts_value CHR ''n''"
  "starts_value CHR ''t''" "starts_value CHR ''f''"
  by (simp_all add: starts_value_def quote_mark_def)

lemma token_marks [simp]:
  "token CHR '']'' (CHR '','' # r) = None" "token CHR ''}'' (CHR '','' # r) = None"
  by (simp_all add: token_miss)

lemma read_literals:
  "read_value (Suc n) (''null'' @ r) = Some (JNull, r)"
  "read_value (Suc n) (''true'' @ r) = Some (JBool True, r)"
  "read_value (Suc n) (''false'' @ r) = Some (JBool False, r)"
  by (simp_all add: skip_starts read_literal_def quote_mark_def number_char_def)

lemma read_value_string: "read_value (Suc n) (json_string s @ r) = Some (JStr s, r)"
  by (simp add: json_string_def skip_starts read_string_body)

lemma read_key: "Option.bind (token quote_mark (json_string k @ r)) read_string = Some (k, r)"
  by (simp add: json_string_def read_string_body)

lemma starts_not_bracket: "starts_value c \<Longrightarrow> c \<noteq> CHR '']'' \<and> c \<noteq> CHR ''}''"
  by (simp add: starts_value_def)

lemma read_value_array:
  assumes "xs \<noteq> []" and "read_elems n (elems_json xs @ CHR '']'' # r) = Some (xs, r)"
  shows "read_value (Suc n) (to_json (JArr xs) @ r) = Some (JArr xs, r)"
proof -
  obtain c cs where "elems_json xs = c # cs" "starts_value c"
    using elems_json_head[OF assms(1)] by blast
  with assms(2) starts_not_bracket show ?thesis
    by (simp add: skip_starts token_miss quote_mark_def)
qed

lemma read_value_object:
  assumes "ms \<noteq> []" and "read_members n (members_json ms @ CHR ''}'' # r) = Some (ms, r)"
  shows "read_value (Suc n) (to_json (JObj ms) @ r) = Some (JObj ms, r)"
proof -
  obtain cs where "members_json ms = quote_mark # cs" using members_json_head[OF assms(1)] by blast
  with assms(2) show ?thesis
    by (simp add: skip_starts token_miss) (simp add: quote_mark_def token_miss starts_value_def)
qed

lemma read_printed:
  "2 * length (to_json j) \<le> n \<Longrightarrow> stops r \<Longrightarrow> read_value n (to_json j @ r) = Some (j, r)"
  "xs \<noteq> [] \<Longrightarrow> 2 * length (elems_json xs) + 1 \<le> n \<Longrightarrow>
     read_elems n (elems_json xs @ CHR '']'' # r) = Some (xs, r)"
  "ms \<noteq> [] \<Longrightarrow> 2 * length (members_json ms) + 1 \<le> n \<Longrightarrow>
     read_members n (members_json ms @ CHR ''}'' # r) = Some (ms, r)"
proof (induction j and xs and ms arbitrary: n r and n r and n r
    rule: to_json_elems_json_members_json.induct)
  case 1
  then obtain m where "n = Suc m" by (cases n) auto
  then show ?case using read_literals(1)[of m r] by simp
next
  case (2 b)
  then obtain m where "n = Suc m" by (cases n) (auto split: if_splits)
  then show ?case using read_literals(2,3)[of m r] by simp
next
  case (3 k)
  then obtain m where "n = Suc m" using to_json_nonempty[of "JNum k"] by (cases n) auto
  with 3 show ?case by (simp add: read_value_number del: read_value.simps)
next
  case (4 s)
  then obtain m where "n = Suc m" using to_json_nonempty[of "JStr s"] by (cases n) auto
  then show ?case by (simp add: read_value_string del: read_value.simps)
next
  case (5 xs)
  then obtain m where n: "n = Suc m" by (cases n) auto
  show ?case
  proof (cases "xs = []")
    case True
    with n show ?thesis by (simp add: skip_starts) (simp add: quote_mark_def)
  next
    case False
    with 5 n have "read_elems m (elems_json xs @ CHR '']'' # r) = Some (xs, r)" by simp
    with False show ?thesis unfolding n by (rule read_value_array)
  qed
next
  case (6 ms)
  then obtain m where n: "n = Suc m" by (cases n) auto
  show ?case
  proof (cases "ms = []")
    case True
    with n show ?thesis by (simp add: skip_starts) (simp add: quote_mark_def)
  next
    case False
    with 6 n have "read_members m (members_json ms @ CHR ''}'' # r) = Some (ms, r)" by simp
    with False show ?thesis unfolding n by (rule read_value_object)
  qed
next
  case 7
  then show ?case by simp
next
  case (8 x)
  then obtain m where "n = Suc m" by (cases n) auto
  with 8 show ?case by simp
next
  case (9 x y xs)
  then obtain m where "n = Suc m" by (cases n) auto
  with 9 to_json_nonempty[of x] show ?case by simp
next
  case 10
  then show ?case by simp
next
  case (11 k v)
  then obtain m where "n = Suc m" by (cases n) auto
  with 11 show ?case by (simp add: read_key)
next
  case (12 k v m' ms)
  then obtain m where "n = Suc m" by (cases n) auto
  with 12 to_json_nonempty[of v] show ?case by (simp add: read_key)
qed

text \<open>\<open>JSON.parse(JSON.stringify(j))\<close>.\<close>

lemma parse_json_to_json [simp]: "parse_json (to_json j) = Some j"
  using read_printed(1)[of j "2 * length (to_json j)" "[]"]
  by (simp add: parse_json_def skip_space_def)

end
