(* ===== verification/Lockout.thy ===== *)
theory Lockout
  imports Json Throttling CounterRuns
begin

text \<open>
  Per-account lockout (\<open>src/modules/auth/account-lockout.service.ts\<close>): one JSON record per
  account in Redis, under the digest of the normalised identifier.

  The digest is a function given in the environment (\<open>node:crypto\<close>); the clock gives the value
  of each \<open>Date.now()\<close> in turn, and need not agree with the clock of the Redis server. A
  number of the record that is not an integer is outside the model (\<open>Json\<close>).
\<close>

record lockout_decision =
  ld_locked :: bool
  ld_retryAfterSeconds :: int

record lockout_record =
  lr_failures :: int
  lr_lockedUntil :: int

definition empty_record :: lockout_record where
  "empty_record = \<lparr>lr_failures = 0, lr_lockedUntil = 0\<rparr>"

record lockout_config =
  lc_threshold :: int
  lc_baseDelaySeconds :: int
  lc_maxDelaySeconds :: int
  lc_windowSeconds :: int

record 's lockout_env =
  le_redis :: "'s redis"
  le_config :: lockout_config
  le_digest :: "string \<Rightarrow> string"
  le_clock :: "nat \<Rightarrow> int"

record 's lockout_world =
  lw_conn :: 's
  lw_reads :: nat

definition date_now :: "'s lockout_env \<Rightarrow> 's lockout_world \<Rightarrow> int \<times> 's lockout_world" where
  "date_now env w = (le_clock env (lw_reads w), w\<lparr>lw_reads := Suc (lw_reads w)\<rparr>)"

definition lockout_key :: "'s lockout_env \<Rightarrow> string \<Rightarrow> string" where
  "lockout_key env identifier = ''auth:lockout:'' @ le_digest env (map lower_char (trim identifier))"

text \<open>\<open>JSON.parse\<close> keeps the last of two members of one name.\<close>

definition member :: "string \<Rightarrow> json \<Rightarrow> json option" where
  "member k j = (case j of JObj ms \<Rightarrow> map_of (rev ms) k | _ \<Rightarrow> None)"

definition decode_record :: "string option \<Rightarrow> lockout_record" where
  "decode_record raw =
     (case raw of
        None \<Rightarrow> empty_record
      | Some x \<Rightarrow>
          (case parse_json x of
             None \<Rightarrow> empty_record
           | Some parsed \<Rightarrow>
               (case member ''failures'' parsed of
                  Some (JNum f) \<Rightarrow>
                    \<lparr>lr_failures = f,
                     lr_lockedUntil = (case member ''lockedUntil'' parsed of Some (JNum t) \<Rightarrow> t | _ \<Rightarrow> 0)\<rparr>
                | _ \<Rightarrow> empty_record)))"

definition encode_record :: "lockout_record \<Rightarrow> string" where
  "encode_record r =
     to_json (JObj [(''failures'', JNum (lr_failures r)), (''lockedUntil'', JNum (lr_lockedUntil r))])"

definition read_record ::
  "'s lockout_env \<Rightarrow> string \<Rightarrow> 's lockout_world \<Rightarrow> (exn + lockout_record) \<times> 's lockout_world" where
  "read_record env identifier w =
     (case rd_get (le_redis env) (lockout_key env identifier) (lw_conn w) of
        (Inl e, c) \<Rightarrow> (Inl e, w\<lparr>lw_conn := c\<rparr>)
      | (Inr raw, c) \<Rightarrow> (Inr (decode_record raw), w\<lparr>lw_conn := c\<rparr>))"

definition delay_for :: "lockout_config \<Rightarrow> int \<Rightarrow> int" where
  "delay_for c failures =
     min (lc_baseDelaySeconds c * 2 ^ nat (failures - lc_threshold c)) (lc_maxDelaySeconds c)"

definition decide ::
  "'s lockout_env \<Rightarrow> lockout_record \<Rightarrow> 's lockout_world \<Rightarrow> lockout_decision \<times> 's lockout_world" where
  "decide env r w =
     (case date_now env w of
        (now, w') \<Rightarrow>
          (let remainingMs = lr_lockedUntil r - now
           in (if remainingMs \<le> 0 then \<lparr>ld_locked = False, ld_retryAfterSeconds = 0\<rparr>
               else \<lparr>ld_locked = True, ld_retryAfterSeconds = ceil_seconds remainingMs\<rparr>, w')))"

definition lockout_check ::
  "'s lockout_env \<Rightarrow> string \<Rightarrow> 's lockout_world \<Rightarrow> (exn + lockout_decision) \<times> 's lockout_world" where
  "lockout_check env identifier w =
     (case read_record env identifier w of
        (Inl e, w1) \<Rightarrow> (Inl e, w1)
      | (Inr r, w1) \<Rightarrow> (case decide env r w1 of (d, w2) \<Rightarrow> (Inr d, w2)))"

text \<open>The lock that the failure stamps: the clock is read only when there is a delay.\<close>

definition stamp_lock ::
  "'s lockout_env \<Rightarrow> int \<Rightarrow> 's lockout_world \<Rightarrow> int \<times> 's lockout_world" where
  "stamp_lock env delay w =
     (if delay = 0 then (0, w)
      else (case date_now env w of (now, w') \<Rightarrow> (now + delay * 1000, w')))"

definition record_failure ::
  "'s lockout_env \<Rightarrow> string \<Rightarrow> 's lockout_world \<Rightarrow> (exn + lockout_decision) \<times> 's lockout_world" where
  "record_failure env identifier w =
     (case read_record env identifier w of
        (Inl e, w1) \<Rightarrow> (Inl e, w1)
      | (Inr current, w1) \<Rightarrow>
          (let failures = lr_failures current + 1;
               delay = (if failures < lc_threshold (le_config env) then 0
                        else delay_for (le_config env) failures)
           in case stamp_lock env delay w1 of
                (until, w2) \<Rightarrow>
                  (let r = \<lparr>lr_failures = failures, lr_lockedUntil = until\<rparr>;
                       ttlSeconds = max (lc_windowSeconds (le_config env)) delay
                   in case rd_set_ex (le_redis env) (lockout_key env identifier) (encode_record r)
                             ttlSeconds (lw_conn w2) of
                        (Inl e, c) \<Rightarrow> (Inl e, w2\<lparr>lw_conn := c\<rparr>)
                      | (Inr _, c) \<Rightarrow>
                          (case decide env r (w2\<lparr>lw_conn := c\<rparr>) of (d, w3) \<Rightarrow> (Inr d, w3)))))"

text \<open>A failed reset is only logged.\<close>

definition lockout_clear :: "'s lockout_env \<Rightarrow> string \<Rightarrow> 's lockout_world \<Rightarrow> 's lockout_world" where
  "lockout_clear env identifier w =
     w\<lparr>lw_conn := snd (rd_del (le_redis env) (lockout_key env identifier) (lw_conn w))\<rparr>"

section \<open>Lemmas\<close>

lemma decode_encode [simp]: "decode_record (Some (encode_record r)) = r"
  by (simp add: decode_record_def encode_record_def member_def del: to_json.simps)

lemma delay_bounds:
  assumes "0 < lc_baseDelaySeconds c" and "lc_baseDelaySeconds c \<le> lc_maxDelaySeconds c"
  shows "lc_baseDelaySeconds c \<le> delay_for c f" and "delay_for c f \<le> lc_maxDelaySeconds c"
proof -
  have "1 \<le> (2::int) ^ n" for n by simp
  then have "lc_baseDelaySeconds c * 1 \<le> lc_baseDelaySeconds c * 2 ^ nat (f - lc_threshold c)"
    using assms(1) by (intro mult_left_mono) auto
  with assms show "lc_baseDelaySeconds c \<le> delay_for c f" by (simp add: delay_for_def)
qed (simp add: delay_for_def)

lemma delay_at_threshold:
  "lc_baseDelaySeconds c \<le> lc_maxDelaySeconds c \<Longrightarrow> delay_for c (lc_threshold c) = lc_baseDelaySeconds c"
  by (simp add: delay_for_def)

lemma delay_doubles:
  assumes "lc_threshold c \<le> f" and "0 \<le> lc_maxDelaySeconds c"
  shows "delay_for c (f + 1) = min (2 * delay_for c f) (lc_maxDelaySeconds c)"
proof -
  have "nat (f + 1 - lc_threshold c) = Suc (nat (f - lc_threshold c))" using assms(1) by simp
  with assms(2) show ?thesis by (simp add: delay_for_def)
qed

lemma decide_wait:
  assumes "decide env r w = (d, w')"
  shows "ld_locked d \<longleftrightarrow> le_clock env (lw_reads w) < lr_lockedUntil r"
    and "lr_lockedUntil r \<le> le_clock env (lw_reads w) + 1000 * ld_retryAfterSeconds d"
    and "ld_locked d \<Longrightarrow> le_clock env (lw_reads w) + 1000 * ld_retryAfterSeconds d < lr_lockedUntil r + 1000"
    and "lw_conn w' = lw_conn w"
proof -
  define ms where "ms = lr_lockedUntil r - le_clock env (lw_reads w)"
  have d: "d = (if ms \<le> 0 then \<lparr>ld_locked = False, ld_retryAfterSeconds = 0\<rparr>
                else \<lparr>ld_locked = True, ld_retryAfterSeconds = ceil_seconds ms\<rparr>)"
    using assms by (simp add: decide_def date_now_def Let_def ms_def split: if_splits)
  show "ld_locked d \<longleftrightarrow> le_clock env (lw_reads w) < lr_lockedUntil r"
    unfolding d using ms_def by simp
  show "lr_lockedUntil r \<le> le_clock env (lw_reads w) + 1000 * ld_retryAfterSeconds d"
    using ceil_seconds_bounds(1)[of ms] ms_def unfolding d by simp
  show "ld_locked d \<Longrightarrow> le_clock env (lw_reads w) + 1000 * ld_retryAfterSeconds d < lr_lockedUntil r + 1000"
    using ceil_seconds_bounds(2)[of ms] ms_def unfolding d by (simp split: if_splits)
  show "lw_conn w' = lw_conn w" using assms by (auto simp: decide_def date_now_def Let_def)
qed

definition lock_delay :: "lockout_config \<Rightarrow> int \<Rightarrow> int" where
  "lock_delay c f = (if f < lc_threshold c then 0 else delay_for c f)"

definition stored_record :: "'s lockout_env \<Rightarrow> string \<Rightarrow> rview \<Rightarrow> lockout_record" where
  "stored_record env identifier v = decode_record (rv_text v (lockout_key env identifier))"

context redis_store
begin

lemma read_record_effect:
  assumes "read_record env identifier w = (r, w')" and "le_redis env = R"
  shows "view (lw_conn w') = view (lw_conn w)" and "lw_reads w' = lw_reads w"
    and "r = Inr x \<Longrightarrow> x = stored_record env identifier (view (lw_conn w))"
    and "r = Inl e \<Longrightarrow> api_code e = None"
proof -
  obtain a c where g: "rd_get R (lockout_key env identifier) (lw_conn w) = (a, c)" by fastforce
  have w': "w' = w\<lparr>lw_conn := c\<rparr>" and r: "r = (case a of Inl e \<Rightarrow> Inl e | Inr raw \<Rightarrow> Inr (decode_record raw))"
    using assms g by (auto simp: read_record_def split: sum.splits)
  have v: "view c = view (lw_conn w)" using does_any[OF does_get g] by (auto simp: sem_get_def)
  then show "view (lw_conn w') = view (lw_conn w)" "lw_reads w' = lw_reads w" using w' by simp_all
  show "x = stored_record env identifier (view (lw_conn w))"
    if x: "r = Inr x"
  proof -
    obtain raw where raw: "a = Inr raw" "x = decode_record raw" using r x by (cases a) auto
    with does_command_ok[OF does_get] g
    have "sem_get (lockout_key env identifier) (view (lw_conn w)) = (Inr raw, view c)" by blast
    then have "rv_text (view (lw_conn w)) (lockout_key env identifier) = raw"
      unfolding sem_get_def by (elim Pair_inject) (rule sum.inject(2)[THEN iffD1])
    with raw show ?thesis by (simp add: stored_record_def)
  qed
  show "r = Inl e \<Longrightarrow> api_code e = None"
    using r does_command_fail(1)[OF does_get] g by (auto split: sum.splits)
qed

lemma lockout_check_effect:
  assumes "lockout_check env identifier w = (Inr d, w')" and "le_redis env = R"
  shows "view (lw_conn w') = view (lw_conn w)"
    and "ld_locked d \<longleftrightarrow> le_clock env (lw_reads w) < lr_lockedUntil (stored_record env identifier (view (lw_conn w)))"
    and "lr_lockedUntil (stored_record env identifier (view (lw_conn w)))
           \<le> le_clock env (lw_reads w) + 1000 * ld_retryAfterSeconds d"
proof -
  obtain r w1 where 1: "read_record env identifier w = (Inr r, w1)" and 2: "decide env r w1 = (d, w')"
    using assms(1) by (auto simp: lockout_check_def split: prod.splits sum.splits)
  note e = read_record_effect[OF 1 assms(2)]
  from e decide_wait[OF 2]
  show "view (lw_conn w') = view (lw_conn w)"
    and "ld_locked d \<longleftrightarrow> le_clock env (lw_reads w) < lr_lockedUntil (stored_record env identifier (view (lw_conn w)))"
    and "lr_lockedUntil (stored_record env identifier (view (lw_conn w)))
           \<le> le_clock env (lw_reads w) + 1000 * ld_retryAfterSeconds d"
    by simp_all
qed

lemma set_ex_live:
  assumes "rd_set_ex R k x secs s = (Inr (), s')" and "0 < secs"
  shows "rv_lookup (view s') k = Some (x, Some (rv_clock (view s') + 1000 * secs))"
    and "touches {k} (view s) (view s')"
proof -
  have "sem_set_px k x (1000 * secs) (view s) = (Inr (), view s')"
    using does_command_ok[OF does_set_ex assms(1)] unfolding sem_set_ex_def .
  then have "view s' = rv_put k x (Some (rv_clock (view s) + 1000 * secs)) (view s)"
    using assms(2) by (simp add: sem_set_px_def split: if_splits)
  with assms(2) show "rv_lookup (view s') k = Some (x, Some (rv_clock (view s') + 1000 * secs))"
    and "touches {k} (view s) (view s')"
    by (simp_all add: touches_def)
qed

lemma record_failure_effect:
  assumes "record_failure env identifier w = (Inr d, w')" and "le_redis env = R"
    and "0 < lc_windowSeconds (le_config env)"
  defines "f \<equiv> lr_failures (stored_record env identifier (view (lw_conn w))) + 1"
  defines "delay \<equiv> lock_delay (le_config env) f"
  defines "r \<equiv> \<lparr>lr_failures = f,
       lr_lockedUntil = (if delay = 0 then 0 else le_clock env (lw_reads w) + 1000 * delay)\<rparr>"
  shows "rv_lookup (view (lw_conn w')) (lockout_key env identifier) =
           Some (encode_record r, Some (rv_clock (view (lw_conn w')) +
             1000 * max (lc_windowSeconds (le_config env)) delay)) \<and>
         touches {lockout_key env identifier} (view (lw_conn w)) (view (lw_conn w')) \<and>
         (\<exists>now. now = le_clock env (if delay = 0 then lw_reads w else Suc (lw_reads w)) \<and>
            (ld_locked d \<longleftrightarrow> now < lr_lockedUntil r) \<and>
            lr_lockedUntil r \<le> now + 1000 * ld_retryAfterSeconds d)"
proof -
  let ?k = "lockout_key env identifier"
  obtain current w1 where 1: "read_record env identifier w = (Inr current, w1)"
    using assms(1) by (auto simp: record_failure_def split: prod.splits sum.splits)
  note read = read_record_effect[OF 1 assms(2)]
  have cur: "lr_failures current + 1 = f" using read(3) by (simp add: f_def)
  obtain until w2 where 2: "stamp_lock env delay w1 = (until, w2)" by fastforce
  have until: "\<lparr>lr_failures = f, lr_lockedUntil = until\<rparr> = r" and w2: "lw_conn w2 = lw_conn w1"
    "lw_reads w2 = (if delay = 0 then lw_reads w else Suc (lw_reads w))"
    using 2 read(2) by (auto simp: stamp_lock_def date_now_def r_def split: if_splits)
  obtain c where 3: "rd_set_ex R ?k (encode_record r) (max (lc_windowSeconds (le_config env)) delay)
      (lw_conn w1) = (Inr (), c)" and 4: "decide env r (w2\<lparr>lw_conn := c\<rparr>) = (d, w')"
    using assms(1) 1 2 cur until w2 assms(2)
    by (auto simp: record_failure_def Let_def delay_def lock_delay_def split: prod.splits sum.splits)
  have "0 < max (lc_windowSeconds (le_config env)) delay" using assms(3) by simp
  note set = set_ex_live[OF 3 this]
  note wait = decide_wait[OF 4]
  show ?thesis using set wait read(1) w2 by simp
qed

end

end
