(* ===== verification/LockoutProperties.thy ===== *)
theory LockoutProperties
  imports Lockout
begin

text \<open>
  The properties of the account lockout: what a failure stores and answers, how long a lock
  lasts, and that it always ends.
\<close>

lemma stored_later:
  assumes "later {k} v v'" and "rv_lookup v k = Some (x, Some t)"
  shows "rv_text v' k = (if rv_clock v' < t then Some x else None)"
  using assms by (auto simp: later_def rv_lookup_def rv_text_def split: option.splits if_splits)

lemma stored_later_cases:
  assumes "later {k} v v'"
  shows "rv_text v' k = rv_text v k \<or> rv_text v' k = None"
  using assms by (auto simp: later_def rv_lookup_def rv_text_def split: option.splits prod.splits)

lemma decode_none [simp]: "decode_record None = empty_record"
  by (simp add: decode_record_def)

lemma stored_record_later:
  assumes "later {lockout_key env identifier} v v'"
    and "rv_lookup v (lockout_key env identifier) = Some (encode_record r, Some t)"
  shows "stored_record env identifier v' = (if rv_clock v' < t then r else empty_record)"
  using stored_later[OF assms] by (simp add: stored_record_def)

definition backoff_ok :: "lockout_config \<Rightarrow> bool" where
  "backoff_ok c \<longleftrightarrow> 0 < lc_baseDelaySeconds c \<and> lc_baseDelaySeconds c \<le> lc_maxDelaySeconds c \<and>
     0 < lc_windowSeconds c"

lemma lock_delay_zero: "backoff_ok c \<Longrightarrow> lock_delay c f = 0 \<longleftrightarrow> f < lc_threshold c"
  using delay_bounds(1)[of c f] by (auto simp: lock_delay_def backoff_ok_def)

lemma lock_delay_nonneg: "backoff_ok c \<Longrightarrow> 0 \<le> lock_delay c f"
  using delay_bounds(1)[of c f] by (auto simp: lock_delay_def backoff_ok_def)

section \<open>A demonstration environment\<close>

definition demo_lockout :: "mem_conn lockout_env" where
  "demo_lockout =
     \<lparr>le_redis = mem_redis,
      le_config = \<lparr>lc_threshold = 1, lc_baseDelaySeconds = 30, lc_maxDelaySeconds = 60,
                   lc_windowSeconds = 90\<rparr>,
      le_digest = (\<lambda>s. s), le_clock = (\<lambda>n. if n < 2 then 1000 else 99000)\<rparr>"

definition first_try :: "mem_conn lockout_world" where
  "first_try = \<lparr>lw_conn = \<lparr>mc_view = \<lparr>rv_clock = 0, rv_data = Map.empty\<rparr>, mc_script = []\<rparr>, lw_reads = 0\<rparr>"

definition failed_once :: "mem_conn lockout_world" where
  "failed_once = snd (record_failure demo_lockout '' A@b.c '' first_try)"

definition after_wait :: "mem_conn lockout_world" where
  "after_wait = failed_once\<lparr>lw_conn := (lw_conn failed_once)\<lparr>mc_view :=
     (mc_view (lw_conn failed_once))\<lparr>rv_clock := 98000\<rparr>\<rparr>\<rparr>"

definition lock_of_30 :: lockout_decision where
  "lock_of_30 = \<lparr>ld_locked = True, ld_retryAfterSeconds = 30\<rparr>"

lemma demo_facts:
  "record_failure demo_lockout '' A@b.c '' first_try = (Inr lock_of_30, failed_once)"
  "lw_reads failed_once = 2" "mc_view (lw_conn after_wait) =
     (mc_view (lw_conn failed_once))\<lparr>rv_clock := 98000\<rparr>"
  "lw_reads after_wait = 2" "rv_clock (mc_view (lw_conn failed_once)) = 0"
proof -
  have "fst (record_failure demo_lockout '' A@b.c '' first_try) = Inr lock_of_30" by code_simp
  then show "record_failure demo_lockout '' A@b.c '' first_try = (Inr lock_of_30, failed_once)"
    unfolding failed_once_def by (metis prod.collapse)
  show reads: "lw_reads failed_once = 2" "rv_clock (mc_view (lw_conn failed_once)) = 0" by code_simp+
  show "mc_view (lw_conn after_wait) = (mc_view (lw_conn failed_once))\<lparr>rv_clock := 98000\<rparr>"
    and "lw_reads after_wait = 2"
    by (simp_all add: after_wait_def reads)
qed

lemma demo_ok: "backoff_ok (le_config demo_lockout)" "le_redis demo_lockout = mem_redis"
  "\<forall>n. 0 \<le> le_clock demo_lockout n"
  by (simp_all add: demo_lockout_def backoff_ok_def)

lemma demo_waits:
  "later {lockout_key demo_lockout '' A@b.c ''} (mc_view (lw_conn failed_once)) (mc_view (lw_conn after_wait))"
  using demo_facts by (simp add: later_def)

lemma demo_check:
  "lockout_check demo_lockout '' A@b.c '' after_wait =
     (Inr \<lparr>ld_locked = False, ld_retryAfterSeconds = 0\<rparr>,
      snd (lockout_check demo_lockout '' A@b.c '' after_wait))"
proof -
  have "fst (lockout_check demo_lockout '' A@b.c '' after_wait) =
      Inr \<lparr>ld_locked = False, ld_retryAfterSeconds = 0\<rparr>" by code_simp
  then show ?thesis by (metis prod.collapse)
qed

section \<open>Properties\<close>

text \<open>C25.
  A recorded failure counts one more failure for the account and backs off exponentially:
  below the threshold it stamps no lock, at the threshold the base delay, and each failure
  beyond doubles the delay up to the maximum. The record replaces the old one under the
  account's key alone, always with an expiry, and never one before the end of its lock.
\<close>

theorem failures_back_off_exponentially:
  assumes "redis_store R view" and "le_redis env = R" and "backoff_ok (le_config env)"
    and "record_failure env identifier w = (Inr d, w')"
  shows "(let c = le_config env; k = lockout_key env identifier;
              f = lr_failures (stored_record env identifier (view (lw_conn w))) + 1;
              new = stored_record env identifier (view (lw_conn w'))
          in lr_failures new = f \<and>
             lr_lockedUntil new = (if f < lc_threshold c then 0
                                   else le_clock env (lw_reads w) + 1000 * delay_for c f) \<and>
             delay_for c (lc_threshold c) = lc_baseDelaySeconds c \<and>
             (lc_threshold c \<le> f \<longrightarrow>
                delay_for c (f + 1) = min (2 * delay_for c f) (lc_maxDelaySeconds c)) \<and>
             touches {k} (view (lw_conn w)) (view (lw_conn w')) \<and>
             (\<exists>t. rv_expiry (view (lw_conn w')) k = Some t \<and>
                  rv_clock (view (lw_conn w')) + 1000 * lock_delay c f \<le> t))"
proof -
  let ?c = "le_config env"
  let ?f = "lr_failures (stored_record env identifier (view (lw_conn w))) + 1"
  have c: "0 < lc_windowSeconds ?c" "lc_baseDelaySeconds ?c \<le> lc_maxDelaySeconds ?c"
    "0 \<le> lc_maxDelaySeconds ?c" using assms(3) by (simp_all add: backoff_ok_def)
  define f where "f = ?f"
  define r where "r = \<lparr>lr_failures = f, lr_lockedUntil = (if lock_delay ?c f = 0 then 0
      else le_clock env (lw_reads w) + 1000 * lock_delay ?c f)\<rparr>"
  note e = redis_store.record_failure_effect[OF assms(1,4,2) c(1), folded f_def, folded r_def]
  have new: "stored_record env identifier (view (lw_conn w')) = r"
    using e by (simp add: stored_record_def rv_text_def)
  have t: "rv_expiry (view (lw_conn w')) (lockout_key env identifier) =
      Some (rv_clock (view (lw_conn w')) + 1000 * max (lc_windowSeconds ?c) (lock_delay ?c f))"
    using e by (simp add: rv_expiry_def)
  have until: "lr_lockedUntil r = (if f < lc_threshold ?c then 0
      else le_clock env (lw_reads w) + 1000 * delay_for ?c f)" "lr_failures r = f"
    using lock_delay_zero[OF assms(3), of f] by (simp_all add: r_def lock_delay_def)
  show ?thesis
    unfolding Let_def new t f_def[symmetric] until
    using e delay_at_threshold[OF c(2)] delay_doubles[OF _ c(3), of f] by simp
qed

theorem failures_back_off_exponentially_witness:
  "lr_failures (stored_record demo_lockout '' A@b.c '' (mc_view (lw_conn failed_once))) = 1 \<and>
   lr_lockedUntil (stored_record demo_lockout '' A@b.c '' (mc_view (lw_conn failed_once))) = 31000"
proof -
  have "stored_record demo_lockout '' A@b.c '' (mc_view (lw_conn first_try)) = empty_record" by code_simp
  moreover have "le_clock demo_lockout (lw_reads first_try) = 1000"
    "lc_threshold (le_config demo_lockout) = 1" "delay_for (le_config demo_lockout) 1 = 30" by code_simp+
  ultimately show ?thesis
    using failures_back_off_exponentially[OF mem.redis_store_axioms demo_ok(2,1) demo_facts(1)]
    by (simp add: Let_def empty_record_def)
qed

text \<open>C26.
  The lock is honest. After a failure that locks, as long as the Redis key has not run out
  its own time, a check says locked exactly while the stamped delay has not passed on the
  server's clock; and whoever waits the seconds that were answered, to that failure or to a
  later check, is not locked any more, whether the key has expired meanwhile or not.
\<close>

theorem lock_lasts_as_announced:
  assumes "redis_store R view" and "le_redis env = R" and "backoff_ok (le_config env)"
    and "record_failure env identifier w = (Inr d, w1)" and "ld_locked d"
    and "later {lockout_key env identifier} (view (lw_conn w1)) (view (lw_conn w2))"
    and "lockout_check env identifier w2 = (Inr d2, w2')"
    and "later {lockout_key env identifier} (view (lw_conn w2)) (view (lw_conn w3))"
    and "lockout_check env identifier w3 = (Inr d3, w3')"
    and "\<forall>n. 0 \<le> le_clock env n"
  shows "(let delay = lock_delay (le_config env)
                (lr_failures (stored_record env identifier (view (lw_conn w))) + 1);
              stamped = le_clock env (lw_reads w)
          in (rv_clock (view (lw_conn w2)) < rv_clock (view (lw_conn w1)) + 1000 * delay \<longrightarrow>
                (ld_locked d2 \<longleftrightarrow> le_clock env (lw_reads w2) < stamped + 1000 * delay)) \<and>
             (le_clock env (Suc (lw_reads w)) + 1000 * ld_retryAfterSeconds d \<le> le_clock env (lw_reads w2)
                \<longrightarrow> \<not> ld_locked d2) \<and>
             (le_clock env (lw_reads w2) + 1000 * ld_retryAfterSeconds d2 \<le> le_clock env (lw_reads w3)
                \<longrightarrow> \<not> ld_locked d3))"
proof -
  let ?c = "le_config env" and ?k = "lockout_key env identifier"
  let ?f = "lr_failures (stored_record env identifier (view (lw_conn w))) + 1"
  let ?delay = "lock_delay ?c ?f"
  have win: "0 < lc_windowSeconds ?c" using assms(3) by (simp add: backoff_ok_def)
  define r where "r = \<lparr>lr_failures = ?f,
      lr_lockedUntil = (if ?delay = 0 then 0 else le_clock env (lw_reads w) + 1000 * ?delay)\<rparr>"
  note e = redis_store.record_failure_effect[OF assms(1,4,2) win, folded r_def]
  obtain t where look: "rv_lookup (view (lw_conn w1)) ?k = Some (encode_record r, Some t)"
    and t: "t = rv_clock (view (lw_conn w1)) + 1000 * max (lc_windowSeconds ?c) ?delay"
    using e by blast
  obtain now where now: "now = le_clock env (if ?delay = 0 then lw_reads w else Suc (lw_reads w))"
    "ld_locked d \<longleftrightarrow> now < lr_lockedUntil r" "lr_lockedUntil r \<le> now + 1000 * ld_retryAfterSeconds d"
    using e by blast
  have nz: "?delay \<noteq> 0" using now(1,2) assms(5) assms(10)[rule_format, of "lw_reads w"]
    by (auto simp: r_def split: if_splits)
  have until: "lr_lockedUntil r = le_clock env (lw_reads w) + 1000 * ?delay" using nz by (simp add: r_def)
  have s2: "stored_record env identifier (view (lw_conn w2)) =
      (if rv_clock (view (lw_conn w2)) < t then r else empty_record)"
    by (rule stored_record_later[OF assms(6) look])
  have s3: "stored_record env identifier (view (lw_conn w3)) \<in>
      {stored_record env identifier (view (lw_conn w2)), empty_record}"
    using stored_later_cases[OF assms(8)] by (auto simp: stored_record_def)
  note c2 = redis_store.lockout_check_effect[OF assms(1,7,2)]
  note c3 = redis_store.lockout_check_effect[OF assms(1,9,2)]
  have c0: "0 \<le> le_clock env (lw_reads w2)" "0 \<le> le_clock env (lw_reads w3)" using assms(10) by simp_all
  have alive: "rv_clock (view (lw_conn w2)) < t"
    if "rv_clock (view (lw_conn w2)) < rv_clock (view (lw_conn w1)) + 1000 * ?delay"
    using that t by simp
  have one: "ld_locked d2 \<longleftrightarrow> le_clock env (lw_reads w2) < le_clock env (lw_reads w) + 1000 * ?delay"
    if "rv_clock (view (lw_conn w2)) < rv_clock (view (lw_conn w1)) + 1000 * ?delay"
    using alive[OF that] c2(2) s2 until by simp
  have two: "\<not> ld_locked d2"
    if "le_clock env (Suc (lw_reads w)) + 1000 * ld_retryAfterSeconds d \<le> le_clock env (lw_reads w2)"
    using that now nz c2(2) s2 c0 by (auto simp: empty_record_def split: if_splits)
  have three: "\<not> ld_locked d3"
    if "le_clock env (lw_reads w2) + 1000 * ld_retryAfterSeconds d2 \<le> le_clock env (lw_reads w3)"
    using that c2(3) c3(2) s3 c0 by (auto simp: empty_record_def)
  show ?thesis unfolding Let_def using one two three by blast
qed

theorem lock_lasts_as_announced_witness:
  "ld_locked lock_of_30 \<and>
   \<not> ld_locked \<lparr>ld_locked = False, ld_retryAfterSeconds = 0\<rparr> \<and>
   le_clock demo_lockout (Suc (lw_reads first_try)) + 1000 * ld_retryAfterSeconds lock_of_30
     \<le> le_clock demo_lockout (lw_reads after_wait)"
proof -
  have locked: "ld_locked lock_of_30" by (simp add: lock_of_30_def)
  have le: "le_clock demo_lockout (Suc (lw_reads first_try)) + 1000 * ld_retryAfterSeconds lock_of_30
     \<le> le_clock demo_lockout (lw_reads after_wait)"
    unfolding demo_facts(4) by code_simp
  have stay: "later K v v" for K v by (simp add: later_def)
  show ?thesis
    using lock_lasts_as_announced[OF mem.redis_store_axioms demo_ok(2,1) demo_facts(1) locked demo_waits
        demo_check stay demo_check demo_ok(3)] locked le
    by (simp only: Let_def) blast
qed

text \<open>C27.
  The lockout heals by itself. Whatever number of failures an account has behind it, once the
  longest delay has passed on the server's clock after the last recorded one, every check that
  Redis answers says it is not locked, with no reset by anybody; and once the window and the
  delay have passed on Redis' clock, the count itself is gone.
\<close>

theorem lockout_heals_by_itself:
  assumes "redis_store R view" and "le_redis env = R" and "backoff_ok (le_config env)"
    and "record_failure env identifier w = (Inr d, w1)"
    and "later {lockout_key env identifier} (view (lw_conn w1)) (view (lw_conn w2))"
    and "lockout_check env identifier w2 = (Inr d2, w2')"
    and "le_clock env (lw_reads w) + 1000 * lc_maxDelaySeconds (le_config env) \<le> le_clock env (lw_reads w2)"
    and "\<forall>n. 0 \<le> le_clock env n"
  shows "\<not> ld_locked d2 \<and>
         (rv_clock (view (lw_conn w1)) +
            1000 * max (lc_windowSeconds (le_config env)) (lc_maxDelaySeconds (le_config env))
              \<le> rv_clock (view (lw_conn w2)) \<longrightarrow>
          stored_record env identifier (view (lw_conn w2)) = empty_record)"
proof -
  let ?c = "le_config env" and ?k = "lockout_key env identifier"
  let ?f = "lr_failures (stored_record env identifier (view (lw_conn w))) + 1"
  have c: "0 < lc_windowSeconds ?c" "0 < lc_baseDelaySeconds ?c"
    "lc_baseDelaySeconds ?c \<le> lc_maxDelaySeconds ?c" using assms(3) by (simp_all add: backoff_ok_def)
  have cap: "lock_delay ?c ?f \<le> lc_maxDelaySeconds ?c"
    using delay_bounds(2)[OF c(2,3), of ?f] c by (simp add: lock_delay_def)
  define r where "r = \<lparr>lr_failures = ?f, lr_lockedUntil = (if lock_delay ?c ?f = 0 then 0
      else le_clock env (lw_reads w) + 1000 * lock_delay ?c ?f)\<rparr>"
  note e = redis_store.record_failure_effect[OF assms(1,4,2) c(1), folded r_def]
  have s2: "stored_record env identifier (view (lw_conn w2)) =
      (if rv_clock (view (lw_conn w2)) < rv_clock (view (lw_conn w1)) +
            1000 * max (lc_windowSeconds ?c) (lock_delay ?c ?f) then r else empty_record)"
    by (rule stored_record_later[OF assms(5)]) (use e in blast)
  have "lr_lockedUntil r \<le> le_clock env (lw_reads w) + 1000 * lc_maxDelaySeconds ?c"
    using cap c assms(8)[rule_format, of "lw_reads w"] by (simp add: r_def)
  then have "\<not> ld_locked d2"
    using redis_store.lockout_check_effect(2)[OF assms(1,6,2)] s2 assms(7)
      assms(8)[rule_format, of "lw_reads w2"] by (auto simp: empty_record_def split: if_splits)
  moreover have "stored_record env identifier (view (lw_conn w2)) = empty_record"
    if "rv_clock (view (lw_conn w1)) + 1000 * max (lc_windowSeconds ?c) (lc_maxDelaySeconds ?c)
          \<le> rv_clock (view (lw_conn w2))"
    using s2 that cap by simp
  ultimately show ?thesis by blast
qed

theorem lockout_heals_by_itself_witness:
  "stored_record demo_lockout '' A@b.c '' (mc_view (lw_conn after_wait)) = empty_record"
proof -
  have "le_clock demo_lockout (lw_reads first_try) + 1000 * lc_maxDelaySeconds (le_config demo_lockout)
      \<le> le_clock demo_lockout (lw_reads after_wait)"
    unfolding demo_facts(4) by code_simp
  from lockout_heals_by_itself[OF mem.redis_store_axioms demo_ok(2,1) demo_facts(1) demo_waits
      demo_check this demo_ok(3)]
  show ?thesis using demo_facts by (simp add: demo_lockout_def)
qed

end
