(* ===== verification/HttpBoundary.thy ===== *)
theory HttpBoundary
  imports Json RequestContext UsagePeriods
begin

text \<open>
  What enters and leaves the HTTP boundary: the carve-out paths (\<open>src/common/http\<close>), the
  success envelope (\<open>src/common/interceptors\<close>), the exception filter
  (\<open>src/common/filters/all-exceptions.filter.ts\<close>) and the flattening of validation errors
  (\<open>src/common/pipes\<close>).

  A response is its status, the headers set on the way and the JSON document sent. Log lines
  are left out. The clock gives the value of \<open>new Date()\<close> for the envelope's timestamp.
\<close>

section \<open>Paths\<close>

definition path_of :: "string option \<Rightarrow> string" where
  "path_of url = takeWhile (\<lambda>c. c \<noteq> CHR ''?'') (case url of Some u \<Rightarrow> u | None \<Rightarrow> [])"

definition health_paths :: "string list" where
  "health_paths = [''/health/live'', ''/health/ready'']"

definition is_health_path :: "string option \<Rightarrow> bool" where
  "is_health_path url \<longleftrightarrow> path_of url \<in> set health_paths"

definition is_metrics_path :: "string option \<Rightarrow> bool" where
  "is_metrics_path url \<longleftrightarrow> path_of url \<in> set [''/metrics'']"

definition default_mcp_path :: string where
  "default_mcp_path = ''/mcp''"

definition normalize_mcp_path :: "string \<Rightarrow> string" where
  "normalize_mcp_path path =
     (let trimmed = trim path
      in if \<not> starts_with ''/'' trimmed then CHR ''/'' # trimmed
         else (let cut = rev (dropWhile (\<lambda>c. c = CHR ''/'') (rev trimmed))
               in if cut = [] then ''/'' else cut))"

definition is_mcp_path :: "string option \<Rightarrow> string \<Rightarrow> bool" where
  "is_mcp_path url configuredPath \<longleftrightarrow>
     (let path = path_of url; expected = normalize_mcp_path configuredPath
      in path = expected \<or> starts_with (expected @ ''/'') path)"

section \<open>Requests and responses\<close>

record http_request =
  hq_method :: string
  hq_originalUrl :: "string option"
  hq_url :: "string option"
  hq_id :: "string option"
  hq_ip :: "string option"
  hq_routePath :: "string option"
  hq_principalId :: "string option"

definition request_path :: "http_request \<Rightarrow> string option" where
  "request_path rq = (case hq_originalUrl rq of Some u \<Rightarrow> Some u | None \<Rightarrow> hq_url rq)"

definition matched_route_path :: "http_request \<Rightarrow> string option" where
  "matched_route_path rq = hq_routePath rq"

record http_out =
  ho_status :: int
  ho_headers :: "(string \<times> string) list"
  ho_body :: json

text \<open>\<open>Date.prototype.toISOString\<close>.\<close>

definition iso_string :: "int \<Rightarrow> string" where
  "iso_string t =
     (case utc_date (day_of t) of
        (y, m, d) \<Rightarrow>
          (let ms = t mod ms_per_day
           in iso_year y @ ''-'' @ pad_start 2 (int m + 1) @ ''-'' @ pad_start 2 d @ ''T'' @
              pad_start 2 (ms div 3600000) @ '':'' @ pad_start 2 (ms div 60000 mod 60) @ '':'' @
              pad_start 2 (ms div 1000 mod 60) @ ''.'' @ pad_start 3 (ms mod 1000) @ ''Z''))"

text \<open>An undefined member is not sent.\<close>

definition response_meta :: "request_context \<Rightarrow> string option \<Rightarrow> int \<Rightarrow> json" where
  "response_meta ctx fallback now =
     (let requestId = (case get_request_id ctx of Some r \<Rightarrow> Some r | None \<Rightarrow> fallback)
      in JObj ((case requestId of Some r \<Rightarrow> [(''requestId'', JStr r)] | None \<Rightarrow> []) @
               [(''timestamp'', JStr (iso_string now))]))"

text \<open>\<open>ResponseEnvelopeInterceptor.intercept\<close> around a handler whose outcome is given.\<close>

definition envelope_intercept ::
  "bool \<Rightarrow> bool option \<times> bool option \<Rightarrow> request_context \<Rightarrow> http_request \<Rightarrow> int \<Rightarrow>
     exn + json option \<Rightarrow> exn + json option" where
  "envelope_intercept http meta ctx rq now outcome =
     (if \<not> http then outcome
      else if case_prod get_all_and_override meta = Some True then outcome
      else
        (case outcome of
           Inl e \<Rightarrow> Inl e
         | Inr data \<Rightarrow>
             Inr (Some (JObj [(''success'', JBool True),
                              (''data'', case data of Some j \<Rightarrow> j | None \<Rightarrow> JNull),
                              (''meta'', response_meta ctx (hq_id rq) now)]))))"

section \<open>The exception filter\<close>

record resolved_error =
  re_status :: int
  re_code :: error_code
  re_message :: string
  re_details :: "json option"

definition unexpected_error :: resolved_error where
  "unexpected_error = \<lparr>re_status = 500, re_code = INTERNAL_ERROR,
     re_message = ''An unexpected error occurred.'', re_details = None\<rparr>"

definition resolve_prisma_error :: "string \<Rightarrow> resolved_error" where
  "resolve_prisma_error code =
     (if code = ''P2002'' then
        \<lparr>re_status = 409, re_code = CONFLICT,
         re_message = ''A record with these values already exists.'', re_details = None\<rparr>
      else if code = ''P2025'' then
        \<lparr>re_status = 404, re_code = NOT_FOUND,
         re_message = ''The requested record was not found.'', re_details = None\<rparr>
      else unexpected_error)"

definition resolve_better_auth_error :: "int \<Rightarrow> string option \<Rightarrow> resolved_error" where
  "resolve_better_auth_error status bodyMessage =
     (let message = (case bodyMessage of Some m \<Rightarrow> m | None \<Rightarrow> ''The request could not be completed.'')
      in if status \<ge> 500 then unexpected_error
         else \<lparr>re_status = status, re_code = error_code_for_status status,
               re_message = message, re_details = None\<rparr>)"

text \<open>\<open>Array.prototype.join\<close>, and the text of an element in it.\<close>

fun join_with :: "string \<Rightarrow> string list \<Rightarrow> string" where
  "join_with sep [] = []"
| "join_with sep [x] = x"
| "join_with sep (x # y # xs) = x @ sep @ join_with sep (y # xs)"

fun element_text :: "json \<Rightarrow> string" where
  "element_text JNull = []"
| "element_text (JBool b) = (if b then ''true'' else ''false'')"
| "element_text (JNum n) = show_int n"
| "element_text (JStr s) = s"
| "element_text (JArr xs) = join_with '','' (map element_text xs)"
| "element_text (JObj ms) = ''[object Object]''"

definition message_from_http_exception :: "http_response \<Rightarrow> string \<Rightarrow> string" where
  "message_from_http_exception response fallback =
     (case response of
        RespText s \<Rightarrow> s
      | RespObj j \<Rightarrow>
          (case (case j of JObj ms \<Rightarrow> map_of ms ''message'' | _ \<Rightarrow> None) of
             Some (JStr m) \<Rightarrow> m
           | Some (JArr xs) \<Rightarrow> join_with ''; '' (map element_text xs)
           | _ \<Rightarrow> fallback))"

fun resolve_error :: "exn \<Rightarrow> resolved_error" where
  "resolve_error (ApiExn a) =
     \<lparr>re_status = ax_status a, re_code = ax_code a, re_message = ax_message a,
      re_details = ax_details a\<rparr>"
| "resolve_error (HttpExn status response message) =
     \<lparr>re_status = status, re_code = error_code_for_status status,
      re_message = message_from_http_exception response message, re_details = None\<rparr>"
| "resolve_error (PrismaExn code message) = resolve_prisma_error code"
| "resolve_error (AuthApiExn status message) = resolve_better_auth_error status message"
| "resolve_error (OtherExn message) = unexpected_error"

text \<open>The status and the payload of an \<open>HttpException\<close>, an \<open>ApiException\<close> being one.\<close>

fun http_payload :: "exn \<Rightarrow> (int \<times> json) option" where
  "http_payload (ApiExn a) =
     Some (ax_status a, JObj ([(''code'', JStr (code_name (ax_code a))), (''message'', JStr (ax_message a))] @
       (case ax_details a of Some d \<Rightarrow> [(''details'', d)] | None \<Rightarrow> [])))"
| "http_payload (HttpExn status (RespText s) _) = Some (status, JStr s)"
| "http_payload (HttpExn status (RespObj j) _) = Some (status, j)"
| "http_payload _ = None"

record limit_event =
  le_code :: error_code
  le_subject :: string
  le_route :: string

definition observe_limit_exceeded :: "resolved_error \<Rightarrow> http_request \<Rightarrow> limit_event list" where
  "observe_limit_exceeded r rq =
     (if re_code r \<noteq> RATE_LIMITED \<and> re_code r \<noteq> USAGE_LIMIT_EXCEEDED then []
      else
        [\<lparr>le_code = re_code r,
          le_subject = (case hq_principalId rq of Some u \<Rightarrow> u
                        | None \<Rightarrow> ''ip:'' @ (case hq_ip rq of Some a \<Rightarrow> a | None \<Rightarrow> ''unknown'')),
          le_route = (case matched_route_path rq of Some p \<Rightarrow> p
                      | None \<Rightarrow> (case request_path rq of Some p \<Rightarrow> p | None \<Rightarrow> ''unknown''))\<rparr>])"

definition error_envelope :: "resolved_error \<Rightarrow> json \<Rightarrow> json" where
  "error_envelope r meta =
     JObj [(''success'', JBool False),
           (''error'', JObj ([(''code'', JStr (code_name (re_code r))), (''message'', JStr (re_message r))] @
              (case re_details r of Some d \<Rightarrow> [(''details'', d)] | None \<Rightarrow> []))),
           (''meta'', meta)]"

fun exn_headers :: "exn \<Rightarrow> (string \<times> string) list" where
  "exn_headers (ApiExn a) = (case ax_headers a of Some hs \<Rightarrow> hs | None \<Rightarrow> [])"
| "exn_headers _ = []"

text \<open>\<open>AllExceptionsFilter.catch\<close>: the response, and the events for the observers.\<close>

definition raw_path :: "http_request \<Rightarrow> bool" where
  "raw_path rq \<longleftrightarrow> is_health_path (request_path rq) \<or> is_mcp_path (request_path rq) default_mcp_path"

definition catch_exception ::
  "exn \<Rightarrow> http_request \<Rightarrow> request_context \<Rightarrow> int \<Rightarrow> http_out \<times> limit_event list" where
  "catch_exception e rq ctx now =
     (case (if raw_path rq then http_payload e else None) of
        Some (status, payload) \<Rightarrow>
          (\<lparr>ho_status = status, ho_headers = [], ho_body = payload\<rparr>, [])
      | None \<Rightarrow>
          (let r = resolve_error e
           in (\<lparr>ho_status = re_status r, ho_headers = exn_headers e,
                ho_body = error_envelope r (response_meta ctx (hq_id rq) now)\<rparr>,
               observe_limit_exceeded r rq)))"

section \<open>Validation\<close>

text \<open>\<open>ValidationError\<close>: a property, its failed constraints and the errors of its children.\<close>

datatype validation_error =
  Validation_error string "(string \<times> string) list option" "validation_error list option"

record validation_detail =
  vd_field :: string
  vd_constraint :: string
  vd_message :: string

fun flatten_error :: "string \<Rightarrow> validation_error \<Rightarrow> validation_detail list" where
  "flatten_error parentPath (Validation_error name constraints children) =
     (let field = (if parentPath \<noteq> [] then parentPath @ ''.'' @ name else name)
      in map (\<lambda>(c, m). \<lparr>vd_field = field, vd_constraint = c, vd_message = m\<rparr>)
           (case constraints of Some cs \<Rightarrow> cs | None \<Rightarrow> []) @
         (case children of
            Some ch \<Rightarrow> concat (map (flatten_error field) ch)
          | None \<Rightarrow> []))"

definition flatten_validation_errors :: "validation_error list \<Rightarrow> string \<Rightarrow> validation_detail list" where
  "flatten_validation_errors errors parentPath = concat (map (flatten_error parentPath) errors)"

definition detail_json :: "validation_detail \<Rightarrow> json" where
  "detail_json d = JObj [(''field'', JStr (vd_field d)), (''constraint'', JStr (vd_constraint d)),
                         (''message'', JStr (vd_message d))]"

definition validation_failed :: "validation_error list \<Rightarrow> exn" where
  "validation_failed errors =
     api_error_details 400 VALIDATION_FAILED ''Request validation failed.''
       (JArr (map detail_json (flatten_validation_errors errors [])))"

end
