(* ===== verification/BoundaryProperties.thy ===== *)
theory BoundaryProperties
  imports HttpBoundary
begin

text \<open>
  The properties of the HTTP boundary: what of an error reaches a client, and that the
  flattened validation errors say exactly what the tree said.
\<close>

section \<open>The public part of an error\<close>

text \<open>An error with everything taken out that must stay inside.\<close>

fun public_part :: "exn \<Rightarrow> exn" where
  "public_part (ApiExn a) = ApiExn a"
| "public_part (HttpExn s r m) = HttpExn s r m"
| "public_part (PrismaExn c m) = (if c \<in> {''P2002'', ''P2025''} then PrismaExn c [] else OtherExn [])"
| "public_part (AuthApiExn s m) = (if s \<ge> 500 then OtherExn [] else AuthApiExn s m)"
| "public_part (OtherExn m) = OtherExn []"

lemma resolve_public: "resolve_error (public_part e) = resolve_error e"
  by (cases e) (auto simp: resolve_prisma_error_def resolve_better_auth_error_def)

lemma payload_public: "http_payload (public_part e) = http_payload e"
  by (cases e) auto

lemma headers_public: "exn_headers (public_part e) = exn_headers e"
  by (cases e) auto

lemma status_codes:
  "error_code_for_status 500 = INTERNAL_ERROR" "error_code_for_status 409 = CONFLICT"
  "error_code_for_status 404 = NOT_FOUND"
  by (simp_all add: error_code_for_status_def status_to_code_def)

lemma resolve_code:
  "(\<forall>a. e \<noteq> ApiExn a) \<Longrightarrow> re_code (resolve_error e) = error_code_for_status (re_status (resolve_error e))"
  by (cases e) (auto simp: resolve_prisma_error_def resolve_better_auth_error_def unexpected_error_def
      status_codes Let_def)

text \<open>C28.
  Nothing internal leaves through the exception filter. The response and the events are those
  of the error's public part: the text of a database error, of an unexpected throw or of an
  auth library failure of the 5xx kind has no influence on them. Off the raw paths the body
  is the error envelope whose code is the one published for its status, unless the program
  chose the code itself.
\<close>

theorem internal_errors_leak_nothing:
  "catch_exception e rq ctx now = catch_exception (public_part e) rq ctx now \<and>
   (\<exists>r. (raw_path rq \<and> http_payload e \<noteq> None \<or>
           fst (catch_exception e rq ctx now) =
             \<lparr>ho_status = re_status r, ho_headers = exn_headers e,
              ho_body = error_envelope r (response_meta ctx (hq_id rq) now)\<rparr>) \<and>
        ((\<exists>a. e = ApiExn a \<and> re_code r = ax_code a) \<or> re_code r = error_code_for_status (re_status r)))"
proof
  show "catch_exception e rq ctx now = catch_exception (public_part e) rq ctx now"
    unfolding catch_exception_def resolve_public payload_public headers_public ..
  have "(\<exists>a. e = ApiExn a \<and> re_code (resolve_error e) = ax_code a) \<or>
      re_code (resolve_error e) = error_code_for_status (re_status (resolve_error e))"
    using resolve_code[of e] by (cases e) auto
  then show "\<exists>r. (raw_path rq \<and> http_payload e \<noteq> None \<or>
           fst (catch_exception e rq ctx now) =
             \<lparr>ho_status = re_status r, ho_headers = exn_headers e,
              ho_body = error_envelope r (response_meta ctx (hq_id rq) now)\<rparr>) \<and>
        ((\<exists>a. e = ApiExn a \<and> re_code r = ax_code a) \<or> re_code r = error_code_for_status (re_status r))"
    by (intro exI[of _ "resolve_error e"])
      (auto simp: catch_exception_def Let_def split: option.split)
qed

definition some_request :: http_request where
  "some_request = \<lparr>hq_method = ''POST'', hq_originalUrl = Some ''/agent'', hq_url = None, hq_id = None,
     hq_ip = None, hq_routePath = None, hq_principalId = None\<rparr>"

theorem internal_errors_leak_nothing_witness:
  "catch_exception (PrismaExn ''P1001'' ''secret'') some_request None 0 =
   catch_exception (OtherExn []) some_request None 0"
  using internal_errors_leak_nothing[of "PrismaExn ''P1001'' ''secret''" some_request None 0] by simp

section \<open>Validation details\<close>

text \<open>
  The reference: every failed constraint with the property names on the way to it, and the
  dotted rendering of such a path.
\<close>

fun failed_constraints :: "string list \<Rightarrow> validation_error \<Rightarrow> (string list \<times> string \<times> string) list" where
  "failed_constraints up (Validation_error name constraints children) =
     map (Pair (up @ [name])) (case constraints of Some cs \<Rightarrow> cs | None \<Rightarrow> []) @
     (case children of
        Some ch \<Rightarrow> concat (map (failed_constraints (up @ [name])) ch)
      | None \<Rightarrow> [])"

fun named :: "validation_error \<Rightarrow> bool" where
  "named (Validation_error name constraints children) \<longleftrightarrow>
     name \<noteq> [] \<and> (case children of Some ch \<Rightarrow> list_all named ch | None \<Rightarrow> True)"

definition dotted :: "string list \<times> string \<times> string \<Rightarrow> validation_detail" where
  "dotted x = \<lparr>vd_field = join_with ''.'' (fst x), vd_constraint = fst (snd x), vd_message = snd (snd x)\<rparr>"

lemma join_snoc: "xs \<noteq> [] \<Longrightarrow> join_with sep (xs @ [x]) = join_with sep xs @ sep @ x"
  by (induction sep xs rule: join_with.induct) auto

lemma join_nonempty: "xs \<noteq> [] \<Longrightarrow> list_all (\<lambda>x. x \<noteq> []) xs \<Longrightarrow> join_with sep xs \<noteq> []"
  by (induction sep xs rule: join_with.induct) auto

lemma flatten_error_paths:
  "named e \<Longrightarrow> list_all (\<lambda>x. x \<noteq> []) up \<Longrightarrow>
   flatten_error (join_with ''.'' up) e = map dotted (failed_constraints up e)"
proof (induction e arbitrary: up)
  case (Validation_error name constraints children)
  have field: "(if join_with ''.'' up \<noteq> [] then join_with ''.'' up @ ''.'' @ name else name) =
      join_with ''.'' (up @ [name])"
    using join_nonempty[of up "''.''"] join_snoc[of up "''.''" name] Validation_error.prems
    by (cases "up = []") auto
  have path: "list_all (\<lambda>x. x \<noteq> []) (up @ [name])" using Validation_error.prems by simp
  have here: "(\<lambda>(c, m). \<lparr>vd_field = join_with ''.'' (up @ [name]), vd_constraint = c, vd_message = m\<rparr>) =
      dotted \<circ> Pair (up @ [name])"
    by (simp add: dotted_def split_def comp_def)
  have below: "concat (map (flatten_error (join_with ''.'' (up @ [name]))) ch) =
      map dotted (concat (map (failed_constraints (up @ [name])) ch))" if c: "children = Some ch" for ch
  proof -
    have "flatten_error (join_with ''.'' (up @ [name])) x = map dotted (failed_constraints (up @ [name]) x)"
      if "x \<in> set ch" for x
      using Validation_error.IH[of ch x] Validation_error.prems path that c
      by (auto simp: list_all_iff)
    then show ?thesis by (simp add: map_concat comp_def cong: map_cong)
  qed
  show ?case
    unfolding flatten_error.simps failed_constraints.simps Let_def field here
    using below by (cases children) simp_all
qed

text \<open>C29.
  The details of a validation failure are exactly the failed constraints of the tree, in
  order and with none lost, each under the dotted path of the properties that lead to it; the
  answer is a 400 that carries them all.
\<close>

theorem validation_details_are_the_tree:
  assumes "list_all named errors"
  shows "flatten_validation_errors errors [] =
           map dotted (concat (map (failed_constraints []) errors)) \<and>
         resolve_error (validation_failed errors) =
           \<lparr>re_status = 400, re_code = VALIDATION_FAILED, re_message = ''Request validation failed.'',
            re_details = Some (JArr (map (detail_json \<circ> dotted) (concat (map (failed_constraints []) errors))))\<rparr>"
proof -
  have "flatten_validation_errors errors [] = map dotted (concat (map (failed_constraints []) errors))"
    unfolding flatten_validation_errors_def map_concat map_map
    using assms flatten_error_paths[of _ "[]"]
    by (intro arg_cong[of _ _ concat] map_cong) (auto simp: list_all_iff)
  then show ?thesis by (simp add: validation_failed_def api_error_details_def)
qed

theorem validation_details_are_the_tree_witness:
  "flatten_validation_errors
     [Validation_error ''address'' None
        (Some [Validation_error ''zip'' (Some [(''isString'', ''zip must be a string'')]) None])] [] =
   [\<lparr>vd_field = ''address.zip'', vd_constraint = ''isString'', vd_message = ''zip must be a string''\<rparr>]"
  using validation_details_are_the_tree[of "[Validation_error ''address'' None
      (Some [Validation_error ''zip'' (Some [(''isString'', ''zip must be a string'')]) None])]"]
  by (simp add: dotted_def)

section \<open>The carve-out paths\<close>

text \<open>A configured path without its leading slash keeps its trailing one, and matches no request to it.\<close>

lemma mcp_path_trailing_slash:
  "normalize_mcp_path ''mcp/'' = ''/mcp/'' \<and> \<not> is_mcp_path (Some ''/mcp'') ''mcp/''"
  by code_simp

text \<open>Errors under another configured path are enveloped: the filter asks for the default path only.\<close>

lemma mcp_carve_out_is_the_default_path:
  "is_mcp_path (Some ''/agent'') ''/agent'' \<and>
   \<not> raw_path some_request"
  by code_simp

end
