(* ===== verification/Idempotency.thy ===== *)
theory Idempotency
  imports HttpBoundary Database
begin

text \<open>
  The idempotency interceptor (\<open>src/common/idempotency\<close>): a retry with the same
  \<open>Idempotency-Key\<close> and the same request replays the stored response.

  The table is the list of its rows. Each statement on it meets a fault of its own: it is
  done, it is lost, or it is done and unanswered. The handler is a function on the state of
  the rest of the program. SHA-256 is a function given as an argument.
\<close>

datatype idem_status = Processing | Completed

record idem_record =
  ir_principalId :: string
  ir_key :: string
  ir_method :: string
  ir_path :: string
  ir_requestHash :: string
  ir_status :: idem_status
  ir_statusCode :: "int option"
  ir_responseBody :: json
  ir_expiresAt :: int

record idem_config =
  ic_ttlSeconds :: int
  ic_keyMaxLength :: nat

record idem_env =
  ie_config :: idem_config
  ie_digest :: "string \<Rightarrow> string"
  ie_now :: int
  ie_findFault :: "exn option"
  ie_createFault :: tx_fault
  ie_updateFault :: tx_fault
  ie_deleteFault :: tx_fault

text \<open>What the interceptor reads of a request, beside the fields of \<open>http_request\<close>.\<close>

record idem_request = http_request +
  iq_keyHeader :: header
  iq_body :: "json option"

definition default_status_for_method :: "string \<Rightarrow> int" where
  "default_status_for_method m = (if m = ''POST'' then 201 else 200)"

definition resolve_status_code :: "int option \<times> int option \<Rightarrow> string \<Rightarrow> int" where
  "resolve_status_code httpCode m =
     (case case_prod get_all_and_override httpCode of Some c \<Rightarrow> c | None \<Rightarrow> default_status_for_method m)"

text \<open>An absent path is not rendered; a body that is absent or null counts as the empty object.\<close>

definition request_payload :: "idem_request \<Rightarrow> json" where
  "request_payload rq =
     JObj ([(''method'', JStr (hq_method rq))] @
           (case hq_originalUrl rq of
              Some u \<Rightarrow> [(''path'', JStr u)]
            | None \<Rightarrow> (case hq_url rq of Some u \<Rightarrow> [(''path'', JStr u)] | None \<Rightarrow> [])) @
           [(''body'', case iq_body rq of None \<Rightarrow> JObj [] | Some JNull \<Rightarrow> JObj [] | Some b \<Rightarrow> b)])"

definition hash_request :: "(string \<Rightarrow> string) \<Rightarrow> idem_request \<Rightarrow> string" where
  "hash_request digest rq = digest (to_json (request_payload rq))"

definition key_required :: exn where
  "key_required = api_error 400 IDEMPOTENCY_KEY_REQUIRED
     ''This route requires an \"idempotency-key\" header.''"

definition extract_key :: "idem_config \<Rightarrow> header \<Rightarrow> exn + string" where
  "extract_key c h =
     (case (case h of Header_one k \<Rightarrow> Some k | Header_many (k # _) \<Rightarrow> Some k | _ \<Rightarrow> None) of
        None \<Rightarrow> Inl key_required
      | Some k \<Rightarrow>
          (if k = [] \<or> trim k = [] then Inl key_required
           else if length k > ic_keyMaxLength c then
             Inl (api_error 400 BAD_REQUEST
               (''Idempotency-Key must not exceed '' @ show_int (int (ic_keyMaxLength c)) @ '' characters.''))
           else Inr k))"

definition idem_principal :: "idem_request \<Rightarrow> exn + string" where
  "idem_principal rq =
     (case hq_principalId rq of
        None \<Rightarrow> Inl (api_error 401 UNAUTHORIZED ''Authentication required.'')
      | Some u \<Rightarrow> Inr u)"

definition key_details :: "string \<Rightarrow> json" where
  "key_details k = JObj [(''key'', JStr k)]"

definition already_processing :: "string \<Rightarrow> exn" where
  "already_processing k = api_error_details 409 CONFLICT
     ''A request with this Idempotency-Key is already being processed.'' (key_details k)"

definition key_reused :: "string \<Rightarrow> exn" where
  "key_reused k = api_error_details 409 IDEMPOTENCY_KEY_REUSE
     ''Idempotency-Key was reused with a different request.'' (key_details k)"

definition replay_record :: "idem_record \<Rightarrow> string \<Rightarrow> string \<Rightarrow> exn + json" where
  "replay_record existing requestHash k =
     (if ir_requestHash existing \<noteq> requestHash then Inl (key_reused k)
      else if ir_status existing \<noteq> Completed then Inl (already_processing k)
      else Inr (ir_responseBody existing))"

section \<open>The table\<close>

definition is_record :: "string \<Rightarrow> string \<Rightarrow> idem_record \<Rightarrow> bool" where
  "is_record p k r \<longleftrightarrow> ir_principalId r = p \<and> ir_key r = k"

definition find_record :: "string \<Rightarrow> string \<Rightarrow> idem_record list \<Rightarrow> idem_record option" where
  "find_record p k rows = List.find (is_record p k) rows"

definition create_record :: "idem_record \<Rightarrow> idem_record list \<Rightarrow> exn + (unit \<times> idem_record list)" where
  "create_record r rows =
     (if find_record (ir_principalId r) (ir_key r) rows \<noteq> None then Inl unique_violation
      else Inr ((), rows @ [r]))"

definition complete_record ::
  "string \<Rightarrow> string \<Rightarrow> int \<Rightarrow> json \<Rightarrow> idem_record list \<Rightarrow> exn + (unit \<times> idem_record list)" where
  "complete_record p k code result rows =
     (if find_record p k rows = None then Inl record_not_found
      else Inr ((), update_where (is_record p k)
        (\<lambda>r. r\<lparr>ir_status := Completed, ir_statusCode := Some code, ir_responseBody := result\<rparr>) rows))"

definition delete_record :: "string \<Rightarrow> string \<Rightarrow> idem_record list \<Rightarrow> exn + (unit \<times> idem_record list)" where
  "delete_record p k rows =
     (if find_record p k rows = None then Inl record_not_found
      else Inr ((), filter (\<lambda>r. \<not> is_record p k r) rows))"

section \<open>The interceptor\<close>

definition new_record :: "idem_env \<Rightarrow> string \<Rightarrow> string \<Rightarrow> idem_request \<Rightarrow> idem_record" where
  "new_record env p k rq =
     \<lparr>ir_principalId = p, ir_key = k, ir_method = hq_method rq,
      ir_path = (case hq_originalUrl rq of Some u \<Rightarrow> u
                 | None \<Rightarrow> (case hq_url rq of Some u \<Rightarrow> u | None \<Rightarrow> [])),
      ir_requestHash = hash_request (ie_digest env) rq, ir_status = Processing, ir_statusCode = None,
      ir_responseBody = JNull, ir_expiresAt = ie_now env + ic_ttlSeconds (ie_config env) * 1000\<rparr>"

definition begin_processing ::
  "idem_env \<Rightarrow> string \<Rightarrow> string \<Rightarrow> idem_request \<Rightarrow> idem_record list \<Rightarrow> (exn + unit) \<times> idem_record list" where
  "begin_processing env p k rq rows =
     (case run_tx (ie_createFault env) (create_record (new_record env p k rq)) rows of
        (Inr _, rows') \<Rightarrow> (Inr (), rows')
      | (Inl (PrismaExn code m), rows') \<Rightarrow>
          (Inl (if code = ''P2002'' then already_processing k else PrismaExn code m), rows')
      | (Inl e, rows') \<Rightarrow> (Inl e, rows'))"

text \<open>The handler and what follows it: complete the row, or drop it and pass the error on.\<close>

definition drop_record ::
  "idem_env \<Rightarrow> string \<Rightarrow> string \<Rightarrow> idem_record list \<Rightarrow> idem_record list" where
  "drop_record env p k rows = snd (run_tx (ie_deleteFault env) (delete_record p k) rows)"

definition run_handler ::
  "idem_env \<Rightarrow> string \<Rightarrow> string \<Rightarrow> int \<Rightarrow> ('h \<Rightarrow> (exn + json) \<times> 'h) \<Rightarrow> idem_record list \<Rightarrow> 'h \<Rightarrow>
     (exn + json) \<times> idem_record list \<times> 'h" where
  "run_handler env p k code handler rows h =
     (case handler h of
        (Inl e, h') \<Rightarrow> (Inl e, drop_record env p k rows, h')
      | (Inr result, h') \<Rightarrow>
          (case run_tx (ie_updateFault env) (complete_record p k code result) rows of
             (Inr _, rows') \<Rightarrow> (Inr result, rows', h')
           | (Inl e, rows') \<Rightarrow> (Inl e, drop_record env p k rows', h')))"

definition handle_idempotent ::
  "idem_env \<Rightarrow> int option \<times> int option \<Rightarrow> idem_request \<Rightarrow> ('h \<Rightarrow> (exn + json) \<times> 'h) \<Rightarrow>
     idem_record list \<Rightarrow> 'h \<Rightarrow> (exn + json) \<times> idem_record list \<times> 'h" where
  "handle_idempotent env httpCode rq handler rows h =
     (case extract_key (ie_config env) (iq_keyHeader rq) of
        Inl e \<Rightarrow> (Inl e, rows, h)
      | Inr k \<Rightarrow>
          (case idem_principal rq of
             Inl e \<Rightarrow> (Inl e, rows, h)
           | Inr p \<Rightarrow>
               (case ie_findFault env of
                  Some e \<Rightarrow> (Inl e, rows, h)
                | None \<Rightarrow>
                    (case find_record p k rows of
                       Some existing \<Rightarrow>
                         (replay_record existing (hash_request (ie_digest env) rq) k, rows, h)
                     | None \<Rightarrow>
                         (case begin_processing env p k rq rows of
                            (Inl e, rows') \<Rightarrow> (Inl e, rows', h)
                          | (Inr _, rows') \<Rightarrow>
                              run_handler env p k (resolve_status_code httpCode (hq_method rq))
                                handler rows' h)))))"

text \<open>\<open>intercept\<close>: the decorator's metadata turns it on.\<close>

definition idem_intercept ::
  "idem_env \<Rightarrow> bool \<Rightarrow> bool option \<times> bool option \<Rightarrow> int option \<times> int option \<Rightarrow> idem_request \<Rightarrow>
     ('h \<Rightarrow> (exn + json) \<times> 'h) \<Rightarrow> idem_record list \<Rightarrow> 'h \<Rightarrow> (exn + json) \<times> idem_record list \<times> 'h" where
  "idem_intercept env http meta httpCode rq handler rows h =
     (if \<not> http \<or> case_prod get_all_and_override meta \<noteq> Some True then
        (case handler h of (r, h') \<Rightarrow> (r, rows, h'))
      else handle_idempotent env httpCode rq handler rows h)"

end
