(* ===== verification/IdempotencyRace.thy ===== *)
theory IdempotencyRace
  imports Idempotency
begin

text \<open>
  Concurrent requests of one principal under one \<open>Idempotency-Key\<close>.

  Each request is a thread of \<open>IdempotencyInterceptor.handle\<close>, cut at its database statements,
  which are atomic: the lookup, the insert, the handler, the completion and the deletion. Any
  thread may move next, and any statement may fail, with or without its effect. The state is
  the row under the key (the hash, and the response once it is completed), the number of
  handlers that have returned and the number of completions that were reported as failed.
\<close>

datatype idem_thread =
    Looking string
  | Inserting string
  | Handling string
  | Saving string json
  | Dropping
  | Answered json
  | Rejected

record idem_state =
  is_row :: "(string \<times> json option) option"
  is_threads :: "idem_thread list"
  is_runs :: nat
  is_lost :: nat

text \<open>One statement of one thread: the row, the thread and the two counts, before and after.\<close>

inductive idem_move ::
  "(string \<times> json option) option \<Rightarrow> idem_thread \<Rightarrow>
     (string \<times> json option) option \<Rightarrow> idem_thread \<Rightarrow> nat \<Rightarrow> nat \<Rightarrow> bool" where
  find_replay: "idem_move (Some (h, Some b)) (Looking h) (Some (h, Some b)) (Answered b) 0 0"
| find_reject: "row = Some (h', x) \<Longrightarrow> h' \<noteq> h \<or> x = None \<Longrightarrow> idem_move row (Looking h) row Rejected 0 0"
| find_miss: "idem_move None (Looking h) None (Inserting h) 0 0"
| find_fail: "idem_move row (Looking h) row Rejected 0 0"
| insert_ok: "idem_move None (Inserting h) (Some (h, None)) (Handling h) 0 0"
| insert_taken: "idem_move (Some x) (Inserting h) (Some x) Rejected 0 0"
| insert_fail: "idem_move row (Inserting h) row Rejected 0 0"
| insert_unanswered: "idem_move None (Inserting h) (Some (h, None)) Rejected 0 0"
| handler_ok: "idem_move row (Handling h) row (Saving h b) 1 0"
| handler_fail: "idem_move row (Handling h) row Dropping 0 0"
| save_ok: "idem_move (Some (h', x)) (Saving h b) (Some (h', Some b)) (Answered b) 0 0"
| save_fail: "idem_move row (Saving h b) row Dropping 0 1"
| save_unanswered: "idem_move (Some (h', x)) (Saving h b) (Some (h', Some b)) Dropping 0 1"
| drop_ok: "idem_move row Dropping None Rejected 0 0"
| drop_fail: "idem_move row Dropping row Rejected 0 0"

inductive_cases move_Looking: "idem_move row (Looking h) row' t r l"
inductive_cases move_Inserting: "idem_move row (Inserting h) row' t r l"
inductive_cases move_Handling: "idem_move row (Handling h) row' t r l"
inductive_cases move_Saving: "idem_move row (Saving h b) row' t r l"
inductive_cases move_Dropping: "idem_move row Dropping row' t r l"
inductive_cases move_Answered: "idem_move row (Answered b) row' t r l"
inductive_cases move_Rejected: "idem_move row Rejected row' t r l"

inductive idem_step :: "idem_state \<Rightarrow> idem_state \<Rightarrow> bool" where
  idem_thread: "i < length (is_threads s) \<Longrightarrow>
    idem_move (is_row s) (is_threads s ! i) row t r l \<Longrightarrow>
    idem_step s \<lparr>is_row = row, is_threads = (is_threads s)[i := t],
                 is_runs = is_runs s + r, is_lost = is_lost s + l\<rparr>"
| idem_arrive: "idem_step s (s\<lparr>is_threads := is_threads s @ [Looking h]\<rparr>)"

inductive idem_reachable :: "idem_state \<Rightarrow> bool" where
  idem_init: "idem_reachable \<lparr>is_row = None, is_threads = [], is_runs = 0, is_lost = 0\<rparr>"
| idem_more: "idem_reachable s \<Longrightarrow> idem_step s t \<Longrightarrow> idem_reachable t"

section \<open>The invariant\<close>

text \<open>A thread owns the row between its insert and its completion or deletion.\<close>

fun owns :: "idem_thread \<Rightarrow> bool" where
  "owns (Handling h) = True" | "owns (Saving h b) = True" | "owns Dropping = True" | "owns _ = False"

fun may_save :: "idem_thread \<Rightarrow> bool" where
  "may_save (Saving h b) = True" | "may_save _ = False"

fun working :: "idem_thread \<Rightarrow> bool" where
  "working (Handling h) = True" | "working (Saving h b) = True" | "working _ = False"

definition completed :: "(string \<times> json option) option \<Rightarrow> bool" where
  "completed row = (case row of Some (_, Some _) \<Rightarrow> True | _ \<Rightarrow> False)"

definition sole_owner :: "idem_thread list \<Rightarrow> bool" where
  "sole_owner ts \<longleftrightarrow>
     (\<forall>i<length ts. \<forall>j<length ts. owns (ts ! i) \<longrightarrow> owns (ts ! j) \<longrightarrow> i = j)"

definition some_thread :: "(idem_thread \<Rightarrow> bool) \<Rightarrow> idem_thread list \<Rightarrow> bool" where
  "some_thread P ts \<longleftrightarrow> (\<exists>i<length ts. P (ts ! i))"

definition idem_inv ::
  "(string \<times> json option) option \<Rightarrow> idem_thread list \<Rightarrow> nat \<Rightarrow> nat \<Rightarrow> bool" where
  "idem_inv row ts runs lost \<longleftrightarrow>
     sole_owner ts \<and>
     (some_thread owns ts \<longrightarrow> row \<noteq> None) \<and>
     (some_thread working ts \<longrightarrow> \<not> completed row) \<and>
     (lost = 0 \<and> completed row \<longrightarrow> \<not> some_thread owns ts) \<and>
     runs \<le> lost + 1 \<and>
     (some_thread (\<lambda>t. t = Dropping) ts \<longrightarrow> runs \<le> lost) \<and>
     (\<not> completed row \<and> \<not> some_thread may_save ts \<longrightarrow> runs \<le> lost) \<and>
     (lost = 0 \<longrightarrow> (\<forall>b. some_thread (\<lambda>t. t = Answered b) ts \<longrightarrow> (\<exists>h. row = Some (h, Some b))))"

text \<open>Replacing one thread.\<close>

lemma some_thread_update:
  assumes "i < length ts"
  shows "some_thread P (ts[i := t]) \<longleftrightarrow> P t \<or> (\<exists>j<length ts. j \<noteq> i \<and> P (ts ! j))"
  using assms by (auto simp: some_thread_def nth_list_update)

lemma some_thread_at: "i < length ts \<Longrightarrow> some_thread P ts \<longleftrightarrow>
    P (ts ! i) \<or> (\<exists>j<length ts. j \<noteq> i \<and> P (ts ! j))"
  by (auto simp: some_thread_def)

lemma sole_owner_keep:
  assumes "i < length ts" and "sole_owner ts" and "owns t \<longrightarrow> owns (ts ! i) \<or> \<not> some_thread owns ts"
  shows "sole_owner (ts[i := t])"
  using assms by (auto simp: sole_owner_def some_thread_def nth_list_update)

lemma sole_owner_others:
  "sole_owner ts \<Longrightarrow> i < length ts \<Longrightarrow> owns (ts ! i) \<Longrightarrow> j < length ts \<Longrightarrow> j \<noteq> i \<Longrightarrow> \<not> owns (ts ! j)"
  by (auto simp: sole_owner_def)

lemma may_save_owns: "may_save t \<Longrightarrow> owns t" "working t \<Longrightarrow> owns t"
  by (cases t; simp)+

text \<open>The invariant with one thread taken apart: the others are summarised by what they may be.\<close>

lemma idem_inv_at:
  assumes "i < length ts" and "idem_inv row ts runs lost" and "owns (ts ! i)"
  shows "\<not> (\<exists>j<length ts. j \<noteq> i \<and> owns (ts ! j))"
    and "\<not> (\<exists>j<length ts. j \<noteq> i \<and> may_save (ts ! j))"
    and "\<not> (\<exists>j<length ts. j \<noteq> i \<and> working (ts ! j))"
    and "\<not> (\<exists>j<length ts. j \<noteq> i \<and> ts ! j = Dropping)"
proof -
  have s: "sole_owner ts" using assms(2) by (simp add: idem_inv_def)
  note no = sole_owner_others[OF s assms(1,3)]
  then show "\<not> (\<exists>j<length ts. j \<noteq> i \<and> owns (ts ! j))" by blast
  then show "\<not> (\<exists>j<length ts. j \<noteq> i \<and> may_save (ts ! j))"
    and "\<not> (\<exists>j<length ts. j \<noteq> i \<and> working (ts ! j))" using may_save_owns by blast+
  show "\<not> (\<exists>j<length ts. j \<noteq> i \<and> ts ! j = Dropping)" using no by (metis owns.simps(3))
qed

text \<open>The step itself: \<open>w\<close>, \<open>m\<close>, \<open>d\<close> and \<open>a\<close> say what the other threads are.\<close>

definition view_inv ::
  "(string \<times> json option) option \<Rightarrow> idem_thread \<Rightarrow> bool \<Rightarrow> bool \<Rightarrow> bool \<Rightarrow> bool \<Rightarrow> (json \<Rightarrow> bool) \<Rightarrow>
     nat \<Rightarrow> nat \<Rightarrow> bool" where
  "view_inv row u w k m d a runs lost \<longleftrightarrow>
     (owns u \<or> w \<longrightarrow> row \<noteq> None) \<and>
     (working u \<or> k \<longrightarrow> \<not> completed row) \<and>
     (lost = 0 \<and> completed row \<longrightarrow> \<not> (owns u \<or> w)) \<and>
     runs \<le> lost + 1 \<and>
     (u = Dropping \<or> d \<longrightarrow> runs \<le> lost) \<and>
     (\<not> completed row \<and> \<not> (may_save u \<or> m) \<longrightarrow> runs \<le> lost) \<and>
     (lost = 0 \<longrightarrow> (\<forall>b. u = Answered b \<or> a b \<longrightarrow> (\<exists>h. row = Some (h, Some b))))"

lemma completed_simps [simp]:
  "completed (Some (h, Some b))" "\<not> completed (Some (h, None))" "\<not> completed None"
  by (simp_all add: completed_def)

lemma completedI: "row = Some (h, Some b) \<Longrightarrow> completed row"
  by simp

lemma view_inv_move:
  assumes "idem_move row u row' t r l" and "owns u \<Longrightarrow> \<not> w \<and> \<not> k \<and> \<not> m \<and> \<not> d"
    and "view_inv row u w k m d a runs lost" and "m \<Longrightarrow> w" and "d \<Longrightarrow> w" and "k \<Longrightarrow> w"
  shows "view_inv row' t w k m d a (runs + r) (lost + l)"
  using assms(1)
proof (cases rule: idem_move.cases)
  case (save_ok h' x h b)
  have "x = None" using assms(3) save_ok by (cases x) (simp_all add: view_inv_def)
  with assms(2-) save_ok show ?thesis by (simp add: view_inv_def)
next
  case (save_unanswered h' x h b)
  have "x = None" using assms(3) save_unanswered by (cases x) (simp_all add: view_inv_def)
  with assms(2-) save_unanswered show ?thesis by (simp add: view_inv_def)
next
  case drop_ok
  from assms(3) drop_ok have "lost = 0 \<longrightarrow> \<not> completed row"
    and "lost = 0 \<longrightarrow> (\<forall>b. a b \<longrightarrow> (\<exists>h. row = Some (h, Some b)))"
    by (simp_all add: view_inv_def) auto
  then have "lost = 0 \<longrightarrow> (\<forall>b. \<not> a b)" by (metis completed_simps(1))
  with assms(2-) drop_ok show ?thesis by (simp add: view_inv_def)
qed (use assms(2-) in \<open>(simp add: view_inv_def)+\<close>)

lemma idem_inv_move:
  assumes "i < length ts" and "idem_move row (ts ! i) row' t r l" and "idem_inv row ts runs lost"
  shows "idem_inv row' (ts[i := t]) (runs + r) (lost + l)"
proof -
  define w where "w \<longleftrightarrow> (\<exists>j<length ts. j \<noteq> i \<and> owns (ts ! j))"
  define k where "k \<longleftrightarrow> (\<exists>j<length ts. j \<noteq> i \<and> working (ts ! j))"
  define m where "m \<longleftrightarrow> (\<exists>j<length ts. j \<noteq> i \<and> may_save (ts ! j))"
  define d where "d \<longleftrightarrow> (\<exists>j<length ts. j \<noteq> i \<and> ts ! j = Dropping)"
  define a where "a b \<longleftrightarrow> (\<exists>j<length ts. j \<noteq> i \<and> ts ! j = Answered b)" for b
  note fold = w_def[symmetric] k_def[symmetric] m_def[symmetric] d_def[symmetric] a_def[symmetric]
  have split: "idem_inv row'' (ts[i := u]) runs' lost' \<longleftrightarrow>
      sole_owner (ts[i := u]) \<and> view_inv row'' u w k m d a runs' lost'" for row'' u runs' lost'
    unfolding idem_inv_def view_inv_def some_thread_update[OF assms(1)] fold by blast
  have own: "owns (ts ! i) \<Longrightarrow> \<not> w \<and> \<not> k \<and> \<not> m \<and> \<not> d"
    using idem_inv_at[OF assms(1,3)] unfolding fold by blast
  have kw: "k \<Longrightarrow> w" unfolding k_def w_def using may_save_owns(2) by blast
  have mw: "m \<Longrightarrow> w" unfolding m_def w_def using may_save_owns(1) by blast
  have dw: "d \<Longrightarrow> w" unfolding d_def w_def by (metis owns.simps(3))
  have now: "sole_owner ts" "view_inv row (ts ! i) w k m d a runs lost"
    using assms(3) split[of row "ts ! i" runs lost] by simp_all
  have "owns t \<longrightarrow> owns (ts ! i) \<or> \<not> some_thread owns ts"
    using assms(2,3) by (auto simp: idem_inv_def elim: idem_move.cases)
  then have "sole_owner (ts[i := t])" using sole_owner_keep[OF assms(1) now(1)] by blast
  with split view_inv_move[OF assms(2) own now(2) mw dw kw] show ?thesis by simp
qed

lemma idem_inv_arrive:
  assumes "idem_inv row ts runs lost"
  shows "idem_inv row (ts @ [Looking h]) runs lost"
proof -
  have "some_thread P (ts @ [Looking h]) \<longleftrightarrow> some_thread P ts" if "\<not> P (Looking h)" for P
    using that by (auto simp: some_thread_def nth_append less_Suc_eq)
  moreover have "sole_owner (ts @ [Looking h])"
    using assms by (auto simp: idem_inv_def sole_owner_def nth_append less_Suc_eq)
  ultimately show ?thesis using assms by (simp add: idem_inv_def)
qed

lemma idem_reachable_inv:
  "idem_reachable s \<Longrightarrow> idem_inv (is_row s) (is_threads s) (is_runs s) (is_lost s)"
proof (induction rule: idem_reachable.induct)
  case idem_init
  show ?case by (simp add: idem_inv_def sole_owner_def some_thread_def completed_def)
next
  case (idem_more s t)
  from idem_more.hyps(2) show ?case
  proof (cases rule: idem_step.cases)
    case (idem_thread i row t' r l)
    with idem_inv_move idem_more.IH show ?thesis by simp
  next
    case (idem_arrive h)
    with idem_inv_arrive idem_more.IH show ?thesis by simp
  qed
qed

end
