(* ===== verification/IdempotencyProperties.thy ===== *)
theory IdempotencyProperties
  imports IdempotencyRace
begin

text \<open>
  The properties of the idempotency interceptor: one handler per key under any interleaving,
  the replay of the first answer, and what is left of both when a completion is lost.
\<close>

lemma find_update_where:
  assumes "\<And>r. P r \<Longrightarrow> P (f r)"
  shows "List.find P (update_where P f rows) = map_option f (List.find P rows)"
  using assms by (induction rows) auto

lemma find_filter_not: "List.find P (filter (\<lambda>r. \<not> P r) rows) = None"
  by (simp add: find_None_conv)

lemma to_json_inject [simp]: "to_json a = to_json b \<longleftrightarrow> a = b"
  by (metis option.inject parse_json_to_json)

lemma hash_same:
  "inj digest \<Longrightarrow> hash_request digest rq = hash_request digest rq' \<longleftrightarrow> request_payload rq = request_payload rq'"
  by (simp add: hash_request_def inj_eq)

text \<open>A call that gets past the key and the principal.\<close>

definition scoped :: "idem_env \<Rightarrow> idem_request \<Rightarrow> string \<Rightarrow> string \<Rightarrow> bool" where
  "scoped env rq p k \<longleftrightarrow> extract_key (ie_config env) (iq_keyHeader rq) = Inr k \<and> hq_principalId rq = Some p"

lemma handle_scoped:
  assumes "scoped env rq p k" and "ie_findFault env = None"
  shows "handle_idempotent env hc rq handler rows h =
     (case find_record p k rows of
        Some existing \<Rightarrow> (replay_record existing (hash_request (ie_digest env) rq) k, rows, h)
      | None \<Rightarrow>
          (case begin_processing env p k rq rows of
             (Inl e, rows') \<Rightarrow> (Inl e, rows', h)
           | (Inr _, rows') \<Rightarrow>
               run_handler env p k (resolve_status_code hc (hq_method rq)) handler rows' h))"
  using assms by (simp add: handle_idempotent_def scoped_def idem_principal_def)

lemma begin_ok:
  assumes "begin_processing env p k rq rows = (Inr u, rows')"
  shows "rows' = rows @ [new_record env p k rq]" and "find_record p k rows = None"
proof -
  obtain r where "run_tx (ie_createFault env) (create_record (new_record env p k rq)) rows = (Inr r, rows')"
    using assms by (auto simp: begin_processing_def split: prod.splits sum.splits exn.splits)
  from run_tx_return[OF this]
  show "rows' = rows @ [new_record env p k rq]" and "find_record p k rows = None"
    by (auto simp: create_record_def new_record_def split: if_splits)
qed

lemma find_new:
  "find_record p k rows = None \<Longrightarrow>
   find_record p k (rows @ [new_record env p k rq]) = Some (new_record env p k rq)"
  by (simp add: find_record_def find_append is_record_def new_record_def)

lemma completed_find:
  assumes "complete_record p k code result rows = Inr (u, rows')" and "find_record p k rows = Some r"
  shows "find_record p k rows' =
     Some (r\<lparr>ir_status := Completed, ir_statusCode := Some code, ir_responseBody := result\<rparr>)"
proof -
  have "rows' = update_where (is_record p k)
      (\<lambda>r. r\<lparr>ir_status := Completed, ir_statusCode := Some code, ir_responseBody := result\<rparr>) rows"
    using assms by (simp add: complete_record_def)
  with assms(2) show ?thesis
    using find_update_where[of "is_record p k"
        "\<lambda>r. r\<lparr>ir_status := Completed, ir_statusCode := Some code, ir_responseBody := result\<rparr>" rows]
    by (simp add: find_record_def is_record_def)
qed

text \<open>After a successful call the key holds its completed row.\<close>

lemma success_is_stored:
  assumes "scoped env rq p k" and "ie_findFault env = None"
    and "handle_idempotent env hc rq handler rows h = (Inr b, rows', h')"
  obtains r where "find_record p k rows' = Some r" and "ir_status r = Completed"
    and "ir_requestHash r = hash_request (ie_digest env) rq" and "ir_responseBody r = b"
    and "find_record p k rows = None \<Longrightarrow> ir_expiresAt r = ie_now env + ic_ttlSeconds (ie_config env) * 1000"
proof (cases "find_record p k rows")
  case (Some existing)
  with assms(3) handle_scoped[OF assms(1,2), of hc handler rows h]
  have "replay_record existing (hash_request (ie_digest env) rq) k = Inr b" "rows' = rows" by simp_all
  with Some that show thesis by (auto simp: replay_record_def split: if_splits)
next
  case None
  then obtain u rows1 where 1: "begin_processing env p k rq rows = (Inr u, rows1)"
    and 2: "run_handler env p k (resolve_status_code hc (hq_method rq)) handler rows1 h = (Inr b, rows', h')"
    using assms(3) handle_scoped[OF assms(1,2), of hc handler rows h]
    by (auto split: prod.splits sum.splits)
  obtain u' where "run_tx (ie_updateFault env)
      (complete_record p k (resolve_status_code hc (hq_method rq)) b) rows1 = (Inr u', rows')"
    using 2 by (auto simp: run_handler_def split: prod.splits sum.splits)
  from that[OF completed_find[OF run_tx_return[OF this]]] find_new[OF begin_ok(2)[OF 1]] begin_ok(1)[OF 1]
  show thesis by (simp add: new_record_def)
qed

text \<open>
  What a completed row answers, by its hash alone: the clock is an argument that nothing reads.
\<close>

lemma completed_row_answers:
  assumes "scoped env rq p k" and "ie_findFault env = None" and "find_record p k rows = Some r"
    and "ir_status r = Completed"
  shows "handle_idempotent env hc rq handler rows h =
    (if ir_requestHash r = hash_request (ie_digest env) rq then Inr (ir_responseBody r)
     else Inl (key_reused k), rows, h)"
  using assms(3,4) by (simp add: handle_scoped[OF assms(1,2)] replay_record_def)

text \<open>
  So a row past its expiry is replayed like any other, where the documentation promises that the
  key counts as new.
\<close>

lemma expired_row_still_replays:
  assumes "scoped env rq p k" and "ie_findFault env = None" and "find_record p k rows = Some r"
    and "ir_status r = Completed" and "ir_requestHash r = hash_request (ie_digest env) rq"
    and "ir_expiresAt r \<le> ie_now env"
  shows "handle_idempotent env hc rq handler rows h = (Inr (ir_responseBody r), rows, h)"
  using completed_row_answers[OF assms(1-4)] assms(5) by simp

section \<open>A demonstration call\<close>

definition demo_idem :: "tx_fault \<Rightarrow> idem_env" where
  "demo_idem update =
     \<lparr>ie_config = \<lparr>ic_ttlSeconds = 60, ic_keyMaxLength = 128\<rparr>, ie_digest = (\<lambda>s. s), ie_now = 0,
      ie_findFault = None, ie_createFault = Tx_ok, ie_updateFault = update, ie_deleteFault = Tx_ok\<rparr>"

definition demo_request :: "json \<Rightarrow> idem_request" where
  "demo_request body =
     \<lparr>hq_method = ''POST'', hq_originalUrl = Some ''/o'', hq_url = None, hq_id = None, hq_ip = None,
      hq_routePath = None, hq_principalId = Some ''u'', iq_keyHeader = Header_one ''key-1'',
      iq_body = Some body\<rparr>"

text \<open>A handler that counts its runs.\<close>

definition demo_handler :: "nat \<Rightarrow> (exn + json) \<times> nat" where
  "demo_handler n = (Inr (JBool True), Suc n)"

lemma demo_scoped: "scoped (demo_idem f) (demo_request b) ''u'' ''key-1''"
  by (simp add: scoped_def demo_idem_def demo_request_def extract_key_def trim_def is_space_def)

lemma demo_faults [simp]:
  "ie_findFault (demo_idem f) = None" "ie_createFault (demo_idem f) = Tx_ok"
  "ie_updateFault (demo_idem f) = f" "ie_deleteFault (demo_idem f) = Tx_ok"
  "ie_digest (demo_idem f) = (\<lambda>s. s)"
  by (simp_all add: demo_idem_def)

section \<open>Properties\<close>

text \<open>C30.
  Under any interleaving of requests with one principal and one key, and whatever statements
  fail, at most one thread at a time holds the row between its insert and its completion or
  deletion; the handlers that have returned exceed the completions reported as failed by at
  most one; and as long as no completion has failed, at most one handler has ever returned and
  every answer given is the same.
\<close>

theorem one_handler_per_key:
  assumes "idem_reachable s"
  shows "sole_owner (is_threads s) \<and> is_runs s \<le> is_lost s + 1 \<and>
         (is_lost s = 0 \<longrightarrow>
            is_runs s \<le> 1 \<and>
            (\<forall>b b'. Answered b \<in> set (is_threads s) \<and> Answered b' \<in> set (is_threads s) \<longrightarrow> b = b'))"
proof -
  have inv: "idem_inv (is_row s) (is_threads s) (is_runs s) (is_lost s)"
    by (rule idem_reachable_inv[OF assms])
  have "b = b'" if "is_lost s = 0" "Answered b \<in> set (is_threads s)" "Answered b' \<in> set (is_threads s)"
    for b b'
  proof -
    have "some_thread (\<lambda>t. t = Answered b) (is_threads s)" "some_thread (\<lambda>t. t = Answered b') (is_threads s)"
      using that(2,3) unfolding some_thread_def by (metis in_set_conv_nth)+
    with inv that(1) obtain h h' where "is_row s = Some (h, Some b)" "is_row s = Some (h', Some b')"
      unfolding idem_inv_def by meson
    then show ?thesis by simp
  qed
  with inv show ?thesis by (auto simp: idem_inv_def)
qed

definition one_answer :: idem_state where
  "one_answer = \<lparr>is_row = Some (''h'', Some JNull), is_threads = [Answered JNull, Looking ''h''],
     is_runs = 1, is_lost = 0\<rparr>"

lemma step_thread:
  assumes "idem_reachable s" and "i < length (is_threads s)"
    and "idem_move (is_row s) (is_threads s ! i) row t r l"
    and "s' = \<lparr>is_row = row, is_threads = (is_threads s)[i := t], is_runs = is_runs s + r,
                is_lost = is_lost s + l\<rparr>"
  shows "idem_reachable s'"
  unfolding assms(4) by (rule idem_more[OF assms(1) idem_thread[OF assms(2,3)]])

lemma one_answer_reachable: "idem_reachable one_answer"
proof -
  let ?s = "\<lambda>row ts n. \<lparr>is_row = row, is_threads = ts, is_runs = n, is_lost = 0\<rparr>"
  have "idem_reachable (?s None [Looking ''h''] 0)"
    using idem_more[OF idem_init idem_arrive[of _ "''h''"]] by simp
  then have "idem_reachable (?s None [Looking ''h'', Looking ''h''] 0)"
    using idem_more[OF _ idem_arrive[of _ "''h''"]] by fastforce
  then have "idem_reachable (?s None [Inserting ''h'', Looking ''h''] 0)"
    by (rule step_thread[where i=0]) (auto intro: find_miss)
  then have "idem_reachable (?s (Some (''h'', None)) [Handling ''h'', Looking ''h''] 0)"
    by (rule step_thread[where i=0]) (auto intro: insert_ok)
  then have "idem_reachable (?s (Some (''h'', None)) [Saving ''h'' JNull, Looking ''h''] 1)"
    by (rule step_thread[where i=0]) (auto intro: handler_ok[unfolded One_nat_def])
  then show ?thesis unfolding one_answer_def
    by (rule step_thread[where i=0]) (auto intro: save_ok)
qed

theorem one_handler_per_key_witness:
  "is_runs one_answer \<le> 1 \<and> Answered JNull \<in> set (is_threads one_answer)"
  using one_handler_per_key[OF one_answer_reachable] by (simp add: one_answer_def)

text \<open>C31.
  A retry replays the first answer, as long as its record lasts. A call that has returned has
  left a completed row, which expires one configured lifetime after the call that created it
  (this call itself, under a key without a row); and until then every later call of the same
  principal under that key that reaches the table answers without running its handler and
  without writing: with the first answer when method, path and body are the same, with
  \<open>IDEMPOTENCY_KEY_REUSE\<close> when they are not, provided that the digests of these two requests do
  not collide. Past the expiry the documentation wants a new execution; the code goes on
  replaying, as the lemma \<open>expired_row_still_replays\<close> states.
\<close>

theorem retry_replays_the_first_answer:
  assumes "scoped env rq p k" and "ie_findFault env = None"
    and "handle_idempotent env hc rq handler rows h = (Inr b, rows1, h1)"
    and "scoped env' rq' p k" and "ie_findFault env' = None" and "ie_digest env' = ie_digest env"
    and "hash_request (ie_digest env) rq' = hash_request (ie_digest env) rq \<longrightarrow>
           request_payload rq' = request_payload rq"
  shows "\<exists>r. find_record p k rows1 = Some r \<and>
    (find_record p k rows = None \<longrightarrow>
       ir_expiresAt r = ie_now env + ic_ttlSeconds (ie_config env) * 1000) \<and>
    (ie_now env' < ir_expiresAt r \<longrightarrow>
       handle_idempotent env' hc' rq' handler' rows1 h2 =
         (if request_payload rq' = request_payload rq then Inr b else Inl (key_reused k), rows1, h2))"
proof -
  obtain r where r: "find_record p k rows1 = Some r" "ir_status r = Completed"
    "ir_requestHash r = hash_request (ie_digest env) rq" "ir_responseBody r = b"
    "find_record p k rows = None \<Longrightarrow> ir_expiresAt r = ie_now env + ic_ttlSeconds (ie_config env) * 1000"
    using success_is_stored[OF assms(1-3)] by blast
  have "ir_requestHash r = hash_request (ie_digest env') rq' \<longleftrightarrow> request_payload rq' = request_payload rq"
    using assms(6,7) r(3) by (auto simp: hash_request_def)
  with completed_row_answers[OF assms(4,5) r(1,2), of hc' handler' h2] r show ?thesis by auto
qed

text \<open>The first call at time 0, the others 59.999 seconds later, of a lifetime of 60 seconds.\<close>

definition late_idem :: idem_env where
  "late_idem = (demo_idem Tx_ok)\<lparr>ie_now := 59999\<rparr>"

theorem retry_replays_the_first_answer_witness:
  "fst (handle_idempotent late_idem (None, None) (demo_request (JNum 1)) demo_handler
      (fst (snd (handle_idempotent (demo_idem Tx_ok) (None, None) (demo_request (JNum 1)) demo_handler [] 0)))
      1) = Inr (JBool True) \<and>
   fst (handle_idempotent late_idem (None, None) (demo_request (JNum 2)) demo_handler
      (fst (snd (handle_idempotent (demo_idem Tx_ok) (None, None) (demo_request (JNum 1)) demo_handler [] 0)))
      1) = Inl (key_reused ''key-1'')"
proof -
  let ?call = "handle_idempotent (demo_idem Tx_ok) (None, None) (demo_request (JNum 1)) demo_handler [] (0::nat)"
  have "fst ?call = Inr (JBool True)" by code_simp
  then have first: "?call = (Inr (JBool True), fst (snd ?call), snd (snd ?call))" by (metis prod.collapse)
  have late: "scoped late_idem (demo_request b) ''u'' ''key-1''" "ie_findFault late_idem = None"
    "ie_digest late_idem = ie_digest (demo_idem Tx_ok)" "ie_now late_idem = 59999" for b
    using demo_scoped[of Tx_ok b] by (simp_all add: late_idem_def scoped_def demo_idem_def)
  have ttl: "ie_now (demo_idem Tx_ok) + ic_ttlSeconds (ie_config (demo_idem Tx_ok)) * 1000 = 60000"
    "find_record ''u'' ''key-1'' [] = None"
    by (simp_all add: demo_idem_def find_record_def)
  have apart: "hash_request (ie_digest (demo_idem Tx_ok)) (demo_request b) =
      hash_request (ie_digest (demo_idem Tx_ok)) (demo_request (JNum 1)) \<longrightarrow>
      request_payload (demo_request b) = request_payload (demo_request (JNum 1))" for b
    by (simp add: hash_same inj_def)
  note retry = retry_replays_the_first_answer[OF demo_scoped _ first late(1-3) apart,
      where hc' = "(None, None)" and handler' = demo_handler]
  show ?thesis
    using retry[of "JNum 1" 1] retry[of "JNum 2" 1] ttl late(4)
    by (auto simp: request_payload_def demo_request_def)
qed

text \<open>C32.
  A completion that fails after a handler that succeeded runs the handler again. The row is
  dropped as if the handler had failed, the caller sees the database error, and the retry
  that follows runs the handler once more, so its effects are applied twice.
\<close>

theorem lost_completion_runs_twice:
  assumes "scoped env rq p k" and "ie_findFault env = None" and "find_record p k rows = None"
    and "ie_createFault env = Tx_ok" and "ie_updateFault env = Tx_lost e" and "ie_deleteFault env = Tx_ok"
    and "scoped env' rq p k" and "ie_findFault env' = None"
    and "ie_createFault env' = Tx_ok" and "ie_updateFault env' = Tx_ok"
    and "handler h = (Inr b, h1)" and "handler h1 = (Inr b', h2)"
  shows "\<exists>rows1 rows2.
           handle_idempotent env hc rq handler rows h = (Inl e, rows1, h1) \<and>
           handle_idempotent env' hc rq handler rows1 h1 = (Inr b', rows2, h2)"
proof -
  let ?n = "new_record env p k rq" and ?n' = "new_record env' p k rq"
  let ?code = "resolve_status_code hc (hq_method rq)"
  let ?rows1 = "filter (\<lambda>r. \<not> is_record p k r) (rows @ [?n])"
  have ids: "ir_principalId (new_record en p k rq) = p" "ir_key (new_record en p k rq) = k" for en
    by (simp_all add: new_record_def)
  have insert: "begin_processing en p k rq rs = (Inr (), rs @ [new_record en p k rq])"
    if "find_record p k rs = None" "ie_createFault en = Tx_ok" for en rs
    using that by (simp add: begin_processing_def create_record_def ids)
  have "run_handler env p k ?code handler (rows @ [?n]) h = (Inl e, ?rows1, h1)"
    using assms(5,6,11) find_new[OF assms(3), of env rq]
    by (simp add: run_handler_def run_tx_def complete_record_def drop_record_def delete_record_def)
  then have one: "handle_idempotent env hc rq handler rows h = (Inl e, ?rows1, h1)"
    using handle_scoped[OF assms(1,2), of hc handler rows h] assms(3) insert[OF assms(3,4)] by simp
  have gone: "find_record p k ?rows1 = None" unfolding find_record_def by (rule find_filter_not)
  obtain rows2 where "complete_record p k ?code b' (?rows1 @ [?n']) = Inr ((), rows2)"
    using find_new[OF gone, of env' rq] by (simp add: complete_record_def)
  then have "run_handler env' p k ?code handler (?rows1 @ [?n']) h1 = (Inr b', rows2, h2)"
    using assms(10,12) by (simp add: run_handler_def)
  then have "handle_idempotent env' hc rq handler ?rows1 h1 = (Inr b', rows2, h2)"
    using handle_scoped[OF assms(7,8), of hc handler ?rows1 h1] gone insert[OF gone assms(9)] by simp
  with one show ?thesis by blast
qed

text \<open>
  The expiry that is written is never read: a row left in processing answers every later call
  under its key with a conflict, at any time.
\<close>

lemma processing_row_never_expires:
  assumes "scoped env rq p k" and "ie_findFault env = None"
    and "find_record p k rows = Some r" and "ir_status r = Processing"
    and "ir_requestHash r = hash_request (ie_digest env) rq"
  shows "handle_idempotent env hc rq handler rows h = (Inl (already_processing k), rows, h)"
  using assms(3-) handle_scoped[OF assms(1,2), of hc handler rows h] by (simp add: replay_record_def)

theorem lost_completion_runs_twice_witness:
  "\<exists>rows1 rows2.
     handle_idempotent (demo_idem (Tx_lost (OtherExn ''gone''))) (None, None) (demo_request JNull)
       demo_handler [] 0 = (Inl (OtherExn ''gone''), rows1, 1) \<and>
     handle_idempotent (demo_idem Tx_ok) (None, None) (demo_request JNull) demo_handler rows1 1 =
       (Inr (JBool True), rows2, 2)"
  by (rule lost_completion_runs_twice[OF demo_scoped _ _ _ _ _ demo_scoped])
    (simp_all add: find_record_def demo_handler_def)

end
