(* ===== verification/Authorization.thy ===== *)
theory Authorization
  imports Json Redis RequestContext Database
begin

text \<open>
  Who the caller is and what they may do: the authentication guard (\<open>src/modules/auth\<close>), the
  permission vocabulary, the resolver with its versioned cache and the permissions guard
  (\<open>src/modules/authorization\<close>).

  Better Auth resolves a session from the headers and is an argument, as are the clock and the
  Redis client. Rows are the lists of the tables in insertion order. Log lines are left out.
\<close>

section \<open>Authentication\<close>

record auth_principal =
  apr_id :: string
  apr_email :: string
  apr_name :: string
  apr_emailVerified :: bool
  apr_twoFactorEnabled :: bool

record resolved_session =
  ses_user :: auth_principal
  ses_sessionId :: string
  ses_expiresAt :: int

text \<open>What \<open>auth.api.getSession\<close> returns: a user, whose two-factor flag may be absent, and a session.\<close>

record library_user =
  lu_id :: string
  lu_email :: string
  lu_name :: string
  lu_emailVerified :: bool
  lu_twoFactorEnabled :: "bool option"

definition to_principal :: "library_user \<Rightarrow> auth_principal" where
  "to_principal u =
     \<lparr>apr_id = lu_id u, apr_email = lu_email u, apr_name = lu_name u,
      apr_emailVerified = lu_emailVerified u,
      apr_twoFactorEnabled = (case lu_twoFactorEnabled u of Some b \<Rightarrow> b | None \<Rightarrow> False)\<rparr>"

definition resolve_session ::
  "('rq \<Rightarrow> exn + (library_user \<times> string \<times> int) option) \<Rightarrow> 'rq \<Rightarrow> exn + resolved_session option" where
  "resolve_session getSession rq =
     (case getSession rq of
        Inl e \<Rightarrow> Inl e
      | Inr None \<Rightarrow> Inr None
      | Inr (Some (u, sid, expires)) \<Rightarrow>
          Inr (Some \<lparr>ses_user = to_principal u, ses_sessionId = sid, ses_expiresAt = expires\<rparr>))"

definition authentication_required :: exn where
  "authentication_required = api_error 401 UNAUTHORIZED ''Authentication required.''"

text \<open>
  \<open>AuthGuard.canActivate\<close>: what it returns, the principal it leaves on the request, and the
  store it annotates.
\<close>

definition auth_guard ::
  "('rq \<Rightarrow> exn + (library_user \<times> string \<times> int) option) \<Rightarrow> bool \<Rightarrow> bool option \<times> bool option \<Rightarrow> 'rq \<Rightarrow>
     request_context \<Rightarrow> (exn + bool) \<times> auth_principal option \<times> request_context" where
  "auth_guard getSession http public rq ctx =
     (if \<not> http then (Inr True, None, ctx)
      else if case_prod get_all_and_override public = Some True then (Inr True, None, ctx)
      else
        (case resolve_session getSession rq of
           Inl e \<Rightarrow> (Inl e, None, ctx)
         | Inr None \<Rightarrow> (Inl authentication_required, None, ctx)
         | Inr (Some s) \<Rightarrow>
             (if \<not> apr_emailVerified (ses_user s) then
                (Inl (api_error 403 EMAIL_NOT_VERIFIED
                        ''Verify your email address before using this resource.''), None, ctx)
              else (Inr True, Some (ses_user s), set_user_id (apr_id (ses_user s)) ctx))))"

section \<open>The vocabulary\<close>

definition permission_list :: "string list" where
  "permission_list =
     [''account:read'', ''account:update'', ''account:delete'',
      ''user:read'', ''user:list'', ''user:update'', ''user:delete'',
      ''role:read'', ''role:assign'', ''role:manage'',
      ''admin:metrics:read'', ''admin:audit:read'', ''admin:subscriptions:read'',
      ''admin:credits:read'', ''admin:credits:adjust'',
      ''api-keys:manage'', ''mcp:tools:invoke'']"

definition permission_descriptions :: "(string \<times> string) list" where
  "permission_descriptions =
     [(''account:read'', ''Read your own profile and session list''),
      (''account:update'', ''Update your own profile and credentials''),
      (''account:delete'', ''Delete your own account''),
      (''user:read'', ''Read another user's profile''),
      (''user:list'', ''List users''),
      (''user:update'', ''Update another user's profile''),
      (''user:delete'', ''Delete another user''),
      (''role:read'', ''Read roles and their permissions''),
      (''role:assign'', ''Grant and revoke roles for a user''),
      (''role:manage'', ''Create, edit, and delete roles and their permission mappings''),
      (''admin:metrics:read'', ''Read operational metrics and usage dashboards''),
      (''admin:audit:read'', ''Read admin audit records''),
      (''admin:subscriptions:read'', ''Read another user's subscription and effective plan''),
      (''admin:credits:read'', ''Read another user's credit wallet and ledger''),
      (''admin:credits:adjust'', ''Grant or adjust credits for another user''),
      (''api-keys:manage'', ''Create, list, and revoke your own agent API keys''),
      (''mcp:tools:invoke'', ''Invoke MCP tools as an authenticated agent'')]"

definition role_admin :: string where "role_admin = ''admin''"
definition role_user :: string where "role_user = ''user''"

text \<open>The baseline roles in the order of the object's members: name, description, grants.\<close>

definition baseline_roles :: "(string \<times> string \<times> string list) list" where
  "baseline_roles =
     [(role_user, ''A registered end user, with authority over their own account'',
       [''account:read'', ''account:update'', ''account:delete'', ''api-keys:manage'', ''mcp:tools:invoke'']),
      (role_admin, ''Full administrative access'', permission_list)]"

definition is_permission :: "string \<Rightarrow> bool" where
  "is_permission v \<longleftrightarrow> v \<in> set permission_list"

section \<open>The tables\<close>

record role_row =
  ro_id :: string
  ro_name :: string
  ro_description :: "string option"

record permission_row =
  pe_id :: string
  pe_key :: string
  pe_description :: "string option"

record role_permission_row =
  rp_roleId :: string
  rp_permissionId :: string

record user_role_row =
  ur_userId :: string
  ur_roleId :: string

record access_db =
  ad_roles :: "role_row list"
  ad_permissions :: "permission_row list"
  ad_rolePermissions :: "role_permission_row list"
  ad_userRoles :: "user_role_row list"

record effective_access =
  ea_roles :: "string list"
  ea_permissions :: "string list"

definition role_of :: "access_db \<Rightarrow> user_role_row \<Rightarrow> role_row option" where
  "role_of db a = List.find (\<lambda>r. ro_id r = ur_roleId a) (ad_roles db)"

definition role_keys :: "access_db \<Rightarrow> role_row \<Rightarrow> string list" where
  "role_keys db r =
     map pe_key (List.map_filter
       (\<lambda>m. List.find (\<lambda>p. pe_id p = rp_permissionId m) (ad_permissions db))
       (filter (\<lambda>m. rp_roleId m = ro_id r) (ad_rolePermissions db)))"

text \<open>A \<open>Set\<close> in the order of insertion.\<close>

definition set_add :: "'a \<Rightarrow> 'a list \<Rightarrow> 'a list" where
  "set_add x xs = (if x \<in> set xs then xs else xs @ [x])"

definition read_access :: "access_db \<Rightarrow> string \<Rightarrow> effective_access" where
  "read_access db userId =
     (let rs = List.map_filter (role_of db) (filter (\<lambda>a. ur_userId a = userId) (ad_userRoles db))
      in \<lparr>ea_roles = map ro_name rs,
          ea_permissions = fold set_add (concat (map (role_keys db) rs)) []\<rparr>)"

section \<open>The version marker\<close>

definition permission_version_key :: string where
  "permission_version_key = ''authz:version''"

definition permission_cache_ttl_seconds :: int where
  "permission_cache_ttl_seconds = 300"

text \<open>\<open>Number.parseInt(raw, 10)\<close>: the digits at the start, after white space and a sign; NaN without.\<close>

definition digits_prefix :: "string \<Rightarrow> string" where
  "digits_prefix s = takeWhile (\<lambda>c. digit_of c \<noteq> None) s"

definition parse_int10 :: "string \<Rightarrow> js_number" where
  "parse_int10 raw =
     (let s = dropWhile is_space raw;
          (neg, body) = (case s of c # cs \<Rightarrow> (if c = CHR ''-'' then (True, cs)
                                            else if c = CHR ''+'' then (False, cs) else (False, s))
                         | [] \<Rightarrow> (False, []))
      in case parse_nat (digits_prefix body) of
           None \<Rightarrow> JOther
         | Some n \<Rightarrow> JInt (if neg then - int n else int n))"

definition ensure_version_key :: "'s redis \<Rightarrow> int \<Rightarrow> 's \<Rightarrow> (exn + string) \<times> 's" where
  "ensure_version_key R now s =
     (case rd_set_nx R permission_version_key (show_int now) s of
        (Inl e, s') \<Rightarrow> (Inl e, s')
      | (Inr _, s') \<Rightarrow> (Inr permission_version_key, s'))"

definition read_permission_version :: "'s redis \<Rightarrow> int \<Rightarrow> 's \<Rightarrow> (exn + js_number option) \<times> 's" where
  "read_permission_version R now s =
     (case ensure_version_key R now s of
        (Inl e, s1) \<Rightarrow> (Inl e, s1)
      | (Inr k, s1) \<Rightarrow>
          (case rd_get R k s1 of
             (Inl e, s2) \<Rightarrow> (Inl e, s2)
           | (Inr raw, s2) \<Rightarrow> (Inr (map_option parse_int10 raw), s2)))"

definition advance_permission_version :: "'s redis \<Rightarrow> int \<Rightarrow> 's \<Rightarrow> (exn + int) \<times> 's" where
  "advance_permission_version R now s =
     (case ensure_version_key R now s of
        (Inl e, s1) \<Rightarrow> (Inl e, s1)
      | (Inr k, s1) \<Rightarrow> rd_incr R k s1)"

section \<open>The resolver\<close>

definition version_text :: "js_number \<Rightarrow> string" where
  "version_text v = (case v of JInt n \<Rightarrow> show_int n | JOther \<Rightarrow> ''NaN'')"

definition cache_key :: "string \<Rightarrow> js_number \<Rightarrow> string" where
  "cache_key userId version = ''authz:perm:'' @ userId @ '':'' @ version_text version"

definition access_json :: "effective_access \<Rightarrow> json" where
  "access_json a =
     JObj [(''roles'', JArr (map JStr (ea_roles a))), (''permissions'', JArr (map JStr (ea_permissions a)))]"

fun json_text :: "json \<Rightarrow> string option" where
  "json_text (JStr s) = Some s"
| "json_text _ = None"

definition text_list :: "json option \<Rightarrow> string list option" where
  "text_list j =
     (case j of
        Some (JArr xs) \<Rightarrow>
          (if list_all (\<lambda>x. json_text x \<noteq> None) xs then Some (List.map_filter json_text xs) else None)
      | _ \<Rightarrow> None)"

text \<open>
  A cached text as the guard can use it. Documents that the program does not write (other
  shapes than \<open>access_json\<close>) are outside the model and count as a miss.
\<close>

definition decode_access :: "string \<Rightarrow> effective_access option" where
  "decode_access raw =
     (case parse_json raw of
        Some (JObj ms) \<Rightarrow>
          (case (text_list (map_of ms ''roles''), text_list (map_of ms ''permissions'')) of
             (Some rs, Some ps) \<Rightarrow> Some \<lparr>ea_roles = rs, ea_permissions = ps\<rparr>
           | _ \<Rightarrow> None)
      | _ \<Rightarrow> None)"

definition read_cache ::
  "'s redis \<Rightarrow> string \<Rightarrow> js_number \<Rightarrow> 's \<Rightarrow> effective_access option \<times> 's" where
  "read_cache R userId version s =
     (case rd_get R (cache_key userId version) s of
        (Inl _, s') \<Rightarrow> (None, s')
      | (Inr raw, s') \<Rightarrow> (Option.bind raw decode_access, s'))"

definition write_cache ::
  "'s redis \<Rightarrow> string \<Rightarrow> js_number \<Rightarrow> effective_access \<Rightarrow> 's \<Rightarrow> 's" where
  "write_cache R userId version a s =
     snd (rd_set_ex R (cache_key userId version) (to_json (access_json a))
            permission_cache_ttl_seconds s)"

definition current_version :: "'s redis \<Rightarrow> int \<Rightarrow> 's \<Rightarrow> js_number option \<times> 's" where
  "current_version R now s =
     (case read_permission_version R now s of (Inl _, s') \<Rightarrow> (None, s') | (Inr v, s') \<Rightarrow> (v, s'))"

text \<open>\<open>resolve\<close>; the read of the database is given as its outcome.\<close>

definition resolve_access ::
  "'s redis \<Rightarrow> int \<Rightarrow> (exn + effective_access) \<Rightarrow> string \<Rightarrow> 's \<Rightarrow> (exn + effective_access) \<times> 's" where
  "resolve_access R now database userId s =
     (case current_version R now s of
        (None, s1) \<Rightarrow> (database, s1)
      | (Some version, s1) \<Rightarrow>
          (case read_cache R userId version s1 of
             (Some cached, s2) \<Rightarrow> (Inr cached, s2)
           | (None, s2) \<Rightarrow>
               (case database of
                  Inl e \<Rightarrow> (Inl e, s2)
                | Inr a \<Rightarrow> (Inr a, write_cache R userId version a s2))))"

definition invalidate_access :: "'s redis \<Rightarrow> int \<Rightarrow> 's \<Rightarrow> 's" where
  "invalidate_access R now s = snd (advance_permission_version R now s)"

section \<open>The permissions guard\<close>

definition access_denied :: exn where
  "access_denied = api_error 403 FORBIDDEN ''You do not have access to this resource.''"

text \<open>The access set is kept on the request and resolved at most once.\<close>

definition access_for ::
  "(string \<Rightarrow> 's \<Rightarrow> (exn + effective_access) \<times> 's) \<Rightarrow> effective_access option \<Rightarrow> string \<Rightarrow> 's \<Rightarrow>
     (exn + effective_access) \<times> 's" where
  "access_for resolve memo userId s = (case memo of Some a \<Rightarrow> (Inr a, s) | None \<Rightarrow> resolve userId s)"

definition permissions_guard ::
  "(string \<Rightarrow> 's \<Rightarrow> (exn + effective_access) \<times> 's) \<Rightarrow> bool \<Rightarrow> bool option \<times> bool option \<Rightarrow>
     string list option \<times> string list option \<Rightarrow> string list option \<times> string list option \<Rightarrow>
     auth_principal option \<Rightarrow> effective_access option \<Rightarrow> 's \<Rightarrow>
     (exn + bool) \<times> effective_access option \<times> 's" where
  "permissions_guard resolve http public perms roles caller memo s =
     (if \<not> http then (Inr True, memo, s)
      else if case_prod get_all_and_override public = Some True then (Inr True, memo, s)
      else
        (let required = (case case_prod get_all_and_override perms of Some xs \<Rightarrow> xs | None \<Rightarrow> []);
             accepted = (case case_prod get_all_and_override roles of Some xs \<Rightarrow> xs | None \<Rightarrow> [])
         in if required = [] \<and> accepted = [] then (Inr True, memo, s)
            else
              (case caller of
                 None \<Rightarrow> (Inl authentication_required, memo, s)
               | Some p \<Rightarrow>
                   (case access_for resolve memo (apr_id p) s of
                      (Inl e, s') \<Rightarrow> (Inl e, memo, s')
                    | (Inr access, s') \<Rightarrow>
                        (if filter (\<lambda>x. x \<notin> set (ea_permissions access)) required \<noteq> [] then
                           (Inl access_denied, Some access, s')
                         else if accepted \<noteq> [] \<and> \<not> list_ex (\<lambda>r. r \<in> set (ea_roles access)) accepted then
                           (Inl access_denied, Some access, s')
                         else (Inr True, Some access, s'))))))"

end
