(* ===== verification/PermissionRace.thy ===== *)
theory PermissionRace
  imports Authorization
begin

text \<open>
  Concurrent resolutions and mutations of permissions over the versioned cache.

  Mutations of the access tables are numbered by their commits, and a resolution is known by
  the number of the commits its answer has seen. A resolution is a thread of
  \<open>PermissionResolver.resolve\<close>, a mutation commits and then advances the version
  (\<open>permission-cache-version.ts\<close>); both are cut at their commands. Any command may fail,
  entries and the marker may be evicted at any time, and a marker that is seeded anew lies
  above every earlier one, as the clock does. The \<open>SET NX\<close> that seeds the marker and the \<open>GET\<close> or
  \<open>INCR\<close> right after it are one step: a marker that is evicted between the two is excluded, and
  there the \<open>INCR\<close> would start it at one (\<open>evicted_marker_restarts_at_one\<close>).

  \<open>ps_acked\<close> is the latest mutation whose invalidation has been done; \<open>ps_since v\<close> is what it
  was when the marker became \<open>v\<close>.
\<close>

lemma evicted_marker_restarts_at_one:
  "rv_lookup v permission_version_key = None \<Longrightarrow> fst (sem_incrby 1 permission_version_key v) = Inr 1"
  by (simp add: sem_incrby_def rv_count_def rv_text_def)

datatype access_thread =
    Asking nat
  | Probing nat nat
  | Fetching nat "nat option"
  | Storing nat nat nat
  | Resolved nat nat
  | Mutating
  | Committed nat
  | Finished

record access_state =
  ps_commits :: nat
  ps_version :: "nat option"
  ps_cache :: "nat \<Rightarrow> nat option"
  ps_threads :: "access_thread list"
  ps_acked :: nat
  ps_highest :: nat
  ps_since :: "nat \<Rightarrow> nat"

text \<open>One command of one thread, and the marker it finds or seeds.\<close>

inductive access_move :: "access_state \<Rightarrow> access_thread \<Rightarrow> access_state \<Rightarrow> access_thread \<Rightarrow> bool" where
  ask_version: "ps_version s = Some v \<Longrightarrow> access_move s (Asking f) s (Probing f v)"
| ask_seed: "ps_version s = None \<Longrightarrow> ps_highest s < n \<Longrightarrow>
    access_move s (Asking f)
      (s\<lparr>ps_version := Some n, ps_highest := n, ps_since := (ps_since s)(n := ps_acked s)\<rparr>) (Probing f n)"
| ask_fail: "access_move s (Asking f) s (Fetching f None)"
| probe_hit: "ps_cache s v = Some d \<Longrightarrow> access_move s (Probing f v) s (Resolved f d)"
| probe_miss: "access_move s (Probing f v) s (Fetching f (Some v))"
| fetch_store: "access_move s (Fetching f (Some v)) s (Storing f v (ps_commits s))"
| fetch_plain: "access_move s (Fetching f None) s (Resolved f (ps_commits s))"
| store_ok: "access_move s (Storing f v d) (s\<lparr>ps_cache := (ps_cache s)(v \<mapsto> d)\<rparr>) (Resolved f d)"
| store_fail: "access_move s (Storing f v d) s (Resolved f d)"
| commit: "access_move s Mutating (s\<lparr>ps_commits := Suc (ps_commits s)\<rparr>) (Committed (Suc (ps_commits s)))"
| advance: "ps_version s = Some v \<Longrightarrow>
    access_move s (Committed c)
      (s\<lparr>ps_version := Some (Suc v), ps_highest := Suc v, ps_acked := max (ps_acked s) c,
         ps_since := (ps_since s)(Suc v := max (ps_acked s) c)\<rparr>) Finished"
| advance_seed: "ps_version s = None \<Longrightarrow> ps_highest s < n \<Longrightarrow>
    access_move s (Committed c)
      (s\<lparr>ps_version := Some (Suc n), ps_highest := Suc n, ps_acked := max (ps_acked s) c,
         ps_since := (ps_since s)(Suc n := max (ps_acked s) c)\<rparr>) Finished"
| advance_fail: "access_move s (Committed c) s Finished"

inductive access_step :: "access_state \<Rightarrow> access_state \<Rightarrow> bool" where
  access_thread: "i < length (ps_threads s) \<Longrightarrow> access_move s (ps_threads s ! i) s' t \<Longrightarrow>
    access_step s (s'\<lparr>ps_threads := (ps_threads s)[i := t]\<rparr>)"
| new_resolution: "access_step s (s\<lparr>ps_threads := ps_threads s @ [Asking (ps_acked s)]\<rparr>)"
| new_mutation: "access_step s (s\<lparr>ps_threads := ps_threads s @ [Mutating]\<rparr>)"
| lose_version: "access_step s (s\<lparr>ps_version := None\<rparr>)"
| lose_entry: "access_step s (s\<lparr>ps_cache := (ps_cache s)(v := None)\<rparr>)"

inductive access_reachable :: "access_state \<Rightarrow> bool" where
  access_init: "access_reachable \<lparr>ps_commits = 0, ps_version = None, ps_cache = Map.empty,
     ps_threads = [], ps_acked = 0, ps_highest = 0, ps_since = (\<lambda>_. 0)\<rparr>"
| access_more: "access_reachable s \<Longrightarrow> access_step s t \<Longrightarrow> access_reachable t"

section \<open>The invariant\<close>

text \<open>
  What a thread may hold: a resolution never has less than what was acknowledged when it
  started, and what it holds for a version is at least what was acknowledged when that
  version began.
\<close>

fun thread_ok :: "access_state \<Rightarrow> access_thread \<Rightarrow> bool" where
  "thread_ok s (Asking f) \<longleftrightarrow> f \<le> ps_acked s"
| "thread_ok s (Probing f v) \<longleftrightarrow> f \<le> ps_since s v \<and> v \<le> ps_highest s \<and> ps_since s v \<le> ps_acked s"
| "thread_ok s (Fetching f None) \<longleftrightarrow> f \<le> ps_acked s"
| "thread_ok s (Fetching f (Some v)) \<longleftrightarrow> f \<le> ps_since s v \<and> v \<le> ps_highest s \<and> ps_since s v \<le> ps_acked s"
| "thread_ok s (Storing f v d) \<longleftrightarrow> f \<le> d \<and> ps_since s v \<le> d \<and> v \<le> ps_highest s"
| "thread_ok s (Resolved f d) \<longleftrightarrow> f \<le> d"
| "thread_ok s Mutating \<longleftrightarrow> True"
| "thread_ok s (Committed c) \<longleftrightarrow> c \<le> ps_commits s"
| "thread_ok s Finished \<longleftrightarrow> True"

definition access_inv :: "access_state \<Rightarrow> bool" where
  "access_inv s \<longleftrightarrow>
     ps_acked s \<le> ps_commits s \<and>
     (\<forall>v. ps_version s = Some v \<longrightarrow> v = ps_highest s \<and> ps_since s v = ps_acked s) \<and>
     (\<forall>v d. ps_cache s v = Some d \<longrightarrow> v \<le> ps_highest s \<and> ps_since s v \<le> d) \<and>
     (\<forall>t\<in>set (ps_threads s). thread_ok s t)"

text \<open>The parts of the state that threads look at only ever grow, and old versions keep their mark.\<close>

definition grown :: "access_state \<Rightarrow> access_state \<Rightarrow> bool" where
  "grown s s' \<longleftrightarrow>
     ps_commits s \<le> ps_commits s' \<and> ps_acked s \<le> ps_acked s' \<and> ps_highest s \<le> ps_highest s' \<and>
     (\<forall>v\<le>ps_highest s. ps_since s' v = ps_since s v)"

lemma thread_ok_grown: "thread_ok s t \<Longrightarrow> grown s s' \<Longrightarrow> thread_ok s' t"
  by (cases "(s, t)" rule: thread_ok.cases) (auto simp: grown_def)

lemma move_grown:
  assumes "access_move s u s' t" and "access_inv s"
  shows "grown s s'"
  using assms(1)
  by (cases rule: access_move.cases) (use assms(2) in \<open>auto simp: grown_def access_inv_def\<close>)

lemma move_ok:
  assumes "access_move s u s' t" and "access_inv s" and "thread_ok s u"
  shows "thread_ok s' t"
  using assms(1)
proof (cases rule: access_move.cases)
  case (probe_hit v d f)
  with assms(2,3) show ?thesis by (fastforce simp: access_inv_def)
next
  case (fetch_store f v)
  with assms(2,3) show ?thesis by (auto simp: access_inv_def)
qed (use assms(2,3) in \<open>auto simp: access_inv_def\<close>)

lemma move_threads: "access_move s u s' t \<Longrightarrow> ps_threads s' = ps_threads s"
  by (cases rule: access_move.cases) auto

lemma fresh_version:
  assumes "access_inv s" and "ps_highest s < w"
  shows "ps_cache s w = None"
proof (cases "ps_cache s w")
  case (Some d)
  then have "w \<le> ps_highest s" using assms(1) by (simp add: access_inv_def)
  with assms(2) show ?thesis by simp
qed

lemma move_inv:
  assumes "access_move s u s' t" and "access_inv s" and "thread_ok s u"
  shows "ps_acked s' \<le> ps_commits s' \<and>
     (\<forall>v. ps_version s' = Some v \<longrightarrow> v = ps_highest s' \<and> ps_since s' v = ps_acked s') \<and>
     (\<forall>v d. ps_cache s' v = Some d \<longrightarrow> v \<le> ps_highest s' \<and> ps_since s' v \<le> d)"
proof -
  have cached: "v \<le> ps_highest s \<and> ps_since s v \<le> d" if "ps_cache s v = Some d" for v d
    using assms(2) that by (simp add: access_inv_def)
  show ?thesis
    using assms(1)
  proof (cases rule: access_move.cases)
    case (ask_seed n f)
    with assms(2) fresh_version[OF assms(2), of n] show ?thesis
      by (auto simp: access_inv_def dest: cached)
  next
    case (advance v c)
    then have "v = ps_highest s" using assms(2) by (simp add: access_inv_def)
    with advance assms(2,3) fresh_version[OF assms(2), of "Suc v"] show ?thesis
      by (auto simp: access_inv_def dest: cached)
  next
    case (advance_seed n c)
    with assms(2,3) fresh_version[OF assms(2), of "Suc n"] show ?thesis
      by (auto simp: access_inv_def dest: cached le_trans)
  qed (use assms(2,3) in \<open>auto simp: access_inv_def split: if_splits\<close>)
qed

lemma thread_ok_threads [simp]:
  "thread_ok (s\<lparr>ps_threads := ts\<rparr>) t = thread_ok s t"
  "thread_ok (s\<lparr>ps_version := x\<rparr>) t = thread_ok s t"
  "thread_ok (s\<lparr>ps_cache := y\<rparr>) t = thread_ok s t"
  by (cases "(s, t)" rule: thread_ok.cases; simp)+

lemma step_inv:
  assumes "access_step s s'" and "access_inv s"
  shows "access_inv s'"
  using assms(1)
proof (cases rule: access_step.cases)
  case (access_thread i s2 t)
  have u: "thread_ok s (ps_threads s ! i)" using assms(2) access_thread(2) by (simp add: access_inv_def)
  note g = move_grown[OF access_thread(3) assms(2)]
  have "thread_ok s2 x" if "x \<in> set ((ps_threads s)[i := t])" for x
    using set_update_subset_insert[of "ps_threads s" i t] that move_ok[OF access_thread(3) assms(2) u]
      thread_ok_grown[OF _ g] assms(2) by (auto simp: access_inv_def)
  with move_inv[OF access_thread(3) assms(2) u] show ?thesis
    unfolding access_thread(1) by (simp add: access_inv_def)
next
  case (lose_entry v)
  with assms(2) show ?thesis by (simp add: access_inv_def)
qed (use assms(2) in \<open>auto simp: access_inv_def\<close>)

lemma access_reachable_inv: "access_reachable s \<Longrightarrow> access_inv s"
proof (induction rule: access_reachable.induct)
  case access_init
  show ?case by (simp add: access_inv_def)
next
  case (access_more s t)
  then show ?case using step_inv by blast
qed

end
