(* ===== verification/AuthorizationProperties.thy ===== *)
theory AuthorizationProperties
  imports PermissionRace CounterRuns
begin

text \<open>
  The properties of authorization: the guard chain decides by the session and the tables
  whatever Redis does, and an invalidated mutation is seen by every later resolution.
\<close>

section \<open>The access set of a user\<close>

text \<open>The reference: the joins that the tables stand for.\<close>

definition has_role :: "access_db \<Rightarrow> string \<Rightarrow> role_row \<Rightarrow> bool" where
  "has_role db u r \<longleftrightarrow> (\<exists>a\<in>set (ad_userRoles db). ur_userId a = u \<and> role_of db a = Some r)"

definition role_named :: "access_db \<Rightarrow> string \<Rightarrow> string \<Rightarrow> bool" where
  "role_named db u n \<longleftrightarrow> (\<exists>r. has_role db u r \<and> ro_name r = n)"

definition holds_permission :: "access_db \<Rightarrow> string \<Rightarrow> string \<Rightarrow> bool" where
  "holds_permission db u k \<longleftrightarrow>
     (\<exists>r. has_role db u r \<and>
        (\<exists>m\<in>set (ad_rolePermissions db). rp_roleId m = ro_id r \<and>
           (\<exists>q. List.find (\<lambda>p. pe_id p = rp_permissionId m) (ad_permissions db) = Some q \<and> pe_key q = k)))"

lemma set_fold_add: "set (fold set_add xs ys) = set xs \<union> set ys"
  by (induction xs arbitrary: ys) (auto simp: set_add_def)

lemma distinct_fold_add: "distinct ys \<Longrightarrow> distinct (fold set_add xs ys)"
  by (induction xs arbitrary: ys) (auto simp: set_add_def)

lemma set_map_filter: "set (List.map_filter f xs) = {y. \<exists>x\<in>set xs. f x = Some y}"
  by (induction xs) (auto simp: List.map_filter_simps split: option.splits)

lemma read_access_roles: "n \<in> set (ea_roles (read_access db u)) \<longleftrightarrow> role_named db u n"
  by (auto simp: read_access_def Let_def set_map_filter role_named_def has_role_def)

lemma role_keys_set: "k \<in> set (role_keys db r) \<longleftrightarrow>
    (\<exists>m\<in>set (ad_rolePermissions db). rp_roleId m = ro_id r \<and>
       (\<exists>q. List.find (\<lambda>p. pe_id p = rp_permissionId m) (ad_permissions db) = Some q \<and> pe_key q = k))"
  by (auto simp: role_keys_def set_map_filter)

lemma read_access_permissions: "k \<in> set (ea_permissions (read_access db u)) \<longleftrightarrow> holds_permission db u k"
  unfolding read_access_def Let_def
  by (auto simp: set_fold_add set_map_filter role_keys_set holds_permission_def has_role_def)

section \<open>The cache\<close>

lemma text_list_texts [simp]: "text_list (Some (JArr (map JStr xs))) = Some xs"
  by (simp add: text_list_def list_all_iff List.map_filter_def comp_def)

lemma decode_access_json [simp]: "decode_access (to_json (access_json a)) = Some a"
  unfolding decode_access_def parse_json_to_json access_json_def by simp

lemma version_key_apart: "cache_key u v \<noteq> permission_version_key"
  by (simp add: cache_key_def permission_version_key_def)

text \<open>Whatever is cached for the user is the table's own answer.\<close>

definition coherent :: "rview \<Rightarrow> access_db \<Rightarrow> string \<Rightarrow> bool" where
  "coherent v db u \<longleftrightarrow>
     (\<forall>ver raw a. rv_text v (cache_key u ver) = Some raw \<longrightarrow> decode_access raw = Some a \<longrightarrow>
        a = read_access db u)"

context redis_store
begin

lemma current_version_text:
  assumes "current_version R now s = (ver, s')"
  shows "rv_text (view s') (cache_key u v) = rv_text (view s) (cache_key u v)"
proof -
  obtain r1 s1 where 1: "rd_set_nx R permission_version_key (show_int now) s = (r1, s1)" by fastforce
  obtain r2 s2 where 2: "rd_get R permission_version_key s1 = (r2, s2)" by fastforce
  have "view s1 = view s \<or> sem_set_nx permission_version_key (show_int now) (view s) = (Inr (), view s1)"
    by (rule does_unit[OF does_set_nx 1])
  then have t1: "rv_text (view s1) (cache_key u v) = rv_text (view s) (cache_key u v)"
    using set_nx_others[OF _ version_key_apart[of u v]] by (auto simp: rv_text_def)
  have "view s2 = view s1" using does_any[OF does_get 2] by (auto simp: sem_get_def)
  moreover have "s' = s1 \<or> s' = s2"
    using assms 1 2
    by (auto simp: current_version_def read_permission_version_def ensure_version_key_def split: sum.splits)
  ultimately show ?thesis using t1 by auto
qed

text \<open>With a coherent cache a resolution is the table's answer, whatever Redis does.\<close>

lemma resolve_is_table:
  assumes "coherent (view s) db u"
  shows "fst (resolve_access R now (Inr (read_access db u)) u s) = Inr (read_access db u)"
proof -
  obtain ver s1 where 1: "current_version R now s = (ver, s1)" by fastforce
  show ?thesis
  proof (cases ver)
    case None
    with 1 show ?thesis by (simp add: resolve_access_def)
  next
    case (Some v)
    obtain c s2 where 2: "read_cache R u v s1 = (c, s2)" by fastforce
    have "a = read_access db u" if c: "c = Some a" for a
    proof -
      obtain raw where g: "rd_get R (cache_key u v) s1 = (Inr (Some raw), s2)" and d: "decode_access raw = Some a"
        using 2 c by (auto simp: read_cache_def bind_eq_Some_conv split: prod.splits sum.splits)
      from does_command_ok[OF does_get g] have "rv_text (view s1) (cache_key u v) = Some raw"
        unfolding sem_get_def by (elim Pair_inject) (rule sum.inject(2)[THEN iffD1])
      with current_version_text[OF 1] assms d show ?thesis by (auto simp: coherent_def)
    qed
    with 1 2 Some show ?thesis by (cases c) (simp_all add: resolve_access_def)
  qed
qed

end

section \<open>The guard chain\<close>

definition listed :: "string list option \<times> string list option \<Rightarrow> string list" where
  "listed meta = (case case_prod get_all_and_override meta of Some xs \<Rightarrow> xs | None \<Rightarrow> [])"

text \<open>The two guards in their order.\<close>

definition access_chain ::
  "('rq \<Rightarrow> exn + (library_user \<times> string \<times> int) option) \<Rightarrow>
     (string \<Rightarrow> 's \<Rightarrow> (exn + effective_access) \<times> 's) \<Rightarrow> bool \<Rightarrow> bool option \<times> bool option \<Rightarrow>
     string list option \<times> string list option \<Rightarrow> string list option \<times> string list option \<Rightarrow>
     'rq \<Rightarrow> request_context \<Rightarrow> 's \<Rightarrow> exn + bool" where
  "access_chain getSession resolve http public perms roles rq ctx s =
     (case auth_guard getSession http public rq ctx of
        (Inl e, _, _) \<Rightarrow> Inl e
      | (Inr _, caller, _) \<Rightarrow> fst (permissions_guard resolve http public perms roles caller None s))"

text \<open>C33.
  A route is reached exactly by those it is meant for. Over any Redis client, with a cache
  that only holds the table's own answers, the authentication and the permissions guard let
  a request through if and only if it is no HTTP request, or the route is public, or the
  session library knows a session whose user has a verified address and holds, by the tables,
  every required permission and one of the accepted roles where any is named.
\<close>

theorem guards_admit_exactly_the_entitled:
  assumes "redis_store R view" and "\<forall>u. coherent (view s) db u"
  shows "access_chain getSession (\<lambda>u. resolve_access R now (Inr (read_access db u)) u)
           http public perms roles rq ctx s = Inr True \<longleftrightarrow>
         \<not> http \<or> case_prod get_all_and_override public = Some True \<or>
         (\<exists>u sid expires. getSession rq = Inr (Some (u, sid, expires)) \<and> lu_emailVerified u \<and>
            (\<forall>p\<in>set (listed perms). holds_permission db (lu_id u) p) \<and>
            (listed roles = [] \<or> (\<exists>n\<in>set (listed roles). role_named db (lu_id u) n)))"
proof (cases "\<not> http \<or> case_prod get_all_and_override public = Some True")
  case True
  then show ?thesis by (auto simp: access_chain_def auth_guard_def permissions_guard_def)
next
  case False
  show ?thesis
  proof (cases "\<exists>u sid expires. getSession rq = Inr (Some (u, sid, expires)) \<and> lu_emailVerified u")
    case False
    with \<open>\<not> (\<not> http \<or> _)\<close> show ?thesis
      by (auto simp: access_chain_def auth_guard_def resolve_session_def to_principal_def
          split: sum.splits option.splits)
  next
    case True
    then obtain u sid expires where ses: "getSession rq = Inr (Some (u, sid, expires))" "lu_emailVerified u"
      by blast
    obtain s' where res: "resolve_access R now (Inr (read_access db (lu_id u))) (lu_id u) s =
        (Inr (read_access db (lu_id u)), s')"
      using redis_store.resolve_is_table[OF assms(1), of s db "lu_id u" now] assms(2)
      by (metis prod.collapse)
    have req: "filter (\<lambda>x. x \<notin> set (ea_permissions (read_access db (lu_id u)))) xs = [] \<longleftrightarrow>
        (\<forall>p\<in>set xs. holds_permission db (lu_id u) p)" for xs
      by (auto simp: filter_empty_conv read_access_permissions)
    have acc: "list_ex (\<lambda>r. r \<in> set (ea_roles (read_access db (lu_id u)))) xs \<longleftrightarrow>
        (\<exists>n\<in>set xs. role_named db (lu_id u) n)" for xs
      by (simp add: list_ex_iff read_access_roles)
    show ?thesis
      using False ses res
      by (auto simp: access_chain_def auth_guard_def resolve_session_def to_principal_def
          permissions_guard_def access_for_def Let_def listed_def[symmetric] req acc)
  qed
qed

definition demo_access :: access_db where
  "demo_access =
     \<lparr>ad_roles = [\<lparr>ro_id = ''r1'', ro_name = ''user'', ro_description = None\<rparr>],
      ad_permissions = [\<lparr>pe_id = ''p1'', pe_key = ''account:read'', pe_description = None\<rparr>],
      ad_rolePermissions = [\<lparr>rp_roleId = ''r1'', rp_permissionId = ''p1''\<rparr>],
      ad_userRoles = [\<lparr>ur_userId = ''u'', ur_roleId = ''r1''\<rparr>]\<rparr>"

definition demo_session :: "unit \<Rightarrow> exn + (library_user \<times> string \<times> int) option" where
  "demo_session _ =
     Inr (Some (\<lparr>lu_id = ''u'', lu_email = ''u@x'', lu_name = ''U'', lu_emailVerified = True,
                 lu_twoFactorEnabled = None\<rparr>, ''s'', 0))"

text \<open>A Redis that refuses every command from the second on.\<close>

definition failing_redis :: mem_conn where
  "failing_redis = \<lparr>mc_view = \<lparr>rv_clock = 0, rv_data = Map.empty\<rparr>,
     mc_script = [Cmd_ok, Cmd_refused, Cmd_refused, Cmd_refused]\<rparr>"

definition demo_chain :: "string \<Rightarrow> exn + bool" where
  "demo_chain required =
     access_chain demo_session (\<lambda>u. resolve_access mem_redis 7 (Inr (read_access demo_access u)) u)
       True (None, None) (Some [required], None) (None, None) () None failing_redis"

theorem guards_admit_exactly_the_entitled_witness:
  "demo_chain ''account:read'' = Inr True \<and> demo_chain ''user:read'' \<noteq> Inr True"
proof -
  have co: "\<forall>u. coherent (mc_view failing_redis) demo_access u"
    by (simp add: coherent_def rv_text_def rv_lookup_def failing_redis_def)
  note iff = guards_admit_exactly_the_entitled[OF mem.redis_store_axioms co]
  show ?thesis
    unfolding demo_chain_def iff
    by (simp add: demo_session_def demo_access_def listed_def get_all_and_override_def
        holds_permission_def has_role_def role_of_def)
qed

text \<open>C34.
  No permission set that an invalidated mutation has outdated is served again. Under any
  interleaving of resolutions and mutations, with commands that fail and entries and markers
  that are evicted (the marker not between being seeded and being advanced by one call), a
  resolution answers with an access set read no earlier than the latest
  mutation that was acknowledged when it started, and every entry cached under the current
  version has seen every acknowledged mutation.
\<close>

theorem invalidated_permissions_are_not_served:
  assumes "access_reachable s" and "Resolved f d \<in> set (ps_threads s)"
  shows "f \<le> d \<and> (\<forall>v e. ps_version s = Some v \<and> ps_cache s v = Some e \<longrightarrow> ps_acked s \<le> e)"
  using access_reachable_inv[OF assms(1)] assms(2) by (fastforce simp: access_inv_def)

lemma access_thread_step:
  assumes "access_reachable s" and "i < length (ps_threads s)" and "access_move s (ps_threads s ! i) s2 t"
    and "s' = s2\<lparr>ps_threads := (ps_threads s)[i := t]\<rparr>"
  shows "access_reachable s'"
  unfolding assms(4) by (rule access_more[OF assms(1) access_thread[OF assms(2,3)]])

text \<open>A mutation, its invalidation on an empty Redis, and a resolution after it.\<close>

definition at_start :: access_state where
  "at_start = \<lparr>ps_commits = 0, ps_version = None, ps_cache = Map.empty, ps_threads = [Mutating],
     ps_acked = 0, ps_highest = 0, ps_since = (\<lambda>_. 0)\<rparr>"

definition after_mutation :: "access_thread list \<Rightarrow> access_state" where
  "after_mutation ts = at_start\<lparr>ps_commits := 1, ps_version := Some 6, ps_highest := 6, ps_acked := 1,
     ps_since := (\<lambda>_. 0)(6 := 1), ps_threads := ts\<rparr>"

lemma demo_reachable: "access_reachable (after_mutation [Finished, Resolved 1 1])"
proof -
  note step = access_thread_step
  have 0: "access_reachable at_start"
    using access_more[OF access_init new_mutation] by (simp add: at_start_def)
  have 1: "access_reachable (at_start\<lparr>ps_commits := 1, ps_threads := [Committed 1]\<rparr>)"
    by (rule step[OF 0, of 0 "at_start\<lparr>ps_commits := 1\<rparr>" "Committed 1"])
      (use commit[of at_start] in \<open>simp_all add: at_start_def\<close>)
  have 2: "access_reachable (after_mutation [Finished])"
    by (rule step[OF 1, of 0 "after_mutation [Committed 1]" Finished])
      (use advance_seed[of "at_start\<lparr>ps_commits := 1, ps_threads := [Committed 1]\<rparr>" 5 1] in
        \<open>simp_all add: at_start_def after_mutation_def\<close>)
  have 3: "access_reachable (after_mutation [Finished, Asking 1])"
    using access_more[OF 2 new_resolution] by (simp add: after_mutation_def)
  have 4: "access_reachable (after_mutation [Finished, Fetching 1 None])"
    by (rule step[OF 3, of 1 "after_mutation [Finished, Asking 1]" "Fetching 1 None"])
      (simp_all add: after_mutation_def ask_fail)
  show ?thesis
    by (rule step[OF 4, of 1 "after_mutation [Finished, Fetching 1 None]" "Resolved 1 1"])
      (use fetch_plain[of "after_mutation [Finished, Fetching 1 None]" 1] in
        \<open>simp_all add: after_mutation_def\<close>)
qed

theorem invalidated_permissions_are_not_served_witness:
  "Resolved 1 1 \<in> set (ps_threads (after_mutation [Finished, Resolved 1 1])) \<and> (1::nat) \<le> 1"
  using invalidated_permissions_are_not_served[OF demo_reachable, of 1 1] by (simp add: after_mutation_def)

text \<open>
  An invalidation that fails is only logged: the entry of the current version stays and the
  next resolution serves it, until it runs out after \<open>permission_cache_ttl_seconds\<close>.
\<close>

lemma failed_invalidation_serves_stale:
  assumes "current_version R now s = (Some v, s1)" and "read_cache R u v s1 = (Some stale, s2)"
  shows "resolve_access R now database u s = (Inr stale, s2)"
  using assms by (simp add: resolve_access_def)

end
