(* ===== verification/ApiKeys.thy ===== *)
theory ApiKeys
  imports Authorization
begin

text \<open>
  Agent API keys (\<open>src/modules/api-keys/api-key.service.ts\<close>): the table, the operations of the
  owner and the authentication of a bearer secret.

  The random bytes of a secret arrive as their hexadecimal text, SHA-256 as a function from a
  text to the hexadecimal text of its digest. The read of the caller's permissions is given as
  the resolver's outcome.
\<close>

record api_key_row =
  ak_id :: string
  ak_userId :: string
  ak_name :: string
  ak_prefix :: string
  ak_secretHash :: string
  ak_lastUsedAt :: "int option"
  ak_revokedAt :: "int option"
  ak_createdAt :: int

record created_api_key =
  ck_id :: string
  ck_name :: string
  ck_prefix :: string
  ck_secret :: string
  ck_createdAt :: int

record api_key_view =
  kv_id :: string
  kv_name :: string
  kv_prefix :: string
  kv_createdAt :: int
  kv_lastUsedAt :: "int option"
  kv_revokedAt :: "int option"

record agent_principal =
  ap_user :: auth_principal
  ap_apiKeyId :: string
  ap_access :: effective_access

definition api_key_prefix_length :: nat where "api_key_prefix_length = 12"
definition api_key_secret_bytes :: nat where "api_key_secret_bytes = 24"

record api_key_env =
  ke_digest :: "string \<Rightarrow> string"
  ke_randomHex :: string
  ke_newId :: string
  ke_now :: int
  ke_users :: "library_user list"
  ke_stampFault :: tx_fault

definition key_view :: "api_key_row \<Rightarrow> api_key_view" where
  "key_view r =
     \<lparr>kv_id = ak_id r, kv_name = ak_name r, kv_prefix = ak_prefix r, kv_createdAt = ak_createdAt r,
      kv_lastUsedAt = ak_lastUsedAt r, kv_revokedAt = ak_revokedAt r\<rparr>"

definition generate_secret :: "api_key_env \<Rightarrow> string" where
  "generate_secret env = ''nes_'' @ ke_randomHex env"

definition hash_secret :: "api_key_env \<Rightarrow> string \<Rightarrow> string" where
  "hash_secret env secret = ke_digest env secret"

definition create_api_key ::
  "api_key_env \<Rightarrow> string \<Rightarrow> string \<Rightarrow> api_key_row list \<Rightarrow> (exn + created_api_key) \<times> api_key_row list" where
  "create_api_key env userId name rows =
     (let secret = generate_secret env;
          prefix = take api_key_prefix_length secret;
          row = \<lparr>ak_id = ke_newId env, ak_userId = userId, ak_name = trim name, ak_prefix = prefix,
                 ak_secretHash = hash_secret env secret, ak_lastUsedAt = None, ak_revokedAt = None,
                 ak_createdAt = ke_now env\<rparr>
      in if prefix \<in> ak_prefix ` set rows then (Inl unique_violation, rows)
         else (Inr \<lparr>ck_id = ak_id row, ck_name = ak_name row, ck_prefix = ak_prefix row,
                    ck_secret = secret, ck_createdAt = ak_createdAt row\<rparr>, rows @ [row]))"

definition list_api_keys :: "string \<Rightarrow> api_key_row list \<Rightarrow> api_key_view list" where
  "list_api_keys userId rows =
     map key_view (sort_key (\<lambda>r. - ak_createdAt r) (filter (\<lambda>r. ak_userId r = userId) rows))"

definition key_not_found :: exn where
  "key_not_found = HttpExn 404 (RespObj (JObj [(''message'', JStr ''API key not found.''),
     (''error'', JStr ''Not Found''), (''statusCode'', JNum 404)])) ''API key not found.''"

definition revoke_api_key ::
  "api_key_env \<Rightarrow> string \<Rightarrow> string \<Rightarrow> api_key_row list \<Rightarrow> (exn + api_key_view) \<times> api_key_row list" where
  "revoke_api_key env userId keyId rows =
     (case List.find (\<lambda>r. ak_id r = keyId \<and> ak_userId r = userId) rows of
        None \<Rightarrow> (Inl key_not_found, rows)
      | Some existing \<Rightarrow>
          (if ak_revokedAt existing \<noteq> None then (Inr (key_view existing), rows)
           else (Inr (key_view (existing\<lparr>ak_revokedAt := Some (ke_now env)\<rparr>)),
                 update_where (\<lambda>r. ak_id r = ak_id existing)
                   (\<lambda>r. r\<lparr>ak_revokedAt := Some (ke_now env)\<rparr>) rows)))"

section \<open>Authentication\<close>

definition extract_bearer :: "string option \<Rightarrow> string option" where
  "extract_bearer authorization =
     (case authorization of
        None \<Rightarrow> None
      | Some a \<Rightarrow>
          (if \<not> starts_with ''Bearer '' a then None
           else (let token = trim (drop 7 a) in if token = [] then None else Some token)))"

text \<open>\<open>Buffer.from(text, 'hex')\<close>: two digits a byte, up to the first that is none.\<close>

fun hex_bytes :: "string \<Rightarrow> nat list" where
  "hex_bytes (a # b # rest) =
     (case (hex_of a, hex_of b) of (Some m, Some n) \<Rightarrow> (16 * m + n) # hex_bytes rest | _ \<Rightarrow> [])"
| "hex_bytes _ = []"

definition hash_matches :: "api_key_env \<Rightarrow> string \<Rightarrow> api_key_row \<Rightarrow> bool" where
  "hash_matches env secret row \<longleftrightarrow>
     (let candidate = hex_bytes (hash_secret env secret); stored = hex_bytes (ak_secretHash row)
      in length candidate = length stored \<and> candidate = stored)"

text \<open>The stamp is fire and forget: it may be lost, and nobody waits for it.\<close>

definition stamp_last_used :: "api_key_env \<Rightarrow> api_key_row \<Rightarrow> api_key_row list \<Rightarrow> api_key_row list" where
  "stamp_last_used env row rows =
     snd (run_tx (ke_stampFault env)
       (\<lambda>rs. Inr ((), update_where (\<lambda>r. ak_id r = ak_id row) (\<lambda>r. r\<lparr>ak_lastUsedAt := Some (ke_now env)\<rparr>) rs))
       rows)"

definition verify_secret ::
  "api_key_env \<Rightarrow> (string \<Rightarrow> exn + effective_access) \<Rightarrow> string \<Rightarrow> api_key_row list \<Rightarrow>
     (exn + agent_principal option) \<times> api_key_row list" where
  "verify_secret env resolve secret rows =
     (if \<not> starts_with ''nes_'' secret \<or> length secret < api_key_prefix_length then (Inr None, rows)
      else
        (case List.find (\<lambda>r. ak_prefix r = take api_key_prefix_length secret) rows of
           None \<Rightarrow> (Inr None, rows)
         | Some row \<Rightarrow>
             (if ak_revokedAt row \<noteq> None then (Inr None, rows)
              else if \<not> hash_matches env secret row then (Inr None, rows)
              else
                (case List.find (\<lambda>u. lu_id u = ak_userId row) (ke_users env) of
                   None \<Rightarrow> (Inr None, rows)
                 | Some user \<Rightarrow>
                     (if \<not> lu_emailVerified user then (Inr None, rows)
                      else
                        (case resolve (lu_id user) of
                           Inl e \<Rightarrow> (Inl e, stamp_last_used env row rows)
                         | Inr access \<Rightarrow>
                             (Inr (Some \<lparr>ap_user = to_principal user, ap_apiKeyId = ak_id row,
                                         ap_access = access\<rparr>),
                              stamp_last_used env row rows)))))))"

definition authenticate_bearer ::
  "api_key_env \<Rightarrow> (string \<Rightarrow> exn + effective_access) \<Rightarrow> string option \<Rightarrow> api_key_row list \<Rightarrow>
     (exn + agent_principal option) \<times> api_key_row list" where
  "authenticate_bearer env resolve authorization rows =
     (case extract_bearer authorization of
        None \<Rightarrow> (Inr None, rows)
      | Some secret \<Rightarrow> verify_secret env resolve secret rows)"

section \<open>Properties\<close>

definition authenticates ::
  "api_key_env \<Rightarrow> (string \<Rightarrow> exn + effective_access) \<Rightarrow> string \<Rightarrow> api_key_row list \<Rightarrow> string \<Rightarrow> bool" where
  "authenticates env resolve secret rows keyId \<longleftrightarrow>
     (\<exists>a. fst (verify_secret env resolve secret rows) = Inr (Some a) \<and> ap_apiKeyId a = keyId)"

text \<open>What stands behind an agent that was let in.\<close>

lemma authenticated_row:
  assumes "fst (verify_secret env resolve secret rows) = Inr (Some a)"
  shows "\<exists>row user. List.find (\<lambda>r. ak_prefix r = take api_key_prefix_length secret) rows = Some row \<and>
           ak_revokedAt row = None \<and> hash_matches env secret row \<and> user \<in> set (ke_users env) \<and>
           lu_id user = ak_userId row \<and> lu_emailVerified user \<and> ap_apiKeyId a = ak_id row \<and>
           ap_user a = to_principal user \<and> resolve (lu_id user) = Inr (ap_access a)"
  using assms
  by (auto simp: verify_secret_def dest!: find_SomeD[of _ "ke_users env"]
      split: if_splits option.splits sum.splits)

lemma find_after_create:
  assumes "p \<notin> ak_prefix ` set rows" and "ak_prefix row = p"
  shows "List.find (\<lambda>r. ak_prefix r = p) (rows @ [row]) = Some row"
proof -
  have "List.find (\<lambda>r. ak_prefix r = p) rows = None" using assms(1) by (auto simp: find_None_conv)
  with assms(2) show ?thesis by (simp add: find_append)
qed

lemma hash_matches_own:
  assumes "inj (\<lambda>s. hex_bytes (ke_digest env s))" and "ak_secretHash row = hash_secret env secret"
  shows "hash_matches env s row \<longleftrightarrow> s = secret"
  using assms(1) by (auto simp: hash_matches_def hash_secret_def assms(2) inj_def Let_def)

text \<open>C35.
  An API key works for its secret alone, from its creation to its revocation. The secret that
  creation shows authenticates as its owner with the owner's access, as long as the owner
  exists with a verified address; no other secret ever authenticates as that key; and once the
  owner has revoked the key no secret does. The digest is taken to be injective.
\<close>

theorem api_key_works_for_its_secret_until_revoked:
  assumes "inj (\<lambda>s. hex_bytes (ke_digest env s))" and "length (ke_randomHex env) = 48"
    and "create_api_key env userId name rows = (Inr created, rows1)"
    and "ke_newId env \<notin> ak_id ` set rows"
    and "List.find (\<lambda>u. lu_id u = userId) (ke_users env) = Some user" and "lu_emailVerified user"
    and "resolve userId = Inr access"
  shows "fst (verify_secret env resolve (ck_secret created) rows1) =
           Inr (Some \<lparr>ap_user = to_principal user, ap_apiKeyId = ck_id created, ap_access = access\<rparr>) \<and>
         (\<forall>s. authenticates env resolve s rows1 (ck_id created) \<longrightarrow> s = ck_secret created) \<and>
         (\<forall>s. \<not> authenticates env resolve s
                 (snd (revoke_api_key env userId (ck_id created) rows1)) (ck_id created))"
proof -
  define secret where "secret = generate_secret env"
  define row where "row = \<lparr>ak_id = ke_newId env, ak_userId = userId, ak_name = trim name,
      ak_prefix = take api_key_prefix_length secret, ak_secretHash = hash_secret env secret,
      ak_lastUsedAt = None, ak_revokedAt = None, ak_createdAt = ke_now env\<rparr>"
  have fresh: "take api_key_prefix_length secret \<notin> ak_prefix ` set rows" and rows1: "rows1 = rows @ [row]"
    and created: "ck_secret created = secret" "ck_id created = ke_newId env"
    using assms(3) by (auto simp: create_api_key_def Let_def secret_def row_def split: if_splits)
  have own: "ak_secretHash row = hash_secret env secret" by (simp add: row_def)
  note match = hash_matches_own[OF assms(1) own]
  have shape: "starts_with ''nes_'' secret" "\<not> length secret < api_key_prefix_length"
    using assms(2) by (simp_all add: secret_def generate_secret_def api_key_prefix_length_def)
  have lid: "lu_id user = userId" using find_SomeD[OF assms(5)] by simp
  have works: "fst (verify_secret env resolve secret rows1) =
      Inr (Some \<lparr>ap_user = to_principal user, ap_apiKeyId = ke_newId env, ap_access = access\<rparr>)"
    using find_after_create[OF fresh, of row] match[of secret] shape assms(5-7) lid
    by (simp add: verify_secret_def rows1 row_def)
  have only: "r = row" if "r \<in> set rows1" "ak_id r = ke_newId env" for r
    using that assms(4) image_eqI[of "ke_newId env" ak_id r "set rows"] by (auto simp: rows1)
  have alone: "s = secret" if auth: "authenticates env resolve s rows1 (ke_newId env)" for s
  proof -
    obtain a r where "List.find (\<lambda>r. ak_prefix r = take api_key_prefix_length s) rows1 = Some r"
      "hash_matches env s r" "ak_id r = ke_newId env"
      using authenticated_row[of env resolve s rows1] auth unfolding authenticates_def by metis
    with only[of r] find_SomeD match show ?thesis by metis
  qed
  let ?rev = "\<lambda>r. r\<lparr>ak_revokedAt := Some (ke_now env)\<rparr>"
  have "ak_id r \<noteq> ke_newId env" if "r \<in> set rows" for r
    using that assms(4) by (metis imageI)
  then have "List.find (\<lambda>r. ak_id r = ke_newId env \<and> ak_userId r = userId) rows = None"
    by (fastforce simp: find_None_conv)
  then have "List.find (\<lambda>r. ak_id r = ke_newId env \<and> ak_userId r = userId) rows1 = Some row"
    by (simp add: rows1 find_append row_def)
  then have rows2: "snd (revoke_api_key env userId (ke_newId env) rows1) =
      update_where (\<lambda>r. ak_id r = ke_newId env) ?rev rows1"
    by (simp add: revoke_api_key_def row_def)
  have gone: "\<not> authenticates env resolve s (snd (revoke_api_key env userId (ke_newId env) rows1)) (ke_newId env)"
    for s
  proof
    assume "authenticates env resolve s (snd (revoke_api_key env userId (ke_newId env) rows1)) (ke_newId env)"
    then obtain r where "r \<in> set (update_where (\<lambda>r. ak_id r = ke_newId env) ?rev rows1)"
      "ak_revokedAt r = None" "ak_id r = ke_newId env"
      using authenticated_row[of env resolve s] find_SomeD unfolding authenticates_def rows2 by metis
    then show False by (auto simp: set_update_where)
  qed
  from works alone gone show ?thesis unfolding created by blast
qed

text \<open>A digest for the demonstration: the characters in hexadecimal.\<close>

definition plain_hex :: "string \<Rightarrow> string" where
  "plain_hex s = concat (map (\<lambda>c. [hex_digits ! (of_char c div 16), hex_digits ! (of_char c mod 16)]) s)"

lemma hex_bytes_plain: "hex_bytes (plain_hex s) = map of_char s"
proof (induction s)
  case (Cons c s)
  have "(of_char c :: nat) < 16 * 16" using of_char_mod_256[of c, where 'a = nat] mod_less_divisor[of 256 "of_char c"] by simp
  then have "(of_char c :: nat) div 16 < 16" by (rule less_mult_imp_div_less)
  with Cons hex_of_digit[of "of_char c div 16"] hex_of_digit[of "of_char c mod 16"] show ?case
    by (simp add: plain_hex_def)
qed (simp add: plain_hex_def)

lemma plain_hex_inj: "inj (\<lambda>s. hex_bytes (plain_hex s))"
proof (rule injI)
  fix s t :: string
  assume "hex_bytes (plain_hex s) = hex_bytes (plain_hex t)"
  then have "map (of_char :: char \<Rightarrow> nat) s = map of_char t" by (simp only: hex_bytes_plain)
  then have "map char_of (map (of_char :: char \<Rightarrow> nat) s) = map char_of (map (of_char :: char \<Rightarrow> nat) t)"
    by (rule arg_cong)
  then show "s = t" by (simp add: comp_def)
qed

definition demo_user :: library_user where
  "demo_user = \<lparr>lu_id = ''u'', lu_email = ''u@x'', lu_name = ''U'', lu_emailVerified = True,
     lu_twoFactorEnabled = None\<rparr>"

definition demo_keys :: api_key_env where
  "demo_keys =
     \<lparr>ke_digest = plain_hex, ke_randomHex = replicate 48 CHR ''a'', ke_newId = ''k1'', ke_now = 5,
      ke_users = [demo_user], ke_stampFault = Tx_ok\<rparr>"

definition demo_no_access :: effective_access where
  "demo_no_access = \<lparr>ea_roles = [], ea_permissions = []\<rparr>"

definition demo_key :: created_api_key where
  "demo_key = \<lparr>ck_id = ''k1'', ck_name = ''laptop'', ck_prefix = ''nes_aaaaaaaa'',
     ck_secret = ''nes_'' @ replicate 48 CHR ''a'', ck_createdAt = 5\<rparr>"

theorem api_key_works_for_its_secret_until_revoked_witness:
  "fst (verify_secret demo_keys (\<lambda>_. Inr demo_no_access) (ck_secret demo_key)
      (snd (create_api_key demo_keys ''u'' '' laptop '' []))) =
   Inr (Some \<lparr>ap_user = to_principal demo_user, ap_apiKeyId = ''k1'', ap_access = demo_no_access\<rparr>) \<and>
   \<not> authenticates demo_keys (\<lambda>_. Inr demo_no_access) (ck_secret demo_key)
      (snd (revoke_api_key demo_keys ''u'' ''k1'' (snd (create_api_key demo_keys ''u'' '' laptop '' [])))) ''k1''"
proof -
  have inj: "inj (\<lambda>s. hex_bytes (ke_digest demo_keys s))" using plain_hex_inj by (simp add: demo_keys_def)
  have "fst (create_api_key demo_keys ''u'' '' laptop '' []) = Inr demo_key" by code_simp
  then have made: "create_api_key demo_keys ''u'' '' laptop '' [] =
      (Inr demo_key, snd (create_api_key demo_keys ''u'' '' laptop '' []))" by (metis prod.collapse)
  have len: "length (ke_randomHex demo_keys) = 48" by (simp add: demo_keys_def)
  have user: "List.find (\<lambda>u. lu_id u = ''u'') (ke_users demo_keys) = Some demo_user"
    and id: "ke_newId demo_keys \<notin> ak_id ` set ([] :: api_key_row list)"
    and ok: "lu_emailVerified demo_user" "(\<lambda>_. Inr demo_no_access) ''u'' = (Inr demo_no_access :: exn + effective_access)"
    by (simp_all add: demo_keys_def demo_user_def)
  have k1: "ck_id demo_key = ''k1''" by (simp add: demo_key_def)
  show ?thesis
    using api_key_works_for_its_secret_until_revoked[OF inj len made id user ok(1),
        of "\<lambda>_. Inr demo_no_access" demo_no_access] ok(2)
    unfolding k1 by blast
qed

end
