(* ===== verification/Configuration.thy ===== *)
theory Configuration
  imports Errors
begin

text \<open>
  The environment schema (\<open>src/config/env.schema.ts\<close>): which variables there are, what each
  may hold, and the rules between them.

  zod parses a single field and is an argument (\<open>field_parser\<close>); what the schema asks of a
  field is the data type \<open>field_schema\<close>, a constructor for each shape the schema uses. The
  functions the schema hands to zod (blank values, flags, URL and origin checks) are the code's
  own and defined here. The URL parser of the platform is an argument too. An environment that
  was accepted is the map from the names to the values, an optional variable that is absent
  being absent from the map.
\<close>

section \<open>Texts\<close>

text \<open>\<open>value.split(sep)\<close> at one character.\<close>

fun split_at :: "char \<Rightarrow> string \<Rightarrow> string list" where
  "split_at c [] = [[]]"
| "split_at c (x # xs) =
     (if x = c then [] # split_at c xs
      else (case split_at c xs of [] \<Rightarrow> [[x]] | y # ys \<Rightarrow> (x # y) # ys))"

text \<open>
  \<open>Number(text)\<close>: white space around, the empty text is zero, a radix prefix, or a decimal
  with a fraction and an exponent. Integers from 2 to the 53rd on are not rounded here.
\<close>

definition radix_digit :: "char \<Rightarrow> nat option" where
  "radix_digit = map_of (zip ''0123456789abcdefABCDEF'' ([0..<16] @ [10..<16]))"

fun read_radix :: "nat \<Rightarrow> nat \<Rightarrow> string \<Rightarrow> nat option" where
  "read_radix b acc [] = Some acc"
| "read_radix b acc (c # cs) =
     (case radix_digit c of
        None \<Rightarrow> None
      | Some d \<Rightarrow> (if d < b then read_radix b (b * acc + d) cs else None))"

definition radix_of :: "string \<Rightarrow> nat option" where
  "radix_of s =
     (if s = ''0x'' \<or> s = ''0X'' then Some 16
      else if s = ''0o'' \<or> s = ''0O'' then Some 8
      else if s = ''0b'' \<or> s = ''0B'' then Some 2 else None)"

definition exponent_of :: "string \<Rightarrow> int option" where
  "exponent_of s =
     (case s of
        [] \<Rightarrow> None
      | c # cs \<Rightarrow>
          (if c = CHR ''+'' then map_option int (parse_nat cs) else parse_int (c # cs)))"

definition scaled :: "nat \<Rightarrow> int \<Rightarrow> js_number" where
  "scaled m e =
     (if 0 \<le> e then JInt (int m * 10 ^ nat e)
      else if int m mod 10 ^ nat (- e) = 0 then JInt (int m div 10 ^ nat (- e)) else JOther)"

definition unsigned_decimal :: "string \<Rightarrow> js_number" where
  "unsigned_decimal s =
     (let isExp = (\<lambda>c. c = CHR ''e'' \<or> c = CHR ''E'');
          mantissa = takeWhile (\<lambda>c. \<not> isExp c) s;
          expo = (case dropWhile (\<lambda>c. \<not> isExp c) s of [] \<Rightarrow> Some 0 | _ # t \<Rightarrow> exponent_of t);
          whole = takeWhile (\<lambda>c. c \<noteq> CHR ''.'') mantissa;
          frac = (case dropWhile (\<lambda>c. c \<noteq> CHR ''.'') mantissa of [] \<Rightarrow> [] | _ # f \<Rightarrow> f)
      in case (parse_nat (whole @ frac), expo) of
           (Some m, Some e) \<Rightarrow> scaled m (e - int (length frac))
         | _ \<Rightarrow> JOther)"

fun negate_number :: "js_number \<Rightarrow> js_number" where
  "negate_number (JInt n) = JInt (- n)"
| "negate_number JOther = JOther"

definition number_of :: "string \<Rightarrow> js_number" where
  "number_of text =
     (let s = trim text
      in if s = [] then JInt 0
         else
           (case radix_of (take 2 s) of
              Some b \<Rightarrow>
                (if length s = 2 then JOther
                 else (case read_radix b 0 (drop 2 s) of Some n \<Rightarrow> JInt (int n) | None \<Rightarrow> JOther))
            | None \<Rightarrow>
                (if hd s = CHR ''-'' then negate_number (unsigned_decimal (tl s))
                 else if hd s = CHR ''+'' then unsigned_decimal (tl s)
                 else unsigned_decimal s)))"

section \<open>Values and fields\<close>

datatype env_value = Text_value string | Number_value int | Flag_value bool | List_value "string list"

type_synonym environment = "string \<Rightarrow> env_value option"

record parsed_url =
  url_protocol :: string
  url_origin :: string

record issue =
  is_path :: string
  is_message :: string

datatype number_check = Positive | Nonnegative | At_least int | At_most int

text \<open>
  The shapes of fields: an enumeration with its default; \<open>z.coerce.number().int()\<close> with checks
  and a default; the same behind \<open>blankAsAbsent\<close> and optional; a text with a least length, a
  predicate and a default; \<open>optionalString\<close>; \<open>booleanFlag\<close>; the optional flag; the origins.
\<close>

datatype field_schema =
    Enum_field "string list" string
  | Number_field "number_check list" int
  | Optional_number "number_check list"
  | Text_field nat "string \<Rightarrow> bool" "string option"
  | Optional_text
  | Flag_field bool
  | Optional_flag
  | Origins_field

definition is_postgres_url :: "string \<Rightarrow> bool" where
  "is_postgres_url v \<longleftrightarrow> starts_with ''postgresql://'' v \<or> starts_with ''postgres://'' v"

definition is_redis_url :: "string \<Rightarrow> bool" where
  "is_redis_url v \<longleftrightarrow> starts_with ''redis://'' v \<or> starts_with ''rediss://'' v"

definition is_http_url :: "(string \<Rightarrow> parsed_url option) \<Rightarrow> string \<Rightarrow> bool" where
  "is_http_url parseUrl v \<longleftrightarrow>
     (case parseUrl v of
        None \<Rightarrow> False
      | Some u \<Rightarrow> url_protocol u = ''http:'' \<or> url_protocol u = ''https:'')"

definition blank_as_absent :: "string option \<Rightarrow> string option" where
  "blank_as_absent v = (case v of Some s \<Rightarrow> (if trim s = [] then None else Some s) | None \<Rightarrow> None)"

definition flag_texts :: "string list" where
  "flag_texts = [''true'', ''false'', ''1'', ''0'']"

definition flag_of :: "string \<Rightarrow> bool" where
  "flag_of v \<longleftrightarrow> v = ''true'' \<or> v = ''1''"

section \<open>Origins\<close>

text \<open>\<open>raw.trim().replace(/\/$/, '')\<close>: at most one slash is taken off.\<close>

definition bare_origin :: "string \<Rightarrow> string" where
  "bare_origin raw =
     (let s = trim raw in if s \<noteq> [] \<and> last s = CHR ''/'' then butlast s else s)"

text \<open>An em dash, in UTF-8.\<close>

definition dash :: string where "dash = [CHR '' '', CHR 0xE2, CHR 0x80, CHR 0x94, CHR '' '']"

definition wildcard_origin :: string where
  "wildcard_origin =
     ''must not be \"*\"'' @ dash @
     ''credentialed CORS cannot use a wildcard origin; list explicit origins instead''"

definition origin_issue :: "(string \<Rightarrow> parsed_url option) \<Rightarrow> string \<Rightarrow> string option" where
  "origin_issue parseUrl origin =
     (if origin = [] then None
      else if origin = ''*'' then Some wildcard_origin
      else
        (case parseUrl origin of
           None \<Rightarrow> Some (''\"'' @ origin @ ''\" is not a valid origin (expected scheme://host[:port])'')
         | Some u \<Rightarrow>
             (if url_origin u \<noteq> origin
              then Some (''\"'' @ origin @ ''\" must be a bare origin with no path, query, or fragment'')
              else None)))"

definition origin_issues :: "(string \<Rightarrow> parsed_url option) \<Rightarrow> string \<Rightarrow> string list" where
  "origin_issues parseUrl v =
     (if trim v = [] then []
      else List.map_filter (\<lambda>raw. origin_issue parseUrl (bare_origin raw)) (split_at CHR '','' v))"

definition origin_list :: "string \<Rightarrow> string list" where
  "origin_list v = filter (\<lambda>s. s \<noteq> []) (map bare_origin (split_at CHR '','' v))"

section \<open>The variables\<close>

definition placeholder_auth_secret :: string where
  "placeholder_auth_secret = ''change-me-to-a-random-32-char-minimum-secret''"

definition any_text :: "string \<Rightarrow> bool" where "any_text v \<longleftrightarrow> True"

definition server_fields :: "(string \<times> field_schema) list" where
  "server_fields =
     [(''NODE_ENV'', Enum_field [''development'', ''test'', ''production''] ''development''),
      (''PORT'', Number_field [Positive, At_most 65535] 3000),
      (''HOST'', Text_field 1 any_text (Some ''0.0.0.0'')),
      (''LOG_LEVEL'', Enum_field [''fatal'', ''error'', ''warn'', ''info'', ''debug'', ''trace'', ''silent''] ''info''),
      (''DATABASE_URL'', Text_field 1 is_postgres_url None),
      (''REDIS_URL'', Text_field 1 is_redis_url None),
      (''HEALTH_TIMEOUT_MS'', Number_field [Positive] 2000)]"

definition auth_fields :: "(string \<Rightarrow> parsed_url option) \<Rightarrow> (string \<times> field_schema) list" where
  "auth_fields parseUrl =
     [(''BETTER_AUTH_SECRET'', Text_field 32 any_text None),
      (''APP_URL'', Text_field 1 (is_http_url parseUrl) None),
      (''SESSION_EXPIRES_IN_SECONDS'', Number_field [Positive] (60 * 60 * 24 * 7)),
      (''SESSION_UPDATE_AGE_SECONDS'', Number_field [Positive] (60 * 60 * 24)),
      (''AUTH_MIN_PASSWORD_LENGTH'', Number_field [At_least 8] 12),
      (''AUTH_MAX_PASSWORD_LENGTH'', Number_field [At_most 256] 128),
      (''AUTH_VERIFICATION_TOKEN_TTL_SECONDS'', Number_field [Positive] (60 * 60)),
      (''AUTH_RESET_TOKEN_TTL_SECONDS'', Number_field [Positive] (60 * 60)),
      (''AUTH_TOTP_ISSUER'', Text_field 1 any_text (Some ''NestJS Enterprise Starter'')),
      (''GOOGLE_CLIENT_ID'', Optional_text),
      (''GOOGLE_CLIENT_SECRET'', Optional_text),
      (''APPLE_CLIENT_ID'', Optional_text),
      (''APPLE_CLIENT_SECRET'', Optional_text)]"

definition abuse_fields :: "(string \<times> field_schema) list" where
  "abuse_fields =
     [(''AUTH_RATE_LIMIT_WINDOW_SECONDS'', Number_field [Positive] 60),
      (''AUTH_RATE_LIMIT_MAX'', Number_field [Positive] 60),
      (''AUTH_STRICT_RATE_LIMIT_WINDOW_SECONDS'', Number_field [Positive] 300),
      (''AUTH_STRICT_RATE_LIMIT_MAX'', Number_field [Positive] 10),
      (''AUTH_LOCKOUT_THRESHOLD'', Number_field [Positive] 5),
      (''AUTH_LOCKOUT_BASE_DELAY_SECONDS'', Number_field [Positive] 30),
      (''AUTH_LOCKOUT_MAX_DELAY_SECONDS'', Number_field [Positive] 900),
      (''AUTH_LOCKOUT_WINDOW_SECONDS'', Number_field [Positive] 3600)]"

definition throttle_fields :: "(string \<times> field_schema) list" where
  "throttle_fields =
     [(''THROTTLE_BURST_WINDOW_SECONDS'', Number_field [Positive] 10),
      (''THROTTLE_BURST_MAX'', Number_field [Positive] 20),
      (''THROTTLE_MINUTE_WINDOW_SECONDS'', Number_field [Positive] 60),
      (''THROTTLE_MINUTE_MAX'', Number_field [Positive] 120),
      (''THROTTLE_STRICT_BURST_WINDOW_SECONDS'', Number_field [Positive] 10),
      (''THROTTLE_STRICT_BURST_MAX'', Number_field [Positive] 10),
      (''THROTTLE_STRICT_MINUTE_WINDOW_SECONDS'', Number_field [Positive] 60),
      (''THROTTLE_STRICT_MINUTE_MAX'', Number_field [Positive] 30)]"

definition usage_fields :: "(string \<times> field_schema) list" where
  "usage_fields =
     [(''USAGE_LIMIT_DEFAULT_DAILY'', Number_field [Positive] 1000),
      (''USAGE_LIMIT_DEFAULT_WEEKLY'', Number_field [Positive] 5000),
      (''USAGE_LIMIT_DEMO_DAILY'', Number_field [Positive] 100),
      (''USAGE_LIMIT_DEMO_WEEKLY'', Number_field [Positive] 500)]"

definition stripe_fields :: "(string \<times> field_schema) list" where
  "stripe_fields =
     [(''CREDITS_LOW_BALANCE_THRESHOLD'', Optional_number [Nonnegative]),
      (''STRIPE_SECRET_KEY'', Optional_text),
      (''STRIPE_WEBHOOK_SECRET'', Optional_text),
      (''STRIPE_CREDIT_PACKS'', Optional_text),
      (''STRIPE_SUCCESS_URL'', Optional_text),
      (''STRIPE_CANCEL_URL'', Optional_text)]"

definition observability_fields :: "(string \<times> field_schema) list" where
  "observability_fields =
     [(''METRICS_ENABLED'', Flag_field False),
      (''METRICS_BEARER_TOKEN'', Optional_text),
      (''SWAGGER_ENABLED'', Optional_flag),
      (''ADMIN_USAGE_TOP_N'', Number_field [Positive, At_most 100] 20)]"

definition mcp_fields :: "(string \<times> field_schema) list" where
  "mcp_fields =
     [(''MCP_ENABLED'', Flag_field True),
      (''MCP_PATH'', Text_field 1 (starts_with ''/'') (Some ''/mcp'')),
      (''MCP_THROTTLE_BURST_WINDOW_SECONDS'', Number_field [Positive] 10),
      (''MCP_THROTTLE_BURST_MAX'', Number_field [Positive] 30),
      (''MCP_THROTTLE_MINUTE_WINDOW_SECONDS'', Number_field [Positive] 60),
      (''MCP_THROTTLE_MINUTE_MAX'', Number_field [Positive] 120)]"

definition transport_fields :: "(string \<times> field_schema) list" where
  "transport_fields =
     [(''CORS_ORIGINS'', Origins_field),
      (''TRUST_PROXY'', Flag_field False)]"

definition mail_fields :: "(string \<times> field_schema) list" where
  "mail_fields =
     [(''MAIL_TRANSPORT'', Enum_field [''log'', ''smtp''] ''log''),
      (''MAIL_FROM'', Text_field 1 any_text (Some ''no-reply@localhost'')),
      (''SMTP_HOST'', Optional_text),
      (''SMTP_PORT'', Optional_number [Positive, At_most 65535]),
      (''SMTP_USER'', Optional_text),
      (''SMTP_PASSWORD'', Optional_text),
      (''SMTP_SECURE'', Flag_field False)]"

definition queue_fields :: "(string \<times> field_schema) list" where
  "queue_fields =
     [(''BULLMQ_PREFIX'', Text_field 1 any_text (Some ''bull'')),
      (''BULLMQ_EMAIL_CONCURRENCY'', Number_field [Positive] 5),
      (''BULLMQ_WEBHOOK_CONCURRENCY'', Number_field [Positive] 5),
      (''BULLMQ_USAGE_ROLLUP_CONCURRENCY'', Number_field [Positive] 1),
      (''BULLMQ_DEFAULT_ATTEMPTS'', Number_field [Positive] 5),
      (''BULLMQ_BACKOFF_MS'', Number_field [Positive] 2000),
      (''EMAIL_LOW_BALANCE_ENABLED'', Flag_field False),
      (''USAGE_ROLLUP_INTERVAL_MS'', Number_field [Nonnegative] 0)]"

definition storage_fields :: "(string \<times> field_schema) list" where
  "storage_fields =
     [(''STORAGE_DRIVER'', Enum_field [''local'', ''s3''] ''local''),
      (''STORAGE_LOCAL_ROOT'', Text_field 1 any_text (Some ''./.storage'')),
      (''STORAGE_S3_BUCKET'', Optional_text),
      (''STORAGE_S3_REGION'', Optional_text),
      (''STORAGE_S3_ACCESS_KEY_ID'', Optional_text),
      (''STORAGE_S3_SECRET_ACCESS_KEY'', Optional_text),
      (''STORAGE_S3_ENDPOINT'', Optional_text),
      (''STORAGE_S3_FORCE_PATH_STYLE'', Flag_field False)]"

definition remaining_fields :: "(string \<times> field_schema) list" where
  "remaining_fields =
     [(''FEATURE_FLAG_EMAIL_LOW_BALANCE'', Flag_field False),
      (''FEATURE_FLAG_ORG_BILLING'', Flag_field True),
      (''IDEMPOTENCY_TTL_SECONDS'', Number_field [Positive] (60 * 60 * 24)),
      (''IDEMPOTENCY_KEY_MAX_LENGTH'', Number_field [Positive] 128),
      (''SHUTDOWN_DRAIN_MS'', Number_field [Positive] 15000),
      (''ORGANIZATION_HEADER'', Text_field 1 any_text (Some ''x-organization-id''))]"

definition env_fields :: "(string \<Rightarrow> parsed_url option) \<Rightarrow> (string \<times> field_schema) list" where
  "env_fields parseUrl =
     server_fields @ auth_fields parseUrl @ abuse_fields @ throttle_fields @ usage_fields @
     stripe_fields @ observability_fields @ mcp_fields @ transport_fields @ mail_fields @
     queue_fields @ storage_fields @ remaining_fields"

end
