(* ===== verification/ConfigRules.thy ===== *)
theory ConfigRules
  imports Configuration Complex_Main
begin

text \<open>
  The rules between variables (the refinement of \<open>src/config/env.schema.ts\<close>) and the
  validation of a raw environment (\<open>src/config/env.validation.ts\<close>).

  Rates are compared as rational numbers, where the code divides doubles. The two agree as
  long as the products of a maximum and the other window stay below 2 to the 52nd; above,
  unequal rates may be equal doubles, and the environment is then rejected as well.
\<close>

section \<open>Reading an accepted environment\<close>

definition present :: "environment \<Rightarrow> string \<Rightarrow> bool" where
  "present env name \<longleftrightarrow> env name \<noteq> None"

definition number_var :: "environment \<Rightarrow> string \<Rightarrow> int" where
  "number_var env name = (case env name of Some (Number_value n) \<Rightarrow> n | _ \<Rightarrow> 0)"

definition text_var :: "environment \<Rightarrow> string \<Rightarrow> string" where
  "text_var env name = (case env name of Some (Text_value t) \<Rightarrow> t | _ \<Rightarrow> [])"

definition optional_text :: "environment \<Rightarrow> string \<Rightarrow> string option" where
  "optional_text env name = (case env name of Some (Text_value t) \<Rightarrow> Some t | _ \<Rightarrow> None)"

definition optional_int :: "environment \<Rightarrow> string \<Rightarrow> int option" where
  "optional_int env name = (case env name of Some (Number_value n) \<Rightarrow> Some n | _ \<Rightarrow> None)"

definition flag_var :: "environment \<Rightarrow> string \<Rightarrow> bool" where
  "flag_var env name \<longleftrightarrow> env name = Some (Flag_value True)"

section \<open>Credit packs\<close>

record credit_pack =
  cp_slug :: string
  cp_credits :: int
  cp_priceId :: string

definition pack_of_entry :: "string \<Rightarrow> string + credit_pack" where
  "pack_of_entry entry =
     (case split_at CHR '':'' entry of
        [slug, creditsRaw, priceId] \<Rightarrow>
          (case number_of creditsRaw of
             JInt credits \<Rightarrow>
               (if slug = [] \<or> priceId = [] \<or> credits \<le> 0
                then Inl (''invalid pack \"'' @ entry @ ''\"'' @ dash @ ''credits must be a positive integer'')
                else Inr \<lparr>cp_slug = slug, cp_credits = credits, cp_priceId = priceId\<rparr>)
           | JOther \<Rightarrow>
               Inl (''invalid pack \"'' @ entry @ ''\"'' @ dash @ ''credits must be a positive integer''))
      | _ \<Rightarrow> Inl (''invalid pack \"'' @ entry @ ''\"'' @ dash @ ''expected slug:credits:priceId''))"

fun packs_of_parts :: "string list \<Rightarrow> string + credit_pack list" where
  "packs_of_parts [] = Inr []"
| "packs_of_parts (part # parts) =
     (let entry = trim part
      in if entry = [] then packs_of_parts parts
         else
           (case pack_of_entry entry of
              Inl e \<Rightarrow> Inl e
            | Inr p \<Rightarrow> map_sum id (Cons p) (packs_of_parts parts)))"

fun duplicate_slug :: "string set \<Rightarrow> credit_pack list \<Rightarrow> string option" where
  "duplicate_slug seen [] = None"
| "duplicate_slug seen (p # ps) =
     (if cp_slug p \<in> seen then Some (cp_slug p) else duplicate_slug (insert (cp_slug p) seen) ps)"

definition parse_stripe_credit_packs :: "string \<Rightarrow> string + credit_pack list" where
  "parse_stripe_credit_packs raw =
     (case packs_of_parts (split_at CHR '','' raw) of
        Inl e \<Rightarrow> Inl e
      | Inr packs \<Rightarrow>
          (if packs = [] then Inl ''must declare at least one pack''
           else
             (case duplicate_slug {} packs of
                Some slug \<Rightarrow> Inl (''duplicate pack slug \"'' @ slug @ ''\"'')
              | None \<Rightarrow> Inr packs)))"

section \<open>The rules\<close>

definition credential_groups :: "(string \<times> string list) list" where
  "credential_groups =
     [(''Google OAuth'', [''GOOGLE_CLIENT_ID'', ''GOOGLE_CLIENT_SECRET'']),
      (''Apple OAuth'', [''APPLE_CLIENT_ID'', ''APPLE_CLIENT_SECRET'']),
      (''Stripe top-up'', [''STRIPE_SECRET_KEY'', ''STRIPE_WEBHOOK_SECRET'', ''STRIPE_CREDIT_PACKS''])]"

definition smtp_group :: "string list" where
  "smtp_group = [''SMTP_HOST'', ''SMTP_PORT'', ''SMTP_USER'', ''SMTP_PASSWORD'']"

definition s3_group :: "string list" where
  "s3_group = [''STORAGE_S3_BUCKET'', ''STORAGE_S3_REGION'', ''STORAGE_S3_ACCESS_KEY_ID'',
     ''STORAGE_S3_SECRET_ACCESS_KEY'']"

text \<open>\<open>names.join(', ')\<close>.\<close>

fun join_names :: "string list \<Rightarrow> string" where
  "join_names [] = []"
| "join_names [n] = n"
| "join_names (n # m # ns) = n @ '', '' @ join_names (m # ns)"

definition issue_at :: "string \<Rightarrow> string \<Rightarrow> issue" where
  "issue_at name message = \<lparr>is_path = name, is_message = message\<rparr>"

definition missing_issues :: "environment \<Rightarrow> string list \<Rightarrow> string \<Rightarrow> issue list" where
  "missing_issues env names message =
     map (\<lambda>n. issue_at n message) (filter (\<lambda>n. \<not> present env n) names)"

definition group_issues :: "environment \<Rightarrow> string \<times> string list \<Rightarrow> issue list" where
  "group_issues env g =
     (let supplied = filter (present env) (snd g)
      in if supplied = [] \<or> length supplied = length (snd g) then []
         else missing_issues env (snd g)
                (''is required because '' @ fst g @ '' is partially configured'' @ dash @
                 ''supply every variable in the group ('' @ join_names (snd g) @ '') or none of them''))"

definition packs_issues :: "environment \<Rightarrow> issue list" where
  "packs_issues env =
     (case optional_text env ''STRIPE_CREDIT_PACKS'' of
        None \<Rightarrow> []
      | Some raw \<Rightarrow>
          (case parse_stripe_credit_packs raw of
             Inl e \<Rightarrow> [issue_at ''STRIPE_CREDIT_PACKS'' e]
           | Inr _ \<Rightarrow> []))"

definition url_issues :: "(string \<Rightarrow> parsed_url option) \<Rightarrow> environment \<Rightarrow> string \<Rightarrow> issue list" where
  "url_issues parseUrl env name =
     (case optional_text env name of
        None \<Rightarrow> []
      | Some v \<Rightarrow>
          (if is_http_url parseUrl v then [] else [issue_at name ''must be an absolute http(s) URL'']))"

definition mail_issues :: "environment \<Rightarrow> issue list" where
  "mail_issues env =
     (if text_var env ''MAIL_TRANSPORT'' = ''smtp''
      then missing_issues env smtp_group
             (''is required because MAIL_TRANSPORT is \"smtp\"'' @ dash @
              ''supply every variable in the group ('' @ join_names smtp_group @ '')'')
      else []) @
     (if text_var env ''MAIL_TRANSPORT'' = ''log'' \<and> text_var env ''NODE_ENV'' = ''production''
      then [issue_at ''MAIL_TRANSPORT''
              (''must not be \"log\" in production'' @ dash @
               ''that transport records messages instead of delivering them, so verification and reset mail would silently never arrive. Set MAIL_TRANSPORT=smtp.'')]
      else [])"

definition storage_issues :: "environment \<Rightarrow> issue list" where
  "storage_issues env =
     (if text_var env ''STORAGE_DRIVER'' = ''local'' \<and> text_var env ''NODE_ENV'' = ''production''
      then [issue_at ''STORAGE_DRIVER''
              (''must not be \"local\" in production'' @ dash @
               ''local disk is not durable across instances. Set STORAGE_DRIVER=s3 with a complete S3 group.'')]
      else []) @
     (if text_var env ''STORAGE_DRIVER'' = ''s3''
      then missing_issues env s3_group
             (''is required because STORAGE_DRIVER is \"s3\"'' @ dash @
              ''supply bucket, region, and credentials (or none of the S3 group with STORAGE_DRIVER=local)'')
      else [])"

definition auth_issues :: "environment \<Rightarrow> issue list" where
  "auth_issues env =
     (if text_var env ''NODE_ENV'' = ''production'' \<and>
         text_var env ''BETTER_AUTH_SECRET'' = placeholder_auth_secret
      then [issue_at ''BETTER_AUTH_SECRET''
              (''must not be the placeholder value from .env.example in production'' @ dash @
               ''generate a unique secret (openssl rand -base64 32)'')]
      else []) @
     (if number_var env ''AUTH_MIN_PASSWORD_LENGTH'' > number_var env ''AUTH_MAX_PASSWORD_LENGTH''
      then [issue_at ''AUTH_MIN_PASSWORD_LENGTH'' ''must not exceed AUTH_MAX_PASSWORD_LENGTH'']
      else []) @
     (if number_var env ''AUTH_LOCKOUT_BASE_DELAY_SECONDS'' >
         number_var env ''AUTH_LOCKOUT_MAX_DELAY_SECONDS''
      then [issue_at ''AUTH_LOCKOUT_BASE_DELAY_SECONDS'' ''must not exceed AUTH_LOCKOUT_MAX_DELAY_SECONDS'']
      else [])"

text \<open>\<open>x.toFixed(3)\<close> of a positive number.\<close>

definition to_fixed3 :: "rat \<Rightarrow> string" where
  "to_fixed3 x =
     (let n = floor (x * 1000 + 1 / 2)
      in show_int (n div 1000) @ ''.'' @ pad_start 3 (n mod 1000))"

definition rate_of :: "environment \<Rightarrow> string \<Rightarrow> rat" where
  "rate_of env limiter =
     of_int (number_var env (limiter @ ''_MAX'')) / of_int (number_var env (limiter @ ''_WINDOW_SECONDS''))"

definition rate_issues :: "environment \<Rightarrow> string \<Rightarrow> string \<Rightarrow> (string \<Rightarrow> string \<Rightarrow> string) \<Rightarrow> issue list" where
  "rate_issues env strict general message =
     (if rate_of env strict \<ge> rate_of env general
      then [issue_at (strict @ ''_MAX'')
              (message (to_fixed3 (rate_of env strict)) (to_fixed3 (rate_of env general)))]
      else [])"

definition strictness_issues :: "environment \<Rightarrow> issue list" where
  "strictness_issues env =
     rate_issues env ''AUTH_STRICT_RATE_LIMIT'' ''AUTH_RATE_LIMIT''
       (\<lambda>s g. ''must permit a lower rate than the general auth limit (currently '' @ s @
          ''/s strict vs '' @ g @ ''/s general)'' @ dash @ ''credential endpoints are meant to be the tighter ones'') @
     rate_issues env ''THROTTLE_STRICT_BURST'' ''THROTTLE_BURST''
       (\<lambda>s g. ''must permit a lower rate than the default burst limit (currently '' @ s @
          ''/s strict vs '' @ g @ ''/s default)'') @
     rate_issues env ''THROTTLE_STRICT_MINUTE'' ''THROTTLE_MINUTE''
       (\<lambda>s g. ''must permit a lower rate than the default per-minute limit (currently '' @ s @
          ''/s strict vs '' @ g @ ''/s default)'')"

definition refinement_issues :: "(string \<Rightarrow> parsed_url option) \<Rightarrow> environment \<Rightarrow> issue list" where
  "refinement_issues parseUrl env =
     concat (map (group_issues env) credential_groups) @ packs_issues env @
     concat (map (url_issues parseUrl env) [''STRIPE_SUCCESS_URL'', ''STRIPE_CANCEL_URL'']) @
     mail_issues env @ storage_issues env @ auth_issues env @ strictness_issues env"

section \<open>Validation\<close>

text \<open>
  \<open>envSchema.safeParse\<close>: every field is parsed, and the refinement runs when all of them did.
  A field parser returns the messages or the value, absent for an optional variable.
\<close>

type_synonym field_parser = "field_schema \<Rightarrow> string option \<Rightarrow> string list + env_value option"

definition field_issues ::
  "field_parser \<Rightarrow> (string \<Rightarrow> string option) \<Rightarrow> string \<times> field_schema \<Rightarrow> issue list" where
  "field_issues zod raw f =
     (case zod (snd f) (raw (fst f)) of Inl ms \<Rightarrow> map (issue_at (fst f)) ms | Inr _ \<Rightarrow> [])"

definition field_failed ::
  "field_parser \<Rightarrow> (string \<Rightarrow> string option) \<Rightarrow> string \<times> field_schema \<Rightarrow> bool" where
  "field_failed zod raw f \<longleftrightarrow> (case zod (snd f) (raw (fst f)) of Inl _ \<Rightarrow> True | Inr _ \<Rightarrow> False)"

definition parsed_env ::
  "field_parser \<Rightarrow> (string \<times> field_schema) list \<Rightarrow> (string \<Rightarrow> string option) \<Rightarrow> environment" where
  "parsed_env zod fs raw =
     (\<lambda>name. case map_of fs name of
        None \<Rightarrow> None
      | Some f \<Rightarrow> (case zod f (raw name) of Inl _ \<Rightarrow> None | Inr v \<Rightarrow> v))"

definition safe_parse ::
  "field_parser \<Rightarrow> (string \<Rightarrow> parsed_url option) \<Rightarrow> (string \<Rightarrow> string option) \<Rightarrow> issue list + environment" where
  "safe_parse zod parseUrl raw =
     (let fs = env_fields parseUrl
      in if list_ex (field_failed zod raw) fs then Inl (concat (map (field_issues zod raw) fs))
         else
           (let env = parsed_env zod fs raw; issues = refinement_issues parseUrl env
            in if issues = [] then Inr env else Inl issues))"

definition newline :: string where "newline = [CHR 0x0A]"

fun join_lines :: "string list \<Rightarrow> string" where
  "join_lines [] = []"
| "join_lines [l] = l"
| "join_lines (l # m # ls) = l @ newline @ join_lines (m # ls)"

definition format_issues :: "issue list \<Rightarrow> string" where
  "format_issues issues =
     join_lines ([''Invalid environment configuration:''] @
       map (\<lambda>i. ''  - '' @ (if is_path i = [] then ''(root)'' else is_path i) @ '': '' @ is_message i) issues @
       [[], ''See .env.example for the full contract.''])"

text \<open>The memo of the module, and \<open>getEnv\<close> over it.\<close>

definition validate_env ::
  "field_parser \<Rightarrow> (string \<Rightarrow> parsed_url option) \<Rightarrow> (string \<Rightarrow> string option) \<Rightarrow> environment option \<Rightarrow>
     (exn + environment) \<times> environment option" where
  "validate_env zod parseUrl raw cached =
     (case safe_parse zod parseUrl raw of
        Inl issues \<Rightarrow> (Inl (OtherExn (format_issues issues)), cached)
      | Inr env \<Rightarrow> (Inr env, Some env))"

definition get_env ::
  "field_parser \<Rightarrow> (string \<Rightarrow> parsed_url option) \<Rightarrow> (string \<Rightarrow> string option) \<Rightarrow> environment option \<Rightarrow>
     (exn + environment) \<times> environment option" where
  "get_env zod parseUrl raw cached =
     (case cached of Some env \<Rightarrow> (Inr env, cached) | None \<Rightarrow> validate_env zod parseUrl raw cached)"

end
