(* ===== verification/ConfigNamespaces.thy ===== *)
theory ConfigNamespaces
  imports ConfigRules Throttling Lockout UsageLimits Idempotency HttpBoundary FeatureFlags
begin

text \<open>
  The configuration namespaces (\<open>src/config/*.config.ts\<close>): what each component reads, from an
  accepted environment.
\<close>

section \<open>Limits\<close>

definition window_of :: "environment \<Rightarrow> string \<Rightarrow> throttle_window" where
  "window_of env limiter =
     \<lparr>tw_windowSeconds = number_var env (limiter @ ''_WINDOW_SECONDS''),
      tw_max = number_var env (limiter @ ''_MAX'')\<rparr>"

definition throttle_config_of :: "environment \<Rightarrow> throttle_config" where
  "throttle_config_of env =
     \<lparr>tc_burst = window_of env ''THROTTLE_BURST'', tc_minute = window_of env ''THROTTLE_MINUTE'',
      tc_strict = \<lparr>tws_burst = window_of env ''THROTTLE_STRICT_BURST'',
                   tws_minute = window_of env ''THROTTLE_STRICT_MINUTE''\<rparr>\<rparr>"

record mcp_config =
  mc_enabled :: bool
  mc_path :: string
  mc_throttle :: throttle_windows

definition mcp_config_of :: "environment \<Rightarrow> mcp_config" where
  "mcp_config_of env =
     \<lparr>mc_enabled = flag_var env ''MCP_ENABLED'', mc_path = normalize_mcp_path (text_var env ''MCP_PATH''),
      mc_throttle = \<lparr>tws_burst = window_of env ''MCP_THROTTLE_BURST'',
                     tws_minute = window_of env ''MCP_THROTTLE_MINUTE''\<rparr>\<rparr>"

definition lockout_config_of :: "environment \<Rightarrow> lockout_config" where
  "lockout_config_of env =
     \<lparr>lc_threshold = number_var env ''AUTH_LOCKOUT_THRESHOLD'',
      lc_baseDelaySeconds = number_var env ''AUTH_LOCKOUT_BASE_DELAY_SECONDS'',
      lc_maxDelaySeconds = number_var env ''AUTH_LOCKOUT_MAX_DELAY_SECONDS'',
      lc_windowSeconds = number_var env ''AUTH_LOCKOUT_WINDOW_SECONDS''\<rparr>"

definition usage_config_of :: "environment \<Rightarrow> usage_config" where
  "usage_config_of env =
     \<lparr>uc_default = \<lparr>pc_daily = number_var env ''USAGE_LIMIT_DEFAULT_DAILY'',
                    pc_weekly = number_var env ''USAGE_LIMIT_DEFAULT_WEEKLY''\<rparr>,
      uc_features = [(''demo'', \<lparr>pc_daily = number_var env ''USAGE_LIMIT_DEMO_DAILY'',
                                 pc_weekly = number_var env ''USAGE_LIMIT_DEMO_WEEKLY''\<rparr>)]\<rparr>"

definition idem_config_of :: "environment \<Rightarrow> idem_config" where
  "idem_config_of env =
     \<lparr>ic_ttlSeconds = number_var env ''IDEMPOTENCY_TTL_SECONDS'',
      ic_keyMaxLength = nat (number_var env ''IDEMPOTENCY_KEY_MAX_LENGTH'')\<rparr>"

section \<open>Authentication\<close>

record provider_credentials =
  pv_clientId :: string
  pv_clientSecret :: string

record rate_limit_config =
  rl_windowSeconds :: int
  rl_max :: int
  rl_strictWindowSeconds :: int
  rl_strictMax :: int

record auth_config =
  ac_secret :: string
  ac_appUrl :: string
  ac_basePath :: string
  ac_expiresInSeconds :: int
  ac_updateAgeSeconds :: int
  ac_minLength :: int
  ac_maxLength :: int
  ac_verificationTtlSeconds :: int
  ac_resetTtlSeconds :: int
  ac_totpIssuer :: string
  ac_socialProviders :: "(string \<times> provider_credentials) list"
  ac_enabledProviders :: "string list"
  ac_rateLimit :: rate_limit_config
  ac_lockout :: lockout_config

definition auth_base_path :: string where "auth_base_path = ''/api/auth''"

definition provider_of :: "environment \<Rightarrow> string \<Rightarrow> string \<Rightarrow> (string \<times> provider_credentials) list" where
  "provider_of env name var =
     (case (truthy (optional_text env (var @ ''_CLIENT_ID'')),
            truthy (optional_text env (var @ ''_CLIENT_SECRET''))) of
        (Some i, Some s) \<Rightarrow> [(name, \<lparr>pv_clientId = i, pv_clientSecret = s\<rparr>)]
      | _ \<Rightarrow> [])"

definition social_providers :: "environment \<Rightarrow> (string \<times> provider_credentials) list" where
  "social_providers env = provider_of env ''google'' ''GOOGLE'' @ provider_of env ''apple'' ''APPLE''"

definition auth_config_of :: "environment \<Rightarrow> auth_config" where
  "auth_config_of env =
     \<lparr>ac_secret = text_var env ''BETTER_AUTH_SECRET'', ac_appUrl = text_var env ''APP_URL'',
      ac_basePath = auth_base_path,
      ac_expiresInSeconds = number_var env ''SESSION_EXPIRES_IN_SECONDS'',
      ac_updateAgeSeconds = number_var env ''SESSION_UPDATE_AGE_SECONDS'',
      ac_minLength = number_var env ''AUTH_MIN_PASSWORD_LENGTH'',
      ac_maxLength = number_var env ''AUTH_MAX_PASSWORD_LENGTH'',
      ac_verificationTtlSeconds = number_var env ''AUTH_VERIFICATION_TOKEN_TTL_SECONDS'',
      ac_resetTtlSeconds = number_var env ''AUTH_RESET_TOKEN_TTL_SECONDS'',
      ac_totpIssuer = text_var env ''AUTH_TOTP_ISSUER'',
      ac_socialProviders = social_providers env,
      ac_enabledProviders = map fst (social_providers env),
      ac_rateLimit =
        \<lparr>rl_windowSeconds = number_var env ''AUTH_RATE_LIMIT_WINDOW_SECONDS'',
         rl_max = number_var env ''AUTH_RATE_LIMIT_MAX'',
         rl_strictWindowSeconds = number_var env ''AUTH_STRICT_RATE_LIMIT_WINDOW_SECONDS'',
         rl_strictMax = number_var env ''AUTH_STRICT_RATE_LIMIT_MAX''\<rparr>,
      ac_lockout = lockout_config_of env\<rparr>"

record security_config =
  sec_corsOrigins :: "string list"
  sec_trustProxy :: bool
  sec_servesHttps :: bool

definition security_config_of :: "(string \<Rightarrow> parsed_url option) \<Rightarrow> environment \<Rightarrow> security_config" where
  "security_config_of parseUrl env =
     \<lparr>sec_corsOrigins = (case env ''CORS_ORIGINS'' of Some (List_value xs) \<Rightarrow> xs | _ \<Rightarrow> []),
      sec_trustProxy = flag_var env ''TRUST_PROXY'',
      sec_servesHttps =
        (case parseUrl (text_var env ''APP_URL'') of
           Some u \<Rightarrow> url_protocol u = ''https:'' | None \<Rightarrow> False)\<rparr>"

section \<open>Services\<close>

record stripe_config =
  sc_enabled :: bool
  sc_secretKey :: "string option"
  sc_webhookSecret :: "string option"
  sc_packs :: "credit_pack list"
  sc_packsBySlug :: "(string \<times> credit_pack) list"
  sc_successUrl :: "string option"
  sc_cancelUrl :: "string option"
  sc_apiVersion :: string
  sc_lowBalanceThreshold :: "int option"

definition stripe_api_version :: string where
  "stripe_api_version = ''2026-07-29.dahlia''"

definition stripe_config_of :: "environment \<Rightarrow> exn + stripe_config" where
  "stripe_config_of env =
     (let secretKey = truthy (optional_text env ''STRIPE_SECRET_KEY'');
          webhookSecret = truthy (optional_text env ''STRIPE_WEBHOOK_SECRET'');
          rawPacks = truthy (optional_text env ''STRIPE_CREDIT_PACKS'');
          threshold = optional_int env ''CREDITS_LOW_BALANCE_THRESHOLD''
      in case (secretKey, webhookSecret, rawPacks) of
           (Some _, Some _, Some raw) \<Rightarrow>
             (case parse_stripe_credit_packs raw of
                Inl e \<Rightarrow> Inl (OtherExn e)
              | Inr packs \<Rightarrow>
                  Inr \<lparr>sc_enabled = True, sc_secretKey = secretKey, sc_webhookSecret = webhookSecret,
                       sc_packs = packs, sc_packsBySlug = map (\<lambda>p. (cp_slug p, p)) packs,
                       sc_successUrl = Some (case optional_text env ''STRIPE_SUCCESS_URL'' of
                          Some u \<Rightarrow> u | None \<Rightarrow> text_var env ''APP_URL'' @ ''/billing/success''),
                       sc_cancelUrl = Some (case optional_text env ''STRIPE_CANCEL_URL'' of
                          Some u \<Rightarrow> u | None \<Rightarrow> text_var env ''APP_URL'' @ ''/billing/cancel''),
                       sc_apiVersion = stripe_api_version, sc_lowBalanceThreshold = threshold\<rparr>)
         | _ \<Rightarrow>
             Inr \<lparr>sc_enabled = False, sc_secretKey = None, sc_webhookSecret = None, sc_packs = [],
                  sc_packsBySlug = [], sc_successUrl = None, sc_cancelUrl = None,
                  sc_apiVersion = stripe_api_version, sc_lowBalanceThreshold = threshold\<rparr>)"

definition flag_defaults_of :: "environment \<Rightarrow> (string \<times> bool) list" where
  "flag_defaults_of env =
     [(flag_email_low_balance, flag_var env ''FEATURE_FLAG_EMAIL_LOW_BALANCE''),
      (flag_org_billing, flag_var env ''FEATURE_FLAG_ORG_BILLING'')]"

record observability_config =
  oc_metricsEnabled :: bool
  oc_metricsBearerToken :: "string option"
  oc_swaggerEnabled :: bool
  oc_adminUsageTopN :: int

definition observability_config_of :: "environment \<Rightarrow> observability_config" where
  "observability_config_of env =
     \<lparr>oc_metricsEnabled = flag_var env ''METRICS_ENABLED'',
      oc_metricsBearerToken = optional_text env ''METRICS_BEARER_TOKEN'',
      oc_swaggerEnabled =
        (case env ''SWAGGER_ENABLED'' of
           Some (Flag_value b) \<Rightarrow> b | _ \<Rightarrow> text_var env ''NODE_ENV'' = ''development''),
      oc_adminUsageTopN = number_var env ''ADMIN_USAGE_TOP_N''\<rparr>"

record queues_config =
  qc_prefix :: string
  qc_defaultAttempts :: int
  qc_backoffMs :: int
  qc_emailConcurrency :: int
  qc_webhookConcurrency :: int
  qc_usageRollupConcurrency :: int
  qc_emailLowBalanceEnabled :: bool
  qc_usageRollupIntervalMs :: int

definition queues_config_of :: "environment \<Rightarrow> queues_config" where
  "queues_config_of env =
     \<lparr>qc_prefix = text_var env ''BULLMQ_PREFIX'',
      qc_defaultAttempts = number_var env ''BULLMQ_DEFAULT_ATTEMPTS'',
      qc_backoffMs = number_var env ''BULLMQ_BACKOFF_MS'',
      qc_emailConcurrency = number_var env ''BULLMQ_EMAIL_CONCURRENCY'',
      qc_webhookConcurrency = number_var env ''BULLMQ_WEBHOOK_CONCURRENCY'',
      qc_usageRollupConcurrency = number_var env ''BULLMQ_USAGE_ROLLUP_CONCURRENCY'',
      qc_emailLowBalanceEnabled = flag_var env ''EMAIL_LOW_BALANCE_ENABLED'',
      qc_usageRollupIntervalMs = number_var env ''USAGE_ROLLUP_INTERVAL_MS''\<rparr>"

record mail_config =
  mlc_transport :: string
  mlc_from :: string
  mlc_host :: "string option"
  mlc_port :: "int option"
  mlc_user :: "string option"
  mlc_password :: "string option"
  mlc_secure :: bool

definition mail_config_of :: "environment \<Rightarrow> mail_config" where
  "mail_config_of env =
     \<lparr>mlc_transport = text_var env ''MAIL_TRANSPORT'', mlc_from = text_var env ''MAIL_FROM'',
      mlc_host = optional_text env ''SMTP_HOST'', mlc_port = optional_int env ''SMTP_PORT'',
      mlc_user = optional_text env ''SMTP_USER'', mlc_password = optional_text env ''SMTP_PASSWORD'',
      mlc_secure = flag_var env ''SMTP_SECURE''\<rparr>"

record storage_config =
  stc_driver :: string
  stc_localRoot :: string
  stc_bucket :: "string option"
  stc_region :: "string option"
  stc_accessKeyId :: "string option"
  stc_secretAccessKey :: "string option"
  stc_endpoint :: "string option"
  stc_forcePathStyle :: bool

definition storage_config_of :: "environment \<Rightarrow> storage_config" where
  "storage_config_of env =
     \<lparr>stc_driver = text_var env ''STORAGE_DRIVER'', stc_localRoot = text_var env ''STORAGE_LOCAL_ROOT'',
      stc_bucket = optional_text env ''STORAGE_S3_BUCKET'', stc_region = optional_text env ''STORAGE_S3_REGION'',
      stc_accessKeyId = optional_text env ''STORAGE_S3_ACCESS_KEY_ID'',
      stc_secretAccessKey = optional_text env ''STORAGE_S3_SECRET_ACCESS_KEY'',
      stc_endpoint = optional_text env ''STORAGE_S3_ENDPOINT'',
      stc_forcePathStyle = flag_var env ''STORAGE_S3_FORCE_PATH_STYLE''\<rparr>"

record shutdown_config =
  shc_drainMs :: int
  shc_organizationHeader :: string

definition shutdown_config_of :: "environment \<Rightarrow> shutdown_config" where
  "shutdown_config_of env =
     \<lparr>shc_drainMs = number_var env ''SHUTDOWN_DRAIN_MS'',
      shc_organizationHeader = map lower_char (text_var env ''ORGANIZATION_HEADER'')\<rparr>"

record app_config =
  apc_nodeEnv :: string
  apc_port :: int
  apc_host :: string
  apc_isProduction :: bool
  apc_isDevelopment :: bool
  apc_isTest :: bool

definition app_config_of :: "environment \<Rightarrow> app_config" where
  "app_config_of env =
     \<lparr>apc_nodeEnv = text_var env ''NODE_ENV'', apc_port = number_var env ''PORT'',
      apc_host = text_var env ''HOST'', apc_isProduction = (text_var env ''NODE_ENV'' = ''production''),
      apc_isDevelopment = (text_var env ''NODE_ENV'' = ''development''),
      apc_isTest = (text_var env ''NODE_ENV'' = ''test'')\<rparr>"

definition credits_threshold_of :: "environment \<Rightarrow> int option" where
  "credits_threshold_of env = optional_int env ''CREDITS_LOW_BALANCE_THRESHOLD''"

definition redis_config_of :: "environment \<Rightarrow> string \<times> int" where
  "redis_config_of env = (text_var env ''REDIS_URL'', number_var env ''HEALTH_TIMEOUT_MS'')"

definition logger_config_of :: "environment \<Rightarrow> string \<times> bool" where
  "logger_config_of env = (text_var env ''LOG_LEVEL'', text_var env ''NODE_ENV'' = ''development'')"

definition env_file_paths :: "string option \<Rightarrow> string list" where
  "env_file_paths nodeEnv =
     (let n = (case nodeEnv of Some e \<Rightarrow> e | None \<Rightarrow> ''development'')
      in [''.env.'' @ n @ ''.local'', ''.env.'' @ n, ''.env.local'', ''.env''])"

end
