(* ===== verification/ConfigProperties.thy ===== *)
theory ConfigProperties
  imports ConfigNamespaces LockoutProperties
begin

text \<open>
  What an accepted environment guarantees to the components that read it.

  \<open>conforms\<close> states, for each shape of field, what zod documents of the value of a successful
  parse: it passed the checks and the function of the schema, or it is the default, which zod
  does not check.
\<close>

section \<open>What zod promises\<close>

fun check_holds :: "int \<Rightarrow> number_check \<Rightarrow> bool" where
  "check_holds n Positive \<longleftrightarrow> 0 < n"
| "check_holds n Nonnegative \<longleftrightarrow> 0 \<le> n"
| "check_holds n (At_least k) \<longleftrightarrow> k \<le> n"
| "check_holds n (At_most k) \<longleftrightarrow> n \<le> k"

definition checks_hold :: "number_check list \<Rightarrow> int \<Rightarrow> bool" where
  "checks_hold cs n \<longleftrightarrow> list_all (check_holds n) cs"

fun conforms :: "(string \<Rightarrow> parsed_url option) \<Rightarrow> field_schema \<Rightarrow> env_value option \<Rightarrow> bool" where
  "conforms p (Enum_field xs d) v \<longleftrightarrow> (case v of Some (Text_value t) \<Rightarrow> t \<in> set xs \<or> t = d | _ \<Rightarrow> False)"
| "conforms p (Number_field cs d) v \<longleftrightarrow>
     (case v of Some (Number_value n) \<Rightarrow> checks_hold cs n \<or> n = d | _ \<Rightarrow> False)"
| "conforms p (Optional_number cs) v \<longleftrightarrow>
     (case v of None \<Rightarrow> True | Some (Number_value n) \<Rightarrow> checks_hold cs n | _ \<Rightarrow> False)"
| "conforms p (Text_field k P d) v \<longleftrightarrow>
     (case v of Some (Text_value t) \<Rightarrow> k \<le> length t \<and> P t \<or> d = Some t | _ \<Rightarrow> False)"
| "conforms p Optional_text v \<longleftrightarrow>
     (case v of None \<Rightarrow> True | Some (Text_value t) \<Rightarrow> t \<noteq> [] | _ \<Rightarrow> False)"
| "conforms p (Flag_field d) v \<longleftrightarrow> (case v of Some (Flag_value b) \<Rightarrow> True | _ \<Rightarrow> False)"
| "conforms p Optional_flag v \<longleftrightarrow> (case v of None \<Rightarrow> True | Some (Flag_value b) \<Rightarrow> True | _ \<Rightarrow> False)"
| "conforms p Origins_field v \<longleftrightarrow>
     (case v of Some (List_value xs) \<Rightarrow> (\<exists>r. origin_issues p r = [] \<and> xs = origin_list r) | _ \<Rightarrow> False)"

definition zod_law :: "field_parser \<Rightarrow> (string \<Rightarrow> parsed_url option) \<Rightarrow> bool" where
  "zod_law zod p \<longleftrightarrow> (\<forall>f raw v. zod f raw = Inr v \<longrightarrow> conforms p f v)"

section \<open>The declared fields\<close>

lemmas field_defs = env_fields_def server_fields_def auth_fields_def abuse_fields_def
  throttle_fields_def usage_fields_def stripe_fields_def observability_fields_def mcp_fields_def
  transport_fields_def mail_fields_def queue_fields_def storage_fields_def remaining_fields_def

lemma distinct_names: "distinct (map fst (env_fields p))"
  by (simp add: field_defs)

text \<open>The defaults pass the checks of their fields.\<close>

fun default_ok :: "field_schema \<Rightarrow> bool" where
  "default_ok (Enum_field xs d) \<longleftrightarrow> d \<in> set xs"
| "default_ok (Number_field cs d) \<longleftrightarrow> checks_hold cs d"
| "default_ok (Text_field k P (Some d)) \<longleftrightarrow> k \<le> length d \<and> P d"
| "default_ok _ \<longleftrightarrow> True"

lemma defaults_ok: "(n, f) \<in> set (env_fields p) \<Longrightarrow> default_ok f"
proof -
  have "list_all (\<lambda>f. default_ok (snd f)) (env_fields p)"
    by (simp add: field_defs checks_hold_def any_text_def)
  then show "(n, f) \<in> set (env_fields p) \<Longrightarrow> default_ok f" by (auto simp: list_all_iff)
qed

section \<open>Accepted environments\<close>

definition accepted :: "(string \<Rightarrow> parsed_url option) \<Rightarrow> environment \<Rightarrow> bool" where
  "accepted p env \<longleftrightarrow> (\<forall>(n, f)\<in>set (env_fields p). conforms p f (env n)) \<and> refinement_issues p env = []"

lemma safe_parse_accepted:
  assumes "zod_law zod p" and "safe_parse zod p raw = Inr env"
  shows "accepted p env"
proof -
  from assms(2) have ok: "\<not> list_ex (field_failed zod raw) (env_fields p)"
    and env: "env = parsed_env zod (env_fields p) raw" and none: "refinement_issues p env = []"
    by (auto simp: safe_parse_def Let_def split: if_splits)
  have "conforms p f (env n)" if "(n, f) \<in> set (env_fields p)" for n f
  proof -
    from ok that have "\<not> field_failed zod raw (n, f)" by (auto simp: list_ex_iff)
    then obtain v where v: "zod f (raw n) = Inr v" by (auto simp: field_failed_def split: sum.splits)
    have "map_of (env_fields p) n = Some f" using that distinct_names by simp
    with v have "env n = v" by (simp add: env parsed_env_def)
    with v assms(1) show ?thesis by (simp add: zod_law_def)
  qed
  with none show ?thesis by (auto simp: accepted_def)
qed

lemma accepted_number:
  assumes "accepted p env" and "(n, Number_field cs d) \<in> set (env_fields p)"
  shows "checks_hold cs (number_var env n)" and "env n = Some (Number_value (number_var env n))"
proof -
  have "conforms p (Number_field cs d) (env n)" using assms by (auto simp: accepted_def)
  moreover have "checks_hold cs d" using defaults_ok[OF assms(2)] by simp
  ultimately show "checks_hold cs (number_var env n)"
    and "env n = Some (Number_value (number_var env n))"
    by (auto simp: number_var_def split: option.splits env_value.splits)
qed

lemma accepted_text:
  assumes "accepted p env" and "(n, Text_field k P d) \<in> set (env_fields p)"
  shows "k \<le> length (text_var env n) \<and> P (text_var env n)"
proof -
  have "conforms p (Text_field k P d) (env n)" using assms by (auto simp: accepted_def)
  moreover have "\<forall>t. d = Some t \<longrightarrow> k \<le> length t \<and> P t" using defaults_ok[OF assms(2)] by auto
  ultimately show ?thesis by (auto simp: text_var_def split: option.splits env_value.splits)
qed

lemma accepted_choice:
  assumes "accepted p env" and "(n, Enum_field xs d) \<in> set (env_fields p)"
  shows "text_var env n \<in> set xs"
proof -
  have "conforms p (Enum_field xs d) (env n)" using assms by (auto simp: accepted_def)
  moreover have "d \<in> set xs" using defaults_ok[OF assms(2)] by simp
  ultimately show ?thesis by (auto simp: text_var_def split: option.splits env_value.splits)
qed

lemma accepted_optional:
  assumes "accepted p env" and "(n, Optional_text) \<in> set (env_fields p)"
  shows "present env n \<longleftrightarrow> truthy (optional_text env n) \<noteq> None"
    and "optional_text env n = truthy (optional_text env n)"
proof -
  have "conforms p Optional_text (env n)" using assms by (auto simp: accepted_def)
  then show "present env n \<longleftrightarrow> truthy (optional_text env n) \<noteq> None"
    and "optional_text env n = truthy (optional_text env n)"
    by (auto simp: present_def optional_text_def truthy_def split: option.splits env_value.splits)
qed

lemma accepted_rules:
  assumes "accepted p env"
  shows "\<forall>g\<in>set credential_groups. group_issues env g = []" and "packs_issues env = []"
    and "mail_issues env = []" and "storage_issues env = []" and "auth_issues env = []"
    and "strictness_issues env = []"
  using assms by (simp_all add: accepted_def refinement_issues_def)

lemma missing_none: "missing_issues env names m = [] \<longleftrightarrow> (\<forall>n\<in>set names. present env n)"
  by (auto simp: missing_issues_def filter_empty_conv)

text \<open>A group is there as a whole or not at all.\<close>

lemma group_whole:
  assumes "group_issues env g = []" and "n \<in> set (snd g)" and "m \<in> set (snd g)"
  shows "present env n \<longleftrightarrow> present env m"
proof (cases "filter (present env) (snd g) = []")
  case True
  with assms(2,3) show ?thesis by (auto simp: filter_empty_conv)
next
  case False
  have "\<forall>x\<in>set (snd g). present env x"
  proof (cases "length (filter (present env) (snd g)) = length (snd g)")
    case True
    then show ?thesis using length_filter_less[of _ "snd g" "present env"] by (metis less_irrefl)
  next
    case len: False
    with False assms(1) show ?thesis by (simp add: group_issues_def Let_def missing_none)
  qed
  with assms(2,3) show ?thesis by blast
qed

lemma rate_below:
  assumes "rate_issues env strict general m = []"
    and "0 < number_var env (strict @ ''_WINDOW_SECONDS'')"
    and "0 < number_var env (general @ ''_WINDOW_SECONDS'')"
  shows "number_var env (strict @ ''_MAX'') * number_var env (general @ ''_WINDOW_SECONDS'') <
         number_var env (general @ ''_MAX'') * number_var env (strict @ ''_WINDOW_SECONDS'')"
proof -
  let ?a = "number_var env (strict @ ''_MAX'')" and ?b = "number_var env (strict @ ''_WINDOW_SECONDS'')"
  let ?c = "number_var env (general @ ''_MAX'')" and ?d = "number_var env (general @ ''_WINDOW_SECONDS'')"
  have "(of_int ?a / of_int ?b :: rat) < of_int ?c / of_int ?d"
    using assms(1) by (simp add: rate_issues_def rate_of_def not_le split: if_splits)
  then have "(of_int ?a * of_int ?d :: rat) < of_int ?c * of_int ?b"
    using assms(2,3) by (simp add: divide_less_eq less_divide_eq mult.commute field_simps)
  then have "(of_int (?a * ?d) :: rat) < of_int (?c * ?b)" by simp
  then show ?thesis unfolding of_int_less_iff .
qed

section \<open>What the components get\<close>

lemma field_names:
  "(''AUTH_LOCKOUT_BASE_DELAY_SECONDS'', Number_field [Positive] 30) \<in> set (env_fields p)"
  "(''AUTH_LOCKOUT_WINDOW_SECONDS'', Number_field [Positive] 3600) \<in> set (env_fields p)"
  "(''AUTH_MIN_PASSWORD_LENGTH'', Number_field [At_least 8] 12) \<in> set (env_fields p)"
  "(''AUTH_MAX_PASSWORD_LENGTH'', Number_field [At_most 256] 128) \<in> set (env_fields p)"
  "(''AUTH_RATE_LIMIT_WINDOW_SECONDS'', Number_field [Positive] 60) \<in> set (env_fields p)"
  "(''AUTH_STRICT_RATE_LIMIT_WINDOW_SECONDS'', Number_field [Positive] 300) \<in> set (env_fields p)"
  "(''IDEMPOTENCY_KEY_MAX_LENGTH'', Number_field [Positive] 128) \<in> set (env_fields p)"
  by (simp_all add: env_fields_def auth_fields_def abuse_fields_def remaining_fields_def)

lemma window_names:
  "(''THROTTLE_BURST_WINDOW_SECONDS'', Number_field [Positive] 10) \<in> set (env_fields p)"
  "(''THROTTLE_MINUTE_WINDOW_SECONDS'', Number_field [Positive] 60) \<in> set (env_fields p)"
  "(''THROTTLE_STRICT_BURST_WINDOW_SECONDS'', Number_field [Positive] 10) \<in> set (env_fields p)"
  "(''THROTTLE_STRICT_MINUTE_WINDOW_SECONDS'', Number_field [Positive] 60) \<in> set (env_fields p)"
  "(''THROTTLE_STRICT_BURST_MAX'', Number_field [Positive] 10) \<in> set (env_fields p)"
  "(''THROTTLE_STRICT_MINUTE_MAX'', Number_field [Positive] 30) \<in> set (env_fields p)"
  by (simp_all add: env_fields_def throttle_fields_def)

lemma secret_names:
  "(''STRIPE_SECRET_KEY'', Optional_text) \<in> set (env_fields p)"
  "(''STRIPE_WEBHOOK_SECRET'', Optional_text) \<in> set (env_fields p)"
  "(''STRIPE_CREDIT_PACKS'', Optional_text) \<in> set (env_fields p)"
  by (simp_all add: env_fields_def stripe_fields_def)

lemma choice_names:
  "(''NODE_ENV'', Enum_field [''development'', ''test'', ''production''] ''development'') \<in> set (env_fields p)"
  "(''MAIL_TRANSPORT'', Enum_field [''log'', ''smtp''] ''log'') \<in> set (env_fields p)"
  "(''STORAGE_DRIVER'', Enum_field [''local'', ''s3''] ''local'') \<in> set (env_fields p)"
  by (simp_all add: env_fields_def server_fields_def mail_fields_def storage_fields_def)

lemma accepted_positive:
  "accepted p env \<Longrightarrow> (n, Number_field [Positive] d) \<in> set (env_fields p) \<Longrightarrow> 0 < number_var env n"
  using accepted_number(1)[of p env n "[Positive]" d] by (simp add: checks_hold_def)

lemma accepted_lockout:
  assumes "accepted p env"
  shows "backoff_ok (lockout_config_of env)"
  using accepted_positive[OF assms field_names(1)] accepted_positive[OF assms field_names(2)]
    accepted_rules(5)[OF assms]
  by (auto simp: backoff_ok_def lockout_config_of_def auth_issues_def split: if_splits)

lemma accepted_passwords:
  assumes "accepted p env"
  shows "8 \<le> ac_minLength (auth_config_of env) \<and>
    ac_minLength (auth_config_of env) \<le> ac_maxLength (auth_config_of env) \<and>
    ac_maxLength (auth_config_of env) \<le> 256"
  using accepted_number(1)[OF assms field_names(3)] accepted_number(1)[OF assms field_names(4)]
    accepted_rules(5)[OF assms]
  by (auto simp: auth_config_of_def auth_issues_def checks_hold_def split: if_splits)

text \<open>One window admits strictly fewer calls per second than another.\<close>

definition tighter :: "throttle_window \<Rightarrow> throttle_window \<Rightarrow> bool" where
  "tighter w v \<longleftrightarrow> tw_max w * tw_windowSeconds v < tw_max v * tw_windowSeconds w"

lemma accepted_strictness:
  assumes "accepted p env"
  defines "t \<equiv> throttle_config_of env" and "r \<equiv> ac_rateLimit (auth_config_of env)"
  shows "tighter (tws_burst (tc_strict t)) (tc_burst t)" and "tighter (tws_minute (tc_strict t)) (tc_minute t)"
    and "rl_strictMax r * rl_windowSeconds r < rl_max r * rl_strictWindowSeconds r"
proof -
  have none: "\<exists>m. rate_issues env ''THROTTLE_STRICT_BURST'' ''THROTTLE_BURST'' m = []"
    "\<exists>m. rate_issues env ''THROTTLE_STRICT_MINUTE'' ''THROTTLE_MINUTE'' m = []"
    "\<exists>m. rate_issues env ''AUTH_STRICT_RATE_LIMIT'' ''AUTH_RATE_LIMIT'' m = []"
    using accepted_rules(6)[OF assms(1)] unfolding strictness_issues_def append_is_Nil_conv by blast+
  have pos: "0 < number_var env (''THROTTLE_STRICT_BURST'' @ ''_WINDOW_SECONDS'')"
    "0 < number_var env (''THROTTLE_BURST'' @ ''_WINDOW_SECONDS'')"
    "0 < number_var env (''THROTTLE_STRICT_MINUTE'' @ ''_WINDOW_SECONDS'')"
    "0 < number_var env (''THROTTLE_MINUTE'' @ ''_WINDOW_SECONDS'')"
    "0 < number_var env (''AUTH_STRICT_RATE_LIMIT'' @ ''_WINDOW_SECONDS'')"
    "0 < number_var env (''AUTH_RATE_LIMIT'' @ ''_WINDOW_SECONDS'')"
    using accepted_positive[OF assms(1) window_names(1)] accepted_positive[OF assms(1) window_names(2)]
      accepted_positive[OF assms(1) window_names(3)] accepted_positive[OF assms(1) window_names(4)]
      accepted_positive[OF assms(1) field_names(5)] accepted_positive[OF assms(1) field_names(6)]
    by simp_all
  show "tighter (tws_burst (tc_strict t)) (tc_burst t)"
    using none(1) rate_below[OF _ pos(1,2)]
    by (auto simp: tighter_def t_def throttle_config_of_def window_of_def simp del: append.simps)
  show "tighter (tws_minute (tc_strict t)) (tc_minute t)"
    using none(2) rate_below[OF _ pos(3,4)]
    by (auto simp: tighter_def t_def throttle_config_of_def window_of_def simp del: append.simps)
  show "rl_strictMax r * rl_windowSeconds r < rl_max r * rl_strictWindowSeconds r"
    using none(3) rate_below[OF _ pos(5,6)]
    by (auto simp: r_def auth_config_of_def)
qed

text \<open>Packs that parse have distinct slugs, positive credits and no empty part.\<close>

definition packs_ok :: "credit_pack list \<Rightarrow> bool" where
  "packs_ok packs \<longleftrightarrow> packs \<noteq> [] \<and> distinct (map cp_slug packs) \<and>
     (\<forall>p\<in>set packs. 0 < cp_credits p \<and> cp_slug p \<noteq> [] \<and> cp_priceId p \<noteq> [])"

lemma duplicate_slug_none:
  "duplicate_slug seen ps = None \<longleftrightarrow> distinct (map cp_slug ps) \<and> seen \<inter> cp_slug ` set ps = {}"
  by (induction ps arbitrary: seen) auto

lemma pack_of_entry_ok:
  "pack_of_entry entry = Inr p \<Longrightarrow> 0 < cp_credits p \<and> cp_slug p \<noteq> [] \<and> cp_priceId p \<noteq> []"
  by (auto simp: pack_of_entry_def split: list.splits js_number.splits if_splits)

lemma packs_of_parts_ok:
  "packs_of_parts parts = Inr packs \<Longrightarrow> p \<in> set packs \<Longrightarrow>
     0 < cp_credits p \<and> cp_slug p \<noteq> [] \<and> cp_priceId p \<noteq> []"
proof (induction parts arbitrary: packs)
  case (Cons part parts)
  then show ?case
    using pack_of_entry_ok[of "trim part"]
    by (cases "packs_of_parts parts") (auto simp: Let_def split: if_splits sum.splits)
qed simp

lemma parse_packs_ok: "parse_stripe_credit_packs raw = Inr packs \<Longrightarrow> packs_ok packs"
  by (auto simp: parse_stripe_credit_packs_def packs_ok_def duplicate_slug_none
      split: sum.splits if_splits option.splits dest: packs_of_parts_ok)

lemma accepted_stripe:
  assumes "accepted p env"
  shows "\<exists>c. stripe_config_of env = Inr c \<and> (sc_enabled c \<longleftrightarrow> present env ''STRIPE_SECRET_KEY'') \<and>
     (sc_enabled c \<longrightarrow> packs_ok (sc_packs c) \<and> sc_webhookSecret c \<noteq> None \<and> sc_successUrl c \<noteq> None)"
proof -
  have g: "group_issues env (''Stripe top-up'', [''STRIPE_SECRET_KEY'', ''STRIPE_WEBHOOK_SECRET'',
      ''STRIPE_CREDIT_PACKS'']) = []"
    using accepted_rules(1)[OF assms] by (simp add: credential_groups_def)
  have same: "present env ''STRIPE_WEBHOOK_SECRET'' = present env ''STRIPE_SECRET_KEY''"
    "present env ''STRIPE_CREDIT_PACKS'' = present env ''STRIPE_SECRET_KEY''"
    using group_whole[OF g] by simp_all
  note t = accepted_optional[OF assms secret_names(1)] accepted_optional[OF assms secret_names(2)]
    accepted_optional[OF assms secret_names(3)]
  show ?thesis
  proof (cases "present env ''STRIPE_SECRET_KEY''")
    case True
    with same t obtain a b raw where v: "truthy (optional_text env ''STRIPE_SECRET_KEY'') = Some a"
      "truthy (optional_text env ''STRIPE_WEBHOOK_SECRET'') = Some b"
      "truthy (optional_text env ''STRIPE_CREDIT_PACKS'') = Some raw" by auto
    with t(6) accepted_rules(2)[OF assms] obtain packs where "parse_stripe_credit_packs raw = Inr packs"
      by (auto simp: packs_issues_def split: sum.splits)
    with v True parse_packs_ok show ?thesis by (auto simp: stripe_config_of_def)
  next
    case False
    with t(1) show ?thesis by (auto simp: stripe_config_of_def Let_def)
  qed
qed

lemma accepted_production:
  assumes "accepted p env" and "apc_isProduction (app_config_of env)"
  shows "mlc_transport (mail_config_of env) = ''smtp''" and "\<forall>n\<in>set smtp_group. present env n"
    and "stc_driver (storage_config_of env) = ''s3''" and "\<forall>n\<in>set s3_group. present env n"
    and "ac_secret (auth_config_of env) \<noteq> placeholder_auth_secret"
proof -
  have prod: "text_var env ''NODE_ENV'' = ''production''" using assms(2) by (simp add: app_config_of_def)
  have "text_var env ''MAIL_TRANSPORT'' = ''smtp''" "text_var env ''STORAGE_DRIVER'' = ''s3''"
    using accepted_choice[OF assms(1) choice_names(2)] accepted_choice[OF assms(1) choice_names(3)]
      accepted_rules(3,4)[OF assms(1)] prod
    by (auto simp: mail_issues_def storage_issues_def split: if_splits)
  with accepted_rules(3-5)[OF assms(1)] prod
  show "mlc_transport (mail_config_of env) = ''smtp''" and "\<forall>n\<in>set smtp_group. present env n"
    and "stc_driver (storage_config_of env) = ''s3''" and "\<forall>n\<in>set s3_group. present env n"
    and "ac_secret (auth_config_of env) \<noteq> placeholder_auth_secret"
    by (simp_all add: mail_config_of_def storage_config_of_def auth_config_of_def mail_issues_def
        storage_issues_def auth_issues_def missing_none split: if_splits)
qed

section \<open>Properties\<close>

text \<open>C36.
  An environment that validation accepts is well typed and safe for the components. Every
  declared variable holds a value of its type; the lockout delays are ordered as the lockout
  needs them; the strict windows admit strictly fewer calls per second than the general ones;
  password lengths lie in 8 to 256 and in order; Stripe is configured as a whole, with packs of
  positive credits and distinct slugs, or not at all, and building its configuration never
  throws; and in production mail goes over SMTP, files to S3 and the secret is not the published
  placeholder.
\<close>

theorem accepted_environment_is_safe:
  assumes "zod_law zod p" and "safe_parse zod p raw = Inr env"
  shows "(\<forall>(n, f)\<in>set (env_fields p). conforms p f (env n)) \<and>
    backoff_ok (lockout_config_of env) \<and>
    (let t = throttle_config_of env; a = auth_config_of env; r = ac_rateLimit a
     in tighter (tws_burst (tc_strict t)) (tc_burst t) \<and> tighter (tws_minute (tc_strict t)) (tc_minute t) \<and>
        rl_strictMax r * rl_windowSeconds r < rl_max r * rl_strictWindowSeconds r \<and>
        8 \<le> ac_minLength a \<and> ac_minLength a \<le> ac_maxLength a \<and> ac_maxLength a \<le> 256) \<and>
    (\<exists>c. stripe_config_of env = Inr c \<and> (sc_enabled c \<longleftrightarrow> present env ''STRIPE_SECRET_KEY'') \<and>
       (sc_enabled c \<longrightarrow> packs_ok (sc_packs c) \<and> sc_webhookSecret c \<noteq> None \<and> sc_successUrl c \<noteq> None)) \<and>
    (apc_isProduction (app_config_of env) \<longrightarrow>
       mlc_transport (mail_config_of env) = ''smtp'' \<and> (\<forall>n\<in>set smtp_group. present env n) \<and>
       stc_driver (storage_config_of env) = ''s3'' \<and> (\<forall>n\<in>set s3_group. present env n) \<and>
       ac_secret (auth_config_of env) \<noteq> placeholder_auth_secret)"
proof -
  note ok = safe_parse_accepted[OF assms]
  from ok have "\<forall>(n, f)\<in>set (env_fields p). conforms p f (env n)" by (simp add: accepted_def)
  moreover note accepted_lockout[OF ok] accepted_strictness[OF ok] accepted_passwords[OF ok]
    accepted_stripe[OF ok] accepted_production[OF ok]
  ultimately show ?thesis unfolding Let_def by blast
qed

text \<open>A parser of fields for the demonstration, and an environment of a deployment.\<close>

definition accept_number :: "number_check list \<Rightarrow> string \<Rightarrow> string list + env_value option" where
  "accept_number cs s =
     (case number_of s of
        JInt n \<Rightarrow> (if checks_hold cs n then Inr (Some (Number_value n)) else Inl [''Invalid number''])
      | JOther \<Rightarrow> Inl [''Invalid number''])"

definition accept_flag :: "string \<Rightarrow> string list + env_value option" where
  "accept_flag s = (if s \<in> set flag_texts then Inr (Some (Flag_value (flag_of s))) else Inl [''Invalid option''])"

fun demo_zod :: "(string \<Rightarrow> parsed_url option) \<Rightarrow> field_parser" where
  "demo_zod p (Enum_field xs d) raw =
     (case raw of
        None \<Rightarrow> Inr (Some (Text_value d))
      | Some s \<Rightarrow> (if s \<in> set xs then Inr (Some (Text_value s)) else Inl [''Invalid option'']))"
| "demo_zod p (Number_field cs d) raw =
     (case raw of None \<Rightarrow> Inr (Some (Number_value d)) | Some s \<Rightarrow> accept_number cs s)"
| "demo_zod p (Optional_number cs) raw =
     (case blank_as_absent raw of None \<Rightarrow> Inr None | Some s \<Rightarrow> accept_number cs s)"
| "demo_zod p (Text_field k P d) raw =
     (case raw of
        None \<Rightarrow> (case d of Some t \<Rightarrow> Inr (Some (Text_value t)) | None \<Rightarrow> Inl [''Required''])
      | Some s \<Rightarrow> (if k \<le> length s \<and> P s then Inr (Some (Text_value s)) else Inl [''Invalid text'']))"
| "demo_zod p Optional_text raw = Inr (map_option Text_value (blank_as_absent raw))"
| "demo_zod p (Flag_field d) raw =
     (case raw of None \<Rightarrow> Inr (Some (Flag_value d)) | Some s \<Rightarrow> accept_flag s)"
| "demo_zod p Optional_flag raw =
     (case blank_as_absent raw of None \<Rightarrow> Inr None | Some s \<Rightarrow> accept_flag s)"
| "demo_zod p Origins_field raw =
     (let s = (case raw of Some t \<Rightarrow> t | None \<Rightarrow> []); ms = origin_issues p s
      in if ms = [] then Inr (Some (List_value (origin_list s))) else Inl ms)"

lemma blank_nonempty: "blank_as_absent raw = Some s \<Longrightarrow> s \<noteq> []"
  by (auto simp: blank_as_absent_def trim_def split: option.splits if_splits)

lemma demo_zod_law: "zod_law (demo_zod p) p"
proof -
  have "conforms p f v" if "demo_zod p f raw = Inr v" for f raw v
    using that blank_nonempty[of raw]
    by (cases "(p, f, v)" rule: conforms.cases)
      (auto simp: accept_number_def accept_flag_def Let_def
        split: option.splits if_splits js_number.splits)
  then show ?thesis by (simp add: zod_law_def)
qed

definition demo_url :: "string \<Rightarrow> parsed_url option" where
  "demo_url s = (if starts_with ''https://'' s then Some \<lparr>url_protocol = ''https:'', url_origin = s\<rparr> else None)"

definition demo_deployment :: "string \<Rightarrow> string option" where
  "demo_deployment = map_of
     [(''NODE_ENV'', ''production''), (''DATABASE_URL'', ''postgres://db''), (''REDIS_URL'', ''redis://cache''),
      (''BETTER_AUTH_SECRET'', ''0123456789abcdef0123456789abcdef''), (''APP_URL'', ''https://api''),
      (''STRIPE_SECRET_KEY'', ''sk''), (''STRIPE_WEBHOOK_SECRET'', ''wh''),
      (''STRIPE_CREDIT_PACKS'', ''starter:100:p1, boost:5e2:p2''),
      (''MAIL_TRANSPORT'', ''smtp''), (''SMTP_HOST'', ''h''), (''SMTP_PORT'', ''25''), (''SMTP_USER'', ''u''),
      (''SMTP_PASSWORD'', ''p''), (''STORAGE_DRIVER'', ''s3''), (''STORAGE_S3_BUCKET'', ''b''),
      (''STORAGE_S3_REGION'', ''r''), (''STORAGE_S3_ACCESS_KEY_ID'', ''i''),
      (''STORAGE_S3_SECRET_ACCESS_KEY'', ''s'')]"

definition demo_production :: environment where
  "demo_production = parsed_env (demo_zod demo_url) (env_fields demo_url) demo_deployment"

lemma demo_fields_parse: "\<not> list_ex (field_failed (demo_zod demo_url) demo_deployment) (env_fields demo_url)"
  by code_simp

lemma demo_groups: "concat (map (group_issues demo_production) credential_groups) @
    packs_issues demo_production = []"
  by code_simp

lemma demo_urls: "concat (map (url_issues demo_url demo_production) [''STRIPE_SUCCESS_URL'', ''STRIPE_CANCEL_URL'']) = []"
  by code_simp

lemma demo_mail: "mail_issues demo_production @ storage_issues demo_production = []"
  by code_simp

lemma demo_auth: "auth_issues demo_production = []"
  by code_simp

lemma demo_strictness: "strictness_issues demo_production = []"
  by code_simp

lemma demo_rules: "refinement_issues demo_url demo_production = []"
  using demo_groups demo_urls demo_mail demo_auth demo_strictness
  unfolding refinement_issues_def by simp

lemma demo_accepted: "safe_parse (demo_zod demo_url) demo_url demo_deployment = Inr demo_production"
  using demo_fields_parse demo_rules by (simp add: safe_parse_def Let_def demo_production_def)

theorem accepted_environment_is_safe_witness:
  "backoff_ok (lockout_config_of demo_production) \<and>
   tighter (tws_burst (tc_strict (throttle_config_of demo_production))) (tc_burst (throttle_config_of demo_production)) \<and>
   ac_secret (auth_config_of demo_production) \<noteq> placeholder_auth_secret"
proof -
  have "apc_isProduction (app_config_of demo_production)" by code_simp
  with accepted_environment_is_safe[OF demo_zod_law demo_accepted] show ?thesis by (simp add: Let_def)
qed

end
