(* ===== verification/StripeTopup.thy ===== *)
theory StripeTopup
  imports CreditService ConfigNamespaces Authorization
begin

text \<open>
  Buying credits through Stripe (\<open>src/modules/billing\<close>): the Checkout session, the webhook
  that delivers its outcome, and the grant it leads to.

  Stripe is an argument: how it verifies and decodes a delivery, and what it answers to the
  creation of a customer and of a session. The state is the credit world with the two tables of
  the module, the customers and the processed events. Every statement that writes may fail
  before it takes effect or after. Log lines are left out.
\<close>

section \<open>Data\<close>

record stripe_customer =
  stc_userId :: string
  stc_stripeCustomerId :: string

record processed_event =
  pev_eventId :: string
  pev_type :: string

text \<open>What the code reads of a \<open>Checkout.Session\<close> and of an event.\<close>

record checkout_session =
  cs_id :: string
  cs_paymentStatus :: string
  cs_creditPack :: "string option"
  cs_metadataUserId :: "string option"
  cs_clientReferenceId :: "string option"

record stripe_event =
  sev_id :: string
  sev_type :: string
  sev_object :: checkout_session

text \<open>The parameters of a new Checkout session.\<close>

record session_params =
  sp_customer :: string
  sp_clientReferenceId :: string
  sp_priceId :: "string option"
  sp_successUrl :: string
  sp_cancelUrl :: string
  sp_metadata :: "(string \<times> string option) list"

record stripe_client =
  sk_constructEvent :: "string \<Rightarrow> string \<Rightarrow> string \<Rightarrow> stripe_event option"
  sk_createCustomer :: "string \<Rightarrow> string \<Rightarrow> exn + string"
  sk_createSession :: "session_params \<Rightarrow> exn + (string option \<times> string)"

record stripe_world =
  sw_credits :: credit_world
  sw_customers :: "stripe_customer list"
  sw_events :: "processed_event list"

record stripe_env =
  se_config :: stripe_config
  se_client :: "stripe_client option"
  se_credits :: credit_env
  se_grantFault :: tx_fault
  se_recordFault :: tx_fault
  se_customerFault :: tx_fault

section \<open>Checkout\<close>

definition stripe_not_configured :: exn where
  "stripe_not_configured = api_error 503 SERVICE_UNAVAILABLE ''Stripe top-up is not configured.''"

text \<open>\<open>assertEnabled\<close>, with the client it establishes.\<close>

definition assert_enabled :: "stripe_env \<Rightarrow> exn + stripe_client" where
  "assert_enabled env =
     (if \<not> sc_enabled (se_config env) then Inl stripe_not_configured
      else (case se_client env of None \<Rightarrow> Inl stripe_not_configured | Some k \<Rightarrow> Inr k))"

text \<open>
  \<open>packsBySlug[slug]\<close>, of an object built from entries: the last of a name counts. A name that is
  none of its own is looked up in \<open>Object.prototype\<close>; what is found there is no pack, but it is
  truthy, and reading a pack's field of it gives \<open>undefined\<close>.
\<close>

datatype found_pack = Own_pack credit_pack | Inherited_member

definition object_prototype_names :: "string list" where
  "object_prototype_names =
     [''constructor'', ''__defineGetter__'', ''__defineSetter__'', ''hasOwnProperty'',
      ''__lookupGetter__'', ''__lookupSetter__'', ''isPrototypeOf'', ''propertyIsEnumerable'',
      ''toString'', ''valueOf'', ''__proto__'', ''toLocaleString'']"

definition pack_by_slug :: "stripe_config \<Rightarrow> string \<Rightarrow> found_pack option" where
  "pack_by_slug c slug =
     (case map_of (rev (sc_packsBySlug c)) slug of
        Some pack \<Rightarrow> Some (Own_pack pack)
      | None \<Rightarrow> (if slug \<in> set object_prototype_names then Some Inherited_member else None))"

fun found_slug :: "found_pack \<Rightarrow> string option" where
  "found_slug (Own_pack pack) = Some (cp_slug pack)"
| "found_slug Inherited_member = None"

fun found_priceId :: "found_pack \<Rightarrow> string option" where
  "found_priceId (Own_pack pack) = Some (cp_priceId pack)"
| "found_priceId Inherited_member = None"

fun found_credits :: "found_pack \<Rightarrow> js_number" where
  "found_credits (Own_pack pack) = JInt (cp_credits pack)"
| "found_credits Inherited_member = JOther"

definition insert_customer ::
  "tx_fault \<Rightarrow> stripe_customer \<Rightarrow> stripe_world \<Rightarrow> (exn + unit) \<times> stripe_world" where
  "insert_customer fault c =
     run_tx fault (\<lambda>w.
       if stc_userId c \<in> stc_userId ` set (sw_customers w) \<or>
          stc_stripeCustomerId c \<in> stc_stripeCustomerId ` set (sw_customers w)
       then Inl unique_violation
       else Inr ((), w\<lparr>sw_customers := sw_customers w @ [c]\<rparr>))"

definition get_or_create_customer ::
  "stripe_env \<Rightarrow> stripe_client \<Rightarrow> string \<Rightarrow> string \<Rightarrow> stripe_world \<Rightarrow> (exn + string) \<times> stripe_world" where
  "get_or_create_customer env client userId email w =
     (case List.find (\<lambda>c. stc_userId c = userId) (sw_customers w) of
        Some existing \<Rightarrow> (Inr (stc_stripeCustomerId existing), w)
      | None \<Rightarrow>
          (case sk_createCustomer client email userId of
             Inl e \<Rightarrow> (Inl e, w)
           | Inr cid \<Rightarrow>
               (case insert_customer (se_customerFault env)
                       \<lparr>stc_userId = userId, stc_stripeCustomerId = cid\<rparr> w of
                  (Inl e, w1) \<Rightarrow> (Inl e, w1)
                | (Inr _, w1) \<Rightarrow> (Inr cid, w1))))"

definition session_params_of ::
  "stripe_config \<Rightarrow> string \<Rightarrow> string \<Rightarrow> found_pack \<Rightarrow> session_params" where
  "session_params_of c customerId userId pack =
     \<lparr>sp_customer = customerId, sp_clientReferenceId = userId, sp_priceId = found_priceId pack,
      sp_successUrl = (case sc_successUrl c of Some u \<Rightarrow> u | None \<Rightarrow> []),
      sp_cancelUrl = (case sc_cancelUrl c of Some u \<Rightarrow> u | None \<Rightarrow> []),
      sp_metadata = [(''userId'', Some userId), (''creditPack'', found_slug pack),
                     (''credits'', Some (case found_credits pack of
                        JInt n \<Rightarrow> show_int n | JOther \<Rightarrow> ''undefined''))]\<rparr>"

definition create_checkout_session ::
  "stripe_env \<Rightarrow> string \<Rightarrow> string \<Rightarrow> string \<Rightarrow> stripe_world \<Rightarrow> (exn + (string \<times> string)) \<times> stripe_world" where
  "create_checkout_session env userId email packSlug w =
     (case assert_enabled env of
        Inl e \<Rightarrow> (Inl e, w)
      | Inr client \<Rightarrow>
          (case pack_by_slug (se_config env) packSlug of
             None \<Rightarrow>
               (Inl (api_error_details 400 BAD_REQUEST ''Unknown credit pack.''
                       (JObj [(''pack'', JStr packSlug)])), w)
           | Some pack \<Rightarrow>
               (case get_or_create_customer env client userId email w of
                  (Inl e, w1) \<Rightarrow> (Inl e, w1)
                | (Inr customerId, w1) \<Rightarrow>
                    (case sk_createSession client (session_params_of (se_config env) customerId userId pack) of
                       Inl e \<Rightarrow> (Inl e, w1)
                     | Inr (url, sid) \<Rightarrow>
                         (case truthy url of
                            None \<Rightarrow>
                              (Inl (api_error 500 INTERNAL_ERROR ''Stripe did not return a Checkout URL.''), w1)
                          | Some u \<Rightarrow> (Inr (u, sid), w1))))))"

text \<open>\<open>BillingCheckoutController.createCheckout\<close>.\<close>

definition create_checkout ::
  "stripe_env \<Rightarrow> auth_principal \<Rightarrow> string option \<Rightarrow> stripe_world \<Rightarrow> (exn + (string \<times> string)) \<times> stripe_world" where
  "create_checkout env user pack w =
     (case truthy pack of
        None \<Rightarrow> (Inl (api_error 400 BAD_REQUEST ''pack is required.''), w)
      | Some slug \<Rightarrow> create_checkout_session env (apr_id user) (apr_email user) slug w)"

section \<open>The webhook\<close>

definition has_settled :: "checkout_session \<Rightarrow> bool" where
  "has_settled s \<longleftrightarrow> cs_paymentStatus s = ''paid'' \<or> cs_paymentStatus s = ''no_payment_required''"

definition checkout_grant_key :: "checkout_session \<Rightarrow> string" where
  "checkout_grant_key s = ''stripe:checkout:'' @ cs_id s"

text \<open>\<open>session.metadata?.userId ?? session.client_reference_id\<close>, with the test for a value after it.\<close>

definition session_user :: "checkout_session \<Rightarrow> string option" where
  "session_user s =
     truthy (case cs_metadataUserId s of Some u \<Rightarrow> Some u | None \<Rightarrow> cs_clientReferenceId s)"

text \<open>A field that is \<open>undefined\<close> is left out of the stored JSON.\<close>

definition grant_metadata :: "checkout_session \<Rightarrow> found_pack \<Rightarrow> json" where
  "grant_metadata s pack =
     JObj ([(''source'', JStr ''stripe_checkout''), (''sessionId'', JStr (cs_id s))] @
           (case found_slug pack of Some x \<Rightarrow> [(''creditPack'', JStr x)] | None \<Rightarrow> []) @
           (case found_priceId pack of Some x \<Rightarrow> [(''priceId'', JStr x)] | None \<Rightarrow> []))"

text \<open>The grant a settled session asks for: the user and the pack, when both are known.\<close>

definition session_order :: "stripe_config \<Rightarrow> checkout_session \<Rightarrow> (string \<times> found_pack) option" where
  "session_order c s =
     (case (session_user s, truthy (cs_creditPack s)) of
        (Some u, Some slug) \<Rightarrow> map_option (Pair u) (pack_by_slug c slug)
      | _ \<Rightarrow> None)"

definition grant_from_checkout ::
  "stripe_env \<Rightarrow> checkout_session \<Rightarrow> credit_world \<Rightarrow> (exn + unit) \<times> credit_world" where
  "grant_from_checkout env s w =
     (if \<not> has_settled s then (Inr (), w)
      else
        (case session_order (se_config env) s of
           None \<Rightarrow> (Inr (), w)
         | Some (userId, pack) \<Rightarrow>
             (case run_credit_op (se_credits env) (se_grantFault env)
                     (Op_Grant \<lparr>si_subject = None, si_userId = Some userId\<rparr> (found_credits pack)
                        (checkout_grant_key s) (Some (grant_metadata s pack))) w of
                (Inl e, w1) \<Rightarrow> (Inl e, w1)
              | (Inr _, w1) \<Rightarrow> (Inr (), w1))))"

definition insert_event :: "tx_fault \<Rightarrow> processed_event \<Rightarrow> stripe_world \<Rightarrow> (exn + unit) \<times> stripe_world" where
  "insert_event fault e =
     run_tx fault (\<lambda>w.
       if pev_eventId e \<in> pev_eventId ` set (sw_events w) then Inl unique_violation
       else Inr ((), w\<lparr>sw_events := sw_events w @ [e]\<rparr>))"

definition settling_types :: "string list" where
  "settling_types = [''checkout.session.completed'', ''checkout.session.async_payment_succeeded'']"

text \<open>What follows the verification: the known event, the grant, the record of the event.\<close>

definition process_event :: "stripe_env \<Rightarrow> stripe_event \<Rightarrow> stripe_world \<Rightarrow> (exn + unit) \<times> stripe_world" where
  "process_event env event w =
     (if sev_id event \<in> pev_eventId ` set (sw_events w) then (Inr (), w)
      else
        (case (if sev_type event \<in> set settling_types
               then grant_from_checkout env (sev_object event) (sw_credits w)
               else (Inr (), sw_credits w)) of
           (Inl e, c) \<Rightarrow> (Inl e, w\<lparr>sw_credits := c\<rparr>)
         | (Inr _, c) \<Rightarrow>
             insert_event (se_recordFault env)
               \<lparr>pev_eventId = sev_id event, pev_type = sev_type event\<rparr> (w\<lparr>sw_credits := c\<rparr>)))"

definition handle_webhook ::
  "stripe_env \<Rightarrow> string \<Rightarrow> string option \<Rightarrow> stripe_world \<Rightarrow> (exn + unit) \<times> stripe_world" where
  "handle_webhook env rawBody signature w =
     (case assert_enabled env of
        Inl e \<Rightarrow> (Inl e, w)
      | Inr client \<Rightarrow>
          (case truthy signature of
             None \<Rightarrow> (Inl (api_error 400 BAD_REQUEST ''Missing Stripe-Signature header.''), w)
           | Some sig \<Rightarrow>
               (case sk_constructEvent client rawBody sig
                       (case sc_webhookSecret (se_config env) of Some s \<Rightarrow> s | None \<Rightarrow> []) of
                  None \<Rightarrow> (Inl (api_error 400 BAD_REQUEST ''Invalid Stripe webhook signature.''), w)
                | Some event \<Rightarrow> process_event env event w)))"

text \<open>
  So the name \<open>constructor\<close> passes for a pack: instead of the 400 the caller gets a Stripe customer,
  and Stripe is asked for a session without a price.
\<close>

lemma inherited_name_is_a_pack:
  assumes "assert_enabled env = Inr client" and "map_of (rev (sc_packsBySlug (se_config env))) ''constructor'' = None"
    and "List.find (\<lambda>c. stc_userId c = u) (sw_customers w) = None" and "sk_createCustomer client email u = Inr cid"
    and "se_customerFault env = Tx_ok" and "cid \<notin> stc_stripeCustomerId ` set (sw_customers w)"
    and "sk_createSession client (session_params_of (se_config env) cid u Inherited_member) = Inl e"
  shows "create_checkout_session env u email ''constructor'' w =
    (Inl e, w\<lparr>sw_customers := sw_customers w @ [\<lparr>stc_userId = u, stc_stripeCustomerId = cid\<rparr>]\<rparr>)"
    and "sp_priceId (session_params_of (se_config env) cid u Inherited_member) = None"
proof -
  have "u \<notin> stc_userId ` set (sw_customers w)" using assms(3) by (auto simp: find_None_conv)
  with assms show "create_checkout_session env u email ''constructor'' w =
    (Inl e, w\<lparr>sw_customers := sw_customers w @ [\<lparr>stc_userId = u, stc_stripeCustomerId = cid\<rparr>]\<rparr>)"
    by (simp add: create_checkout_session_def pack_by_slug_def object_prototype_names_def
        get_or_create_customer_def insert_customer_def)
qed (simp add: session_params_of_def)

end
