(* ===== verification/CreditTrace.thy ===== *)
theory CreditTrace
  imports CreditService
begin

text \<open>
  What a caller of the credit service learns about the ledger: the rows a call appends carry
  the call's parameters, and a call that returned left a row for its key. The clients of the
  service (Stripe, the agent pipeline, the administrators) rest on these two facts.
\<close>

text \<open>A row says what a mutation asked for.\<close>

definition row_of :: "apply_params \<Rightarrow> ledger_entry \<Rightarrow> bool" where
  "row_of p e \<longleftrightarrow>
     e_idempotencyKey e = ap_idempotencyKey p \<and> e_type e = ap_type p \<and> e_amount e = ap_amount p \<and>
     (case ap_subject p of
        User_Subject u \<Rightarrow> e_userId e = Some u
      | Org_Subject o' \<Rightarrow> e_organizationId e = Some o')"

lemma row_of_new [simp]: "row_of p (new_entry env p b db)"
  by (cases "ap_subject p") (simp_all add: row_of_def new_entry_def)

lemma row_of_replay:
  "replay_matches e p \<Longrightarrow> e_idempotencyKey e = ap_idempotencyKey p \<Longrightarrow> row_of p e"
  by (cases "ap_subject p") (simp_all add: row_of_def replay_matches_def Let_def)

lemma apply_tx_appends:
  assumes "apply_tx env p db = Inr (r, db')"
  shows "\<exists>es. ledger db' = ledger db @ es \<and> (\<forall>e\<in>set es. row_of p e)"
  using assms
proof (cases rule: apply_tx_InrE)
  case (replay ex)
  then show ?thesis by (intro exI[of _ "[]"]) simp
next
  case (move db1)
  from move(3) obtain b db2 where "ledger db' = ledger db1 @ [new_entry env p b db2]"
    by (rule move_balance_InrE) auto
  with ensure_wallet_ledger[OF move(2)] show ?thesis by (intro exI[of _ "[new_entry env p b db2]"]) simp
qed

lemma run_credit_op_appends:
  "\<exists>es. ledger (cw_db (snd (run_credit_op env fault op w))) = ledger (cw_db w) @ es \<and>
     (\<forall>e\<in>set es. \<exists>p. op_params op = Some p \<and> row_of p e)"
proof (cases "op_params op")
  case None
  then obtain e where "run_credit_op env fault op w = (Inl e, w)"
    using run_credit_op_params[where op = op and env = env and fault = fault and w = w] by auto
  then show ?thesis by simp
next
  case (Some p)
  then have eq: "run_credit_op env fault op w = apply_mutation env fault p w"
    using run_credit_op_params[where op = op and env = env and fault = fault and w = w] by simp
  have "\<exists>es. ledger (snd (run_tx fault (apply_tx env p) (cw_db w))) = ledger (cw_db w) @ es \<and>
      (\<forall>e\<in>set es. row_of p e)"
    by (rule run_tx_invariant) (auto dest: apply_tx_appends)
  with Some show ?thesis by (simp add: eq apply_mutation_db)
qed

lemma run_credit_op_returns:
  assumes "run_credit_op env fault op w = (Inr r, w')"
  shows "\<exists>p. op_params op = Some p \<and> mr_entry r \<in> set (ledger (cw_db w')) \<and> row_of p (mr_entry r)"
proof -
  obtain p where p: "op_params op = Some p"
    using run_credit_op_params[where op = op and env = env and fault = fault and w = w] assms
    by (cases "op_params op") auto
  then have run: "apply_mutation env fault p w = (Inr r, w')"
    using run_credit_op_params[where op = op and env = env and fault = fault and w = w] assms by simp
  then have "run_tx fault (apply_tx env p) (cw_db w) = (Inr r, cw_db w')"
    using apply_mutation_result[of env fault p w] apply_mutation_db[of env fault p w]
    by (cases "run_tx fault (apply_tx env p) (cw_db w)") simp
  then have tx: "apply_tx env p (cw_db w) = Inr (r, cw_db w')" by (rule run_tx_return)
  note found = apply_tx_writes[OF tx]
  then have "mr_entry r \<in> set (ledger (cw_db w'))" "e_idempotencyKey (mr_entry r) = ap_idempotencyKey p"
    using find_SomeD[of _ "ledger (cw_db w')"] by (auto simp: find_entry_def)
  with p found row_of_replay show ?thesis by blast
qed

text \<open>The key a mutation is sent under.\<close>

fun op_key :: "credit_op \<Rightarrow> string" where
  "op_key (Op_Grant si a k m) = k"
| "op_key (Op_Spend si a k f m) = k"
| "op_key (Op_Refund si a k f m) = k"
| "op_key (Op_Adjust si d k m) = k"

lemma op_params_key: "op_params op = Some p \<Longrightarrow> ap_idempotencyKey p = op_key op"
  by (auto simp: op_params_def Let_def split: credit_op.splits js_number.splits sum.splits if_splits)

end
