(* ===== verification/StripeProperties.thy ===== *)
theory StripeProperties
  imports StripeTopup CreditTrace CreditContract CreditProperties
begin

text \<open>
  Deliveries of the webhook over time, with other credit mutations between them: what a paid
  session brings, once and only once.
\<close>

section \<open>Runs\<close>

text \<open>
  A delivery of the webhook under its environment, or any other mutation of credits. The
  result of a delivery is whether Stripe got its acknowledgement.
\<close>

datatype stripe_action =
    Deliver stripe_env string "string option"
  | Other_credit credit_env tx_fault credit_op

fun act_stripe :: "stripe_action \<Rightarrow> stripe_world \<Rightarrow> bool \<times> stripe_world" where
  "act_stripe (Deliver env body sig) w =
     (case handle_webhook env body sig w of (Inl _, w') \<Rightarrow> (False, w') | (Inr _, w') \<Rightarrow> (True, w'))"
| "act_stripe (Other_credit env fault op) w =
     (False, w\<lparr>sw_credits := snd (run_credit_op env fault op (sw_credits w))\<rparr>)"

fun run_stripe :: "stripe_action list \<Rightarrow> stripe_world \<Rightarrow> stripe_world" where
  "run_stripe [] w = w"
| "run_stripe (a # as) w = run_stripe as (snd (act_stripe a w))"

definition empty_stripe :: stripe_world where
  "empty_stripe = \<lparr>sw_credits = empty_world, sw_customers = [], sw_events = []\<rparr>"

text \<open>The event of a delivery whose signature holds.\<close>

definition verified_event :: "stripe_env \<Rightarrow> string \<Rightarrow> string option \<Rightarrow> stripe_event option" where
  "verified_event env body sig =
     (case (assert_enabled env, truthy sig) of
        (Inr client, Some s) \<Rightarrow>
          sk_constructEvent client body s
            (case sc_webhookSecret (se_config env) of Some x \<Rightarrow> x | None \<Rightarrow> [])
      | _ \<Rightarrow> None)"

fun action_event :: "stripe_action \<Rightarrow> stripe_event option" where
  "action_event (Deliver env body sig) = verified_event env body sig"
| "action_event (Other_credit _ _ _) = None"

definition events_of :: "stripe_action list \<Rightarrow> stripe_event list" where
  "events_of as = List.map_filter action_event as"

text \<open>
  A run in which every delivery has the configuration \<open>c\<close> and the other mutations leave the
  keys of checkouts alone.
\<close>

fun proper_action :: "stripe_config \<Rightarrow> stripe_action \<Rightarrow> bool" where
  "proper_action c (Deliver env body sig) \<longleftrightarrow> se_config env = c \<and> fresh_ids (se_credits env)"
| "proper_action c (Other_credit env fault op) \<longleftrightarrow>
     fresh_ids env \<and> \<not> starts_with ''stripe:checkout:'' (op_key op)"

section \<open>Orders\<close>

text \<open>What an event orders: the key of its session, the user and the credits of the pack.\<close>

definition order_of :: "stripe_config \<Rightarrow> stripe_event \<Rightarrow> (string \<times> string \<times> int) option" where
  "order_of c ev =
     (if sev_type ev \<in> set settling_types \<and> has_settled (sev_object ev)
      then (case session_order c (sev_object ev) of
              Some (u, Own_pack p) \<Rightarrow> Some (checkout_grant_key (sev_object ev), u, cp_credits p)
            | _ \<Rightarrow> None)
      else None)"

definition fulfils :: "string \<times> string \<times> int \<Rightarrow> ledger_entry \<Rightarrow> bool" where
  "fulfils t e \<longleftrightarrow>
     (case t of (k, u, n) \<Rightarrow>
        e_idempotencyKey e = k \<and> e_type e = Grant \<and> e_userId e = Some u \<and> e_amount e = n)"

definition grant_op :: "checkout_session \<Rightarrow> string \<Rightarrow> credit_pack \<Rightarrow> credit_op" where
  "grant_op s userId pack =
     Op_Grant \<lparr>si_subject = None, si_userId = Some userId\<rparr> (JInt (cp_credits pack))
       (checkout_grant_key s) (Some (grant_metadata s (Own_pack pack)))"

lemma row_of_grant_op:
  "op_params (grant_op s u pack) = Some p \<Longrightarrow> row_of p e \<Longrightarrow>
     fulfils (checkout_grant_key s, u, cp_credits pack) e"
  by (auto simp: grant_op_def op_params_def resolve_subject_def row_of_def fulfils_def user_subject_def
      split: if_splits)

definition ledger_of :: "stripe_world \<Rightarrow> ledger_entry list" where
  "ledger_of w = ledger (cw_db (sw_credits w))"

lemma ledger_of_updates [simp]:
  "ledger_of (w\<lparr>sw_events := x\<rparr>) = ledger_of w"
  "ledger_of (w\<lparr>sw_credits := y\<rparr>) = ledger (cw_db y)"
  by (simp_all add: ledger_of_def)

section \<open>One delivery\<close>

text \<open>
  The credits after the grant part of an event: rows of its order may be new, and one is there
  if the part returned.
\<close>

definition grant_part :: "stripe_env \<Rightarrow> stripe_event \<Rightarrow> credit_world \<Rightarrow> (exn + unit) \<times> credit_world" where
  "grant_part env ev w =
     (if sev_type ev \<in> set settling_types then grant_from_checkout env (sev_object ev) w else (Inr (), w))"

lemma grant_part_cases:
  obtains (idle) r where "order_of (se_config env) ev = None" "grant_part env ev w = (r, w)"
  | (granting) u pack where "order_of (se_config env) ev =
        Some (checkout_grant_key (sev_object ev), u, cp_credits pack)"
      "grant_part env ev w =
        (case run_credit_op (se_credits env) (se_grantFault env) (grant_op (sev_object ev) u pack) w of
           (Inl e, w1) \<Rightarrow> (Inl e, w1) | (Inr _, w1) \<Rightarrow> (Inr (), w1))"
proof (cases "order_of (se_config env) ev")
  case None
  then have "\<exists>r. grant_part env ev w = (r, w)"
    by (auto simp: grant_part_def order_of_def grant_from_checkout_def grant_def
        split: if_splits option.splits found_pack.splits prod.splits sum.splits)
  with None idle show ?thesis by blast
next
  case (Some t)
  then obtain u pack where "sev_type ev \<in> set settling_types" "has_settled (sev_object ev)"
    "session_order (se_config env) (sev_object ev) = Some (u, Own_pack pack)"
    "t = (checkout_grant_key (sev_object ev), u, cp_credits pack)"
    by (auto simp: order_of_def split: if_splits option.splits found_pack.splits)
  with Some granting[of u pack] show ?thesis
    by (simp add: grant_part_def grant_from_checkout_def grant_op_def del: run_credit_op.simps)
qed

lemma grant_part_world:
  assumes "grant_part env ev w = (r, w')"
  shows "\<exists>es. ledger (cw_db w') = ledger (cw_db w) @ es \<and>
      (\<forall>e\<in>set es. \<exists>t. order_of (se_config env) ev = Some t \<and> fulfils t e)"
    and "r = Inr () \<Longrightarrow> order_of (se_config env) ev = Some t \<Longrightarrow>
      \<exists>e\<in>set (ledger (cw_db w')). fulfils t e"
    and "credit_inv (cw_db w) \<Longrightarrow> fresh_ids (se_credits env) \<Longrightarrow> credit_inv (cw_db w')"
proof (atomize(full), cases rule: grant_part_cases[of env ev w])
  case idle
  with assms show "(\<exists>es. ledger (cw_db w') = ledger (cw_db w) @ es \<and>
      (\<forall>e\<in>set es. \<exists>t. order_of (se_config env) ev = Some t \<and> fulfils t e)) \<and>
    (r = Inr () \<longrightarrow> order_of (se_config env) ev = Some t \<longrightarrow>
      (\<exists>e\<in>set (ledger (cw_db w')). fulfils t e)) \<and>
    (credit_inv (cw_db w) \<longrightarrow> fresh_ids (se_credits env) \<longrightarrow> credit_inv (cw_db w'))" by simp
next
  case (granting u pack)
  let ?op = "grant_op (sev_object ev) u pack"
  obtain x where run: "run_credit_op (se_credits env) (se_grantFault env) ?op w = (x, w')"
    and x: "r = Inr () \<Longrightarrow> \<exists>m. x = Inr m"
    using assms granting(2) by (auto split: prod.splits sum.splits)
  have "\<exists>es. ledger (cw_db w') = ledger (cw_db w) @ es \<and>
      (\<forall>e\<in>set es. fulfils (checkout_grant_key (sev_object ev), u, cp_credits pack) e)"
    using run_credit_op_appends[of "se_credits env" "se_grantFault env" ?op w] row_of_grant_op
    unfolding run by fastforce
  moreover have "\<exists>e\<in>set (ledger (cw_db w')). fulfils (checkout_grant_key (sev_object ev), u, cp_credits pack) e"
    if "r = Inr ()"
    using x[OF that] run run_credit_op_returns[of "se_credits env" "se_grantFault env" ?op w]
      row_of_grant_op by blast
  moreover have "credit_inv (cw_db w')" if "credit_inv (cw_db w)" "fresh_ids (se_credits env)"
    using run_credit_op_inv[OF that, of "se_grantFault env" ?op] by (simp add: run)
  ultimately show "(\<exists>es. ledger (cw_db w') = ledger (cw_db w) @ es \<and>
      (\<forall>e\<in>set es. \<exists>t. order_of (se_config env) ev = Some t \<and> fulfils t e)) \<and>
    (r = Inr () \<longrightarrow> order_of (se_config env) ev = Some t \<longrightarrow>
      (\<exists>e\<in>set (ledger (cw_db w')). fulfils t e)) \<and>
    (credit_inv (cw_db w) \<longrightarrow> fresh_ids (se_credits env) \<longrightarrow> credit_inv (cw_db w'))"
    using granting(1) by auto
qed

lemma process_event_unfold:
  "process_event env ev w =
     (if sev_id ev \<in> pev_eventId ` set (sw_events w) then (Inr (), w)
      else
        (case grant_part env ev (sw_credits w) of
           (Inl e, c) \<Rightarrow> (Inl e, w\<lparr>sw_credits := c\<rparr>)
         | (Inr _, c) \<Rightarrow>
             insert_event (se_recordFault env)
               \<lparr>pev_eventId = sev_id ev, pev_type = sev_type ev\<rparr> (w\<lparr>sw_credits := c\<rparr>)))"
  by (simp add: process_event_def grant_part_def)

lemma handle_webhook_event:
  "handle_webhook env body sig w =
     (case verified_event env body sig of
        Some ev \<Rightarrow> process_event env ev w
      | None \<Rightarrow> (Inl (case assert_enabled env of Inl e \<Rightarrow> e
          | Inr _ \<Rightarrow> (if truthy sig = None
              then api_error 400 BAD_REQUEST ''Missing Stripe-Signature header.''
              else api_error 400 BAD_REQUEST ''Invalid Stripe webhook signature.'')), w))"
  by (simp add: handle_webhook_def verified_event_def split: sum.split option.split)

lemma insert_event_world:
  assumes "insert_event fault e w = (r, w')"
  shows "sw_credits w' = sw_credits w" and "sw_events w' = sw_events w \<or> sw_events w' = sw_events w @ [e]"
  using run_tx_after[of fault "\<lambda>w. if pev_eventId e \<in> pev_eventId ` set (sw_events w)
      then Inl unique_violation else Inr ((), w\<lparr>sw_events := sw_events w @ [e]\<rparr>)" w] assms
  by (auto simp: insert_event_def split: if_splits)

section \<open>The invariant\<close>

definition stripe_key :: "string \<Rightarrow> bool" where
  "stripe_key k \<longleftrightarrow> starts_with ''stripe:checkout:'' k"

lemma checkout_key [simp]: "stripe_key (checkout_grant_key s)"
  by (simp only: stripe_key_def checkout_grant_key_def starts_with_append)

lemma order_key: "order_of c ev = Some t \<Longrightarrow> fulfils t e \<Longrightarrow> stripe_key (e_idempotencyKey e)"
proof -
  assume "order_of c ev = Some t" and "fulfils t e"
  then have "e_idempotencyKey e = checkout_grant_key (sev_object ev)"
    by (auto simp: order_of_def fulfils_def split: if_splits option.splits prod.splits found_pack.splits)
  then show ?thesis by (simp only: checkout_key)
qed

definition ordered :: "stripe_config \<Rightarrow> stripe_event set \<Rightarrow> ledger_entry \<Rightarrow> bool" where
  "ordered c E e \<longleftrightarrow> (\<exists>ev\<in>E. \<exists>t. order_of c ev = Some t \<and> fulfils t e)"

definition brought :: "stripe_config \<Rightarrow> ledger_entry list \<Rightarrow> stripe_event \<Rightarrow> bool" where
  "brought c ls ev \<longleftrightarrow> (\<forall>t. order_of c ev = Some t \<longrightarrow> (\<exists>e\<in>set ls. fulfils t e))"

lemma brought_grows: "brought c ls ev \<Longrightarrow> brought c (ls @ es) ev"
  by (fastforce simp: brought_def)

text \<open>
  Rows under the keys of checkouts stem from verified events, and a recorded event has brought
  what it orders.
\<close>

definition stripe_inv :: "stripe_config \<Rightarrow> stripe_event set \<Rightarrow> stripe_world \<Rightarrow> bool" where
  "stripe_inv c E w \<longleftrightarrow>
     credit_inv (cw_db (sw_credits w)) \<and>
     (\<forall>e\<in>set (ledger_of w). stripe_key (e_idempotencyKey e) \<longrightarrow>
        ordered c E e) \<and>
     (\<forall>r\<in>set (sw_events w). \<exists>ev\<in>E. sev_id ev = pev_eventId r \<and> brought c (ledger_of w) ev)"

lemma stripe_inv_grows:
  assumes "stripe_inv c E w" and "credit_inv (cw_db y)" and "ledger (cw_db y) = ledger_of w @ es"
    and "\<forall>e\<in>set es. stripe_key (e_idempotencyKey e) \<longrightarrow> ordered c E e"
  shows "stripe_inv c E (w\<lparr>sw_credits := y\<rparr>)"
  using assms(1,2,4) brought_grows[of c "ledger_of w" _ es]
  unfolding stripe_inv_def by (fastforce simp: assms(3))

lemma stripe_inv_event:
  assumes "stripe_inv c E w" and "ev \<in> E" and "sev_id ev = pev_eventId r"
    and "brought c (ledger_of w) ev"
    and "sw_credits w' = sw_credits w" and "sw_events w' = sw_events w \<or> sw_events w' = sw_events w @ [r]"
  shows "stripe_inv c E w'"
proof -
  have "ledger_of w' = ledger_of w" by (simp add: ledger_of_def assms(5))
  with assms show ?thesis unfolding stripe_inv_def by auto
qed

lemma process_event_inv:
  assumes "stripe_inv c E w" and "ev \<in> E" and "se_config env = c" and "fresh_ids (se_credits env)"
    and "process_event env ev w = (r, w')"
  shows "stripe_inv c E w' \<and> (r = Inr () \<and> inj_on sev_id E \<longrightarrow> brought c (ledger_of w') ev)"
proof (cases "sev_id ev \<in> pev_eventId ` set (sw_events w)")
  case True
  with assms(5) have w': "w' = w" by (simp add: process_event_def)
  from True obtain r where "r \<in> set (sw_events w)" "pev_eventId r = sev_id ev" by auto
  with assms(1) obtain ev' where "ev' \<in> E" "sev_id ev' = sev_id ev" "brought c (ledger_of w) ev'"
    unfolding stripe_inv_def by metis
  with assms(1,2) show ?thesis unfolding w' inj_on_def by metis
next
  case False
  obtain g y where g: "grant_part env ev (sw_credits w) = (g, y)" by (cases "grant_part env ev (sw_credits w)")
  obtain es where es: "ledger (cw_db y) = ledger_of w @ es"
    "\<forall>e\<in>set es. \<exists>t. order_of c ev = Some t \<and> fulfils t e"
    using grant_part_world(1)[OF g] assms(3) by (auto simp: ledger_of_def)
  then have "\<forall>e\<in>set es. ordered c E e" using assms(2) unfolding ordered_def by blast
  moreover have "credit_inv (cw_db y)" using grant_part_world(3)[OF g] assms(1,4) by (simp add: stripe_inv_def)
  ultimately have inv: "stripe_inv c E (w\<lparr>sw_credits := y\<rparr>)"
    using stripe_inv_grows[OF assms(1) _ es(1)] by simp
  show ?thesis
  proof (cases g)
    case (Inl e)
    with assms(5) g False inv show ?thesis by (auto simp: process_event_unfold)
  next
    case (Inr u)
    let ?e = "\<lparr>pev_eventId = sev_id ev, pev_type = sev_type ev\<rparr>"
    have ins: "insert_event (se_recordFault env) ?e (w\<lparr>sw_credits := y\<rparr>) = (r, w')"
      using assms(5) g False Inr by (simp add: process_event_unfold)
    have there: "brought c (ledger_of (w\<lparr>sw_credits := y\<rparr>)) ev"
      using grant_part_world(2)[OF g] Inr assms(3) by (simp add: brought_def)
    note after = insert_event_world[OF ins]
    have "ledger_of w' = ledger_of (w\<lparr>sw_credits := y\<rparr>)" by (simp add: ledger_of_def after(1))
    with there stripe_inv_event[OF inv assms(2) _ there after] show ?thesis by simp
  qed
qed

lemma act_stripe_inv:
  assumes "stripe_inv c E w" and "proper_action c a" and "\<forall>ev. action_event a = Some ev \<longrightarrow> ev \<in> E"
  shows "stripe_inv c E (snd (act_stripe a w))"
proof (cases a)
  case (Deliver env body sig)
  show ?thesis
  proof (cases "verified_event env body sig")
    case None
    with assms(1) show ?thesis by (simp add: Deliver handle_webhook_event)
  next
    case (Some ev)
    obtain r w' where p: "process_event env ev w = (r, w')" by (cases "process_event env ev w")
    have "stripe_inv c E w'"
      using process_event_inv[OF assms(1) _ _ _ p] assms(2,3) Some Deliver by simp
    with p Some show ?thesis by (simp add: Deliver handle_webhook_event split: sum.split)
  qed
next
  case (Other_credit env fault op)
  obtain es where es: "ledger (cw_db (snd (run_credit_op env fault op (sw_credits w)))) = ledger_of w @ es"
    "\<forall>e\<in>set es. \<exists>p. op_params op = Some p \<and> row_of p e"
    using run_credit_op_appends[of env fault op "sw_credits w"] by (auto simp: ledger_of_def)
  have "\<not> stripe_key (e_idempotencyKey e)" if "e \<in> set es" for e
    using es(2) that op_params_key[of op] assms(2) by (fastforce simp: Other_credit row_of_def stripe_key_def)
  moreover have "credit_inv (cw_db (snd (run_credit_op env fault op (sw_credits w))))"
    using run_credit_op_inv[of "sw_credits w" env fault op] assms(1,2) by (simp add: Other_credit stripe_inv_def)
  ultimately show ?thesis
    using stripe_inv_grows[OF assms(1) _ es(1)] by (simp add: Other_credit del: run_credit_op.simps)
qed

lemma run_stripe_append: "run_stripe (as @ bs) w = run_stripe bs (run_stripe as w)"
  by (induction as arbitrary: w) auto

lemma run_stripe_inv:
  assumes "stripe_inv c E w" and "\<forall>a\<in>set as. proper_action c a" and "set (events_of as) \<subseteq> E"
  shows "stripe_inv c E (run_stripe as w)"
  using assms
proof (induction as arbitrary: w)
  case (Cons a as)
  have "stripe_inv c E (snd (act_stripe a w))"
    by (rule act_stripe_inv) (use Cons.prems in \<open>auto simp: events_of_def List.map_filter_def\<close>)
  with Cons show ?case by (simp add: events_of_def List.map_filter_def split: if_splits)
qed simp

lemma stripe_inv_empty [simp]: "stripe_inv c E empty_stripe"
  by (simp add: stripe_inv_def empty_stripe_def empty_world_def ledger_of_def empty_db_def[symmetric])
    (simp add: empty_db_def)

lemma process_event_grows: "\<exists>es. ledger_of (snd (process_event env ev w)) = ledger_of w @ es"
proof (cases "sev_id ev \<in> pev_eventId ` set (sw_events w)")
  case False
  obtain g y where g: "grant_part env ev (sw_credits w) = (g, y)" by (cases "grant_part env ev (sw_credits w)")
  have credits: "sw_credits (snd (process_event env ev w)) = y"
  proof (cases g)
    case (Inl e)
    with False g show ?thesis by (simp add: process_event_unfold)
  next
    case (Inr u)
    obtain r w' where "insert_event (se_recordFault env)
        \<lparr>pev_eventId = sev_id ev, pev_type = sev_type ev\<rparr> (w\<lparr>sw_credits := y\<rparr>) = (r, w')" by fastforce
    with insert_event_world(1)[OF this] False g Inr show ?thesis by (simp add: process_event_unfold)
  qed
  with grant_part_world(1)[OF g] show ?thesis by (auto simp: ledger_of_def)
qed (simp add: process_event_def)

lemma act_stripe_grows: "\<exists>es. ledger_of (snd (act_stripe a w)) = ledger_of w @ es"
proof (cases a)
  case (Deliver env body sig)
  then show ?thesis
    using process_event_grows[of env _ w] by (auto simp: handle_webhook_event split: option.split sum.split prod.split)
      (metis snd_conv)+
next
  case (Other_credit env fault op)
  then show ?thesis
    using run_credit_op_ledger[of env fault op "sw_credits w"] by (simp add: ledger_of_def del: run_credit_op.simps)
qed

lemma run_stripe_grows: "\<exists>es. ledger_of (run_stripe as w) = ledger_of w @ es"
proof (induction as arbitrary: w)
  case (Cons a as)
  from Cons.IH[of "snd (act_stripe a w)"] act_stripe_grows[of a w] show ?case by fastforce
qed simp

section \<open>An undisturbed delivery\<close>

text \<open>
  Nothing hinders the grant of an order: the owner exists, and the amount and the new balance
  fit their columns.
\<close>

definition grantable :: "stripe_env \<Rightarrow> string \<times> string \<times> int \<Rightarrow> stripe_world \<Rightarrow> bool" where
  "grantable env t w \<longleftrightarrow>
     (case t of (k, u, n) \<Rightarrow>
        ce_ownerExists (se_credits env) (User_Subject u) \<and> 0 < n \<and> int4 n \<and>
        int4 (get_balance (Inr u) (cw_db (sw_credits w)) + n))"

lemma undisturbed_grant:
  assumes "credit_inv (cw_db w)" and "fresh_ids env" and "ce_ownerExists env (User_Subject u)"
    and "0 < cp_credits pack" and "int4 (cp_credits pack)"
    and "int4 (get_balance (Inr u) (cw_db w) + cp_credits pack)" and "u \<noteq> []"
    and "\<forall>e\<in>set (ledger (cw_db w)). e_idempotencyKey e = checkout_grant_key s \<longrightarrow>
      fulfils (checkout_grant_key s, u, cp_credits pack) e"
  shows "\<exists>r w'. run_credit_op env Tx_ok (grant_op s u pack) w = (Inr r, w')"
proof -
  let ?p = "\<lparr>ap_subject = User_Subject u, ap_type = Grant, ap_amount = cp_credits pack,
      ap_delta = cp_credits pack, ap_idempotencyKey = checkout_grant_key s, ap_feature = None,
      ap_metadata = Some (grant_metadata s (Own_pack pack)), ap_failIfInsufficient = False\<rparr>"
  have run: "run_credit_op env Tx_ok (grant_op s u pack) w = apply_mutation env Tx_ok ?p w"
    using assms(4,7) by (simp add: grant_op_def grant_def resolve_subject_def user_subject_def)
  have "\<exists>r db. apply_tx env ?p (cw_db w) = Inr (r, db)"
  proof (cases "find_entry (checkout_grant_key s) (cw_db w)")
    case None
    with apply_tx_fresh[OF assms(1,2), of ?p] assms(3-6) show ?thesis
      by (fastforce simp: params_ok_def get_balance_def user_subject_def)
  next
    case (Some e)
    with assms(8) have "fulfils (checkout_grant_key s, u, cp_credits pack) e"
      using find_SomeD[of _ "ledger (cw_db w)" e] by (auto simp: find_entry_def)
    then have "replay_matches e ?p" by (simp add: fulfils_def replay_matches_def)
    with Some show ?thesis by (simp add: apply_tx_def)
  qed
  then show ?thesis by (auto simp: run apply_mutation_def Let_def)
qed

text \<open>A session keeps its user and its pack over all its events.\<close>

definition same_orders :: "stripe_config \<Rightarrow> stripe_event set \<Rightarrow> bool" where
  "same_orders c E \<longleftrightarrow>
     (\<forall>x\<in>E. \<forall>y\<in>E. \<forall>t t'. order_of c x = Some t \<and> order_of c y = Some t' \<and> fst t = fst t' \<longrightarrow> t = t')"

lemma undisturbed_delivery:
  assumes "stripe_inv c E w" and "ev \<in> E" and "se_config env = c" and "fresh_ids (se_credits env)"
    and "se_grantFault env = Tx_ok" and "se_recordFault env = Tx_ok"
    and "\<forall>t. order_of c ev = Some t \<longrightarrow> grantable env t w"
    and "same_orders c E" and "order_of c ev \<noteq> None"
  shows "fst (process_event env ev w) = Inr ()"
proof (cases "sev_id ev \<in> pev_eventId ` set (sw_events w)")
  case True
  then show ?thesis by (simp add: process_event_def)
next
  case False
  have "\<exists>y. grant_part env ev (sw_credits w) = (Inr (), y)"
  proof (cases rule: grant_part_cases[of env ev "sw_credits w"])
    case idle
    with assms(3,9) show ?thesis by simp
  next
    case (granting u pack)
    let ?k = "checkout_grant_key (sev_object ev)"
    have t: "order_of c ev = Some (?k, u, cp_credits pack)" using granting(1) assms(3) by simp
    have "u \<noteq> []" using t by (auto simp: order_of_def session_order_def session_user_def truthy_def
        split: if_splits option.splits prod.splits found_pack.splits)
    have fits: "fulfils (?k, u, cp_credits pack) e"
      if "e \<in> set (ledger (cw_db (sw_credits w)))" "e_idempotencyKey e = ?k" for e
    proof -
      from that assms(1) have "ordered c E e" by (simp add: stripe_inv_def ledger_of_def)
      then obtain x t' where x: "x \<in> E" "order_of c x = Some t'" "fulfils t' e" by (auto simp: ordered_def)
      then have "fst t' = ?k" using that(2) by (simp add: fulfils_def split: prod.splits)
      then have "t' = (?k, u, cp_credits pack)"
        using assms(2,8) x(1,2) t unfolding same_orders_def by (metis fst_conv)
      with x(3) show ?thesis by simp
    qed
    have "\<exists>r y. run_credit_op (se_credits env) Tx_ok (grant_op (sev_object ev) u pack) (sw_credits w) = (Inr r, y)"
    proof -
      have g: "grantable env (?k, u, cp_credits pack) w" using assms(7) t by blast
      have i: "credit_inv (cw_db (sw_credits w))" using assms(1) by (simp add: stripe_inv_def)
      show ?thesis
        using undisturbed_grant[OF i assms(4) _ _ _ _ \<open>u \<noteq> []\<close>] g fits unfolding grantable_def by simp
    qed
    then show ?thesis using granting(2) assms(5) by auto
  qed
  with False assms(6) show ?thesis by (auto simp: process_event_unfold insert_event_def)
qed

section \<open>Properties\<close>

text \<open>The rows of the ledger that fulfil an order.\<close>

definition deliveries_of :: "string \<times> string \<times> int \<Rightarrow> stripe_world \<Rightarrow> ledger_entry list" where
  "deliveries_of t w = filter (fulfils t) (ledger_of w)"

lemma one_row:
  assumes "credit_inv (cw_db (sw_credits w))" and "\<exists>e\<in>set (ledger_of w). fulfils t e"
  shows "length (deliveries_of t w) = 1"
proof -
  from assms(2) obtain e where e: "e \<in> set (ledger_of w)" "fulfils t e" by blast
  have d: "distinct (map e_idempotencyKey (ledger_of w))"
    using credit_invD(4)[OF assms(1)] by (simp add: ledger_of_def)
  have key: "e_idempotencyKey x = fst t" if "fulfils t x" for x
    using that by (simp add: fulfils_def split: prod.splits)
  have "x = e" if "x \<in> set (ledger_of w)" "fulfils t x" for x
  proof -
    have "inj_on e_idempotencyKey (set (ledger_of w))" using d by (simp add: distinct_map)
    then show ?thesis by (rule inj_onD) (use that e key[OF e(2)] key[OF that(2)] in simp_all)
  qed
  with e have "set (deliveries_of t w) = {e}" unfolding deliveries_of_def set_filter by blast
  moreover have "distinct (deliveries_of t w)" using d by (simp add: deliveries_of_def distinct_map)
  ultimately show ?thesis by (metis card.empty card.insert distinct_card empty_iff finite.emptyI One_nat_def)
qed

text \<open>C37.
  A paid Checkout session is credited once and only once. Over any run of webhook deliveries,
  repeated, out of order and with failures of any statement, mixed with other credit mutations:
  every credit row under a checkout key comes from a verified event of a settled session and
  gives its user the pack's credits; whatever Stripe got an acknowledgement for has exactly one
  such row; and a delivery that nothing disturbs is acknowledged, so Stripe's redelivery ends.
\<close>

theorem checkout_is_credited_exactly_once:
  assumes proper: "\<forall>a\<in>set (as @ Deliver env body sig # bs). proper_action c a"
    and stable: "inj_on sev_id (set (events_of (as @ Deliver env body sig # bs)))"
    and orders: "same_orders c (set (events_of (as @ Deliver env body sig # bs)))"
    and ev: "verified_event env body sig = Some ev" and order: "order_of c ev = Some t"
  defines "w \<equiv> run_stripe as empty_stripe"
    and "final \<equiv> run_stripe (as @ Deliver env body sig # bs) empty_stripe"
  shows "(\<forall>e\<in>set (ledger_of final). stripe_key (e_idempotencyKey e) \<longrightarrow>
           ordered c (set (events_of (as @ Deliver env body sig # bs))) e) \<and>
         (fst (act_stripe (Deliver env body sig) w) \<longrightarrow> length (deliveries_of t final) = 1) \<and>
         (se_grantFault env = Tx_ok \<and> se_recordFault env = Tx_ok \<and> grantable env t w \<longrightarrow>
           fst (act_stripe (Deliver env body sig) w))"
proof -
  let ?all = "as @ Deliver env body sig # bs"
  let ?E = "set (events_of ?all)"
  have evs: "set (events_of as) \<subseteq> ?E" "set (events_of bs) \<subseteq> ?E" "ev \<in> ?E"
    using ev by (auto simp: events_of_def List.map_filter_def)
  have env: "se_config env = c" "fresh_ids (se_credits env)" using proper by simp_all
  have inv: "stripe_inv c ?E w" unfolding w_def by (rule run_stripe_inv) (use proper evs in auto)
  have fin: "stripe_inv c ?E final" unfolding final_def by (rule run_stripe_inv) (use proper in auto)
  obtain r w' where p: "process_event env ev w = (r, w')" by (cases "process_event env ev w")
  have act: "act_stripe (Deliver env body sig) w = (case r of Inl _ \<Rightarrow> False | Inr _ \<Rightarrow> True, w')"
    using ev p by (auto simp: handle_webhook_event split: sum.split)
  note step = process_event_inv[OF inv evs(3) env p]
  have "length (deliveries_of t final) = 1" if "fst (act_stripe (Deliver env body sig) w)"
  proof -
    have "r = Inr ()" using that act by (cases r) auto
    then have "brought c (ledger_of w') ev" using step stable by blast
    moreover have "\<exists>es. ledger_of final = ledger_of w' @ es"
      using run_stripe_grows[of bs w'] act by (simp add: final_def run_stripe_append w_def[symmetric])
    ultimately have "\<exists>e\<in>set (ledger_of final). fulfils t e" using order by (auto simp: brought_def)
    with one_row[of final t] fin show ?thesis by (simp add: stripe_inv_def)
  qed
  moreover have "fst (act_stripe (Deliver env body sig) w)"
    if "se_grantFault env = Tx_ok" "se_recordFault env = Tx_ok" "grantable env t w"
    using undisturbed_delivery[OF inv evs(3) env that(1,2) _ orders] order that(3) p act
    by (auto split: sum.splits)
  ultimately show ?thesis using fin by (simp add: stripe_inv_def del: act_stripe.simps)
qed

text \<open>
  A demonstration: the record of the first delivery is lost, Stripe delivers again, and then
  another event of the same session arrives.
\<close>

definition demo_session :: checkout_session where
  "demo_session = \<lparr>cs_id = ''cs1'', cs_paymentStatus = ''paid'', cs_creditPack = Some ''starter'',
     cs_metadataUserId = Some ''u'', cs_clientReferenceId = None\<rparr>"

definition demo_event :: "string \<Rightarrow> stripe_event option" where
  "demo_event body =
     (if body = ''first'' then Some \<lparr>sev_id = ''e1'', sev_type = ''checkout.session.completed'', sev_object = demo_session\<rparr>
      else if body = ''second'' then
        Some \<lparr>sev_id = ''e2'', sev_type = ''checkout.session.async_payment_succeeded'', sev_object = demo_session\<rparr>
      else None)"

definition demo_stripe_config :: stripe_config where
  "demo_stripe_config =
     \<lparr>sc_enabled = True, sc_secretKey = Some ''sk'', sc_webhookSecret = Some ''wh'',
      sc_packs = [\<lparr>cp_slug = ''starter'', cp_credits = 100, cp_priceId = ''p1''\<rparr>],
      sc_packsBySlug = [(''starter'', \<lparr>cp_slug = ''starter'', cp_credits = 100, cp_priceId = ''p1''\<rparr>)],
      sc_successUrl = Some ''s'', sc_cancelUrl = Some ''c'', sc_apiVersion = stripe_api_version,
      sc_lowBalanceThreshold = None\<rparr>"

definition demo_stripe :: "tx_fault \<Rightarrow> stripe_env" where
  "demo_stripe fault =
     \<lparr>se_config = demo_stripe_config,
      se_client = Some \<lparr>sk_constructEvent = (\<lambda>body sig secret. if sig = secret then demo_event body else None),
                        sk_createCustomer = (\<lambda>email u. Inr ''cus''), sk_createSession = (\<lambda>p. Inr (Some ''url'', ''cs1''))\<rparr>,
      se_credits = sample_env, se_grantFault = Tx_ok, se_recordFault = fault, se_customerFault = Tx_ok\<rparr>"

definition lost_delivery :: stripe_action where
  "lost_delivery = Deliver (demo_stripe (Tx_lost (OtherExn ''down''))) ''first'' (Some ''wh'')"

definition later_event :: stripe_action where
  "later_event = Deliver (demo_stripe Tx_ok) ''second'' (Some ''wh'')"

definition demo_order :: "string \<times> string \<times> int" where
  "demo_order = (''stripe:checkout:cs1'', ''u'', 100)"

theorem checkout_is_credited_exactly_once_witness:
  "fst (act_stripe (Deliver (demo_stripe Tx_ok) ''first'' (Some ''wh'')) (run_stripe [lost_delivery] empty_stripe)) \<and>
   length (deliveries_of demo_order (run_stripe
     ([lost_delivery] @ Deliver (demo_stripe Tx_ok) ''first'' (Some ''wh'') # [later_event]) empty_stripe)) = 1"
proof -
  let ?again = "Deliver (demo_stripe Tx_ok) ''first'' (Some ''wh'')"
  let ?run = "[lost_delivery] @ ?again # [later_event]"
  let ?ev1 = "\<lparr>sev_id = ''e1'', sev_type = ''checkout.session.completed'', sev_object = demo_session\<rparr>"
  let ?ev2 = "\<lparr>sev_id = ''e2'', sev_type = ''checkout.session.async_payment_succeeded'', sev_object = demo_session\<rparr>"
  have proper: "\<forall>a\<in>set ?run. proper_action demo_stripe_config a"
    by (simp add: lost_delivery_def later_event_def demo_stripe_def)
  have evs: "events_of ?run = [?ev1, ?ev1, ?ev2]" by code_simp
  have one: "order_of demo_stripe_config ?ev1 = Some demo_order" by code_simp
  have two: "order_of demo_stripe_config ?ev2 = Some demo_order" by code_simp
  have stable: "inj_on sev_id (set (events_of ?run))" unfolding evs by simp
  have orders: "same_orders demo_stripe_config (set (events_of ?run))"
    unfolding evs same_orders_def using one two by (simp del: split_paired_All)
  have ev: "verified_event (demo_stripe Tx_ok) ''first'' (Some ''wh'') = Some ?ev1" by code_simp
  have ok: "se_grantFault (demo_stripe Tx_ok) = Tx_ok \<and> se_recordFault (demo_stripe Tx_ok) = Tx_ok"
    by (simp add: demo_stripe_def)
  have grantable: "grantable (demo_stripe Tx_ok) demo_order (run_stripe [lost_delivery] empty_stripe)" by code_simp
  show ?thesis
    using checkout_is_credited_exactly_once[OF proper stable orders ev one] ok grantable by blast
qed

end
