(* ===== verification/AgentPipeline.thy ===== *)
theory AgentPipeline
  imports ApiKeys Plans UsageLimits Throttling CreditFlow
begin

text \<open>
  A tool call of an agent (\<open>src/modules/mcp/agent-pipeline.service.ts\<close>): permissions, plan,
  throttle, usage limits, credits, the handler, and the record of the invocation.

  The pipeline composes the models of the services it calls. The state is theirs, with the
  invocation table and the counters of the metrics. A handler is any function on that state,
  with a result of any type.
\<close>

section \<open>Data\<close>

datatype invocation_outcome = Invocation_success | Invocation_denied | Invocation_error

record invocation_row =
  iv_userId :: string
  iv_apiKeyId :: string
  iv_toolName :: string
  iv_outcome :: invocation_outcome
  iv_errorCode :: "error_code option"
  iv_requestId :: "string option"

record 's agent_world =
  aw_usage :: "'s usage_world"
  aw_credits :: credit_world
  aw_invocations :: "invocation_row list"
  aw_metrics :: "(string \<times> invocation_outcome) list"

record ('s, 'v) mcp_tool =
  mt_name :: string
  mt_description :: string
  mt_permissions :: "string list"
  mt_entitlements :: "string list option"
  mt_minimumPlan :: "string option"
  mt_usageFeature :: "string option"
  mt_creditFeature :: "string option"
  mt_handler :: "json \<Rightarrow> agent_principal \<Rightarrow> 's agent_world \<Rightarrow> (exn + 'v) \<times> 's agent_world"

text \<open>The services, and what happens to the statements of this call.\<close>

record 's agent_env =
  ae_usage :: "'s usage_env"
  ae_windows :: throttle_windows
  ae_planCache :: plan_cache
  ae_planDb :: plan_db
  ae_now :: int
  ae_credits :: credit_env
  ae_spendFault :: tx_fault
  ae_refundFault :: tx_fault
  ae_logFault :: tx_fault

section \<open>The stages\<close>

definition assert_permissions :: "agent_principal \<Rightarrow> string list \<Rightarrow> exn + unit" where
  "assert_permissions a required =
     (if filter (\<lambda>p. p \<notin> set (ea_permissions (ap_access a))) required \<noteq> [] then Inl access_denied
      else Inr ())"

definition capability_denied :: exn where
  "capability_denied = api_error 403 ENTITLEMENT_DENIED ''Your plan does not include this capability.''"

definition assert_plan :: "'s agent_env \<Rightarrow> string \<Rightarrow> ('s, 'v) mcp_tool \<Rightarrow> exn + unit" where
  "assert_plan env userId tool =
     (case resolve_plan (ae_planCache env) (ae_planDb env) (Inr userId) (ae_now env) of
        Inl e \<Rightarrow> Inl e
      | Inr plan \<Rightarrow>
          (if (case truthy (mt_minimumPlan tool) of
                 Some slug \<Rightarrow> \<not> meets_minimum_plan (ae_planCache env) plan slug | None \<Rightarrow> False)
           then Inl capability_denied
           else if list_ex (\<lambda>k. \<not> has_entitlement plan k)
                     (case mt_entitlements tool of Some ks \<Rightarrow> ks | None \<Rightarrow> [])
           then Inl capability_denied else Inr ()))"

definition plan_gate :: "'s agent_env \<Rightarrow> string \<Rightarrow> ('s, 'v) mcp_tool \<Rightarrow> exn + unit" where
  "plan_gate env userId tool =
     (if (case mt_entitlements tool of Some ks \<Rightarrow> ks \<noteq> [] | None \<Rightarrow> False) \<or>
         truthy (mt_minimumPlan tool) \<noteq> None
      then assert_plan env userId tool else Inr ())"

definition throttle_denial :: "mcp_denial \<Rightarrow> exn" where
  "throttle_denial d =
     (case d of
        Store_unavailable \<Rightarrow>
          api_error 503 SERVICE_UNAVAILABLE ''MCP rate limiting is temporarily unavailable. Try again shortly.''
      | Rate_limited \<Rightarrow> api_error 429 RATE_LIMITED ''Too many MCP requests. Try again later.'')"

definition throttle_stage :: "'s agent_env \<Rightarrow> string \<Rightarrow> 's agent_world \<Rightarrow> (exn + unit) \<times> 's agent_world" where
  "throttle_stage env userId w =
     (case usage_call (mcp_consume (ue_redis (ae_usage env)) (ae_windows env) userId) (aw_usage w) of
        (None, u) \<Rightarrow> (Inr (), w\<lparr>aw_usage := u\<rparr>)
      | (Some d, u) \<Rightarrow> (Inl (throttle_denial d), w\<lparr>aw_usage := u\<rparr>))"

definition usage_stage ::
  "'s agent_env \<Rightarrow> string \<Rightarrow> string option \<Rightarrow> 's agent_world \<Rightarrow> (exn + unit) \<times> 's agent_world" where
  "usage_stage env userId feature w =
     (case truthy feature of
        None \<Rightarrow> (Inr (), w)
      | Some f \<Rightarrow>
          (case consume (ae_usage env) (usage_subject_of userId) f [Day_Period, Week_Period] (aw_usage w) of
             (r, u) \<Rightarrow> (r, w\<lparr>aw_usage := u\<rparr>)))"

definition mcp_spend_key :: "string option \<Rightarrow> string \<Rightarrow> string \<Rightarrow> string" where
  "mcp_spend_key requestId toolName feature =
     ''mcp:spend:'' @ (case requestId of Some r \<Rightarrow> r | None \<Rightarrow> ''noreq'') @ '':'' @ toolName @ '':'' @ feature"

definition mcp_refund_key :: "string \<Rightarrow> string" where
  "mcp_refund_key spendKey = ''mcp:refund:'' @ spendKey"

definition user_input :: "string \<Rightarrow> subject_input" where
  "user_input userId = \<lparr>si_subject = None, si_userId = Some userId\<rparr>"

text \<open>The charge, with the key and the feature it was made under.\<close>

definition spend_stage ::
  "'s agent_env \<Rightarrow> string \<Rightarrow> string option \<Rightarrow> ('s, 'v) mcp_tool \<Rightarrow> 's agent_world \<Rightarrow>
     (exn + (string \<times> string) option) \<times> 's agent_world" where
  "spend_stage env userId requestId tool w =
     (case truthy (mt_creditFeature tool) of
        None \<Rightarrow> (Inr None, w)
      | Some f \<Rightarrow>
          (let k = mcp_spend_key requestId (mt_name tool) f
           in case run_credit_op (ae_credits env) (ae_spendFault env)
                     (Op_Spend (user_input userId) (credit_cost f) k (Some f) None) (aw_credits w) of
                (Inl e, c) \<Rightarrow> (Inl e, w\<lparr>aw_credits := c\<rparr>)
              | (Inr _, c) \<Rightarrow> (Inr (Some (k, f)), w\<lparr>aw_credits := c\<rparr>)))"

text \<open>The refund after a handler that failed; its own failure is only logged.\<close>

definition refund_stage ::
  "'s agent_env \<Rightarrow> string \<Rightarrow> (string \<times> string) option \<Rightarrow> 's agent_world \<Rightarrow> 's agent_world" where
  "refund_stage env userId charged w =
     (case charged of
        None \<Rightarrow> w
      | Some (k, f) \<Rightarrow>
          w\<lparr>aw_credits := snd (run_credit_op (ae_credits env) (ae_refundFault env)
                (Op_Refund (user_input userId) (credit_cost f) (mcp_refund_key k) (Some f) None) (aw_credits w))\<rparr>)"

section \<open>The record\<close>

text \<open>\<open>McpInvocationLogService.record\<close> never throws.\<close>

definition record_invocation :: "tx_fault \<Rightarrow> invocation_row \<Rightarrow> 's agent_world \<Rightarrow> 's agent_world" where
  "record_invocation fault row w =
     w\<lparr>aw_invocations := snd (run_tx fault (\<lambda>rows. Inr ((), rows @ [row])) (aw_invocations w))\<rparr>"

definition finish ::
  "'s agent_env \<Rightarrow> invocation_outcome \<Rightarrow> agent_principal \<Rightarrow> string \<Rightarrow> string option \<Rightarrow> error_code option \<Rightarrow>
     's agent_world \<Rightarrow> 's agent_world" where
  "finish env outcome a toolName requestId code w =
     record_invocation (ae_logFault env)
       \<lparr>iv_userId = apr_id (ap_user a), iv_apiKeyId = ap_apiKeyId a, iv_toolName = toolName,
        iv_outcome = outcome, iv_errorCode = code, iv_requestId = requestId\<rparr>
       (w\<lparr>aw_metrics := aw_metrics w @ [(toolName, outcome)]\<rparr>)"

definition denial_codes :: "error_code list" where
  "denial_codes = [FORBIDDEN, UNAUTHORIZED, ENTITLEMENT_DENIED, RATE_LIMITED, USAGE_LIMIT_EXCEEDED,
     INSUFFICIENT_CREDITS]"

definition outcome_of_error :: "exn \<Rightarrow> invocation_outcome" where
  "outcome_of_error e =
     (case api_code e of
        Some c \<Rightarrow> (if c \<in> set denial_codes then Invocation_denied else Invocation_error)
      | None \<Rightarrow> Invocation_error)"

definition code_of_error :: "exn \<Rightarrow> error_code" where
  "code_of_error e = (case api_code e of Some c \<Rightarrow> c | None \<Rightarrow> INTERNAL_ERROR)"

section \<open>The call\<close>

text \<open>The stages before the handler, in their order.\<close>

definition admit_call ::
  "'s agent_env \<Rightarrow> agent_principal \<Rightarrow> ('s, 'v) mcp_tool \<Rightarrow> string option \<Rightarrow> 's agent_world \<Rightarrow>
     (exn + (string \<times> string) option) \<times> 's agent_world" where
  "admit_call env a tool requestId w =
     (case assert_permissions a (mt_permissions tool) of
        Inl e \<Rightarrow> (Inl e, w)
      | Inr _ \<Rightarrow>
          (case plan_gate env (apr_id (ap_user a)) tool of
             Inl e \<Rightarrow> (Inl e, w)
           | Inr _ \<Rightarrow>
               (case throttle_stage env (apr_id (ap_user a)) w of
                  (Inl e, w1) \<Rightarrow> (Inl e, w1)
                | (Inr _, w1) \<Rightarrow>
                    (case usage_stage env (apr_id (ap_user a)) (mt_usageFeature tool) w1 of
                       (Inl e, w2) \<Rightarrow> (Inl e, w2)
                     | (Inr _, w2) \<Rightarrow> spend_stage env (apr_id (ap_user a)) requestId tool w2))))"

text \<open>\<open>AgentPipeline.run\<close>.\<close>

definition run_tool ::
  "'s agent_env \<Rightarrow> agent_principal \<Rightarrow> ('s, 'v) mcp_tool \<Rightarrow> json \<Rightarrow> string option \<Rightarrow> request_context \<Rightarrow>
     's agent_world \<Rightarrow> (exn + 'v) \<times> 's agent_world" where
  "run_tool env a tool args givenId ctx w =
     (let requestId = (case givenId of Some r \<Rightarrow> Some r | None \<Rightarrow> get_request_id ctx);
          failed = (\<lambda>e v. (Inl e, finish env (outcome_of_error e) a (mt_name tool) requestId
                                    (Some (code_of_error e)) v))
      in case admit_call env a tool requestId w of
           (Inl e, w1) \<Rightarrow> failed e w1
         | (Inr charged, w1) \<Rightarrow>
             (case mt_handler tool args a w1 of
                (Inr v, w2) \<Rightarrow> (Inr v, finish env Invocation_success a (mt_name tool) requestId None w2)
              | (Inl e, w2) \<Rightarrow> failed e (refund_stage env (apr_id (ap_user a)) charged w2)))"

end
