(* ===== verification/McpServer.thy ===== *)
theory McpServer
  imports AgentPipeline ConfigNamespaces
begin

text \<open>
  The tools an agent can call and the transport that carries the calls
  (\<open>src/modules/mcp/mcp-tool-catalog.ts\<close>, \<open>mcp-server.factory.ts\<close>, \<open>mcp.controller.ts\<close>).

  The MCP SDK is an argument of the controller; it calls the tools that the factory registers.
  What a tool returns is a value of \<open>tool_result\<close>, and its rendering as JSON text is an
  argument of the factory. The resolver of permissions and the plan tables are those of the
  pipeline.
\<close>

section \<open>The catalogue\<close>

record profile_view =
  pf_user :: auth_principal
  pf_access :: effective_access

record tool_plan_view =
  tv_slug :: string
  tv_name :: string
  tv_rank :: int
  tv_fromSubscription :: bool
  tv_subscription :: "(string \<times> subscription_status option \<times> billing_interval option \<times> int option) option"
  tv_entitlements :: "(string \<times> bool) list"
  tv_limits :: "(string \<times> plan_ceilings) list"

datatype tool_result =
    Profile_result profile_view
  | Plan_result tool_plan_view
  | Balance_result int
  | Entries_result "ledger_entry list"
  | Snapshots_result "usage_snapshot list"
  | Ping_result string

definition tool_plan_view_of :: "effective_plan \<Rightarrow> tool_plan_view" where
  "tool_plan_view_of p =
     \<lparr>tv_slug = ep_slug p, tv_name = ep_name p, tv_rank = ep_rank p,
      tv_fromSubscription = ep_fromSubscription p,
      tv_subscription = map_option (\<lambda>i. (i, ep_status p, ep_interval p, ep_periodEnd p))
        (truthy (ep_subscriptionId p)),
      tv_entitlements = ep_entitlements p,
      tv_limits = map (\<lambda>(f, c). (f, \<lparr>pc_daily = pc_daily c, pc_weekly = pc_weekly c\<rparr>)) (ep_usage p)\<rparr>"

text \<open>A member of the arguments that is a number, or a text.\<close>

definition number_arg :: "string \<Rightarrow> json \<Rightarrow> int option" where
  "number_arg name args = (case args of JObj ms \<Rightarrow> (case map_of ms name of Some (JNum n) \<Rightarrow> Some n | _ \<Rightarrow> None) | _ \<Rightarrow> None)"

definition text_arg :: "string \<Rightarrow> json \<Rightarrow> string option" where
  "text_arg name args = (case args of JObj ms \<Rightarrow> (case map_of ms name of Some (JStr t) \<Rightarrow> Some t | _ \<Rightarrow> None) | _ \<Rightarrow> None)"

type_synonym 's tool_handler = "json \<Rightarrow> agent_principal \<Rightarrow> 's agent_world \<Rightarrow> (exn + tool_result) \<times> 's agent_world"

definition profile_handler ::
  "'s redis \<Rightarrow> int \<Rightarrow> (string \<Rightarrow> exn + effective_access) \<Rightarrow> 's tool_handler" where
  "profile_handler R now readAccess args a w =
     (case usage_call (resolve_access R now (readAccess (apr_id (ap_user a))) (apr_id (ap_user a))) (aw_usage w) of
        (Inl e, u) \<Rightarrow> (Inl e, w\<lparr>aw_usage := u\<rparr>)
      | (Inr access, u) \<Rightarrow>
          (Inr (Profile_result \<lparr>pf_user = ap_user a, pf_access = access\<rparr>), w\<lparr>aw_usage := u\<rparr>))"

definition plan_handler :: "'s agent_env \<Rightarrow> 's tool_handler" where
  "plan_handler env args a w =
     (case resolve_plan (ae_planCache env) (ae_planDb env) (Inr (apr_id (ap_user a))) (ae_now env) of
        Inl e \<Rightarrow> (Inl e, w)
      | Inr p \<Rightarrow> (Inr (Plan_result (tool_plan_view_of p)), w))"

definition balance_handler :: "'s tool_handler" where
  "balance_handler args a w =
     (Inr (Balance_result (get_balance (Inr (apr_id (ap_user a))) (cw_db (aw_credits w)))), w)"

definition ledger_handler :: "'s tool_handler" where
  "ledger_handler args a w =
     (let limit = (case number_arg ''limit'' args of Some n \<Rightarrow> n | None \<Rightarrow> 20)
      in (Inr (Entries_result (list_ledger (Inr (apr_id (ap_user a))) limit (cw_db (aw_credits w)))), w))"

definition snapshot_handler :: "'s agent_env \<Rightarrow> 's tool_handler" where
  "snapshot_handler env args a w =
     (case snapshots_for_user (ae_usage env) (apr_id (ap_user a)) (text_arg ''feature'' args) (aw_usage w) of
        (Inl e, u) \<Rightarrow> (Inl e, w\<lparr>aw_usage := u\<rparr>)
      | (Inr ss, u) \<Rightarrow> (Inr (Snapshots_result ss), w\<lparr>aw_usage := u\<rparr>))"

definition ping_handler :: "'s tool_handler" where
  "ping_handler args a w = (Inr (Ping_result (apr_id (ap_user a))), w)"

definition plain_tool :: "string \<Rightarrow> string \<Rightarrow> string list \<Rightarrow> 's tool_handler \<Rightarrow> ('s, tool_result) mcp_tool" where
  "plain_tool name description permissions handler =
     \<lparr>mt_name = name, mt_description = description, mt_permissions = permissions, mt_entitlements = None,
      mt_minimumPlan = None, mt_usageFeature = None, mt_creditFeature = None, mt_handler = handler\<rparr>"

definition mcp_tools ::
  "'s agent_env \<Rightarrow> (string \<Rightarrow> exn + effective_access) \<Rightarrow> ('s, tool_result) mcp_tool list" where
  "mcp_tools env readAccess =
     [plain_tool ''account.get_profile'' ''Return the authenticated user profile, roles, and permissions.''
        [''mcp:tools:invoke'', ''account:read'']
        (profile_handler (ue_redis (ae_usage env)) (ae_now env) readAccess),
      plain_tool ''plans.get_current'' ''Return the caller's effective plan and subscription summary.''
        [''mcp:tools:invoke''] (plan_handler env),
      plain_tool ''credits.get_balance'' ''Return the caller's credit wallet balance.''
        [''mcp:tools:invoke''] balance_handler,
      plain_tool ''credits.list_ledger'' ''Return a bounded page of the caller's credit ledger entries.''
        [''mcp:tools:invoke''] ledger_handler,
      plain_tool ''usage.get_snapshot''
        ''Return daily/weekly usage snapshots for catalogue features (or one feature).''
        [''mcp:tools:invoke''] (snapshot_handler env),
      (plain_tool ''demo.paid_ping''
        ''Demo credit-gated tool (costs demo.paid credits and meters the demo usage feature).''
        [''mcp:tools:invoke''] ping_handler)
        \<lparr>mt_usageFeature := Some ''demo'', mt_creditFeature := Some ''demo.paid''\<rparr>]"

section \<open>The server\<close>

text \<open>What a registered tool answers to the SDK.\<close>

datatype 'v tool_response =
    Tool_content string 'v
  | Tool_failure string

definition failure_message :: "exn \<Rightarrow> string" where
  "failure_message e =
     (case e of ApiExn a \<Rightarrow> code_name (ax_code a) @ '': '' @ ax_message a | _ \<Rightarrow> exn_message e)"

definition tool_callback ::
  "('v \<Rightarrow> string) \<Rightarrow> 's agent_env \<Rightarrow> agent_principal \<Rightarrow> ('s, 'v) mcp_tool \<Rightarrow> string option \<Rightarrow>
     request_context \<Rightarrow> json option \<Rightarrow> 's agent_world \<Rightarrow> 'v tool_response \<times> 's agent_world" where
  "tool_callback render env a tool requestId ctx args w =
     (case run_tool env a tool (case args of Some j \<Rightarrow> j | None \<Rightarrow> JObj []) requestId ctx w of
        (Inr v, w') \<Rightarrow> (Tool_content (render v) v, w')
      | (Inl e, w') \<Rightarrow> (Tool_failure (failure_message e), w'))"

text \<open>The tools a server has, by name.\<close>

definition create_server ::
  "(tool_result \<Rightarrow> string) \<Rightarrow> 's agent_env \<Rightarrow> (string \<Rightarrow> exn + effective_access) \<Rightarrow> agent_principal \<Rightarrow>
     string option \<Rightarrow> request_context \<Rightarrow>
     (string \<times> (json option \<Rightarrow> 's agent_world \<Rightarrow> tool_result tool_response \<times> 's agent_world)) list" where
  "create_server render env readAccess a requestId ctx =
     map (\<lambda>t. (mt_name t, tool_callback render env a t requestId ctx)) (mcp_tools env readAccess)"

section \<open>The controller\<close>

datatype mcp_reply =
    Mcp_thrown exn
  | Mcp_json int int string
  | Mcp_streamed

definition mcp_disabled :: exn where
  "mcp_disabled = HttpExn 404 (RespObj (JObj [(''message'', JStr ''Not Found''), (''statusCode'', JNum 404)]))
     ''Not Found''"

text \<open>
  \<open>McpController.handle\<close>. \<open>serve\<close> stands for the connection of the server to the transport and
  the handling of the request by the SDK; its flag says whether the head of the response was
  already sent when it threw.
\<close>

definition mcp_handle ::
  "mcp_config \<Rightarrow> (string option \<Rightarrow> 's \<Rightarrow> (exn + agent_principal option) \<times> 's) \<Rightarrow>
     (agent_principal \<Rightarrow> string option \<Rightarrow> request_context \<Rightarrow> 's \<Rightarrow> (exn \<times> bool + unit) \<times> 's) \<Rightarrow>
     string option \<Rightarrow> request_context \<Rightarrow> 's \<Rightarrow> mcp_reply \<times> request_context \<times> 's" where
  "mcp_handle cfg authenticate serve authorization ctx s =
     (if \<not> mc_enabled cfg then (Mcp_thrown mcp_disabled, ctx, s)
      else
        (case authenticate authorization s of
           (Inl e, s1) \<Rightarrow> (Mcp_thrown e, ctx, s1)
         | (Inr None, s1) \<Rightarrow>
             (Mcp_json 401 (- 32001) ''Unauthorized: valid API key Bearer token required'', ctx, s1)
         | (Inr (Some a), s1) \<Rightarrow>
             (let ctx' = set_user_id (apr_id (ap_user a)) ctx
              in case serve a (get_request_id ctx') ctx' s1 of
                   (Inr _, s2) \<Rightarrow> (Mcp_streamed, ctx', s2)
                 | (Inl (e, headersSent), s2) \<Rightarrow>
                     (if headersSent then (Mcp_streamed, ctx', s2)
                      else (Mcp_json 500 (- 32603) ''Internal server error'', ctx', s2)))))"

end
