(* ===== verification/AgentProperties.thy ===== *)
theory AgentProperties
  imports McpServer CreditTrace CreditContract CreditProperties
begin

text \<open>
  What an agent's call does to its balance and to the invocation log, and what a repeated
  request id does to the charge.
\<close>

section \<open>Charging\<close>

definition balance_of :: "'s agent_world \<Rightarrow> billing_subject \<Rightarrow> int" where
  "balance_of w s = get_balance (Inl s) (cw_db (aw_credits w))"

lemma resolve_user [simp]: "u \<noteq> [] \<Longrightarrow> resolve_subject (user_input u) = Inr (User_Subject u)"
  by (simp add: user_input_def resolve_subject_def user_subject_def)

text \<open>The cost of a tool; every feature of the catalogue costs something.\<close>

definition tool_cost :: "('s, 'v) mcp_tool \<Rightarrow> int" where
  "tool_cost t =
     (case truthy (mt_creditFeature t) of
        None \<Rightarrow> 0 | Some f \<Rightarrow> (case credit_cost f of JInt n \<Rightarrow> n | JOther \<Rightarrow> 0))"

definition declared_cost :: "('s, 'v) mcp_tool \<Rightarrow> bool" where
  "declared_cost t \<longleftrightarrow> (case truthy (mt_creditFeature t) of None \<Rightarrow> True | Some f \<Rightarrow> f \<in> fst ` set credit_costs)"

lemma credit_cost_declared:
  "f \<in> fst ` set credit_costs \<Longrightarrow> credit_cost f = JInt 1"
  by (auto simp: credit_costs_def credit_cost_def)

lemma fresh_spend:
  assumes "credit_inv (cw_db c)" and "fresh_ids env" and "find_entry k (cw_db c) = None"
    and "ce_ownerExists env (User_Subject u)" and "u \<noteq> []" and "0 < n" "int4 n"
  shows "if n \<le> get_balance (Inr u) (cw_db c)
    then \<exists>r c'. run_credit_op env Tx_ok (Op_Spend (user_input u) (JInt n) k f None) c = (Inr r, c') \<and>
      ledger (cw_db c') = ledger (cw_db c) @ [mr_entry r] \<and> e_idempotencyKey (mr_entry r) = k \<and>
      (\<forall>t. get_balance (Inl t) (cw_db c') = get_balance (Inl t) (cw_db c) - (if t = User_Subject u then n else 0))
    else \<exists>e. run_credit_op env Tx_ok (Op_Spend (user_input u) (JInt n) k f None) c = (Inl e, c) \<and>
      api_code e = Some INSUFFICIENT_CREDITS"
proof -
  let ?op = "Op_Spend (user_input u) (JInt n) k f None"
  have same: "run_credit_op env Tx_ok ?op c = spend env Tx_ok (of_subject (User_Subject u)) (JInt n) k f None c"
    using assms(5) by (simp add: spend_def)
  have bal: "get_balance (Inl (User_Subject u)) (cw_db c) = get_balance (Inr u) (cw_db c)"
    by (simp add: get_balance_def user_subject_def)
  note eff = spend_effect[OF assms(1-4,6,7), of f None, unfolded bal, folded same]
  show ?thesis
  proof (cases "n \<le> get_balance (Inr u) (cw_db c)")
    case True
    then obtain r c' where run: "run_credit_op env Tx_ok ?op c = (Inr r, c')"
      and led: "ledger (cw_db c') = ledger (cw_db c) @ [mr_entry r]"
      and bals: "\<forall>t. get_balance (Inl t) (cw_db c') = (if t = User_Subject u
        then get_balance (Inr u) (cw_db c) - n else get_balance (Inl t) (cw_db c))"
      using eff by auto
    obtain p where "op_params ?op = Some p" "row_of p (mr_entry r)"
      using run_credit_op_returns[OF run] by blast
    then have "e_idempotencyKey (mr_entry r) = k" using op_params_key[of ?op p] by (simp add: row_of_def)
    with True run led bals bal show ?thesis by (simp del: run_credit_op.simps)
  next
    case False
    with eff show ?thesis by (simp del: run_credit_op.simps)
  qed
qed

lemma fresh_refund:
  assumes "credit_inv (cw_db c)" and "fresh_ids env" and "find_entry k (cw_db c) = None"
    and "ce_ownerExists env (User_Subject u)" and "u \<noteq> []" and "0 < n" "int4 n"
    and "int4 (get_balance (Inr u) (cw_db c) + n)"
  shows "\<forall>t. get_balance (Inl t) (cw_db (snd (run_credit_op env Tx_ok
      (Op_Refund (user_input u) (JInt n) k f None) c))) =
    get_balance (Inl t) (cw_db c) + (if t = User_Subject u then n else 0)"
proof -
  let ?p = "\<lparr>ap_subject = User_Subject u, ap_type = Refund, ap_amount = n, ap_delta = n,
      ap_idempotencyKey = k, ap_feature = f, ap_metadata = None, ap_failIfInsufficient = False\<rparr>"
  have run: "run_credit_op env Tx_ok (Op_Refund (user_input u) (JInt n) k f None) c = apply_mutation env Tx_ok ?p c"
    using assms(5,6) by (simp add: refund_def)
  have bal: "get_balance (Inl (User_Subject u)) (cw_db c) = get_balance (Inr u) (cw_db c)"
    by (simp add: get_balance_def user_subject_def)
  obtain r db where "apply_tx env ?p (cw_db c) = Inr (r, db)"
    "\<forall>t. get_balance (Inl t) db = (if t = User_Subject u then get_balance (Inr u) (cw_db c) + n
       else get_balance (Inl t) (cw_db c))"
    using apply_tx_fresh[OF assms(1,2), of ?p] assms(3,4,6-8) bal by (fastforce simp: params_ok_def)
  with bal show ?thesis unfolding run by (simp add: apply_mutation_db)
qed

section \<open>One call\<close>

text \<open>The log has a row of the call, unless its commit was lost.\<close>

definition logged :: "'s agent_env \<Rightarrow> invocation_row \<Rightarrow> 's agent_world \<Rightarrow> invocation_row list" where
  "logged env row w = aw_invocations w @ (if \<exists>x. ae_logFault env = Tx_lost x then [] else [row])"

lemma finish_world:
  "aw_credits (finish env out a n r c w) = aw_credits w"
  "aw_invocations (finish env out a n r c w) = logged env
     \<lparr>iv_userId = apr_id (ap_user a), iv_apiKeyId = ap_apiKeyId a, iv_toolName = n, iv_outcome = out,
      iv_errorCode = c, iv_requestId = r\<rparr> w"
  by (cases "ae_logFault env"; simp add: finish_def record_invocation_def run_tx_def logged_def)+

lemma stage_worlds:
  "throttle_stage env u w = (r, w1) \<Longrightarrow> aw_credits w1 = aw_credits w \<and> aw_invocations w1 = aw_invocations w"
  "usage_stage env u f w = (r, w1) \<Longrightarrow> aw_credits w1 = aw_credits w \<and> aw_invocations w1 = aw_invocations w"
  by (auto simp: throttle_stage_def usage_stage_def split: prod.splits option.splits)

text \<open>A tool whose handler leaves credits and the log to the pipeline.\<close>

definition well_behaved :: "('s, 'v) mcp_tool \<Rightarrow> bool" where
  "well_behaved t \<longleftrightarrow> declared_cost t \<and>
     (\<forall>args a w. aw_credits (snd (mt_handler t args a w)) = aw_credits w \<and>
        aw_invocations (snd (mt_handler t args a w)) = aw_invocations w)"

lemma plain_tool_fields [simp]:
  "mt_handler (plain_tool n d ps h) = h" "mt_creditFeature (plain_tool n d ps h) = None"
  by (simp_all add: plain_tool_def)

lemma catalogue_well_behaved: "t \<in> set (mcp_tools env readAccess) \<Longrightarrow> well_behaved t"
  by (auto simp: mcp_tools_def well_behaved_def declared_cost_def truthy_def credit_costs_def
      profile_handler_def plan_handler_def balance_handler_def ledger_handler_def snapshot_handler_def
      ping_handler_def Let_def split: prod.splits sum.splits)

text \<open>The keys of a call, neither of them used before.\<close>

definition unused_keys :: "string option \<Rightarrow> ('s, 'v) mcp_tool \<Rightarrow> 's agent_world \<Rightarrow> bool" where
  "unused_keys requestId t w \<longleftrightarrow>
     (case truthy (mt_creditFeature t) of
        None \<Rightarrow> True
      | Some f \<Rightarrow>
          (let k = mcp_spend_key requestId (mt_name t) f
           in find_entry k (cw_db (aw_credits w)) = None \<and>
              find_entry (mcp_refund_key k) (cw_db (aw_credits w)) = None))"

text \<open>The wallet and the caller are in order; nothing is said of what the statements do.\<close>

definition credit_ready :: "'s agent_env \<Rightarrow> string \<Rightarrow> 's agent_world \<Rightarrow> bool" where
  "credit_ready env u w \<longleftrightarrow>
     credit_inv (cw_db (aw_credits w)) \<and> fresh_ids (ae_credits env) \<and>
     ce_ownerExists (ae_credits env) (User_Subject u) \<and> u \<noteq> []"

definition paid :: "string \<Rightarrow> int \<Rightarrow> 's agent_world \<Rightarrow> 's agent_world \<Rightarrow> bool" where
  "paid u n w w' \<longleftrightarrow> (\<forall>s. balance_of w' s = balance_of w s - (if s = User_Subject u then n else 0))"

text \<open>A mutation under a fault, from the same mutation undisturbed.\<close>

lemma mutation_fault:
  assumes "apply_mutation env Tx_ok p c = (Inr v, c')"
  shows "cw_db (snd (apply_mutation env fault p c)) =
           (if \<exists>x. fault = Tx_lost x then cw_db c else cw_db c')"
    and "(\<exists>v. fst (apply_mutation env fault p c) = Inr v) \<longleftrightarrow> fault = Tx_ok"
proof -
  have "run_tx Tx_ok (apply_tx env p) (cw_db c) = (Inr v, cw_db c')"
    using assms apply_mutation_result[of env Tx_ok p c] apply_mutation_db[of env Tx_ok p c]
    by (simp add: prod_eq_iff)
  then have "apply_tx env p (cw_db c) = Inr (v, cw_db c')" by (rule run_tx_return)
  then show "cw_db (snd (apply_mutation env fault p c)) =
           (if \<exists>x. fault = Tx_lost x then cw_db c else cw_db c')"
    and "(\<exists>v. fst (apply_mutation env fault p c) = Inr v) \<longleftrightarrow> fault = Tx_ok"
    by (cases fault; simp add: apply_mutation_db apply_mutation_result run_tx_def)+
qed

lemma mutation_refused:
  assumes "apply_mutation env Tx_ok p c = (Inl e, c')"
  shows "cw_db (snd (apply_mutation env fault p c)) = cw_db c"
    and "\<exists>e. fst (apply_mutation env fault p c) = Inl e"
proof -
  have "fst (run_tx Tx_ok (apply_tx env p) (cw_db c)) = Inl e"
    using assms apply_mutation_result[of env Tx_ok p c] by simp
  then have "apply_tx env p (cw_db c) = Inl e"
    by (auto simp: run_tx_def split: sum.splits)
  then show "cw_db (snd (apply_mutation env fault p c)) = cw_db c"
    and "\<exists>e. fst (apply_mutation env fault p c) = Inl e"
    by (cases fault; simp add: apply_mutation_db apply_mutation_result run_tx_def)+
qed

lemma tool_op_is_mutation:
  assumes "u \<noteq> []" and "0 < n" and "op \<in> {Op_Spend, Op_Refund}"
  obtains p where "\<And>fault. run_credit_op env fault (op (user_input u) (JInt n) k f None) c =
      apply_mutation env fault p c"
  using assms by (auto simp: spend_def refund_def)

text \<open>What the charge and the refund of a call come to, whatever happens to their statements.\<close>

lemma spend_stage_effect:
  assumes "credit_ready env u w" and "declared_cost t" and "unused_keys requestId t w"
    and "spend_stage env u requestId t w = (r, w1)"
  shows "aw_invocations w1 = aw_invocations w \<and>
    (case r of
       Inl e \<Rightarrow> balance_of w1 = balance_of w \<or>
         paid u (tool_cost t) w w1 \<and> (\<exists>x. ae_spendFault env = Tx_unreported x)
     | Inr charged \<Rightarrow>
         paid u (tool_cost t) w w1 \<and>
         (\<forall>w2. aw_credits w2 = aw_credits w1 \<longrightarrow>
            balance_of (refund_stage env u charged w2) = balance_of w \<or>
            balance_of (refund_stage env u charged w2) = balance_of w1 \<and> (\<exists>x. ae_refundFault env = Tx_lost x)))"
proof (cases "truthy (mt_creditFeature t)")
  case None
  with assms(4) show ?thesis
    by (auto simp: spend_stage_def tool_cost_def balance_of_def refund_stage_def paid_def fun_eq_iff)
next
  case (Some f)
  let ?k = "mcp_spend_key requestId (mt_name t) f" and ?c = "aw_credits w"
  have cost: "credit_cost f = JInt 1" using assms(2) Some credit_cost_declared by (simp add: declared_cost_def)
  then have cost1: "tool_cost t = 1" by (simp add: tool_cost_def Some)
  have new: "find_entry ?k (cw_db ?c) = None" "find_entry (mcp_refund_key ?k) (cw_db ?c) = None"
    using assms(3) Some by (simp_all add: unused_keys_def Let_def)
  have env: "credit_inv (cw_db ?c)" "fresh_ids (ae_credits env)" "ce_ownerExists (ae_credits env) (User_Subject u)"
    "u \<noteq> []" using assms(1) by (simp_all add: credit_ready_def)
  let ?op = "Op_Spend (user_input u) (JInt 1) ?k (Some f) None"
  have small: "int4 (1 :: int)" by (simp add: int4_def)
  obtain p where op: "\<And>fault. run_credit_op (ae_credits env) fault ?op ?c = apply_mutation (ae_credits env) fault p ?c"
    by (rule tool_op_is_mutation[of u 1 Op_Spend]) (use env(4) in auto)
  note eff = fresh_spend[OF env(1,2) new(1) env(3,4) zero_less_one small, of "Some f"]
  have stage: "w1 = w\<lparr>aw_credits := snd (apply_mutation (ae_credits env) (ae_spendFault env) p ?c)\<rparr>"
    "r = (case fst (apply_mutation (ae_credits env) (ae_spendFault env) p ?c) of
        Inl e \<Rightarrow> Inl e | Inr _ \<Rightarrow> Inr (Some (?k, f)))"
    using assms(4) Some cost op
    by (auto simp: spend_stage_def Let_def split: prod.splits sum.splits simp del: run_credit_op.simps)
  show ?thesis
  proof (cases "1 \<le> get_balance (Inr u) (cw_db ?c)")
    case False
    with eff obtain e where "apply_mutation (ae_credits env) Tx_ok p ?c = (Inl e, ?c)" using op by auto
    note refused = mutation_refused[OF this, of "ae_spendFault env"]
    from refused(2) stage(2) have "\<exists>e. r = Inl e" by auto
    moreover have "balance_of w1 = balance_of w" using refused(1) by (simp add: stage(1) balance_of_def fun_eq_iff)
    ultimately show ?thesis by (auto simp: stage(1))
  next
    case True
    with eff op obtain m c' where run: "apply_mutation (ae_credits env) Tx_ok p ?c = (Inr m, c')"
      and led: "ledger (cw_db c') = ledger (cw_db ?c) @ [mr_entry m]" "e_idempotencyKey (mr_entry m) = ?k"
      and bal: "\<forall>s. get_balance (Inl s) (cw_db c') = get_balance (Inl s) (cw_db ?c) - (if s = User_Subject u then 1 else 0)"
      by auto
    note faulty = mutation_fault[OF run, of "ae_spendFault env"]
    show ?thesis
    proof (cases "ae_spendFault env = Tx_ok")
      case False
      with faulty(2) have r: "\<exists>e. r = Inl e" unfolding stage by (auto split: sum.split)
      have "balance_of w1 = balance_of w \<or>
          paid u (tool_cost t) w w1 \<and> (\<exists>x. ae_spendFault env = Tx_unreported x)"
        using faulty(1) bal False
        by (cases "ae_spendFault env") (simp_all add: stage(1) balance_of_def paid_def cost1 fun_eq_iff)
      with r show ?thesis by (auto simp: stage(1))
    next
      case True
      have w1: "w1 = w\<lparr>aw_credits := c'\<rparr>" and r: "r = Inr (Some (?k, f))"
        using stage True run by simp_all
      have inv': "credit_inv (cw_db c')"
        using run_credit_op_inv[OF env(1,2), of Tx_ok ?op] by (simp add: op run del: run_credit_op.simps)
      have "mcp_refund_key ?k \<noteq> ?k" by (simp add: mcp_refund_key_def mcp_spend_key_def)
      then have rk: "find_entry (mcp_refund_key ?k) (cw_db c') = None"
        using new(2) led by (simp add: find_entry_def find_append)
      have ub: "get_balance (Inr u) (cw_db c') + 1 = get_balance (Inl (User_Subject u)) (cw_db ?c)"
        using bal by (simp add: get_balance_def user_subject_def)
      have "int4 (get_balance (Inr u) (cw_db c') + 1)" unfolding ub by (rule get_balance_int4[OF env(1)])
      note given = fresh_refund[OF inv' env(2) rk env(3,4) zero_less_one small this, of "Some f"]
      let ?ref = "Op_Refund (user_input u) (JInt 1) (mcp_refund_key ?k) (Some f) None"
      obtain p' where op': "\<And>fault. run_credit_op (ae_credits env) fault ?ref c' = apply_mutation (ae_credits env) fault p' c'"
        by (rule tool_op_is_mutation[of u 1 Op_Refund]) (use env(4) in auto)
      have refund: "balance_of (refund_stage env u (Some (?k, f)) w2) = balance_of w \<or>
          balance_of (refund_stage env u (Some (?k, f)) w2) = balance_of w1 \<and> (\<exists>x. ae_refundFault env = Tx_lost x)"
        if "aw_credits w2 = c'" for w2 :: "'a agent_world"
      proof -
        have world: "aw_credits (refund_stage env u (Some (?k, f)) w2) =
            snd (apply_mutation (ae_credits env) (ae_refundFault env) p' c')"
          using that cost op' by (simp add: refund_stage_def del: run_credit_op.simps)
        obtain m' c'' where ok: "apply_mutation (ae_credits env) Tx_ok p' c' = (m', c'')" by fastforce
        show ?thesis
        proof (cases m')
          case (Inr v)
          note faulty' = mutation_fault(1)[OF ok[unfolded Inr], of "ae_refundFault env"]
          from given op' ok bal have "balance_of w s = get_balance (Inl s) (cw_db c'')" for s
            by (simp add: balance_of_def del: run_credit_op.simps)
          with faulty' w1 show ?thesis by (auto simp: balance_of_def world fun_eq_iff)
        next
          case (Inl e)
          note same = mutation_refused(1)[OF ok[unfolded Inl]]
          from same[of Tx_ok] ok have "cw_db c'' = cw_db c'" by simp
          with given op' ok have False by (auto simp del: run_credit_op.simps dest: spec[of _ "User_Subject u"])
          then show ?thesis ..
        qed
      qed
      have "paid u (tool_cost t) w w1" using bal by (simp add: paid_def balance_of_def w1 cost1)
      with refund show ?thesis unfolding r by (simp add: w1)
    qed
  qed
qed

section \<open>Properties\<close>

text \<open>What was asked of the caller before the handler ran.\<close>

definition entitled_to :: "'s agent_env \<Rightarrow> agent_principal \<Rightarrow> ('s, 'v) mcp_tool \<Rightarrow> bool" where
  "entitled_to env a t \<longleftrightarrow>
     set (mt_permissions t) \<subseteq> set (ea_permissions (ap_access a)) \<and> plan_gate env (apr_id (ap_user a)) t = Inr ()"

lemma admit_call_effect:
  assumes "credit_ready env (apr_id (ap_user a)) w" and "declared_cost t" and "unused_keys requestId t w"
    and "admit_call env a t requestId w = (r, w1)"
  shows "aw_invocations w1 = aw_invocations w \<and>
    (case r of
       Inl e \<Rightarrow> balance_of w1 = balance_of w \<or>
         paid (apr_id (ap_user a)) (tool_cost t) w w1 \<and> (\<exists>x. ae_spendFault env = Tx_unreported x)
     | Inr charged \<Rightarrow> entitled_to env a t \<and> paid (apr_id (ap_user a)) (tool_cost t) w w1 \<and>
         (\<forall>w2. aw_credits w2 = aw_credits w1 \<longrightarrow>
            balance_of (refund_stage env (apr_id (ap_user a)) charged w2) = balance_of w \<or>
            balance_of (refund_stage env (apr_id (ap_user a)) charged w2) = balance_of w1 \<and>
              (\<exists>x. ae_refundFault env = Tx_lost x)))"
proof (cases "entitled_to env a t")
  case False
  then have "w1 = w \<and> (\<exists>e. r = Inl e)"
    using assms(4) by (auto simp: entitled_to_def admit_call_def assert_permissions_def filter_empty_conv
        split: if_splits sum.splits)
  then show ?thesis by auto
next
  case True
  let ?u = "apr_id (ap_user a)"
  obtain r1 v1 where t1: "throttle_stage env ?u w = (r1, v1)" by fastforce
  obtain r2 v2 where t2: "usage_stage env ?u (mt_usageFeature t) v1 = (r2, v2)" by fastforce
  have kept: "aw_credits v1 = aw_credits w" "aw_invocations v1 = aw_invocations w"
    "aw_credits v2 = aw_credits w" "aw_invocations v2 = aw_invocations w"
    using stage_worlds(1)[OF t1] stage_worlds(2)[OF t2] by simp_all
  have gates: "assert_permissions a (mt_permissions t) = Inr ()" "plan_gate env ?u t = Inr ()"
    using True by (auto simp: entitled_to_def assert_permissions_def filter_empty_conv)
  show ?thesis
  proof (cases "r1 = Inr () \<and> r2 = Inr ()")
    case False
    with assms(4) gates t1 t2 have "(w1 = v1 \<or> w1 = v2) \<and> (\<exists>e. r = Inl e)"
      by (auto simp: admit_call_def split: sum.splits)
    with kept show ?thesis by (auto simp: balance_of_def fun_eq_iff)
  next
    case both: True
    with assms(4) gates t1 t2 have sp: "spend_stage env ?u requestId t v2 = (r, w1)"
      by (simp add: admit_call_def)
    have "credit_ready env ?u v2" "unused_keys requestId t v2"
      using assms(1,3) unfolding credit_ready_def unused_keys_def kept .
    note eff = spend_stage_effect[OF this(1) assms(2) this(2) sp]
    have same: "balance_of v2 = balance_of w" "paid ?u (tool_cost t) v2 w1 = paid ?u (tool_cost t) w w1"
      using kept by (simp_all add: balance_of_def paid_def fun_eq_iff)
    show ?thesis using eff True kept unfolding same by (simp split: sum.splits)
  qed
qed

text \<open>C38.
  An agent's call is gated, charged and recorded as one, whatever happens to the statements of
  its charge, its refund and its log. On a tool that leaves credits and the log alone, as every
  tool of the catalogue does, and under a request id not used before: a call that returns was
  entitled by permissions and plan and took exactly the tool's cost from the caller and nothing
  from anyone else. A call that fails, at whatever stage, leaves every balance as it was; or else
  the caller has paid exactly the cost, and then the charge was committed without an
  acknowledgement, or the refund was lost, which this pipeline only logs and never tries again.
  Either way exactly one row tells the outcome, denied for the refusals and error for the rest,
  unless the commit of that row was lost, and then there is none. Under a request id that was
  used before, what a call pays is another matter (\<open>reused_request_id_is_free\<close>,
  \<open>failed_repeat_refunds_the_first_call\<close>).
\<close>

theorem agent_call_is_gated_charged_and_recorded:
  assumes "credit_ready env (apr_id (ap_user a)) w" and "well_behaved t"
    and "unused_keys (Some requestId) t w"
    and "run_tool env a t args (Some requestId) ctx w = (r, w')"
  shows "(case r of
      Inr v \<Rightarrow> entitled_to env a t \<and> paid (apr_id (ap_user a)) (tool_cost t) w w'
    | Inl e \<Rightarrow> balance_of w' = balance_of w \<or>
        paid (apr_id (ap_user a)) (tool_cost t) w w' \<and>
        ((\<exists>x. ae_spendFault env = Tx_unreported x) \<or> (\<exists>x. ae_refundFault env = Tx_lost x))) \<and>
    aw_invocations w' = aw_invocations w @
      (if \<exists>x. ae_logFault env = Tx_lost x then []
       else [\<lparr>iv_userId = apr_id (ap_user a), iv_apiKeyId = ap_apiKeyId a, iv_toolName = mt_name t,
          iv_outcome = (case r of Inr _ \<Rightarrow> Invocation_success | Inl e \<Rightarrow> outcome_of_error e),
          iv_errorCode = (case r of Inr _ \<Rightarrow> None | Inl e \<Rightarrow> Some (code_of_error e)),
          iv_requestId = Some requestId\<rparr>])"
proof -
  let ?u = "apr_id (ap_user a)"
  obtain r1 w1 where admit: "admit_call env a t (Some requestId) w = (r1, w1)" by fastforce
  have "declared_cost t" using assms(2) by (simp add: well_behaved_def)
  note eff = admit_call_effect[OF assms(1) this assms(3) admit]
  have bal: "balance_of (finish env out a n q c v) = balance_of v" for out n q c v
    by (simp add: balance_of_def fun_eq_iff finish_world)
  have paid: "paid ?u n v (finish env out a m q c v') = paid ?u n v v'" for n v out m q c v'
    by (simp add: paid_def bal)
  show ?thesis
  proof (cases r1)
    case (Inl e)
    with assms(4) admit eff show ?thesis by (auto simp: run_tool_def bal paid finish_world logged_def)
  next
    case (Inr charged)
    obtain h w2 where h: "mt_handler t args a w1 = (h, w2)" by fastforce
    have kept: "aw_credits w2 = aw_credits w1" "aw_invocations w2 = aw_invocations w1"
      using assms(2) h unfolding well_behaved_def by (metis snd_conv)+
    then have same: "balance_of w2 = balance_of w1" by (simp add: balance_of_def fun_eq_iff)
    have log: "aw_invocations (refund_stage env ?u charged w2) = aw_invocations w2"
      by (simp add: refund_stage_def split: option.split prod.split)
    show ?thesis
    proof (cases h)
      case (Inl e)
      let ?w3 = "refund_stage env ?u charged w2"
      have "balance_of ?w3 = balance_of w \<or>
          paid ?u (tool_cost t) w ?w3 \<and> (\<exists>x. ae_refundFault env = Tx_lost x)"
        using eff Inr kept(1) by (auto simp: paid_def)
      with assms(4) admit Inr h Inl eff kept log show ?thesis
        by (auto simp: run_tool_def bal paid finish_world logged_def)
    next
      case (Inr v)
      have "paid ?u (tool_cost t) w w2" using eff \<open>r1 = Inr charged\<close> same by (simp add: paid_def)
      with assms(4) admit \<open>r1 = Inr charged\<close> Inr h eff kept show ?thesis
        by (auto simp: run_tool_def bal paid finish_world logged_def)
    qed
  qed
qed

text \<open>A paid call of an agent whose wallet holds nine credits.\<close>

definition demo_agent :: agent_principal where
  "demo_agent = \<lparr>ap_user = \<lparr>apr_id = ''u'', apr_email = ''u@x'', apr_name = ''U'', apr_emailVerified = True,
     apr_twoFactorEnabled = False\<rparr>, ap_apiKeyId = ''k1'',
     ap_access = \<lparr>ea_roles = [''user''], ea_permissions = [''mcp:tools:invoke'']\<rparr>\<rparr>"

definition demo_agent_env :: "mem_conn agent_env" where
  "demo_agent_env =
     \<lparr>ae_usage = \<lparr>ue_redis = mem_redis, ue_config = \<lparr>uc_default = \<lparr>pc_daily = 10, pc_weekly = 20\<rparr>, uc_features = []\<rparr>,
        ue_plans = None, ue_clock = (\<lambda>n. 0)\<rparr>,
      ae_windows = \<lparr>tws_burst = \<lparr>tw_windowSeconds = 10, tw_max = 2\<rparr>, tws_minute = \<lparr>tw_windowSeconds = 60, tw_max = 5\<rparr>\<rparr>,
      ae_planCache = empty_cache,
      ae_planDb = \<lparr>pd_plans = [], pd_entitlements = [], pd_usage = [], pd_subscriptions = [], pd_down = None\<rparr>,
      ae_now = 0, ae_credits = sample_env, ae_spendFault = Tx_ok, ae_refundFault = Tx_ok, ae_logFault = Tx_ok\<rparr>"

definition demo_agent_world :: "mem_conn agent_world" where
  "demo_agent_world =
     \<lparr>aw_usage = \<lparr>uw_conn = \<lparr>mc_view = \<lparr>rv_clock = 0, rv_data = Map.empty\<rparr>, mc_script = []\<rparr>,
        uw_reads = 0, uw_lostRollbacks = []\<rparr>,
      aw_credits = sample_world, aw_invocations = [], aw_metrics = []\<rparr>"

definition demo_paid_tool :: "(mem_conn, tool_result) mcp_tool" where
  "demo_paid_tool = last (mcp_tools demo_agent_env (\<lambda>_. Inr \<lparr>ea_roles = [], ea_permissions = []\<rparr>))"

theorem agent_call_is_gated_charged_and_recorded_witness:
  "fst (run_tool demo_agent_env demo_agent demo_paid_tool (JObj []) (Some ''r1'') None demo_agent_world) =
     Inr (Ping_result ''u'') \<and>
   balance_of (snd (run_tool demo_agent_env demo_agent demo_paid_tool (JObj []) (Some ''r1'') None
     demo_agent_world)) (User_Subject ''u'') = 8"
proof -
  let ?run = "run_tool demo_agent_env demo_agent demo_paid_tool (JObj []) (Some ''r1'') None demo_agent_world"
  have ready: "credit_ready demo_agent_env (apr_id (ap_user demo_agent)) demo_agent_world"
    by (simp add: credit_ready_def demo_agent_env_def demo_agent_world_def demo_agent_def)
      (simp add: sample_env_def)
  have tool: "well_behaved demo_paid_tool" unfolding demo_paid_tool_def
    by (rule catalogue_well_behaved, rule last_in_set) (simp add: mcp_tools_def)
  have unused: "unused_keys (Some ''r1'') demo_paid_tool demo_agent_world" by code_simp
  have ran: "fst ?run = Inr (Ping_result ''u'')" by code_simp
  have cost: "tool_cost demo_paid_tool = 1" by code_simp
  have before: "balance_of demo_agent_world (User_Subject ''u'') = 9" by code_simp
  have u: "apr_id (ap_user demo_agent) = ''u''" by (simp add: demo_agent_def)
  have split: "?run = (fst ?run, snd ?run)" by (rule prod.collapse[symmetric])
  have "balance_of (snd ?run) (User_Subject ''u'') = 8"
    using agent_call_is_gated_charged_and_recorded[OF ready tool unused split] before
    unfolding ran sum.case cost u paid_def by simp
  with ran show ?thesis by blast
qed

section \<open>A request id that is used again\<close>

text \<open>
  The keys of a call contain the request id, and the id is the client's own
  (\<open>client_chooses_request_id\<close>). A second call under it pays nothing, and when its handler
  fails it takes back what the first call paid.
\<close>

lemma reused_request_id_is_free:
  assumes "truthy (mt_creditFeature t) = Some f" and "credit_cost f = JInt n" and "0 < n" and "u \<noteq> []"
    and "ae_spendFault env = Tx_ok"
    and "find_entry (mcp_spend_key requestId (mt_name t) f) (cw_db (aw_credits w)) = Some e"
    and "e_userId e = Some u" and "e_type e = Spend" and "e_amount e = n" and "e_feature e = Some f"
  shows "spend_stage env u requestId t w = (Inr (Some (mcp_spend_key requestId (mt_name t) f, f)), w)"
proof -
  let ?k = "mcp_spend_key requestId (mt_name t) f"
  let ?p = "\<lparr>ap_subject = User_Subject u, ap_type = Spend, ap_amount = n, ap_delta = - n,
      ap_idempotencyKey = ?k, ap_feature = Some f, ap_metadata = None, ap_failIfInsufficient = True\<rparr>"
  have run: "run_credit_op (ae_credits env) Tx_ok (Op_Spend (user_input u) (JInt n) ?k (Some f) None) (aw_credits w) =
      apply_mutation (ae_credits env) Tx_ok ?p (aw_credits w)"
    using assms(3,4) by (simp add: spend_def)
  have "replay_matches e ?p" using assms(7-10) by (simp add: replay_matches_def)
  with apply_mutation_replay[of ?p "aw_credits w" e "ae_credits env"] assms(1,2,5,6) run show ?thesis
    by (simp add: spend_stage_def Let_def del: run_credit_op.simps)
qed

lemma lost_refund_keeps_the_price:
  assumes "ae_refundFault env = Tx_lost x" and "u \<noteq> []" and "credit_cost f = JInt n" and "0 < n"
  shows "balance_of (refund_stage env u (Some (k, f)) w) = balance_of w"
proof -
  obtain p where "\<And>fault. run_credit_op (ae_credits env) fault
      (Op_Refund (user_input u) (JInt n) (mcp_refund_key k) (Some f) None) (aw_credits w) =
        apply_mutation (ae_credits env) fault p (aw_credits w)"
    by (rule tool_op_is_mutation[of u n Op_Refund]) (use assms(2,4) in auto)
  with assms(1,3) show ?thesis
    by (auto simp: refund_stage_def balance_of_def apply_mutation_db run_tx_def fun_eq_iff
        split: sum.split simp del: run_credit_op.simps)
qed

lemma failed_repeat_refunds_the_first_call:
  assumes "credit_ready env u w" and "ae_refundFault env = Tx_ok" and "credit_cost f = JInt 1"
    and "find_entry (mcp_refund_key k) (cw_db (aw_credits w)) = None"
    and "int4 (balance_of w (User_Subject u) + 1)"
  shows "balance_of (refund_stage env u (Some (k, f)) w) (User_Subject u) = balance_of w (User_Subject u) + 1"
proof -
  have bal: "balance_of w (User_Subject u) = get_balance (Inr u) (cw_db (aw_credits w))"
    by (simp add: balance_of_def get_balance_def user_subject_def)
  have small: "int4 (1 :: int)" by (simp add: int4_def)
  show ?thesis
    using fresh_refund[of "aw_credits w" "ae_credits env" "mcp_refund_key k" u 1 "Some f"] assms small
    by (simp add: credit_ready_def refund_stage_def balance_of_def bal[unfolded balance_of_def] del: run_credit_op.simps)
qed

end
