(* ===== verification/Statements.thy ===== *)
theory Statements
  imports Database
begin

text \<open>
  Programs of single statements, as \<open>prisma/seed.ts\<close> is one: each statement commits on its own,
  any of them may fail before or after its effect, and a failure ends the program. The upsert,
  and what loops of statements establish and preserve.
\<close>

section \<open>Statements\<close>

text \<open>The database with the faults that the coming statements meet; none when the list is out.\<close>

record 'd seeding =
  sg_db :: 'd
  sg_script :: "tx_fault list"

definition next_fault :: "tx_fault list \<Rightarrow> tx_fault" where
  "next_fault fs = (case fs of [] \<Rightarrow> Tx_ok | f # _ \<Rightarrow> f)"

definition statement :: "('d \<Rightarrow> exn + ('r \<times> 'd)) \<Rightarrow> 'd seeding \<Rightarrow> (exn + 'r) \<times> 'd seeding" where
  "statement body s =
     (case run_tx (next_fault (sg_script s)) body (sg_db s) of
        (r, d) \<Rightarrow> (r, \<lparr>sg_db = d, sg_script = drop 1 (sg_script s)\<rparr>))"

lemma statement_calm:
  "sg_script s = [] \<Longrightarrow> statement body s =
     (case body (sg_db s) of Inl e \<Rightarrow> (Inl e, s) | Inr (r, d) \<Rightarrow> (Inr r, s\<lparr>sg_db := d\<rparr>))"
  by (simp add: statement_def next_fault_def split: sum.split prod.split)

lemma statement_invariant:
  assumes "I (sg_db s)" and "\<And>r d. body (sg_db s) = Inr (r, d) \<Longrightarrow> I d"
  shows "I (sg_db (snd (statement body s)))"
  using run_tx_invariant[where I = I and d = "sg_db s" and body = body
      and fault = "next_fault (sg_script s)"] assms
  by (auto simp: statement_def split: prod.split)

lemma statement_returns:
  assumes "statement body s = (Inr r, s')"
  shows "body (sg_db s) = Inr (r, sg_db s')"
  using assms run_tx_return[of "next_fault (sg_script s)" body "sg_db s" r "sg_db s'"]
  by (auto simp: statement_def split: prod.splits)

text \<open>A property that a body keeps when it succeeds is kept by its statement, failed or not.\<close>

definition preserves :: "('d \<Rightarrow> bool) \<Rightarrow> ('d \<Rightarrow> exn + ('r \<times> 'd)) \<Rightarrow> bool" where
  "preserves I body \<longleftrightarrow> (\<forall>d r d'. I d \<longrightarrow> body d = Inr (r, d') \<longrightarrow> I d')"

lemma statement_fixed:
  "sg_script s = [] \<Longrightarrow> body (sg_db s) = Inr (r, sg_db s) \<Longrightarrow> statement body s = (Inr r, s)"
  by (simp add: statement_calm)

section \<open>Loops\<close>

text \<open>\<open>for (const x of xs) await f(x)\<close>.\<close>

fun each :: "('a \<Rightarrow> 'w \<Rightarrow> (exn + 'r) \<times> 'w) \<Rightarrow> 'a list \<Rightarrow> 'w \<Rightarrow> (exn + unit) \<times> 'w" where
  "each f [] w = (Inr (), w)"
| "each f (x # xs) w = (case f x w of (Inl e, w') \<Rightarrow> (Inl e, w') | (Inr _, w') \<Rightarrow> each f xs w')"

lemma each_invariant:
  assumes "I w" and "\<And>x v. x \<in> set xs \<Longrightarrow> I v \<Longrightarrow> I (snd (f x v))"
  shows "I (snd (each f xs w))"
  using assms
proof (induction xs arbitrary: w)
  case (Cons x xs)
  obtain r w' where fx: "f x w = (r, w')" by fastforce
  have "I w'" using Cons.prems(2)[of x w] Cons.prems(1) fx by simp
  with fx Cons.IH[of w'] Cons.prems(2) show ?case by (auto split: sum.split)
qed simp

text \<open>
  A loop that returned has established for every element what its body establishes, when the
  body keeps what was established before.
\<close>

lemma each_establishes_and_keeps:
  assumes "each f xs w = (Inr (), w')" and "I w" and "set xs \<subseteq> Y"
    and body: "\<And>x v r v'. x \<in> Y \<Longrightarrow> I v \<Longrightarrow> f x v = (Inr r, v') \<Longrightarrow> I v' \<and> Q x v'"
    and keeps: "\<And>x y v r v'. x \<in> Y \<Longrightarrow> y \<in> Y \<Longrightarrow> I v \<Longrightarrow> Q y v \<Longrightarrow> f x v = (Inr r, v') \<Longrightarrow> Q y v'"
  shows "I w' \<and> (\<forall>x\<in>set xs. Q x w') \<and> (\<forall>y\<in>Y. Q y w \<longrightarrow> Q y w')"
  using assms(1-3)
proof (induction xs arbitrary: w)
  case (Cons x xs)
  from Cons.prems(1) obtain r v where fx: "f x w = (Inr r, v)" and rest: "each f xs v = (Inr (), w')"
    by (auto split: prod.splits sum.splits)
  have x: "x \<in> Y" and sub: "set xs \<subseteq> Y" using Cons.prems(3) by auto
  have v: "I v" "Q x v" using body[OF x Cons.prems(2) fx] by auto
  have kept: "Q y v" if "y \<in> Y" "Q y w" for y using keeps[OF x that(1) Cons.prems(2) that(2) fx] .
  show ?case using Cons.IH[OF rest v(1) sub] v(2) x kept by auto
qed simp

lemma each_establishes:
  assumes "each f xs w = (Inr (), w')" and "I w"
    and "\<And>x v r v'. x \<in> set xs \<Longrightarrow> I v \<Longrightarrow> f x v = (Inr r, v') \<Longrightarrow> I v' \<and> Q x v'"
    and "\<And>x y v r v'. x \<in> set xs \<Longrightarrow> y \<in> set xs \<Longrightarrow> I v \<Longrightarrow> Q y v \<Longrightarrow> f x v = (Inr r, v') \<Longrightarrow> Q y v'"
  shows "I w' \<and> (\<forall>x\<in>set xs. Q x w')"
proof -
  have "I w' \<and> (\<forall>x\<in>set xs. Q x w') \<and> (\<forall>y\<in>set xs. Q y w \<longrightarrow> Q y w')"
    by (rule each_establishes_and_keeps[where I = I and Q = Q and Y = "set xs", OF assms(1,2) subset_refl]; (rule assms(3) | rule assms(4)); assumption)
  then show ?thesis by blast
qed

lemma each_fixed:
  assumes "\<And>x. x \<in> set xs \<Longrightarrow> \<exists>r. f x w = (Inr r, w)"
  shows "each f xs w = (Inr (), w)"
  using assms by (induction xs) fastforce+

lemma each_total:
  assumes "I w" and "\<And>x v. x \<in> set xs \<Longrightarrow> I v \<Longrightarrow> \<exists>r v'. f x v = (Inr r, v') \<and> I v'"
  shows "\<exists>w'. each f xs w = (Inr (), w') \<and> I w'"
  using assms
proof (induction xs arbitrary: w)
  case (Cons x xs)
  obtain r v where fx: "f x w = (Inr r, v)" "I v" using Cons.prems(2)[of x w] Cons.prems(1) by auto
  with Cons.IH[of v] Cons.prems(2) show ?case by auto
qed simp

section \<open>Sequences\<close>

text \<open>\<open>const x = await m(); return f(x)\<close>: a failure of the first ends both.\<close>

definition then_do ::
  "('w \<Rightarrow> (exn + 'a) \<times> 'w) \<Rightarrow> ('a \<Rightarrow> 'w \<Rightarrow> (exn + 'b) \<times> 'w) \<Rightarrow> 'w \<Rightarrow> (exn + 'b) \<times> 'w" where
  "then_do m f w = (case m w of (Inl e, w') \<Rightarrow> (Inl e, w') | (Inr x, w') \<Rightarrow> f x w')"

lemma then_do_returns:
  "then_do m f w = (Inr y, w'') \<longleftrightarrow> (\<exists>x w'. m w = (Inr x, w') \<and> f x w' = (Inr y, w''))"
  by (auto simp: then_do_def split: prod.splits sum.splits)

lemma then_do_invariant:
  assumes "I (snd (m w))" and "\<And>x w'. m w = (Inr x, w') \<Longrightarrow> I w' \<Longrightarrow> I (snd (f x w'))"
  shows "I (snd (then_do m f w))"
  using assms by (auto simp: then_do_def split: prod.split sum.split)

section \<open>Invariants of programs\<close>

definition keeps :: "('d \<Rightarrow> bool) \<Rightarrow> ('d seeding \<Rightarrow> (exn + 'r) \<times> 'd seeding) \<Rightarrow> bool" where
  "keeps I m \<longleftrightarrow> (\<forall>s. I (sg_db s) \<longrightarrow> I (sg_db (snd (m s))))"

lemma keepsD: "keeps I m \<Longrightarrow> I (sg_db s) \<Longrightarrow> I (sg_db (snd (m s)))"
  by (simp add: keeps_def)

lemma keeps_statement: "preserves I body \<Longrightarrow> keeps I (statement body)"
  unfolding keeps_def preserves_def by (metis statement_invariant)

lemma keeps_then:
  "keeps I m \<Longrightarrow> (\<And>x. keeps I (f x)) \<Longrightarrow> keeps I (then_do m f)"
  unfolding keeps_def by (metis then_do_invariant[where I = "\<lambda>s. I (sg_db s)"] snd_conv)

lemma keeps_each: "(\<And>x. x \<in> set xs \<Longrightarrow> keeps I (f x)) \<Longrightarrow> keeps I (each f xs)"
  unfolding keeps_def by (metis each_invariant[where I = "\<lambda>s. I (sg_db s)"])

lemmas keeps_intros = keeps_then keeps_each keeps_statement

section \<open>Upsert\<close>

definition upsert :: "('r \<Rightarrow> bool) \<Rightarrow> ('r \<Rightarrow> 'r) \<Rightarrow> 'r \<Rightarrow> 'r list \<Rightarrow> 'r list" where
  "upsert P f new rows = (if list_ex P rows then update_where P f rows else rows @ [new])"

text \<open>The row an upsert returns.\<close>

definition upserted :: "('r \<Rightarrow> bool) \<Rightarrow> ('r \<Rightarrow> 'r) \<Rightarrow> 'r \<Rightarrow> 'r list \<Rightarrow> 'r" where
  "upserted P f new rows = (case List.find P rows of Some r \<Rightarrow> f r | None \<Rightarrow> new)"

lemma find_any_update_where:
  "(\<And>r. Q (f r) = Q r) \<Longrightarrow>
     List.find Q (update_where P f rows) = map_option (\<lambda>r. if P r then f r else r) (List.find Q rows)"
  by (induction rows) auto

lemma find_upsert_same:
  assumes "\<And>r. P (f r) = P r" and "P new"
  shows "List.find P (upsert P f new rows) = Some (upserted P f new rows)"
proof (cases "List.find P rows")
  case None
  then have "\<not> list_ex P rows" by (auto simp: list_ex_iff find_None_conv)
  with None assms(2) show ?thesis by (simp add: upsert_def upserted_def find_append)
next
  case (Some r)
  then have "list_ex P rows" "P r" using find_SomeD[OF Some] by (auto simp: list_ex_iff)
  with Some assms(1) show ?thesis by (simp add: upsert_def upserted_def find_any_update_where)
qed

lemma find_upsert_other:
  assumes "\<And>r. Q (f r) = Q r" and "\<And>r. Q r \<Longrightarrow> \<not> P r" and "\<not> Q new"
  shows "List.find Q (upsert P f new rows) = List.find Q rows"
proof (cases "List.find Q rows")
  case None
  with assms(1,3) show ?thesis by (simp add: upsert_def find_any_update_where find_append)
next
  case (Some r)
  then have "\<not> P r" using assms(2) find_SomeD[OF Some] by blast
  with Some assms(1) show ?thesis by (simp add: upsert_def find_any_update_where find_append)
qed

text \<open>A lookup that found a row still finds it, as the update leaves it.\<close>

lemma find_upsert_kept:
  assumes "\<And>r. Q (f r) = Q r" and "List.find Q rows = Some r"
  shows "List.find Q (upsert P f new rows) = Some (if P r then f r else r)"
  using assms find_SomeD[OF assms(2)] by (auto simp: upsert_def find_any_update_where find_append list_ex_iff)

lemma upsert_fixed:
  assumes "distinct (map key rows)" and "List.find (\<lambda>r. key r = k) rows = Some r" and "f r = r"
  shows "upsert (\<lambda>r. key r = k) f new rows = rows"
proof -
  have r: "r \<in> set rows" "key r = k" using find_SomeD[OF assms(2)] by auto
  have "x = r" if "x \<in> set rows" "key x = k" for x
    using assms(1) r that unfolding distinct_map inj_on_def by metis
  then have "update_where (\<lambda>r. key r = k) f rows = rows"
    unfolding update_where_def by (intro map_idI) (use assms(3) in auto)
  moreover have "list_ex (\<lambda>r. key r = k) rows" using r by (auto simp: list_ex_iff)
  ultimately show ?thesis by (simp add: upsert_def)
qed

lemma distinct_upsert:
  assumes "distinct (map key rows)" and "\<And>r. key (f r) = key r" and "key new = k"
  shows "distinct (map key (upsert (\<lambda>r. key r = k) f new rows))"
  using assms by (auto simp: upsert_def map_update_where list_ex_iff)

end
