(* ===== verification/Seed.thy ===== *)
theory Seed
  imports Statements Plans Authorization
begin

text \<open>
  The seed script (\<open>prisma/seed.ts\<close>): the version setting, the permission catalogue with the
  baseline roles, the plan matrices, and the advance of the permission cache marker. Every
  \<open>upsert\<close> and every read is a statement of its own, with its own fault. The \<open>updatedAt\<close>
  columns are not in the model, and \<open>fresh\<close> stands for \<open>cuid()\<close>, given the ids in use.
\<close>

section \<open>The database of the script\<close>

record seed_db =
  sx_settings :: "(string \<times> string) list"
  sx_access :: access_db
  sx_plans :: plan_db

definition seed_version :: string where "seed_version = ''3''"

definition put_setting :: "seed_db \<Rightarrow> exn + (unit \<times> seed_db)" where
  "put_setting d =
     Inr ((), d\<lparr>sx_settings := upsert (\<lambda>r. fst r = ''seed_version'') (\<lambda>r. (fst r, seed_version))
                                (''seed_version'', seed_version) (sx_settings d)\<rparr>)"

section \<open>Access control\<close>

text \<open>A description that the catalogue lacks is \<open>undefined\<close>, which Prisma leaves as it is.\<close>

definition describe :: "string option \<Rightarrow> permission_row \<Rightarrow> permission_row" where
  "describe desc p = (case desc of Some t \<Rightarrow> p\<lparr>pe_description := Some t\<rparr> | None \<Rightarrow> p)"

definition put_permission ::
  "(string list \<Rightarrow> string) \<Rightarrow> string \<Rightarrow> seed_db \<Rightarrow> exn + (unit \<times> seed_db)" where
  "put_permission fresh key d =
     (let rows = ad_permissions (sx_access d); desc = map_of permission_descriptions key
      in Inr ((), d\<lparr>sx_access := (sx_access d)\<lparr>ad_permissions :=
           upsert (\<lambda>p. pe_key p = key) (describe desc)
             \<lparr>pe_id = fresh (map pe_id rows), pe_key = key, pe_description = desc\<rparr> rows\<rparr>\<rparr>))"

definition put_role ::
  "(string list \<Rightarrow> string) \<Rightarrow> string \<Rightarrow> string \<Rightarrow> seed_db \<Rightarrow> exn + (role_row \<times> seed_db)" where
  "put_role fresh name desc d =
     (let rows = ad_roles (sx_access d);
          new = \<lparr>ro_id = fresh (map ro_id rows), ro_name = name, ro_description = Some desc\<rparr>;
          upd = (\<lambda>r. r\<lparr>ro_description := Some desc\<rparr>)
      in Inr (upserted (\<lambda>r. ro_name r = name) upd new rows,
              d\<lparr>sx_access := (sx_access d)\<lparr>ad_roles := upsert (\<lambda>r. ro_name r = name) upd new rows\<rparr>\<rparr>))"

definition find_permission :: "string \<Rightarrow> seed_db \<Rightarrow> exn + (permission_row \<times> seed_db)" where
  "find_permission key d =
     (case List.find (\<lambda>p. pe_key p = key) (ad_permissions (sx_access d)) of
        None \<Rightarrow> Inl record_not_found
      | Some p \<Rightarrow> Inr (p, d))"

definition put_grant :: "string \<Rightarrow> string \<Rightarrow> seed_db \<Rightarrow> exn + (unit \<times> seed_db)" where
  "put_grant roleId permissionId d =
     Inr ((), d\<lparr>sx_access := (sx_access d)\<lparr>ad_rolePermissions :=
       upsert (\<lambda>m. (rp_roleId m, rp_permissionId m) = (roleId, permissionId)) (\<lambda>m. m)
         \<lparr>rp_roleId = roleId, rp_permissionId = permissionId\<rparr> (ad_rolePermissions (sx_access d))\<rparr>\<rparr>)"

definition seed_grant :: "string \<Rightarrow> string \<Rightarrow> seed_db seeding \<Rightarrow> (exn + unit) \<times> seed_db seeding" where
  "seed_grant roleId key =
     then_do (statement (find_permission key)) (\<lambda>p. statement (put_grant roleId (pe_id p)))"

definition seed_role ::
  "(string list \<Rightarrow> string) \<Rightarrow> string \<times> string \<times> string list \<Rightarrow> seed_db seeding \<Rightarrow>
     (exn + unit) \<times> seed_db seeding" where
  "seed_role fresh = (\<lambda>(name, desc, keys).
     then_do (statement (put_role fresh name desc)) (\<lambda>role. each (seed_grant (ro_id role)) keys))"

definition seed_access_control ::
  "(string list \<Rightarrow> string) \<Rightarrow> seed_db seeding \<Rightarrow> (exn + unit) \<times> seed_db seeding" where
  "seed_access_control fresh =
     then_do (each (\<lambda>key. statement (put_permission fresh key)) permission_list)
       (\<lambda>_. each (seed_role fresh) baseline_roles)"

section \<open>Plans\<close>

definition missing_entitlement :: "plan_seed \<Rightarrow> string \<Rightarrow> exn" where
  "missing_entitlement def key =
     OtherExn (''Plan seed \"'' @ sd_slug def @ ''\" is missing entitlement \"'' @ key @ ''\".'')"

definition missing_limits :: "plan_seed \<Rightarrow> string \<Rightarrow> exn" where
  "missing_limits def feature =
     OtherExn (''Plan seed \"'' @ sd_slug def @ ''\" is missing usage limits for \"'' @ feature @ ''\".'')"

definition check_plan_seed :: "plan_seed \<Rightarrow> exn + unit" where
  "check_plan_seed def =
     (case List.find (\<lambda>k. map_of (sd_entitlements def) k = None) entitlement_list of
        Some key \<Rightarrow> Inl (missing_entitlement def key)
      | None \<Rightarrow>
          (case List.find (\<lambda>f. map_of (sd_usageLimits def) f = None) usage_feature_list of
             Some feature \<Rightarrow> Inl (missing_limits def feature)
           | None \<Rightarrow> Inr ()))"

definition put_plan ::
  "(string list \<Rightarrow> string) \<Rightarrow> plan_seed \<Rightarrow> seed_db \<Rightarrow> exn + (plan_row \<times> seed_db)" where
  "put_plan fresh def d =
     (let rows = pd_plans (sx_plans d);
          new = \<lparr>pl_id = fresh (map pl_id rows), pl_slug = sd_slug def, pl_name = sd_name def,
                 pl_description = Some (sd_description def), pl_rank = sd_rank def,
                 pl_isActive = sd_isActive def\<rparr>;
          upd = (\<lambda>p. p\<lparr>pl_name := sd_name def, pl_description := Some (sd_description def),
                       pl_rank := sd_rank def, pl_isActive := sd_isActive def\<rparr>)
      in Inr (upserted (\<lambda>p. pl_slug p = sd_slug def) upd new rows,
              d\<lparr>sx_plans := (sx_plans d)\<lparr>pd_plans := upsert (\<lambda>p. pl_slug p = sd_slug def) upd new rows\<rparr>\<rparr>))"

text \<open>An \<open>undefined\<close> value leaves the column: as it was, or at its default.\<close>

definition put_entitlement ::
  "plan_seed \<Rightarrow> string \<Rightarrow> string \<Rightarrow> seed_db \<Rightarrow> exn + (unit \<times> seed_db)" where
  "put_entitlement def planId key d =
     (let on = map_of (sd_entitlements def) key
      in Inr ((), d\<lparr>sx_plans := (sx_plans d)\<lparr>pd_entitlements :=
           upsert (\<lambda>r. (pq_planId r, pq_key r) = (planId, key))
             (\<lambda>r. case on of Some b \<Rightarrow> r\<lparr>pq_enabled := b\<rparr> | None \<Rightarrow> r)
             \<lparr>pq_planId = planId, pq_key = key, pq_enabled = (on = Some True)\<rparr>
             (pd_entitlements (sx_plans d))\<rparr>\<rparr>))"

definition put_limits ::
  "plan_seed \<Rightarrow> string \<Rightarrow> string \<Rightarrow> seed_db \<Rightarrow> exn + (unit \<times> seed_db)" where
  "put_limits def planId feature d =
     (case map_of (sd_usageLimits def) feature of
        None \<Rightarrow> Inl (OtherExn ''TypeError: Cannot read properties of undefined'')
      | Some (daily, weekly) \<Rightarrow>
          Inr ((), d\<lparr>sx_plans := (sx_plans d)\<lparr>pd_usage :=
            upsert (\<lambda>r. (pu_planId r, pu_feature r) = (planId, feature))
              (\<lambda>r. r\<lparr>pu_daily := daily, pu_weekly := weekly\<rparr>)
              \<lparr>pu_planId = planId, pu_feature = feature, pu_daily = daily, pu_weekly = weekly\<rparr>
              (pd_usage (sx_plans d))\<rparr>\<rparr>))"

definition seed_plan ::
  "(string list \<Rightarrow> string) \<Rightarrow> plan_seed \<Rightarrow> seed_db seeding \<Rightarrow> (exn + unit) \<times> seed_db seeding" where
  "seed_plan fresh def s =
     (case check_plan_seed def of
        Inl e \<Rightarrow> (Inl e, s)
      | Inr _ \<Rightarrow>
          then_do (statement (put_plan fresh def)) (\<lambda>plan.
            then_do (each (\<lambda>key. statement (put_entitlement def (pl_id plan) key)) entitlement_list)
              (\<lambda>_. each (\<lambda>feature. statement (put_limits def (pl_id plan) feature)) usage_feature_list)) s)"

definition seed_plans ::
  "(string list \<Rightarrow> string) \<Rightarrow> seed_db seeding \<Rightarrow> (exn + unit) \<times> seed_db seeding" where
  "seed_plans fresh = each (seed_plan fresh) plan_seeds"

section \<open>The script\<close>

definition not_invalidated :: string where
  "not_invalidated = ''REDIS_URL is not set; skipped permission cache invalidation. A running instance may serve stale role mappings until its cache expires.''"

definition could_not_invalidate :: "exn \<Rightarrow> string" where
  "could_not_invalidate e =
     ''Could not invalidate the permission cache ('' @ exn_message e @
     ''). If an instance is running, it may serve stale role mappings until its cache expires.''"

text \<open>\<open>invalidatePermissionCache\<close>: what it prints, and Redis afterwards.\<close>

definition invalidate_permission_cache ::
  "'s redis \<Rightarrow> ('s \<Rightarrow> (exn + unit) \<times> 's) \<Rightarrow> string option \<Rightarrow> int \<Rightarrow> 's \<Rightarrow> string \<times> 's" where
  "invalidate_permission_cache R connect url now s =
     (case truthy url of
        None \<Rightarrow> (not_invalidated, s)
      | Some _ \<Rightarrow>
          (case connect s of
             (Inl e, s1) \<Rightarrow> (could_not_invalidate e, s1)
           | (Inr _, s1) \<Rightarrow>
               (case advance_permission_version R now s1 of
                  (Inl e, s2) \<Rightarrow> (could_not_invalidate e, s2)
                | (Inr _, s2) \<Rightarrow> (''Permission cache invalidated.'', s2))))"

definition seed_tables ::
  "(string list \<Rightarrow> string) \<Rightarrow> seed_db seeding \<Rightarrow> (exn + unit) \<times> seed_db seeding" where
  "seed_tables fresh =
     then_do (statement put_setting)
       (\<lambda>_. then_do (seed_access_control fresh) (\<lambda>_. seed_plans fresh))"

definition seed ::
  "(string list \<Rightarrow> string) \<Rightarrow> 's redis \<Rightarrow> ('s \<Rightarrow> (exn + unit) \<times> 's) \<Rightarrow> string option \<Rightarrow> int \<Rightarrow>
     tx_fault list \<Rightarrow> seed_db \<times> 's \<Rightarrow> (exn + string) \<times> seed_db \<times> 's" where
  "seed fresh R connect url now script = (\<lambda>(d, s).
     (case seed_tables fresh \<lparr>sg_db = d, sg_script = script\<rparr> of
        (Inl e, w) \<Rightarrow> (Inl e, sg_db w, s)
      | (Inr _, w) \<Rightarrow>
          (case invalidate_permission_cache R connect url now s of
             (line, s') \<Rightarrow> (Inr line, sg_db w, s'))))"

definition seeded_line :: string where
  "seeded_line =
     ''Seeded (seed_version='' @ seed_version @ '', '' @
     show_int (int (length permission_list)) @ '' permissions, '' @
     show_int (int (length baseline_roles)) @ '' baseline roles, '' @
     show_int (int (length plan_seeds)) @ '' plans, '' @
     show_int (int (length entitlement_list)) @ '' entitlements).''"

text \<open>\<open>main\<close> with its \<open>catch\<close>: the exit code, the lines printed, the database and Redis.\<close>

definition seed_main ::
  "(string list \<Rightarrow> string) \<Rightarrow> 's redis \<Rightarrow> ('s \<Rightarrow> (exn + unit) \<times> 's) \<Rightarrow> string option \<Rightarrow> string option \<Rightarrow>
     int \<Rightarrow> tx_fault list \<Rightarrow> seed_db \<times> 's \<Rightarrow> (int \<times> string list) \<times> seed_db \<times> 's" where
  "seed_main fresh R connect databaseUrl url now script w =
     (case truthy databaseUrl of
        None \<Rightarrow> ((1, [''DATABASE_URL is not set. Copy .env.example to .env.'']), w)
      | Some _ \<Rightarrow>
          (case seed fresh R connect url now script w of
             (Inl e, w') \<Rightarrow> ((1, [exn_message e]), w')
           | (Inr line, w') \<Rightarrow> ((0, [line, seeded_line]), w')))"

end
