(* ===== verification/SeedProperties.thy ===== *)
theory SeedProperties
  imports Seed
begin

text \<open>
  What a run of the seed script establishes, keeps and leaves alone, whatever its faults; and
  that a run over a seeded database changes nothing.
\<close>

section \<open>The facts of a seeded database\<close>

definition permission_with_key :: "seed_db \<Rightarrow> string \<Rightarrow> permission_row option" where
  "permission_with_key d key = List.find (\<lambda>p. pe_key p = key) (ad_permissions (sx_access d))"

definition role_with_name :: "seed_db \<Rightarrow> string \<Rightarrow> role_row option" where
  "role_with_name d name = List.find (\<lambda>r. ro_name r = name) (ad_roles (sx_access d))"

definition plan_with_slug :: "seed_db \<Rightarrow> string \<Rightarrow> plan_row option" where
  "plan_with_slug d slug = List.find (\<lambda>p. pl_slug p = slug) (pd_plans (sx_plans d))"

definition entitlement_value :: "seed_db \<Rightarrow> string \<Rightarrow> string \<Rightarrow> bool option" where
  "entitlement_value d planId key =
     map_option pq_enabled
       (List.find (\<lambda>r. (pq_planId r, pq_key r) = (planId, key)) (pd_entitlements (sx_plans d)))"

definition limits_value :: "seed_db \<Rightarrow> string \<Rightarrow> string \<Rightarrow> (int \<times> int) option" where
  "limits_value d planId feature =
     map_option (\<lambda>r. (pu_daily r, pu_weekly r))
       (List.find (\<lambda>r. (pu_planId r, pu_feature r) = (planId, feature)) (pd_usage (sx_plans d)))"

definition setting_seeded :: "seed_db \<Rightarrow> bool" where
  "setting_seeded d \<longleftrightarrow>
     List.find (\<lambda>r. fst r = ''seed_version'') (sx_settings d) = Some (''seed_version'', seed_version)"

definition permission_seeded :: "seed_db \<Rightarrow> string \<Rightarrow> bool" where
  "permission_seeded d key \<longleftrightarrow>
     map_option pe_description (permission_with_key d key) = Some (map_of permission_descriptions key)"

definition granted :: "seed_db \<Rightarrow> string \<Rightarrow> string \<Rightarrow> bool" where
  "granted d roleId key \<longleftrightarrow>
     (case permission_with_key d key of
        None \<Rightarrow> False
      | Some p \<Rightarrow> \<lparr>rp_roleId = roleId, rp_permissionId = pe_id p\<rparr> \<in> set (ad_rolePermissions (sx_access d)))"

definition role_seeded :: "seed_db \<Rightarrow> string \<times> string \<times> string list \<Rightarrow> bool" where
  "role_seeded d = (\<lambda>(name, desc, keys).
     (case role_with_name d name of
        None \<Rightarrow> False
      | Some r \<Rightarrow> ro_description r = Some desc \<and> list_all (granted d (ro_id r)) keys))"

definition plan_columns :: "plan_seed \<Rightarrow> plan_row \<Rightarrow> bool" where
  "plan_columns def p \<longleftrightarrow>
     pl_name p = sd_name def \<and> pl_description p = Some (sd_description def) \<and>
     pl_rank p = sd_rank def \<and> pl_isActive p = sd_isActive def"

definition matrix_seeded :: "seed_db \<Rightarrow> string \<Rightarrow> plan_seed \<Rightarrow> bool" where
  "matrix_seeded d planId def \<longleftrightarrow>
     list_all (\<lambda>k. entitlement_value d planId k = map_of (sd_entitlements def) k) entitlement_list \<and>
     list_all (\<lambda>f. limits_value d planId f = map_of (sd_usageLimits def) f) usage_feature_list"

definition plan_seeded :: "seed_db \<Rightarrow> plan_seed \<Rightarrow> bool" where
  "plan_seeded d def \<longleftrightarrow>
     (case plan_with_slug d (sd_slug def) of
        None \<Rightarrow> False
      | Some p \<Rightarrow> plan_columns def p \<and> matrix_seeded d (pl_id p) def)"

definition catalogue_seeded :: "seed_db \<Rightarrow> bool" where
  "catalogue_seeded d \<longleftrightarrow>
     setting_seeded d \<and> list_all (permission_seeded d) permission_list \<and>
     list_all (role_seeded d) baseline_roles \<and> list_all (plan_seeded d) plan_seeds"

text \<open>The unique constraints of the schema.\<close>

definition seed_db_ok :: "seed_db \<Rightarrow> bool" where
  "seed_db_ok d \<longleftrightarrow>
     distinct (map fst (sx_settings d)) \<and>
     distinct (map pe_id (ad_permissions (sx_access d))) \<and>
     distinct (map pe_key (ad_permissions (sx_access d))) \<and>
     distinct (map ro_id (ad_roles (sx_access d))) \<and>
     distinct (map ro_name (ad_roles (sx_access d))) \<and>
     distinct (map (\<lambda>m. (rp_roleId m, rp_permissionId m)) (ad_rolePermissions (sx_access d))) \<and>
     plan_db_ok (sx_plans d)"

text \<open>Rows are only added: those there before keep their place, their ids and their keys.\<close>

definition extends :: "'a list \<Rightarrow> 'a list \<Rightarrow> bool" where
  "extends xs ys \<longleftrightarrow> take (length xs) ys = xs"

definition grown :: "seed_db \<Rightarrow> seed_db \<Rightarrow> bool" where
  "grown d d' \<longleftrightarrow>
     extends (map fst (sx_settings d)) (map fst (sx_settings d')) \<and>
     extends (map (\<lambda>p. (pe_id p, pe_key p)) (ad_permissions (sx_access d)))
             (map (\<lambda>p. (pe_id p, pe_key p)) (ad_permissions (sx_access d'))) \<and>
     extends (map (\<lambda>r. (ro_id r, ro_name r)) (ad_roles (sx_access d)))
             (map (\<lambda>r. (ro_id r, ro_name r)) (ad_roles (sx_access d'))) \<and>
     extends (ad_rolePermissions (sx_access d)) (ad_rolePermissions (sx_access d')) \<and>
     ad_userRoles (sx_access d') = ad_userRoles (sx_access d) \<and>
     extends (map (\<lambda>p. (pl_id p, pl_slug p)) (pd_plans (sx_plans d)))
             (map (\<lambda>p. (pl_id p, pl_slug p)) (pd_plans (sx_plans d'))) \<and>
     extends (map (\<lambda>r. (pq_planId r, pq_key r)) (pd_entitlements (sx_plans d)))
             (map (\<lambda>r. (pq_planId r, pq_key r)) (pd_entitlements (sx_plans d'))) \<and>
     extends (map (\<lambda>r. (pu_planId r, pu_feature r)) (pd_usage (sx_plans d)))
             (map (\<lambda>r. (pu_planId r, pu_feature r)) (pd_usage (sx_plans d'))) \<and>
     pd_subscriptions (sx_plans d') = pd_subscriptions (sx_plans d)"

lemma extends_refl [simp]: "extends xs xs"
  by (simp add: extends_def)

lemma extends_trans: "extends xs ys \<Longrightarrow> extends ys zs \<Longrightarrow> extends xs zs"
  unfolding extends_def by (metis length_take min.absorb2 min.absorb_iff2 min_def nat_le_linear take_all take_take)

lemma extends_upsert:
  "(\<And>r. g (f r) = g r) \<Longrightarrow> extends (map g rows) (map g (upsert P f new rows))"
  by (simp add: extends_def upsert_def map_update_where)

lemma extends_upsert_id: "extends rows (upsert P (\<lambda>r. r) new rows)"
  using extends_upsert[of "\<lambda>r. r" "\<lambda>r. r" rows P new] by simp

lemma extends_set: "extends xs ys \<Longrightarrow> set xs \<subseteq> set ys"
  unfolding extends_def by (metis set_take_subset)

lemma grown_refl [simp]: "grown d d"
  by (simp add: grown_def)

lemma grown_trans: "grown a b \<Longrightarrow> grown b c \<Longrightarrow> grown a c"
  unfolding grown_def by (intro conjI; (elim conjE, (erule (1) extends_trans | simp)))

section \<open>The statements\<close>

text \<open>What each statement writes keeps the constraints and removes no row.\<close>

lemma unique_upsert:
  assumes "distinct (map i rows)" and "distinct (map k rows)"
    and "\<And>r. i (f r) = i r" and "\<And>r. k (f r) = k r"
    and "i new \<notin> set (map i rows)" and "k new = x"
  shows "distinct (map i (upsert (\<lambda>r. k r = x) f new rows))"
    and "distinct (map k (upsert (\<lambda>r. k r = x) f new rows))"
  using assms distinct_upsert[of k rows f new x] by (auto simp: upsert_def map_update_where)

lemma unique_pair_upsert:
  assumes "distinct (map (\<lambda>r. (a r, b r)) rows)" and "\<And>r. a (f r) = a r" and "\<And>r. b (f r) = b r"
    and "a new = x" and "b new = y"
  shows "distinct (map (\<lambda>r. (a r, b r)) (upsert (\<lambda>r. a r = x \<and> b r = y) f new rows))"
  using distinct_upsert[of "\<lambda>r. (a r, b r)" rows f new "(x, y)"] assms by simp

lemma describe_keeps [simp]: "pe_id (describe t p) = pe_id p" "pe_key (describe t p) = pe_key p"
  by (simp_all add: describe_def split: option.split)

lemmas seed_writes = put_setting_def put_permission_def put_role_def find_permission_def
  put_grant_def put_plan_def put_entitlement_def put_limits_def Let_def

definition safe_step :: "(seed_db \<Rightarrow> exn + ('r \<times> seed_db)) \<Rightarrow> bool" where
  "safe_step body \<longleftrightarrow>
     (\<forall>d r d'. seed_db_ok d \<longrightarrow> body d = Inr (r, d') \<longrightarrow> seed_db_ok d' \<and> grown d d')"

lemmas safe_simps = safe_step_def seed_writes seed_db_ok_def plan_db_ok_def grown_def
  extends_upsert extends_upsert_id
  unique_upsert[where i = pe_id and k = pe_key] unique_upsert[where i = ro_id and k = ro_name]
  unique_upsert[where i = pl_id and k = pl_slug]
  unique_pair_upsert[where a = rp_roleId and b = rp_permissionId]
  unique_pair_upsert[where a = pq_planId and b = pq_key]
  unique_pair_upsert[where a = pu_planId and b = pu_feature]

lemma put_setting_safe: "safe_step put_setting"
  by (simp add: safe_simps distinct_upsert)

lemma put_permission_safe:
  "\<forall>used. fresh used \<notin> set used \<Longrightarrow> safe_step (put_permission fresh key)"
  by (simp add: safe_simps del: set_map)

lemma put_role_safe:
  "\<forall>used. fresh used \<notin> set used \<Longrightarrow> safe_step (put_role fresh name desc)"
  by (simp add: safe_simps del: set_map)

lemma find_permission_safe: "safe_step (find_permission key)"
  by (simp add: safe_simps split: option.split)

lemma put_grant_safe: "safe_step (put_grant roleId permissionId)"
  by (simp add: safe_simps)

lemma put_plan_safe:
  "\<forall>used. fresh used \<notin> set used \<Longrightarrow> safe_step (put_plan fresh def)"
  by (simp add: safe_simps del: set_map)

lemma put_entitlement_safe: "safe_step (put_entitlement def planId key)"
  by (simp add: safe_simps split: option.split)

lemma put_limits_safe: "safe_step (put_limits def planId feature)"
  by (auto simp add: safe_simps split: option.split)

section \<open>What the stages keep\<close>

lemma find_permission_keeps: "preserves I (find_permission key)"
  by (simp add: preserves_def find_permission_def split: option.split)

lemma seed_grant_keeps:
  "(\<And>i j. preserves I (put_grant i j)) \<Longrightarrow> keeps I (seed_grant roleId key)"
  unfolding seed_grant_def by (intro keeps_intros find_permission_keeps)

lemma seed_role_keeps:
  "preserves I (put_role fresh name desc) \<Longrightarrow> (\<And>i j. preserves I (put_grant i j)) \<Longrightarrow>
     keeps I (seed_role fresh (name, desc, keys))"
  unfolding seed_role_def prod.case by (intro keeps_intros seed_grant_keeps)

lemma seed_access_control_keeps:
  assumes "\<And>key. preserves I (put_permission fresh key)" and "\<And>name desc. preserves I (put_role fresh name desc)"
    and "\<And>i j. preserves I (put_grant i j)"
  shows "keeps I (seed_access_control fresh)"
  unfolding seed_access_control_def
proof (intro keeps_intros assms)
  show "keeps I (seed_role fresh x)" for x
    by (cases x) (simp add: seed_role_keeps assms)
qed

lemma seed_plan_keeps:
  assumes "preserves I (put_plan fresh def)" and "\<And>i k. preserves I (put_entitlement def i k)"
    and "\<And>i f. preserves I (put_limits def i f)"
  shows "keeps I (seed_plan fresh def)"
proof -
  have "keeps I (then_do (statement (put_plan fresh def)) (\<lambda>plan.
            then_do (each (\<lambda>key. statement (put_entitlement def (pl_id plan) key)) entitlement_list)
              (\<lambda>_. each (\<lambda>feature. statement (put_limits def (pl_id plan) feature)) usage_feature_list)))"
    by (intro keeps_intros assms)
  then show ?thesis by (simp add: keeps_def seed_plan_def split: sum.split)
qed

lemma seed_tables_keeps:
  assumes "preserves I put_setting"
    and "\<And>key. preserves I (put_permission fresh key)" and "\<And>name desc. preserves I (put_role fresh name desc)"
    and "\<And>i j. preserves I (put_grant i j)" and "\<And>def. preserves I (put_plan fresh def)"
    and "\<And>def i k. preserves I (put_entitlement def i k)" and "\<And>def i f. preserves I (put_limits def i f)"
  shows "keeps I (seed_tables fresh)"
  unfolding seed_tables_def seed_plans_def
  by (intro keeps_intros seed_access_control_keeps seed_plan_keeps assms)

text \<open>Any run, failed or not, keeps the constraints and every row.\<close>

lemma safe_step_preserves:
  "safe_step body \<Longrightarrow> preserves (\<lambda>d'. seed_db_ok d' \<and> grown d d') body"
  unfolding safe_step_def preserves_def by (metis grown_trans)

lemma seed_tables_safe:
  assumes fresh: "\<forall>used. fresh used \<notin> set used" and "seed_db_ok (sg_db s)"
  shows "seed_db_ok (sg_db (snd (seed_tables fresh s))) \<and> grown (sg_db s) (sg_db (snd (seed_tables fresh s)))"
proof -
  have "keeps (\<lambda>d'. seed_db_ok d' \<and> grown (sg_db s) d') (seed_tables fresh)"
    by (intro seed_tables_keeps safe_step_preserves put_setting_safe put_permission_safe[OF fresh]
        put_role_safe[OF fresh] put_grant_safe put_plan_safe[OF fresh] put_entitlement_safe put_limits_safe)
  then show ?thesis using assms(2) by (auto dest: keepsD)
qed

section \<open>What the stages establish\<close>

lemma catalogue_is_described: "\<forall>key\<in>set permission_list. map_of permission_descriptions key \<noteq> None"
  by code_simp

lemma put_permission_other:
  "put_permission fresh key d = Inr (r, d') \<Longrightarrow> k \<noteq> key \<Longrightarrow>
     permission_with_key d' k = permission_with_key d k"
  by (auto simp: put_permission_def permission_with_key_def Let_def find_upsert_other)

lemma put_permission_establishes:
  assumes "put_permission fresh key d = Inr (r, d')" and "map_of permission_descriptions key \<noteq> None"
  shows "permission_seeded d' key"
proof -
  have "pe_description (describe (map_of permission_descriptions key) p) = map_of permission_descriptions key" for p
    using assms(2) by (auto simp: describe_def)
  with assms(1) show ?thesis
    by (auto simp: put_permission_def permission_seeded_def permission_with_key_def Let_def
        find_upsert_same upserted_def split: option.split)
qed

lemma permissions_established:
  assumes "each (\<lambda>key. statement (put_permission fresh key)) permission_list s = (Inr (), s')"
  shows "list_all (permission_seeded (sg_db s')) permission_list"
proof -
  have "True \<and> (\<forall>key\<in>set permission_list. permission_seeded (sg_db s') key)"
  proof (rule each_establishes[where I = "\<lambda>_. True", OF assms TrueI], goal_cases)
    case (1 x v r v')
    then show ?case
      using put_permission_establishes[OF statement_returns[OF 1(3)]] catalogue_is_described by blast
  next
    case (2 x y v r v')
    note put = statement_returns[OF 2(5)]
    show ?case
    proof (cases "y = x")
      case True
      with put 2(2) show ?thesis using put_permission_establishes catalogue_is_described by blast
    next
      case False
      with put_permission_other[OF put] 2(4) show ?thesis by (simp add: permission_seeded_def)
    qed
  qed
  then show ?thesis by (simp add: list_all_iff)
qed

lemma put_role_returns:
  assumes "put_role fresh name desc d = Inr (role, d')"
  shows "role_with_name d' name = Some role" and "ro_description role = Some desc"
    and "n \<noteq> name \<Longrightarrow> role_with_name d' n = role_with_name d n"
    and "granted d' = granted d"
proof -
  show "role_with_name d' name = Some role"
    using assms by (auto simp: put_role_def role_with_name_def Let_def find_upsert_same)
  show "ro_description role = Some desc"
    using assms by (auto simp: put_role_def Let_def upserted_def split: option.split)
  show "n \<noteq> name \<Longrightarrow> role_with_name d' n = role_with_name d n"
    using assms by (auto simp: put_role_def role_with_name_def Let_def find_upsert_other)
  show "granted d' = granted d"
    using assms
    by (auto simp: fun_eq_iff put_role_def granted_def permission_with_key_def Let_def cong: option.case_cong)
qed

lemma grant_row [simp]: "\<lparr>rp_roleId = rp_roleId m, rp_permissionId = rp_permissionId m\<rparr> = m"
  by (cases m) simp

lemma set_upsert_id: "set rows \<subseteq> set (upsert P (\<lambda>r. r) new rows)"
  by (rule extends_set[OF extends_upsert_id])

lemma put_grant_returns:
  assumes "put_grant roleId permissionId d = Inr (u, d')"
  shows "role_with_name d' = role_with_name d" and "permission_with_key d' = permission_with_key d"
    and "granted d i k \<Longrightarrow> granted d' i k"
    and "permission_with_key d k = Some p \<Longrightarrow> pe_id p = permissionId \<Longrightarrow> granted d' roleId k"
proof -
  show pk: "permission_with_key d' = permission_with_key d" and "role_with_name d' = role_with_name d"
    using assms by (auto simp: fun_eq_iff put_grant_def permission_with_key_def role_with_name_def)
  show "granted d' i k" if "granted d i k"
    using that assms unfolding granted_def pk
    by (auto simp: put_grant_def split: option.splits intro: subsetD[OF set_upsert_id])
  have "\<lparr>rp_roleId = roleId, rp_permissionId = permissionId\<rparr> \<in> set (ad_rolePermissions (sx_access d'))"
    using assms by (auto simp: put_grant_def upsert_def list_ex_iff update_where_def)
  then show "granted d' roleId k" if "permission_with_key d k = Some p" "pe_id p = permissionId"
    using that by (simp add: granted_def pk)
qed

lemma seed_grant_returns:
  assumes "seed_grant roleId key s = (Inr u, s')"
  shows "role_with_name (sg_db s') = role_with_name (sg_db s)" and "granted (sg_db s') roleId key"
    and "granted (sg_db s) i k \<Longrightarrow> granted (sg_db s') i k"
proof -
  from assms obtain p s1 where read: "statement (find_permission key) s = (Inr p, s1)"
    and "statement (put_grant roleId (pe_id p)) s1 = (Inr u, s')"
    unfolding seed_grant_def then_do_returns by blast
  note found = statement_returns[OF read] and put = put_grant_returns[OF statement_returns[OF this(2)]]
  from found have same: "sg_db s1 = sg_db s" and p: "permission_with_key (sg_db s1) key = Some p"
    by (auto simp: find_permission_def permission_with_key_def split: option.splits)
  show "role_with_name (sg_db s') = role_with_name (sg_db s)" using put(1) same by simp
  show "granted (sg_db s') roleId key" using put(4)[OF p refl] .
  show "granted (sg_db s) i k \<Longrightarrow> granted (sg_db s') i k" using put(3) same by simp
qed

lemma seed_role_establishes:
  assumes "seed_role fresh (name, desc, keys) s = (Inr (), s')"
  shows "role_seeded (sg_db s') (name, desc, keys)"
proof -
  from assms obtain role s1 where put: "statement (put_role fresh name desc) s = (Inr role, s1)"
    and rest: "each (seed_grant (ro_id role)) keys s1 = (Inr (), s')"
    unfolding seed_role_def prod.case then_do_returns by blast
  note role = put_role_returns[OF statement_returns[OF put]]
  have "role_with_name (sg_db s') name = Some role \<and> (\<forall>k\<in>set keys. granted (sg_db s') (ro_id role) k)"
  proof (rule each_establishes[where I = "\<lambda>v. role_with_name (sg_db v) name = Some role", OF rest role(1)],
      goal_cases)
    case (1 x v r v')
    then show ?case using seed_grant_returns[OF 1(3)] by simp
  next
    case (2 x y v r v')
    then show ?case using seed_grant_returns(3)[OF 2(5)] by simp
  qed
  with role(2) show ?thesis by (simp add: role_seeded_def list_all_iff)
qed

lemma seed_role_seeds: "seed_role fresh x s = (Inr (), s') \<Longrightarrow> role_seeded (sg_db s') x"
  by (cases x) (simp add: seed_role_establishes)

lemma seed_role_keeps_others:
  assumes "fst other \<noteq> name"
  shows "keeps (\<lambda>d. role_seeded d other) (seed_role fresh (name, desc, keys))"
proof (intro seed_role_keeps, goal_cases)
  case 1
  show ?case unfolding preserves_def
  proof (intro allI impI)
    fix d r d' assume seeded: "role_seeded d other" and put: "put_role fresh name desc d = Inr (r, d')"
    with put_role_returns(3)[OF put assms] put_role_returns(4)[OF put]
    show "role_seeded d' other" by (auto simp: role_seeded_def case_prod_beta split: option.splits)
  qed
next
  case (2 i j)
  show ?case unfolding preserves_def
  proof (intro allI impI)
    fix d r d' assume seeded: "role_seeded d other" and put: "put_grant i j d = Inr (r, d')"
    have "list_all (granted d k) ks \<Longrightarrow> list_all (granted d' k) ks" for k ks
      using put_grant_returns(3)[OF put] by (simp add: list_all_iff)
    with seeded show "role_seeded d' other"
      by (auto simp: role_seeded_def put_grant_returns(1)[OF put] split: prod.splits option.splits)
  qed
qed

lemma baseline_names_distinct: "distinct (map fst baseline_roles)"
  by code_simp

lemma roles_established:
  assumes "each (seed_role fresh) baseline_roles s = (Inr (), s')"
  shows "list_all (role_seeded (sg_db s')) baseline_roles"
proof -
  have "True \<and> (\<forall>x\<in>set baseline_roles. role_seeded (sg_db s') x)"
  proof (rule each_establishes[where I = "\<lambda>_. True", OF assms TrueI], goal_cases)
    case (1 x v r v')
    then show ?case using seed_role_seeds by simp
  next
    case (2 x y v r v')
    show ?case
    proof (cases "y = x")
      case True
      with 2(5) show ?thesis using seed_role_seeds by simp
    next
      case False
      with 2(1,2) baseline_names_distinct have "fst y \<noteq> fst x"
        by (auto simp: distinct_map inj_on_def)
      then have "keeps (\<lambda>d. role_seeded d y) (seed_role fresh x)"
        by (cases x) (simp add: seed_role_keeps_others)
      from keepsD[OF this 2(4)] 2(5) show ?thesis by simp
    qed
  qed
  then show ?thesis by (simp add: list_all_iff)
qed

lemma seeds_are_complete:
  "\<forall>def\<in>set plan_seeds. check_plan_seed def = Inr () \<and>
     list_all (\<lambda>k. map_of (sd_entitlements def) k \<noteq> None) entitlement_list \<and>
     list_all (\<lambda>f. map_of (sd_usageLimits def) f \<noteq> None) usage_feature_list"
  by code_simp

lemma seed_slugs_distinct: "distinct (map sd_slug plan_seeds)"
  by code_simp

lemma put_plan_returns:
  assumes "put_plan fresh def d = Inr (plan, d')"
  shows "plan_with_slug d' (sd_slug def) = Some plan" and "plan_columns def plan"
    and "slug \<noteq> sd_slug def \<Longrightarrow> plan_with_slug d' slug = plan_with_slug d slug"
    and "matrix_seeded d' = matrix_seeded d"
proof -
  show "plan_with_slug d' (sd_slug def) = Some plan"
    using assms by (auto simp: put_plan_def plan_with_slug_def Let_def find_upsert_same)
  show "plan_columns def plan"
    using assms by (auto simp: put_plan_def plan_columns_def Let_def upserted_def split: option.splits)
  show "slug \<noteq> sd_slug def \<Longrightarrow> plan_with_slug d' slug = plan_with_slug d slug"
    using assms by (auto simp: put_plan_def plan_with_slug_def Let_def find_upsert_other)
  show "matrix_seeded d' = matrix_seeded d"
    using assms
    by (auto simp: fun_eq_iff put_plan_def matrix_seeded_def entitlement_value_def limits_value_def Let_def)
qed

lemma put_entitlement_returns:
  assumes "put_entitlement def i k d = Inr (u, d')"
  shows "plan_with_slug d' = plan_with_slug d" and "limits_value d' = limits_value d"
    and "map_of (sd_entitlements def) k \<noteq> None \<Longrightarrow> entitlement_value d' i k = map_of (sd_entitlements def) k"
    and "(j, l) \<noteq> (i, k) \<Longrightarrow> entitlement_value d' j l = entitlement_value d j l"
proof -
  show "plan_with_slug d' = plan_with_slug d" "limits_value d' = limits_value d"
    using assms by (auto simp: fun_eq_iff put_entitlement_def plan_with_slug_def limits_value_def Let_def)
  show "entitlement_value d' i k = map_of (sd_entitlements def) k" if "map_of (sd_entitlements def) k \<noteq> None"
    using that assms
    by (auto simp: find_upsert_same put_entitlement_def entitlement_value_def Let_def upserted_def split: option.split)
  show "entitlement_value d' j l = entitlement_value d j l" if "(j, l) \<noteq> (i, k)"
    using that assms
    by (auto simp: put_entitlement_def entitlement_value_def Let_def split: option.split
        intro!: arg_cong[where f = "map_option pq_enabled"] find_upsert_other)
qed

lemma put_limits_returns:
  assumes "put_limits def i f d = Inr (u, d')"
  shows "plan_with_slug d' = plan_with_slug d" and "entitlement_value d' = entitlement_value d"
    and "limits_value d' i f = map_of (sd_usageLimits def) f"
    and "(j, g) \<noteq> (i, f) \<Longrightarrow> limits_value d' j g = limits_value d j g"
proof -
  obtain daily weekly where limits: "map_of (sd_usageLimits def) f = Some (daily, weekly)"
    using assms by (auto simp: put_limits_def split: option.splits)
  show "plan_with_slug d' = plan_with_slug d" "entitlement_value d' = entitlement_value d"
    using assms limits by (auto simp: fun_eq_iff put_limits_def plan_with_slug_def entitlement_value_def)
  show "limits_value d' i f = map_of (sd_usageLimits def) f"
    using limits assms
    by (auto simp: find_upsert_same put_limits_def limits_value_def upserted_def split: option.split)
  show "limits_value d' j g = limits_value d j g" if "(j, g) \<noteq> (i, f)"
    using that assms limits
    by (auto simp: put_limits_def limits_value_def
        intro!: arg_cong[where f = "map_option (\<lambda>r. (pu_daily r, pu_weekly r))"] find_upsert_other)
qed

lemma seed_plan_returns:
  assumes "seed_plan fresh def s = (Inr (), s')"
  obtains plan s1 s2 where "statement (put_plan fresh def) s = (Inr plan, s1)"
    and "each (\<lambda>key. statement (put_entitlement def (pl_id plan) key)) entitlement_list s1 = (Inr (), s2)"
    and "each (\<lambda>feature. statement (put_limits def (pl_id plan) feature)) usage_feature_list s2 = (Inr (), s')"
  using assms unfolding seed_plan_def by (fastforce simp: then_do_returns split: sum.splits)

lemma entitlements_established:
  assumes "each (\<lambda>key. statement (put_entitlement def i key)) entitlement_list s = (Inr (), s')"
    and "list_all (\<lambda>k. map_of (sd_entitlements def) k \<noteq> None) entitlement_list"
  shows "plan_with_slug (sg_db s') = plan_with_slug (sg_db s) \<and>
    (\<forall>k\<in>set entitlement_list. entitlement_value (sg_db s') i k = map_of (sd_entitlements def) k)"
proof (rule each_establishes[where I = "\<lambda>v. plan_with_slug (sg_db v) = plan_with_slug (sg_db s)", OF assms(1) refl],
    goal_cases)
  case (1 x v r v')
  then have "map_of (sd_entitlements def) x \<noteq> None" using assms(2) by (simp add: list_all_iff)
  then show ?case using put_entitlement_returns(1,3)[OF statement_returns[OF 1(3)]] 1(2) by simp
next
  case (2 x y v r v')
  note put = put_entitlement_returns[OF statement_returns[OF 2(5)]]
  show ?case
  proof (cases "y = x")
    case True
    then show ?thesis using put(3) assms(2) 2(1) by (auto simp: list_all_iff)
  next
    case False
    then show ?thesis using put(4)[of i y] 2(4) by simp
  qed
qed

lemma limits_established:
  assumes "each (\<lambda>feature. statement (put_limits def i feature)) usage_feature_list s = (Inr (), s')"
  shows "(plan_with_slug (sg_db s') = plan_with_slug (sg_db s) \<and> entitlement_value (sg_db s') = entitlement_value (sg_db s)) \<and>
    (\<forall>f\<in>set usage_feature_list. limits_value (sg_db s') i f = map_of (sd_usageLimits def) f)"
proof (rule each_establishes[where I = "\<lambda>v. plan_with_slug (sg_db v) = plan_with_slug (sg_db s) \<and>
      entitlement_value (sg_db v) = entitlement_value (sg_db s)", OF assms(1)], goal_cases)
  case (2 x v r v')
  then show ?case using put_limits_returns(1-3)[OF statement_returns[OF 2(3)]] by simp
next
  case (3 x y v r v')
  note put = put_limits_returns[OF statement_returns[OF 3(5)]]
  show ?case using put(3) put(4)[of i y] 3(4) by (cases "y = x") simp_all
qed simp

lemma seed_plan_establishes:
  assumes "seed_plan fresh def s = (Inr (), s')"
    and "list_all (\<lambda>k. map_of (sd_entitlements def) k \<noteq> None) entitlement_list"
  shows "plan_seeded (sg_db s') def"
  using assms(1)
proof (rule seed_plan_returns)
  fix plan s1 s2
  assume put: "statement (put_plan fresh def) s = (Inr plan, s1)"
    and ents: "each (\<lambda>key. statement (put_entitlement def (pl_id plan) key)) entitlement_list s1 = (Inr (), s2)"
    and lims: "each (\<lambda>feature. statement (put_limits def (pl_id plan) feature)) usage_feature_list s2 = (Inr (), s')"
  show ?thesis
    using put_plan_returns(1,2)[OF statement_returns[OF put]] entitlements_established[OF ents assms(2)]
      limits_established[OF lims]
    by (simp add: plan_seeded_def matrix_seeded_def list_all_iff)
qed

text \<open>The statements of one plan leave the rows of another alone.\<close>

definition settled :: "plan_seed \<Rightarrow> plan_row \<Rightarrow> seed_db \<Rightarrow> bool" where
  "settled other p d \<longleftrightarrow> plan_with_slug d (sd_slug other) = Some p \<and> plan_columns other p \<and> matrix_seeded d (pl_id p) other"

lemma plan_seeded_settled: "plan_seeded d other \<longleftrightarrow> (\<exists>p. settled other p d)"
  by (auto simp: plan_seeded_def settled_def split: option.split)

lemma put_entitlement_keeps_others:
  assumes "pl_id p \<noteq> i" shows "preserves (settled other p) (put_entitlement def i k)"
  unfolding preserves_def
proof (intro allI impI)
  fix d r d' assume "settled other p d" and put: "put_entitlement def i k d = Inr (r, d')"
  moreover have "entitlement_value d' (pl_id p) l = entitlement_value d (pl_id p) l" for l
    using put_entitlement_returns(4)[OF put] assms by simp
  ultimately show "settled other p d'"
    by (simp add: settled_def matrix_seeded_def put_entitlement_returns(1,2)[OF put])
qed

lemma put_limits_keeps_others:
  assumes "pl_id p \<noteq> i" shows "preserves (settled other p) (put_limits def i f)"
  unfolding preserves_def
proof (intro allI impI)
  fix d r d' assume "settled other p d" and put: "put_limits def i f d = Inr (r, d')"
  moreover have "limits_value d' (pl_id p) g = limits_value d (pl_id p) g" for g
    using put_limits_returns(4)[OF put] assms by simp
  ultimately show "settled other p d'"
    by (simp add: settled_def matrix_seeded_def put_limits_returns(1,2)[OF put])
qed

lemma other_plan_id:
  assumes "seed_db_ok d" and "plan_with_slug d a = Some p" and "plan_with_slug d b = Some q" and "a \<noteq> b"
  shows "pl_id p \<noteq> pl_id q"
proof -
  have "p \<in> set (pd_plans (sx_plans d))" "q \<in> set (pd_plans (sx_plans d))" "pl_slug p = a" "pl_slug q = b"
    using assms(2,3) by (auto simp: plan_with_slug_def dest!: find_SomeD)
  moreover have "distinct (map pl_id (pd_plans (sx_plans d)))"
    using assms(1) by (simp add: seed_db_ok_def plan_db_ok_def)
  ultimately show ?thesis using assms(4) unfolding distinct_map inj_on_def by metis
qed

lemma seed_plan_keeps_others:
  assumes fresh: "\<forall>used. fresh used \<notin> set used" and "seed_db_ok (sg_db s)"
    and "sd_slug other \<noteq> sd_slug def" and "plan_seeded (sg_db s) other"
    and "seed_plan fresh def s = (Inr (), s')"
  shows "plan_seeded (sg_db s') other"
  using assms(5)
proof (rule seed_plan_returns)
  fix plan s1 s2
  assume "statement (put_plan fresh def) s = (Inr plan, s1)"
    and ents: "each (\<lambda>key. statement (put_entitlement def (pl_id plan) key)) entitlement_list s1 = (Inr (), s2)"
    and lims: "each (\<lambda>feature. statement (put_limits def (pl_id plan) feature)) usage_feature_list s2 = (Inr (), s')"
  note put = statement_returns[OF this(1)]
  from assms(4) obtain p where "settled other p (sg_db s)" by (auto simp: plan_seeded_settled)
  then have p: "settled other p (sg_db s1)"
    using put_plan_returns(3)[OF put assms(3)] put_plan_returns(4)[OF put] by (simp add: settled_def)
  have "seed_db_ok (sg_db s1)"
    using put_plan_safe[OF fresh, of def] put assms(2) unfolding safe_step_def by blast
  then have id: "pl_id p \<noteq> pl_id plan"
    using other_plan_id[OF _ _ put_plan_returns(1)[OF put] assms(3)] p by (simp add: settled_def)
  have "settled other p (sg_db s2)"
    using keepsD[where I = "settled other p", OF keeps_each p] ents id
    by (metis keeps_statement put_entitlement_keeps_others snd_conv)
  then have "settled other p (sg_db s')"
    using keepsD[where I = "settled other p", OF keeps_each] lims id
    by (metis keeps_statement put_limits_keeps_others snd_conv)
  then show ?thesis by (auto simp: plan_seeded_settled)
qed

lemma safe_step_keeps_ok: "safe_step body \<Longrightarrow> preserves seed_db_ok body"
  unfolding safe_step_def preserves_def by blast

lemma seed_plan_safe:
  assumes fresh: "\<forall>used. fresh used \<notin> set used"
  shows "keeps seed_db_ok (seed_plan fresh def)"
  by (intro seed_plan_keeps safe_step_keeps_ok put_plan_safe[OF fresh] put_entitlement_safe put_limits_safe)

lemma plans_established:
  assumes fresh: "\<forall>used. fresh used \<notin> set used" and "seed_db_ok (sg_db s)"
    and "seed_plans fresh s = (Inr (), s')"
  shows "list_all (plan_seeded (sg_db s')) plan_seeds"
proof -
  have complete: "list_all (\<lambda>k. map_of (sd_entitlements def) k \<noteq> None) entitlement_list" if "def \<in> set plan_seeds" for def
    using seeds_are_complete that by blast
  have "seed_db_ok (sg_db s') \<and> (\<forall>x\<in>set plan_seeds. plan_seeded (sg_db s') x)"
  proof (rule each_establishes[where I = "\<lambda>v. seed_db_ok (sg_db v)", OF assms(3)[unfolded seed_plans_def] assms(2)],
      goal_cases)
    case (1 x v r v')
    then have "seed_plan fresh x v = (Inr (), v')" by simp
    from seed_plan_establishes[OF this complete[OF 1(1)]] keepsD[OF seed_plan_safe[OF fresh, of x] 1(2)] this
    show ?case by simp
  next
    case (2 x y v r v')
    show ?case
    proof (cases "y = x")
      case True
      from 2(5) have "seed_plan fresh x v = (Inr (), v')" by simp
      from seed_plan_establishes[OF this complete[OF 2(1)]] True show ?thesis by simp
    next
      case False
      with 2(1,2) seed_slugs_distinct have "sd_slug y \<noteq> sd_slug x" by (auto simp: distinct_map inj_on_def)
      moreover from 2(5) have "seed_plan fresh x v = (Inr (), v')" by simp
      ultimately show ?thesis using seed_plan_keeps_others[OF fresh 2(3) _ 2(4)] by blast
    qed
  qed
  then show ?thesis by (simp add: list_all_iff)
qed

section \<open>The whole catalogue\<close>

lemma put_setting_establishes: "put_setting d = Inr (r, d') \<Longrightarrow> setting_seeded d'"
proof -
  have "List.find (\<lambda>r. fst r = ''seed_version'')
          (upsert (\<lambda>r. fst r = ''seed_version'') (\<lambda>r. (fst r, seed_version)) (''seed_version'', seed_version) rows)
        = Some (''seed_version'', seed_version)" for rows
    by (subst find_upsert_same) (auto simp: upserted_def split: option.split dest!: find_SomeD)
  then show "put_setting d = Inr (r, d') \<Longrightarrow> setting_seeded d'"
    by (auto simp: put_setting_def setting_seeded_def)
qed

text \<open>What the first stages established, no later stage touches.\<close>

definition head_seeded :: "seed_db \<Rightarrow> bool" where
  "head_seeded d \<longleftrightarrow> setting_seeded d \<and> list_all (permission_seeded d) permission_list"

lemma head_kept_by_roles:
  "preserves head_seeded (put_role fresh name desc)" "preserves head_seeded (put_grant i j)"
  by (auto simp: preserves_def seed_writes head_seeded_def setting_seeded_def permission_seeded_def
      permission_with_key_def list_all_iff)

definition access_seeded :: "seed_db \<Rightarrow> bool" where
  "access_seeded d \<longleftrightarrow> head_seeded d \<and> list_all (role_seeded d) baseline_roles"

lemma access_kept_by_plans:
  "preserves access_seeded (put_plan fresh def)" "preserves access_seeded (put_entitlement def i k)"
  "preserves access_seeded (put_limits def i f)"
  by (auto simp: preserves_def seed_writes access_seeded_def head_seeded_def setting_seeded_def
      permission_seeded_def permission_with_key_def role_seeded_def role_with_name_def granted_def list_all_iff
      split: option.splits prod.splits)

lemma setting_kept_by_permissions: "preserves setting_seeded (put_permission fresh key)"
  by (auto simp: preserves_def seed_writes setting_seeded_def)

lemma catalogue_established:
  assumes fresh: "\<forall>used. fresh used \<notin> set used" and "seed_db_ok (sg_db s)"
    and "seed_tables fresh s = (Inr (), s')"
  shows "catalogue_seeded (sg_db s')"
proof -
  from assms(3) obtain s1 s2 s3 where put: "statement put_setting s = (Inr (), s1)"
    and perms: "each (\<lambda>key. statement (put_permission fresh key)) permission_list s1 = (Inr (), s2)"
    and roles: "each (seed_role fresh) baseline_roles s2 = (Inr (), s3)"
    and plans: "seed_plans fresh s3 = (Inr (), s')"
    by (auto simp: seed_tables_def seed_access_control_def then_do_returns)
  have "keeps setting_seeded (each (\<lambda>key. statement (put_permission fresh key)) permission_list)"
    by (intro keeps_intros setting_kept_by_permissions)
  from keepsD[OF this, OF put_setting_establishes[OF statement_returns[OF put]]]
  have "setting_seeded (sg_db s2)" by (simp add: perms)
  then have "head_seeded (sg_db s2)" using permissions_established[OF perms] by (simp add: head_seeded_def)
  moreover have "keeps head_seeded (seed_role fresh x)" for x
    by (cases x) (simp add: seed_role_keeps head_kept_by_roles)
  ultimately have "head_seeded (sg_db s3)"
    using keepsD[OF keeps_each[of baseline_roles head_seeded "seed_role fresh"], of s2] by (simp add: roles)
  then have "access_seeded (sg_db s3)" using roles_established[OF roles] by (simp add: access_seeded_def)
  moreover have "keeps access_seeded (seed_plans fresh)"
    unfolding seed_plans_def by (intro keeps_each seed_plan_keeps access_kept_by_plans)
  ultimately have access: "access_seeded (sg_db s')" using keepsD[of access_seeded] plans by fastforce
  have "keeps seed_db_ok (then_do (statement put_setting) (\<lambda>_. seed_access_control fresh))"
    by (intro keeps_intros seed_access_control_keeps safe_step_keeps_ok put_setting_safe
        put_permission_safe[OF fresh] put_role_safe[OF fresh] put_grant_safe)
  moreover have "then_do (statement put_setting) (\<lambda>_. seed_access_control fresh) s = (Inr (), s3)"
    using put perms roles by (auto simp: then_do_returns seed_access_control_def)
  ultimately have "seed_db_ok (sg_db s3)" using keepsD[of seed_db_ok] assms(2) by fastforce
  with access plans_established[OF fresh _ plans] show ?thesis
    by (simp add: catalogue_seeded_def access_seeded_def head_seeded_def)
qed

section \<open>A second run\<close>

lemma put_setting_fixed:
  assumes "seed_db_ok d" and "setting_seeded d" shows "put_setting d = Inr ((), d)"
proof -
  have "upsert (\<lambda>r. fst r = ''seed_version'') (\<lambda>r. (fst r, seed_version)) (''seed_version'', seed_version) (sx_settings d)
          = sx_settings d"
    by (rule upsert_fixed[OF _ assms(2)[unfolded setting_seeded_def]]) (use assms(1) in \<open>simp_all add: seed_db_ok_def\<close>)
  then show ?thesis by (simp add: put_setting_def)
qed

lemma put_permission_fixed:
  assumes "seed_db_ok d" and "permission_seeded d key" shows "put_permission fresh key d = Inr ((), d)"
proof -
  from assms(2) obtain p where p: "List.find (\<lambda>p. pe_key p = key) (ad_permissions (sx_access d)) = Some p"
      "pe_description p = map_of permission_descriptions key"
    by (auto simp: permission_seeded_def permission_with_key_def)
  then have "describe (map_of permission_descriptions key) p = p"
    by (cases p) (auto simp: describe_def split: option.split)
  then have "upsert (\<lambda>p. pe_key p = key) (describe (map_of permission_descriptions key)) new (ad_permissions (sx_access d))
          = ad_permissions (sx_access d)" for new
    using upsert_fixed[OF _ p(1)] assms(1) by (simp add: seed_db_ok_def)
  then show ?thesis by (simp add: put_permission_def Let_def)
qed

lemma put_role_fixed:
  assumes "seed_db_ok d" and "role_with_name d name = Some r" and "ro_description r = Some desc"
  shows "put_role fresh name desc d = Inr (r, d)"
proof -
  have r: "r\<lparr>ro_description := Some desc\<rparr> = r" using assms(3) by (cases r) simp
  then have "upsert (\<lambda>r. ro_name r = name) (\<lambda>r. r\<lparr>ro_description := Some desc\<rparr>) new (ad_roles (sx_access d))
          = ad_roles (sx_access d)" for new
    using upsert_fixed[OF _ assms(2)[unfolded role_with_name_def]] assms(1) by (simp add: seed_db_ok_def)
  with assms(2) r show ?thesis by (simp add: put_role_def Let_def upserted_def role_with_name_def)
qed

lemma put_grant_fixed:
  assumes "\<lparr>rp_roleId = i, rp_permissionId = j\<rparr> \<in> set (ad_rolePermissions (sx_access d))"
  shows "put_grant i j d = Inr ((), d)"
proof -
  have "upsert (\<lambda>m. (rp_roleId m, rp_permissionId m) = (i, j)) (\<lambda>m. m) new (ad_rolePermissions (sx_access d))
          = ad_rolePermissions (sx_access d)" for new
    using assms by (force simp: upsert_def list_ex_iff update_where_def)
  then show ?thesis by (simp add: put_grant_def)
qed

lemma put_plan_fixed:
  assumes "seed_db_ok d" and "plan_with_slug d (sd_slug def) = Some p" and "plan_columns def p"
  shows "put_plan fresh def d = Inr (p, d)"
proof -
  let ?upd = "\<lambda>p. p\<lparr>pl_name := sd_name def, pl_description := Some (sd_description def),
                    pl_rank := sd_rank def, pl_isActive := sd_isActive def\<rparr>"
  have p: "?upd p = p" using assms(3) by (cases p) (simp add: plan_columns_def)
  have "upsert (\<lambda>p. pl_slug p = sd_slug def) ?upd new (pd_plans (sx_plans d)) = pd_plans (sx_plans d)" for new
    by (rule upsert_fixed[where f = ?upd, OF _ assms(2)[unfolded plan_with_slug_def] p])
      (use assms(1) in \<open>simp add: seed_db_ok_def plan_db_ok_def\<close>)
  with assms(2) p show ?thesis by (simp add: put_plan_def Let_def upserted_def plan_with_slug_def)
qed

lemma put_entitlement_fixed:
  assumes "seed_db_ok d" and "entitlement_value d i k = map_of (sd_entitlements def) k"
    and "map_of (sd_entitlements def) k \<noteq> None"
  shows "put_entitlement def i k d = Inr ((), d)"
proof -
  let ?f = "\<lambda>r. case map_of (sd_entitlements def) k of Some b \<Rightarrow> r\<lparr>pq_enabled := b\<rparr> | None \<Rightarrow> r"
  from assms(2,3) obtain r where r: "List.find (\<lambda>r. (pq_planId r, pq_key r) = (i, k)) (pd_entitlements (sx_plans d)) = Some r"
      "map_of (sd_entitlements def) k = Some (pq_enabled r)"
    by (auto simp: entitlement_value_def)
  have "upsert (\<lambda>r. (pq_planId r, pq_key r) = (i, k)) ?f new (pd_entitlements (sx_plans d)) = pd_entitlements (sx_plans d)" for new
    by (rule upsert_fixed[where key = "\<lambda>r. (pq_planId r, pq_key r)" and f = ?f, OF _ r(1)])
      (use assms(1) r(2) in \<open>simp_all add: seed_db_ok_def plan_db_ok_def\<close>)
  then show ?thesis by (simp add: put_entitlement_def Let_def)
qed

lemma put_limits_fixed:
  assumes "seed_db_ok d" and "limits_value d i f = map_of (sd_usageLimits def) f"
    and "map_of (sd_usageLimits def) f \<noteq> None"
  shows "put_limits def i f d = Inr ((), d)"
proof -
  from assms(2,3) obtain r where r: "List.find (\<lambda>r. (pu_planId r, pu_feature r) = (i, f)) (pd_usage (sx_plans d)) = Some r"
      "map_of (sd_usageLimits def) f = Some (pu_daily r, pu_weekly r)"
    by (auto simp: limits_value_def)
  have "upsert (\<lambda>r. (pu_planId r, pu_feature r) = (i, f)) (\<lambda>x. x\<lparr>pu_daily := pu_daily r, pu_weekly := pu_weekly r\<rparr>) new
          (pd_usage (sx_plans d)) = pd_usage (sx_plans d)" for new
    by (rule upsert_fixed[where key = "\<lambda>r. (pu_planId r, pu_feature r)", OF _ r(1)])
      (use assms(1) in \<open>simp_all add: seed_db_ok_def plan_db_ok_def\<close>)
  with r(2) show ?thesis by (simp add: put_limits_def)
qed

lemma seed_grant_fixed:
  assumes "granted (sg_db s) i k" and "sg_script s = []"
  shows "seed_grant i k s = (Inr (), s)"
  using assms
  by (auto simp: granted_def permission_with_key_def seed_grant_def then_do_def statement_calm
      find_permission_def put_grant_fixed split: option.splits)

lemma seed_role_fixed:
  assumes "seed_db_ok (sg_db s)" and "role_seeded (sg_db s) x" and "sg_script s = []"
  shows "seed_role fresh x s = (Inr (), s)"
proof (cases x)
  case (fields name desc keys)
  with assms(2) obtain r where r: "role_with_name (sg_db s) name = Some r" "ro_description r = Some desc"
      "list_all (granted (sg_db s) (ro_id r)) keys"
    by (auto simp: role_seeded_def split: option.splits)
  have "each (seed_grant (ro_id r)) keys s = (Inr (), s)"
    by (rule each_fixed) (use r(3) assms(3) in \<open>simp add: list_all_iff seed_grant_fixed\<close>)
  with fields r assms show ?thesis
    by (simp add: seed_role_def then_do_def statement_calm put_role_fixed[OF assms(1) r(1,2)])
qed

lemma seed_plan_fixed:
  assumes "seed_db_ok (sg_db s)" and "plan_seeded (sg_db s) def" and "sg_script s = []" and "def \<in> set plan_seeds"
  shows "seed_plan fresh def s = (Inr (), s)"
proof -
  have complete: "check_plan_seed def = Inr ()" "\<forall>k\<in>set entitlement_list. map_of (sd_entitlements def) k \<noteq> None"
      "\<forall>f\<in>set usage_feature_list. map_of (sd_usageLimits def) f \<noteq> None"
    using seeds_are_complete assms(4) by (simp_all add: list_all_iff)
  from assms(2) obtain p where p: "plan_with_slug (sg_db s) (sd_slug def) = Some p" "plan_columns def p"
      "matrix_seeded (sg_db s) (pl_id p) def"
    by (auto simp: plan_seeded_def split: option.splits)
  have "each (\<lambda>key. statement (put_entitlement def (pl_id p) key)) entitlement_list s = (Inr (), s)"
    by (rule each_fixed) (use p(3) assms complete in \<open>simp add: statement_calm put_entitlement_fixed matrix_seeded_def list_all_iff\<close>)
  moreover have "each (\<lambda>feature. statement (put_limits def (pl_id p) feature)) usage_feature_list s = (Inr (), s)"
    by (rule each_fixed) (use p(3) assms complete in \<open>simp add: statement_calm put_limits_fixed matrix_seeded_def list_all_iff\<close>)
  ultimately show ?thesis
    by (simp add: seed_plan_def complete(1) then_do_def statement_calm assms put_plan_fixed[OF assms(1) p(1,2)])
qed

lemma seed_tables_fixed:
  assumes "seed_db_ok (sg_db s)" and "catalogue_seeded (sg_db s)" and "sg_script s = []"
  shows "seed_tables fresh s = (Inr (), s)"
proof -
  have facts: "setting_seeded (sg_db s)" "list_all (permission_seeded (sg_db s)) permission_list"
      "list_all (role_seeded (sg_db s)) baseline_roles" "list_all (plan_seeded (sg_db s)) plan_seeds"
    using assms(2) by (simp_all add: catalogue_seeded_def)
  have "each (\<lambda>key. statement (put_permission fresh key)) permission_list s = (Inr (), s)"
    by (rule each_fixed) (use facts(2) assms in \<open>simp add: statement_calm put_permission_fixed list_all_iff\<close>)
  moreover have "each (seed_role fresh) baseline_roles s = (Inr (), s)"
    by (rule each_fixed) (use facts(3) assms in \<open>simp add: seed_role_fixed list_all_iff\<close>)
  moreover have "seed_plans fresh s = (Inr (), s)" unfolding seed_plans_def
    by (rule each_fixed) (use facts(4) assms in \<open>simp add: seed_plan_fixed list_all_iff\<close>)
  ultimately show ?thesis
    by (simp add: seed_tables_def seed_access_control_def then_do_def statement_calm assms(3)
        put_setting_fixed[OF assms(1) facts(1)])
qed

section \<open>A run without faults returns\<close>

lemma baseline_grants_are_permissions: "\<forall>x\<in>set baseline_roles. set (snd (snd x)) \<subseteq> set permission_list"
  by (auto simp: baseline_roles_def permission_list_def)

definition calm_with_permissions :: "seed_db seeding \<Rightarrow> bool" where
  "calm_with_permissions v \<longleftrightarrow> sg_script v = [] \<and> (\<forall>k\<in>set permission_list. permission_with_key (sg_db v) k \<noteq> None)"

lemma seed_role_total:
  assumes "calm_with_permissions v" and "set (snd (snd x)) \<subseteq> set permission_list"
  shows "\<exists>r v'. seed_role fresh x v = (Inr r, v') \<and> calm_with_permissions v'"
proof (cases x)
  case (fields name desc keys)
  obtain role d where put: "put_role fresh name desc (sg_db v) = Inr (role, d)" by (auto simp: put_role_def Let_def)
  have "permission_with_key d = permission_with_key (sg_db v)"
    using put by (auto simp: fun_eq_iff put_role_def permission_with_key_def Let_def)
  with assms(1) have calm: "calm_with_permissions (v\<lparr>sg_db := d\<rparr>)" by (simp add: calm_with_permissions_def)
  have "\<exists>w'. each (seed_grant (ro_id role)) keys (v\<lparr>sg_db := d\<rparr>) = (Inr (), w') \<and> calm_with_permissions w'"
  proof (rule each_total[where I = calm_with_permissions, OF calm])
    fix k w assume "k \<in> set keys" and w: "calm_with_permissions w"
    with assms(2) fields obtain p where p: "permission_with_key (sg_db w) k = Some p"
      by (auto simp: calm_with_permissions_def)
    have "calm_with_permissions (w\<lparr>sg_db := d'\<rparr>)" if "put_grant i j (sg_db w) = Inr (u, d')" for i j u d'
      using w put_grant_returns(2)[OF that] by (simp add: calm_with_permissions_def)
    then show "\<exists>r w'. seed_grant (ro_id role) k w = (Inr r, w') \<and> calm_with_permissions w'"
      using w p by (simp add: seed_grant_def then_do_def statement_calm find_permission_def permission_with_key_def
          put_grant_def calm_with_permissions_def)
  qed
  with fields put assms(1) show ?thesis
    by (auto simp: seed_role_def then_do_def statement_calm calm_with_permissions_def)
qed

lemma seed_plan_total:
  assumes "sg_script v = []" and "def \<in> set plan_seeds"
  shows "\<exists>r v'. seed_plan fresh def v = (Inr r, v') \<and> sg_script v' = []"
proof -
  have complete: "check_plan_seed def = Inr ()" "\<forall>f\<in>set usage_feature_list. map_of (sd_usageLimits def) f \<noteq> None"
    using seeds_are_complete assms(2) by (simp_all add: list_all_iff)
  obtain p d where put: "put_plan fresh def (sg_db v) = Inr (p, d)" by (auto simp: put_plan_def Let_def)
  have "\<exists>w. each (\<lambda>key. statement (put_entitlement def (pl_id p) key)) entitlement_list (v\<lparr>sg_db := d\<rparr>) = (Inr (), w) \<and> sg_script w = []"
    by (rule each_total) (simp_all add: assms statement_calm put_entitlement_def Let_def)
  then obtain w where w: "each (\<lambda>key. statement (put_entitlement def (pl_id p) key)) entitlement_list (v\<lparr>sg_db := d\<rparr>) = (Inr (), w)"
      "sg_script w = []" by blast
  have "\<exists>w'. each (\<lambda>feature. statement (put_limits def (pl_id p) feature)) usage_feature_list w = (Inr (), w') \<and> sg_script w' = []"
    by (rule each_total[where I = "\<lambda>w. sg_script w = []", OF w(2)]) (use complete(2) in \<open>auto simp: statement_calm put_limits_def\<close>)
  with w put show ?thesis
    by (auto simp: seed_plan_def complete(1) then_do_def statement_calm assms(1))
qed

lemma seed_tables_total:
  assumes "sg_script s = []"
  shows "\<exists>s'. seed_tables fresh s = (Inr (), s')"
proof -
  obtain d where put: "put_setting (sg_db s) = Inr ((), d)" by (simp add: put_setting_def)
  have "\<exists>v. each (\<lambda>key. statement (put_permission fresh key)) permission_list (s\<lparr>sg_db := d\<rparr>) = (Inr (), v) \<and> sg_script v = []"
    by (rule each_total) (simp_all add: assms statement_calm put_permission_def Let_def)
  then obtain v where v: "each (\<lambda>key. statement (put_permission fresh key)) permission_list (s\<lparr>sg_db := d\<rparr>) = (Inr (), v)"
      "sg_script v = []" by blast
  have "calm_with_permissions v"
    using v(2) permissions_established[OF v(1)]
    by (auto simp: calm_with_permissions_def permission_seeded_def list_all_iff)
  then have "\<exists>w. each (seed_role fresh) baseline_roles v = (Inr (), w) \<and> calm_with_permissions w"
    by (rule each_total) (use baseline_grants_are_permissions in \<open>blast intro: seed_role_total\<close>)
  then obtain w where w: "each (seed_role fresh) baseline_roles v = (Inr (), w)" "sg_script w = []"
    by (auto simp: calm_with_permissions_def)
  have "\<exists>u. seed_plans fresh w = (Inr (), u) \<and> sg_script u = []"
    unfolding seed_plans_def by (rule each_total[where I = "\<lambda>w. sg_script w = []", OF w(2)]) (use seed_plan_total in force)
  with put v w assms show ?thesis
    by (auto simp: seed_tables_def seed_access_control_def then_do_def statement_calm)
qed

section \<open>What the grants and the matrices mean\<close>

text \<open>A seeded role holds its permissions in the sense of the resolver.\<close>

lemma seeded_role_grants:
  assumes "seed_db_ok d" and "role_seeded d (name, desc, keys)" and "k \<in> set keys"
    and "r \<in> set (ad_roles (sx_access d))" and "ro_name r = name"
  shows "k \<in> set (role_keys (sx_access d) r)"
proof -
  let ?a = "sx_access d"
  have names: "distinct (map ro_name (ad_roles ?a))" and ids: "distinct (map pe_id (ad_permissions ?a))"
    using assms(1) by (simp_all add: seed_db_ok_def)
  have "role_with_name d name = Some r"
    using find_unique_iff[OF names, of name r] assms(4,5) by (simp add: role_with_name_def)
  with assms(2,3) have "granted d (ro_id r) k" by (simp add: role_seeded_def list_all_iff)
  then obtain p where p: "List.find (\<lambda>p. pe_key p = k) (ad_permissions ?a) = Some p"
      "\<lparr>rp_roleId = ro_id r, rp_permissionId = pe_id p\<rparr> \<in> set (ad_rolePermissions ?a)"
    by (auto simp: granted_def permission_with_key_def split: option.splits)
  then have "p \<in> set (ad_permissions ?a)" "pe_key p = k" using find_SomeD[OF p(1)] by auto
  then have "List.find (\<lambda>q. pe_id q = pe_id p) (ad_permissions ?a) = Some p"
    using find_unique_iff[OF ids, of "pe_id p" p] by simp
  with p(2) \<open>pe_key p = k\<close> show ?thesis
    by (force simp: role_keys_def List.map_filter_def image_iff)
qed

section \<open>Properties\<close>

definition admin_complete :: "access_db \<Rightarrow> bool" where
  "admin_complete a \<longleftrightarrow>
     (\<exists>r\<in>set (ad_roles a). ro_name r = role_admin) \<and>
     (\<forall>r\<in>set (ad_roles a). ro_name r = role_admin \<longrightarrow> set permission_list \<subseteq> set (role_keys a r))"

lemma seeded_admin_complete:
  assumes "seed_db_ok d" and "catalogue_seeded d"
  shows "admin_complete (sx_access d)"
proof -
  have admin: "role_seeded d (role_admin, ''Full administrative access'', permission_list)"
    using assms(2) by (simp add: catalogue_seeded_def baseline_roles_def)
  then obtain r where "role_with_name d role_admin = Some r"
    by (auto simp: role_seeded_def split: option.splits)
  then have "r \<in> set (ad_roles (sx_access d)) \<and> ro_name r = role_admin"
    by (auto simp: role_with_name_def dest!: find_SomeD)
  with seeded_role_grants[OF assms(1) admin] show ?thesis by (auto simp: admin_complete_def)
qed

text \<open>
  C39. The seed script. Whatever statement fails, the unique constraints hold and no row is
  removed or loses its id or key: grants an operator made, user roles and subscriptions stay. An exit code 0
  means the whole catalogue is there with its descriptions, grants and matrices, and every role
  called admin holds every permission; the script exits with 0 when no statement fails, whatever
  Redis does; and run again then, it changes nothing.
\<close>

theorem seeding_is_safe_complete_and_idempotent:
  assumes "\<forall>used. fresh used \<notin> set used" and "seed_db_ok d" and "truthy databaseUrl = Some u"
    and "seed_main fresh R connect databaseUrl url now script (d, s) = ((code, lines), d', s')"
  shows "seed_db_ok d' \<and> grown d d' \<and>
    (script = [] \<longrightarrow> code = 0) \<and>
    (code = 0 \<longrightarrow> catalogue_seeded d' \<and> admin_complete (sx_access d') \<and>
       (\<exists>again s''. seed_main fresh R connect databaseUrl url now [] (d', s') = ((0, again), d', s'')))"
proof -
  obtain r w where run: "seed_tables fresh \<lparr>sg_db = d, sg_script = script\<rparr> = (r, w)" by fastforce
  have w: "d' = sg_db w" "code = 0 \<longleftrightarrow> r = Inr ()"
    using assms(3,4) run by (auto simp: seed_main_def seed_def split: sum.splits prod.splits)
  have ok: "seed_db_ok d' \<and> grown d d'"
    using seed_tables_safe[OF assms(1), of "\<lparr>sg_db = d, sg_script = script\<rparr>"] assms(2) run w(1) by simp
  moreover have "code = 0" if "script = []"
    using seed_tables_total[of "\<lparr>sg_db = d, sg_script = script\<rparr>" fresh] run w(2) that by auto
  moreover have "catalogue_seeded d'" if "code = 0"
    using catalogue_established[OF assms(1), of "\<lparr>sg_db = d, sg_script = script\<rparr>" w] assms(2) run w that by simp
  moreover have "\<exists>again s''. seed_main fresh R connect databaseUrl url now [] (d', s') = ((0, again), d', s'')"
    if "catalogue_seeded d'"
    using seed_tables_fixed[of "\<lparr>sg_db = d', sg_script = []\<rparr>" fresh] ok that assms(3)
    by (simp add: seed_main_def seed_def split: prod.split)
  ultimately show ?thesis using seeded_admin_complete by blast
qed

definition longer_id :: "string list \<Rightarrow> string" where
  "longer_id used = replicate (Suc (fold max (map length used) 0)) CHR ''x''"

lemma fold_max_ge: "n \<le> fold max ns (n :: nat)"
  by (induction ns arbitrary: n) (auto intro: order_trans[OF max.cobounded2])

lemma fold_max_mem: "k \<in> set ns \<Longrightarrow> k \<le> fold max ns (n :: nat)"
  by (induction ns arbitrary: n) (auto intro: order_trans[OF _ fold_max_ge])

lemma longer_id_fresh: "\<forall>used. longer_id used \<notin> set used"
proof (intro allI notI)
  fix used assume "longer_id used \<in> set used"
  then have "length (longer_id used) \<le> fold max (map length used) 0" by (intro fold_max_mem) simp
  then show False by (simp add: longer_id_def)
qed

definition empty_seed_db :: seed_db where
  "empty_seed_db =
     \<lparr>sx_settings = [],
      sx_access = \<lparr>ad_roles = [], ad_permissions = [], ad_rolePermissions = [], ad_userRoles = []\<rparr>,
      sx_plans = \<lparr>pd_plans = [], pd_entitlements = [], pd_usage = [], pd_subscriptions = [], pd_down = None\<rparr>\<rparr>"

definition demo_seeding :: "tx_fault list \<Rightarrow> (int \<times> string list) \<times> seed_db \<times> mem_conn" where
  "demo_seeding script =
     seed_main longer_id mem_redis (\<lambda>c. (Inr (), c)) (Some ''postgres://db'') (Some ''redis://cache'') 5 script
       (empty_seed_db, \<lparr>mc_view = \<lparr>rv_clock = 0, rv_data = Map.empty\<rparr>, mc_script = [Cmd_refused]\<rparr>)"

lemma empty_seed_db_ok: "seed_db_ok empty_seed_db"
  by (simp add: seed_db_ok_def empty_seed_db_def plan_db_ok_def)

theorem seeding_is_safe_complete_and_idempotent_witness:
  "fst (fst (demo_seeding [])) = 0 \<and> admin_complete (sx_access (fst (snd (demo_seeding [])))) \<and>
   seed_db_ok (fst (snd (demo_seeding [Tx_ok, Tx_ok, Tx_unreported connection_lost])))"
proof -
  have url: "truthy (Some ''postgres://db'') = Some ''postgres://db''" by (simp add: truthy_def)
  note claim = seeding_is_safe_complete_and_idempotent[OF longer_id_fresh empty_seed_db_ok url, of mem_redis]
  obtain code lines d' s' where calm: "demo_seeding [] = ((code, lines), d', s')" by (metis prod.exhaust)
  obtain code' lines' e' t' where broken:
    "demo_seeding [Tx_ok, Tx_ok, Tx_unreported connection_lost] = ((code', lines'), e', t')" by (metis prod.exhaust)
  show ?thesis
    using claim[OF calm[unfolded demo_seeding_def]] claim[OF broken[unfolded demo_seeding_def]] calm broken by simp
qed

end
