(* ===== verification/Mail.thy ===== *)
theory Mail
  imports HttpBoundary
begin

text \<open>
  The mail port (\<open>src/infrastructure/mail\<close>): the recorder of the log transport, the SMTP
  adapter over a transporter, which is a library and an argument here, and the choice between
  them. The log lines are left out.
\<close>

section \<open>The recorder\<close>

record mail_message =
  ml_to :: string
  ml_subject :: string
  ml_text :: string

record recorded_mail =
  rm_message :: mail_message
  rm_recordedAt :: int

definition max_recorded :: nat where "max_recorded = 50"

text \<open>\<open>while (messages.length > MAX_RECORDED) messages.shift()\<close>.\<close>

fun shift_surplus :: "'a list \<Rightarrow> 'a list" where
  "shift_surplus [] = []"
| "shift_surplus (x # xs) = (if length (x # xs) > max_recorded then shift_surplus xs else x # xs)"

definition record_mail :: "mail_message \<Rightarrow> int \<Rightarrow> recorded_mail list \<Rightarrow> recorded_mail list" where
  "record_mail m now messages = shift_surplus (messages @ [\<lparr>rm_message = m, rm_recordedAt = now\<rparr>])"

definition last_to :: "string \<Rightarrow> recorded_mail list \<Rightarrow> recorded_mail option" where
  "last_to addr messages =
     List.find (\<lambda>r. map lower_char (ml_to (rm_message r)) = map lower_char addr) (rev messages)"

text \<open>The leftmost match of \<open>/https?:\/\/\S+/\<close>.\<close>

definition link_at :: "string \<Rightarrow> string option" where
  "link_at s =
     (let match = (\<lambda>p. if starts_with p s \<and> takeWhile (\<lambda>c. \<not> is_space c) (drop (length p) s) \<noteq> []
                       then Some (p @ takeWhile (\<lambda>c. \<not> is_space c) (drop (length p) s)) else None)
      in case match ''https://'' of Some l \<Rightarrow> Some l | None \<Rightarrow> match ''http://'')"

fun first_link :: "string \<Rightarrow> string option" where
  "first_link [] = None"
| "first_link (c # cs) = (case link_at (c # cs) of Some l \<Rightarrow> Some l | None \<Rightarrow> first_link cs)"

definition last_link_to :: "string \<Rightarrow> recorded_mail list \<Rightarrow> string option" where
  "last_link_to addr messages =
     first_link (case last_to addr messages of Some r \<Rightarrow> ml_text (rm_message r) | None \<Rightarrow> [])"

section \<open>The adapters\<close>

definition log_send :: "int \<Rightarrow> mail_message \<Rightarrow> recorded_mail list \<Rightarrow> (exn + unit) \<times> recorded_mail list" where
  "log_send now m messages = (Inr (), record_mail m now messages)"

definition delivery_failed :: exn where
  "delivery_failed = api_error 503 SERVICE_UNAVAILABLE ''Could not send the message. Please try again.''"

text \<open>\<open>transporter.sendMail\<close> takes the sender beside the message.\<close>

definition smtp_send ::
  "(string \<Rightarrow> mail_message \<Rightarrow> 'w \<Rightarrow> (exn + unit) \<times> 'w) \<Rightarrow> string \<Rightarrow> mail_message \<Rightarrow> 'w \<Rightarrow> (exn + unit) \<times> 'w" where
  "smtp_send sendMail sender m w =
     (case sendMail sender m w of
        (Inr _, w') \<Rightarrow> (Inr (), w')
      | (Inl _, w') \<Rightarrow> (Inl delivery_failed, w'))"

text \<open>The provider of \<open>MailerService\<close>; the state is the recorder beside the transporter's.\<close>

definition mailer_send ::
  "string \<Rightarrow> (string \<Rightarrow> mail_message \<Rightarrow> 'w \<Rightarrow> (exn + unit) \<times> 'w) \<Rightarrow> string \<Rightarrow> int \<Rightarrow> mail_message \<Rightarrow>
     recorded_mail list \<times> 'w \<Rightarrow> (exn + unit) \<times> recorded_mail list \<times> 'w" where
  "mailer_send transport sendMail sender now m = (\<lambda>(messages, w).
     (if transport = ''smtp'' then
        (case smtp_send sendMail sender m w of (r, w') \<Rightarrow> (r, messages, w'))
      else (case log_send now m messages of (r, messages') \<Rightarrow> (r, messages', w))))"

section \<open>Laws\<close>

lemma shift_surplus_drop: "shift_surplus xs = drop (length xs - max_recorded) xs"
  by (induction xs) (auto simp: Suc_diff_le not_less)

lemma recorder_bounded: "length (record_mail m now messages) \<le> max_recorded"
  by (simp add: record_mail_def shift_surplus_drop)

text \<open>The newest message stays, and is the last one to its recipient.\<close>

lemma last_recorded: "last (record_mail m now messages) = \<lparr>rm_message = m, rm_recordedAt = now\<rparr>"
  by (simp add: record_mail_def shift_surplus_drop max_recorded_def last_drop)

lemma last_to_recorded: "last_to (ml_to m) (record_mail m now messages) = Some \<lparr>rm_message = m, rm_recordedAt = now\<rparr>"
proof -
  have "record_mail m now messages \<noteq> []"
    by (simp add: record_mail_def shift_surplus_drop max_recorded_def)
  then obtain pre where "record_mail m now messages = pre @ [\<lparr>rm_message = m, rm_recordedAt = now\<rparr>]"
    by (metis append_butlast_last_id last_recorded)
  then show ?thesis by (simp add: last_to_def)
qed

text \<open>A failed delivery is never reported as sent, and says no more than that it failed.\<close>

lemma smtp_reports_failure:
  "fst (smtp_send sendMail sender m w) = Inr () \<longleftrightarrow> (\<exists>u. fst (sendMail sender m w) = Inr u)"
  "fst (smtp_send sendMail sender m w) = Inl e \<Longrightarrow> e = delivery_failed"
  by (auto simp: smtp_send_def split: prod.splits sum.splits)

lemma smtp_records_nothing: "fst (snd (mailer_send ''smtp'' sendMail sender now m (messages, w))) = messages"
  by (simp add: mailer_send_def split: prod.split)

end
