(* ===== verification/Queues.thy ===== *)
theory Queues
  imports Mail CreditFlow Organizations FeatureFlags ConfigNamespaces
begin

text \<open>
  The background queues (\<open>src/modules/queues\<close>) beside the credit compensations of
  \<open>CreditFlow\<close>: the names and options, the enqueue services, the workers for mail, webhooks
  and usage rollups, and the listener that turns a low-balance event into a mail.

  BullMQ is a library: a queue is its \<open>add\<close>, an argument; \<open>fetch\<close> and Redis' \<open>SCAN\<close>
  are arguments of the workers that use them.
\<close>

section \<open>Names and options\<close>

definition queue_email :: string where "queue_email = ''email''"
definition queue_webhooks :: string where "queue_webhooks = ''webhooks.outbound''"
definition queue_rollups :: string where "queue_rollups = ''usage.rollups''"
definition queue_compensations :: string where "queue_compensations = ''credits.compensations''"

definition registered_queues :: "string list" where
  "registered_queues = [queue_email, queue_webhooks, queue_rollups, queue_compensations]"

record bull_options =
  bo_url :: string
  bo_prefix :: string
  bo_attempts :: int
  bo_backoffType :: string
  bo_backoffDelay :: int
  bo_removeOnComplete :: int
  bo_removeOnFail :: int

definition bull_options_of :: "string \<Rightarrow> queues_config \<Rightarrow> bull_options" where
  "bull_options_of redisUrl config =
     \<lparr>bo_url = redisUrl, bo_prefix = qc_prefix config, bo_attempts = qc_defaultAttempts config,
      bo_backoffType = ''exponential'', bo_backoffDelay = qc_backoffMs config,
      bo_removeOnComplete = 500, bo_removeOnFail = 1000\<rparr>"

section \<open>Enqueueing\<close>

type_synonym ('p, 'q) job_add = "string \<Rightarrow> 'p \<Rightarrow> 'q \<Rightarrow> (exn + unit) \<times> 'q"

record webhook_job =
  wh_url :: string
  wh_body :: json
  wh_headers :: "(string \<times> string) list"

definition enqueue_email :: "(mail_message, 'q) job_add \<Rightarrow> mail_message \<Rightarrow> 'q \<Rightarrow> (exn + unit) \<times> 'q" where
  "enqueue_email add m = add ''send'' m"

definition enqueue_outbound_webhook :: "(webhook_job, 'q) job_add \<Rightarrow> webhook_job \<Rightarrow> 'q \<Rightarrow> (exn + unit) \<times> 'q" where
  "enqueue_outbound_webhook add payload = add ''deliver'' payload"

text \<open>The payload of a rollup is the time of its trigger.\<close>

definition enqueue_rollup :: "(string, 'q) job_add \<Rightarrow> int \<Rightarrow> 'q \<Rightarrow> (exn + unit) \<times> 'q" where
  "enqueue_rollup add now = add ''rollup'' (iso_string now)"

text \<open>The scheduler's period, when it has one, and one tick of it, with the warning it prints.\<close>

definition rollup_interval :: "queues_config \<Rightarrow> int option" where
  "rollup_interval config =
     (if qc_usageRollupIntervalMs config \<le> 0 then None else Some (qc_usageRollupIntervalMs config))"

definition rollup_tick :: "(string, 'q) job_add \<Rightarrow> int \<Rightarrow> 'q \<Rightarrow> string option \<times> 'q" where
  "rollup_tick add now q =
     (case enqueue_rollup add now q of
        (Inr _, q') \<Rightarrow> (None, q')
      | (Inl e, q') \<Rightarrow> (Some (''Failed to enqueue scheduled usage rollup: '' @ exn_message e), q'))"

section \<open>Workers\<close>

definition process_email :: "(mail_message \<Rightarrow> 'w \<Rightarrow> (exn + unit) \<times> 'w) \<Rightarrow> mail_message \<Rightarrow> 'w \<Rightarrow> (exn + unit) \<times> 'w" where
  "process_email send job w = (case send job w of (Inl e, w') \<Rightarrow> (Inl e, w') | (Inr _, w') \<Rightarrow> (Inr (), w'))"

definition webhook_timeout_ms :: int where "webhook_timeout_ms = 10000"

text \<open>What \<open>fetch\<close> is given: the URL, the headers, the body and the time after which it is aborted.\<close>

record webhook_request =
  wq_url :: string
  wq_headers :: "(string \<times> string) list"
  wq_body :: string
  wq_timeout :: int

definition webhook_request_of :: "webhook_job \<Rightarrow> webhook_request" where
  "webhook_request_of job =
     \<lparr>wq_url = wh_url job,
      wq_headers = foldl (\<lambda>o' (k, v). obj_put k v o') [(''Content-Type'', ''application/json'')] (wh_headers job),
      wq_body = to_json (wh_body job), wq_timeout = webhook_timeout_ms\<rparr>"

definition response_ok :: "int \<Rightarrow> bool" where
  "response_ok status \<longleftrightarrow> 200 \<le> status \<and> status \<le> 299"

definition webhook_refused :: "string \<Rightarrow> int \<Rightarrow> exn" where
  "webhook_refused url status =
     OtherExn (''Webhook POST to '' @ url @ '' responded with status '' @ show_int status)"

definition process_webhook ::
  "(webhook_request \<Rightarrow> 'w \<Rightarrow> (exn + int) \<times> 'w) \<Rightarrow> webhook_job \<Rightarrow> 'w \<Rightarrow> (exn + unit) \<times> 'w" where
  "process_webhook fetch job w =
     (case fetch (webhook_request_of job) w of
        (Inl e, w') \<Rightarrow> (Inl e, w')
      | (Inr status, w') \<Rightarrow>
          (if \<not> response_ok status then (Inl (webhook_refused (wh_url job) status), w') else (Inr (), w')))"

text \<open>
  The \<open>do\<close> loop of \<open>UsageRollupProcessor.process\<close>: the number of keys seen until the cursor
  is back at zero. It returns when the scan comes to its end.
\<close>

partial_function (option) rollup_scan ::
  "(string \<Rightarrow> 'w \<Rightarrow> (exn + string \<times> string list) \<times> 'w) \<Rightarrow> string \<Rightarrow> int \<Rightarrow> 'w \<Rightarrow> ((exn + int) \<times> 'w) option" where
  "rollup_scan scan cursor scanned w =
     (case scan cursor w of
        (Inl e, w') \<Rightarrow> Some (Inl e, w')
      | (Inr page, w') \<Rightarrow>
          (if fst page \<noteq> ''0'' then rollup_scan scan (fst page) (scanned + int (length (snd page))) w'
           else Some (Inr (scanned + int (length (snd page))), w')))"

definition process_rollup ::
  "(string \<Rightarrow> 'w \<Rightarrow> (exn + string \<times> string list) \<times> 'w) \<Rightarrow> 'w \<Rightarrow> ((exn + int) \<times> 'w) option" where
  "process_rollup scan w = rollup_scan scan ''0'' 0 w"

section \<open>The low-balance listener\<close>

record listener_env =
  ll_flags :: "exn + flag_override list"
  ll_flagDefaults :: "(string \<times> bool) list"
  ll_always :: bool
  ll_emails :: "string \<Rightarrow> string option"
  ll_members :: "member_row list"
  ll_down :: "exn option"

definition flag_context_of :: "billing_subject \<Rightarrow> flag_context" where
  "flag_context_of s =
     (case s of
        User_Subject u \<Rightarrow> \<lparr>fc_userId = Some u, fc_organizationId = None\<rparr>
      | Org_Subject o' \<Rightarrow> \<lparr>fc_userId = None, fc_organizationId = Some o'\<rparr>)"

text \<open>\<open>findFirst\<close> by role, the oldest membership first.\<close>

definition first_owner :: "string \<Rightarrow> member_row list \<Rightarrow> member_row option" where
  "first_owner o' rows =
     (case sort_key om_createdAt (filter (\<lambda>r. om_organizationId r = o' \<and> om_role r = Owner) rows) of
        [] \<Rightarrow> None | r # _ \<Rightarrow> Some r)"

definition resolve_recipient :: "listener_env \<Rightarrow> billing_subject \<Rightarrow> exn + string option" where
  "resolve_recipient env s =
     (case ll_down env of
        Some e \<Rightarrow> Inl e
      | None \<Rightarrow>
          Inr (case s of
                 User_Subject u \<Rightarrow> ll_emails env u
               | Org_Subject o' \<Rightarrow> Option.bind (first_owner o' (ll_members env)) (\<lambda>r. ll_emails env (om_userId r))))"

definition low_balance_mail :: "low_balance_payload \<Rightarrow> string \<Rightarrow> mail_message" where
  "low_balance_mail p recipient =
     \<lparr>ml_to = recipient, ml_subject = ''Your credit balance is low'',
      ml_text = ''Your balance is now '' @ show_int (lb_balance p) @
                '', at or below your configured threshold of '' @ show_int (lb_threshold p) @
                ''. Top up to avoid interruptions.''\<rparr>"

definition handle_low_balance ::
  "listener_env \<Rightarrow> (mail_message, 'q) job_add \<Rightarrow> low_balance_payload \<Rightarrow> 'q \<Rightarrow> (exn + unit) \<times> 'q" where
  "handle_low_balance env add p q =
     (case is_enabled (ll_flagDefaults env) (ll_flags env) flag_email_low_balance (flag_context_of (lb_subject p)) of
        Inl e \<Rightarrow> (Inl e, q)
      | Inr flagEnabled \<Rightarrow>
          (if \<not> flagEnabled \<and> \<not> ll_always env then (Inr (), q)
           else
             (case resolve_recipient env (lb_subject p) of
                Inl e \<Rightarrow> (Inl e, q)
              | Inr recipient \<Rightarrow>
                  (case truthy recipient of
                     None \<Rightarrow> (Inr (), q)
                   | Some addr \<Rightarrow> enqueue_email add (low_balance_mail p addr) q))))"

section \<open>Laws\<close>

text \<open>A delivery that was not accepted is retried: the worker returns exactly on a status of the two hundreds.\<close>

lemma webhook_delivered:
  "fst (process_webhook fetch job w) = Inr () \<longleftrightarrow>
     (\<exists>status. fst (fetch (webhook_request_of job) w) = Inr status \<and> response_ok status)"
  by (auto simp: process_webhook_def split: prod.splits sum.splits)

lemma map_of_foldl_put:
  "map_of (foldl (\<lambda>o' (k, v). obj_put k v o') o0 hs) h = (case map_of (rev hs) h of Some v \<Rightarrow> Some v | None \<Rightarrow> map_of o0 h)"
  by (induction hs arbitrary: o0) (auto simp: map_add_def split: option.splits)

text \<open>The job's own headers win over the content type.\<close>

lemma webhook_headers:
  "map_of (wq_headers (webhook_request_of job)) h =
     (case map_of (rev (wh_headers job)) h of
        Some v \<Rightarrow> Some v | None \<Rightarrow> if h = ''Content-Type'' then Some ''application/json'' else None)"
  by (simp add: webhook_request_of_def map_of_foldl_put split: option.split)

text \<open>A scan that visits a list of pages, the last with cursor zero, is counted whole.\<close>

lemma rollup_counts_pages:
  assumes "\<And>i. i < length pages \<Longrightarrow> scan (cursors ! i) (ws ! i) = (Inr (cursors ! Suc i, pages ! i), ws ! Suc i)"
    and "\<And>i. Suc i < length pages \<Longrightarrow> cursors ! Suc i \<noteq> ''0''"
    and "pages \<noteq> []" and "cursors ! length pages = ''0''"
  shows "rollup_scan scan (cursors ! 0) n (ws ! 0) = Some (Inr (n + int (sum_list (map length pages))), ws ! length pages)"
  using assms
proof (induction pages arbitrary: cursors ws n)
  case (Cons p ps)
  have now: "scan (cursors ! 0) (ws ! 0) = (Inr (cursors ! 1, p), ws ! 1)" using Cons.prems(1)[of 0] by simp
  show ?case
  proof (cases ps)
    case Nil
    with Cons.prems(4) now show ?thesis by (subst rollup_scan.simps) simp
  next
    case (Cons q qs)
    let ?cs = "map (\<lambda>i. cursors ! Suc i) [0..<Suc (length ps)]"
    let ?ws = "map (\<lambda>i. ws ! Suc i) [0..<Suc (length ps)]"
    have more: "cursors ! 1 \<noteq> ''0''" using Cons.prems(2)[of 0] Cons by simp
    have "rollup_scan scan (?cs ! 0) (n + int (length p)) (?ws ! 0) =
        Some (Inr (n + int (length p) + int (sum_list (map length ps))), ?ws ! length ps)"
      by (rule Cons.IH) (use Cons.prems Cons in \<open>force simp: nth_append simp del: upt_Suc\<close>)+
    with now more show ?thesis by (subst rollup_scan.simps) (simp del: upt_Suc)
  qed
qed simp

lemma unmailed_without_consent:
  assumes "\<not> ll_always env" and "is_enabled (ll_flagDefaults env) (ll_flags env) flag_email_low_balance
      (flag_context_of (lb_subject p)) = Inr False"
  shows "handle_low_balance env add p q = (Inr (), q)"
  using assms by (simp add: handle_low_balance_def)

end
