(* ===== verification/Shutdown.thy ===== *)
theory Shutdown
  imports Queues
begin

text \<open>
  The end of the process: the readiness flag (\<open>src/infrastructure/health\<close>) and the bounded
  drain of the queues (\<open>src/modules/queues/queue-shutdown.service.ts\<close>).

  The drain loops while there is work and time, so it is a partial function, and it awaits
  promises of the queue library that may never settle: not returning is the value \<open>None\<close>. That
  it returns unless such a promise hangs is a theorem, under the documented behaviour of the
  clock and of \<open>setTimeout\<close>.
\<close>

section \<open>The drain\<close>

definition poll_interval_ms :: int where "poll_interval_ms = 200"

definition drained_queues :: "string list" where
  "drained_queues = [queue_email, queue_webhooks, queue_rollups]"

text \<open>
  What the service talks to: the clock, the active counts of the queues, asked for together,
  \<open>setTimeout\<close> and the disconnects, whose failures are ignored. Asking for the counts may
  throw, each count may reject, and the await of the counts or of a disconnect may not settle at
  all (\<open>None\<close>): the client of the queues is built with \<open>maxRetriesPerRequest: null\<close>, so a command
  waits for as long as Redis cannot be reached.
\<close>

record 'w drain_env =
  dr_now :: "'w \<Rightarrow> int"
  dr_counts :: "string list \<Rightarrow> 'w \<Rightarrow> ((exn + (exn + int) list) \<times> 'w) option"
  dr_delay :: "int \<Rightarrow> 'w \<Rightarrow> 'w"
  dr_disconnect :: "string \<Rightarrow> 'w \<Rightarrow> 'w option"

datatype drain_event =
    Polled int
  | Paused int
  | Still_active int
  | Interrupted string
  | Disconnected string

text \<open>\<open>activeJobCount\<close>: a count that rejects is zero, one that does not settle is waited for.\<close>

definition active_job_count :: "'w drain_env \<Rightarrow> 'w \<Rightarrow> ((exn + int) \<times> 'w) option" where
  "active_job_count E w =
     (case dr_counts E drained_queues w of
        None \<Rightarrow> None
      | Some (Inl e, w') \<Rightarrow> Some (Inl e, w')
      | Some (Inr counts, w') \<Rightarrow>
          Some (Inr (sum_list (map (\<lambda>c. case c of Inl _ \<Rightarrow> 0 | Inr n \<Rightarrow> n) counts)), w'))"

text \<open>How the loop is left: idle, by an error, or at the deadline.\<close>

datatype drain_end = Idle | Failed exn | Window_over

partial_function (option) drain_loop ::
  "'w drain_env \<Rightarrow> int \<Rightarrow> drain_event list \<Rightarrow> 'w \<Rightarrow> (drain_end \<times> drain_event list \<times> 'w) option" where
  "drain_loop E deadline events w =
     (if dr_now E w < deadline then
        (case active_job_count E w of
           None \<Rightarrow> None
         | Some (Inl e, w1) \<Rightarrow> Some (Failed e, events, w1)
         | Some (Inr active, w1) \<Rightarrow>
             (if active = 0 then Some (Idle, events @ [Polled active], w1)
              else drain_loop E deadline (events @ [Polled active, Paused poll_interval_ms])
                     (dr_delay E poll_interval_ms w1)))
      else Some (Window_over, events, w))"

text \<open>All three disconnects are started and awaited together.\<close>

definition disconnect_queues :: "'w drain_env \<Rightarrow> drain_event list \<Rightarrow> 'w \<Rightarrow> (drain_event list \<times> 'w) option" where
  "disconnect_queues E events w =
     map_option (Pair (events @ map Disconnected drained_queues))
       (fold (\<lambda>q v. Option.bind v (dr_disconnect E q)) drained_queues (Some w))"

text \<open>\<open>onApplicationShutdown\<close>: what happened, in order.\<close>

definition on_application_shutdown :: "'w drain_env \<Rightarrow> int \<Rightarrow> 'w \<Rightarrow> (drain_event list \<times> 'w) option" where
  "on_application_shutdown E drainMs w =
     (case drain_loop E (dr_now E w + drainMs) [] w of
        None \<Rightarrow> None
      | Some (how, events, w1) \<Rightarrow>
          (case how of
             Idle \<Rightarrow> Some (events, w1)
           | Failed e \<Rightarrow> disconnect_queues E (events @ [Interrupted (exn_message e)]) w1
           | Window_over \<Rightarrow>
               (case active_job_count E w1 of
                  None \<Rightarrow> None
                | Some (r, w2) \<Rightarrow>
                    (let remaining = (case r of Inl _ \<Rightarrow> 0 | Inr n \<Rightarrow> n)
                     in disconnect_queues E
                          (if remaining > 0 then events @ [Still_active remaining] else events) w2))))"

section \<open>Readiness\<close>

record shutdown_state =
  st_shuttingDown :: bool

definition before_application_shutdown :: "shutdown_state \<Rightarrow> shutdown_state" where
  "before_application_shutdown s = s\<lparr>st_shuttingDown := True\<rparr>"

text \<open>The checks of Terminus: each is up, or down with a reason.\<close>

definition shutdown_check :: "shutdown_state \<Rightarrow> exn + unit" where
  "shutdown_check s = (if st_shuttingDown s then Inl (OtherExn ''Application is shutting down'') else Inr ())"

text \<open>\<open>RedisHealthIndicator.isHealthy\<close>, given what the race of the ping and the timer ended in.\<close>

definition redis_healthy :: "exn + string \<Rightarrow> exn + unit" where
  "redis_healthy raced =
     (case raced of
        Inl e \<Rightarrow> Inl (OtherExn (exn_message e))
      | Inr reply \<Rightarrow> (if reply \<noteq> ''PONG'' then Inl (OtherExn ''Unexpected reply to PING'') else Inr ()))"

text \<open>The race: the answer when it comes within the time, the timer's rejection otherwise.\<close>

definition with_timeout :: "int \<Rightarrow> (int \<times> (exn + 'a)) option \<Rightarrow> exn + 'a" where
  "with_timeout ms promise =
     (case promise of
        Some (t, outcome) \<Rightarrow>
          (if t < ms then outcome
           else Inl (OtherExn (''Health check timed out after '' @ show_int ms @ ''ms'')))
      | None \<Rightarrow> Inl (OtherExn (''Health check timed out after '' @ show_int ms @ ''ms'')))"

definition readiness_checks :: "shutdown_state \<Rightarrow> (exn + unit) \<Rightarrow> int \<Rightarrow> (int \<times> (exn + string)) option \<Rightarrow> (exn + unit) list" where
  "readiness_checks s database timeout ping =
     [shutdown_check s, database, redis_healthy (with_timeout timeout ping)]"

definition liveness_checks :: "(exn + unit) list" where "liveness_checks = []"

text \<open>Terminus answers 200 when all are up and 503 otherwise.\<close>

definition probe_ok :: "(exn + unit) list \<Rightarrow> bool" where
  "probe_ok checks \<longleftrightarrow> list_all (\<lambda>c. c = Inr ()) checks"

lemma not_ready_while_shutting_down:
  "\<not> probe_ok (readiness_checks (before_application_shutdown s) database timeout ping)"
  by (simp add: probe_ok_def readiness_checks_def before_application_shutdown_def shutdown_check_def)

text \<open>A Redis that never answers fails the probe instead of hanging it.\<close>

lemma silent_redis_not_ready: "\<not> probe_ok (readiness_checks s database timeout None)"
  by (simp add: probe_ok_def readiness_checks_def redis_healthy_def with_timeout_def)

section \<open>The drain ends\<close>

definition pauses :: "drain_event list \<Rightarrow> nat" where
  "pauses events = length (filter (\<lambda>e. case e of Paused _ \<Rightarrow> True | _ \<Rightarrow> False) events)"

lemma pauses_simps [simp]:
  "pauses [] = 0" "pauses (Polled n # es) = pauses es" "pauses (Paused n # es) = Suc (pauses es)"
  "pauses (Still_active n # es) = pauses es" "pauses (Interrupted m # es) = pauses es"
  "pauses (Disconnected k # es) = pauses es" "pauses (es @ fs) = pauses es + pauses fs"
  by (simp_all add: pauses_def)

text \<open>The clock does not run backwards while the counts are read, and a delay lasts at least its time.\<close>

definition time_passes :: "'w drain_env \<Rightarrow> bool" where
  "time_passes E \<longleftrightarrow>
     (\<forall>qs w r w'. dr_counts E qs w = Some (r, w') \<longrightarrow> dr_now E w \<le> dr_now E w') \<and>
     (\<forall>ms w. dr_now E w + ms \<le> dr_now E (dr_delay E ms w))"

lemma count_takes_time:
  "time_passes E \<Longrightarrow> active_job_count E w = Some (r, w') \<Longrightarrow> dr_now E w \<le> dr_now E w'"
  unfolding time_passes_def active_job_count_def
  by (auto split: option.splits prod.splits sum.splits)

text \<open>The polls of the loop, each of which saw work and was followed by a pause.\<close>

inductive polled :: "'w drain_env \<Rightarrow> 'w \<Rightarrow> 'w \<Rightarrow> bool" for E :: "'w drain_env" where
  polled_start: "polled E w w"
| polled_again: "active_job_count E w = Some (Inr n, w1) \<Longrightarrow> n \<noteq> 0 \<Longrightarrow>
    polled E (dr_delay E poll_interval_ms w1) w2 \<Longrightarrow> polled E w w2"

text \<open>An await that never settles: of the counts after some polls, or of a disconnect.\<close>

definition count_hangs :: "'w drain_env \<Rightarrow> 'w \<Rightarrow> bool" where
  "count_hangs E w \<longleftrightarrow> (\<exists>w1. polled E w w1 \<and> dr_counts E drained_queues w1 = None)"

definition disconnect_hangs :: "'w drain_env \<Rightarrow> bool" where
  "disconnect_hangs E \<longleftrightarrow> (\<exists>q\<in>set drained_queues. \<exists>w. dr_disconnect E q w = None)"

lemma count_none: "active_job_count E w = None \<longleftrightarrow> dr_counts E drained_queues w = None"
  by (auto simp: active_job_count_def split: option.splits sum.splits)

lemma count_hangsI: "polled E w w1 \<Longrightarrow> active_job_count E w1 = None \<Longrightarrow> count_hangs E w"
  by (auto simp: count_hangs_def count_none)

lemma count_hangs_again:
  "active_job_count E w = Some (Inr n, w1) \<Longrightarrow> n \<noteq> 0 \<Longrightarrow>
   count_hangs E (dr_delay E poll_interval_ms w1) \<Longrightarrow> count_hangs E w"
  unfolding count_hangs_def by (blast intro: polled_again)

lemma disconnect_none: "disconnect_queues E events w = None \<Longrightarrow> disconnect_hangs E"
proof -
  have "fold (\<lambda>q v. Option.bind v (dr_disconnect E q)) qs (Some w) = None \<Longrightarrow>
      \<exists>q\<in>set qs. \<exists>w. dr_disconnect E q w = None" for qs w
  proof (induction qs arbitrary: w)
    case (Cons q qs)
    then show ?case by (cases "dr_disconnect E q w") auto
  qed simp
  then show "disconnect_queues E events w = None \<Longrightarrow> disconnect_hangs E"
    by (auto simp: disconnect_queues_def disconnect_hangs_def)
qed

lemma disconnect_some:
  "disconnect_queues E events w = Some (es, w') \<Longrightarrow> es = events @ map Disconnected drained_queues"
  by (auto simp: disconnect_queues_def)

text \<open>How many pauses fit into what is left of the window.\<close>

definition pauses_left :: "int \<Rightarrow> int" where
  "pauses_left ms = (max 0 ms + poll_interval_ms - 1) div poll_interval_ms"

lemma pauses_left_nonneg: "0 \<le> pauses_left ms"
  by (simp add: pauses_left_def poll_interval_ms_def)

lemma pauses_left_step: "0 < ms \<Longrightarrow> ms' + poll_interval_ms \<le> ms \<Longrightarrow> pauses_left ms' + 1 \<le> pauses_left ms"
proof -
  assume "0 < ms" "ms' + poll_interval_ms \<le> ms"
  then have "max 0 ms' - 1 + poll_interval_ms + poll_interval_ms \<le> ms + poll_interval_ms - 1 \<or> ms' < 1"
    by (simp add: max_def)
  then show "pauses_left ms' + 1 \<le> pauses_left ms"
  proof
    assume "max 0 ms' - 1 + poll_interval_ms + poll_interval_ms \<le> ms + poll_interval_ms - 1"
    from zdiv_mono1[OF this, of 200] \<open>0 < ms\<close> show ?thesis
      by (simp add: pauses_left_def poll_interval_ms_def algebra_simps)
  next
    assume "ms' < 1"
    then have "pauses_left ms' = 0" by (simp add: pauses_left_def poll_interval_ms_def)
    moreover have "1 \<le> pauses_left ms"
      using zdiv_mono1[of 200 "ms + 199" 200] \<open>0 < ms\<close> by (simp add: pauses_left_def poll_interval_ms_def)
    ultimately show ?thesis by simp
  qed
qed

text \<open>Every poll the loop goes on from saw work, and the pauses stay within the window.\<close>

definition worked :: "drain_event list \<Rightarrow> bool" where
  "worked events \<longleftrightarrow> list_all (\<lambda>e. case e of Polled n \<Rightarrow> n \<noteq> 0 | Paused ms \<Rightarrow> ms = poll_interval_ms | _ \<Rightarrow> False) events"

lemma worked_simps [simp]:
  "worked []" "worked (es @ fs) \<longleftrightarrow> worked es \<and> worked fs" "worked (Polled n # es) \<longleftrightarrow> n \<noteq> 0 \<and> worked es"
  "worked (Paused ms # es) \<longleftrightarrow> ms = poll_interval_ms \<and> worked es"
  by (simp_all add: worked_def)

definition loop_outcome :: "'w drain_env \<Rightarrow> int \<Rightarrow> drain_end \<Rightarrow> drain_event list \<Rightarrow> 'w \<Rightarrow> bool" where
  "loop_outcome E deadline how events w \<longleftrightarrow>
     (case how of
        Idle \<Rightarrow> (\<exists>pre. events = pre @ [Polled 0] \<and> worked pre)
      | Failed e \<Rightarrow> worked events
      | Window_over \<Rightarrow> worked events \<and> deadline \<le> dr_now E w)"

lemma drain_loop_ends:
  assumes "time_passes E" and "worked events" and "nat (deadline - dr_now E w) \<le> n"
  shows "(\<exists>how es w'. drain_loop E deadline events w = Some (how, es, w') \<and>
       loop_outcome E deadline how es w' \<and> (how = Window_over \<longrightarrow> polled E w w') \<and>
       int (pauses es) \<le> int (pauses events) + pauses_left (deadline - dr_now E w)) \<or>
     drain_loop E deadline events w = None \<and> count_hangs E w"
  using assms(2,3)
proof (induction n arbitrary: events w rule: less_induct)
  case (less n)
  show ?case
  proof (cases "dr_now E w < deadline")
    case False
    then have "drain_loop E deadline events w = Some (Window_over, events, w)"
      by (subst drain_loop.simps) simp
    with False less.prems show ?thesis
      by (simp add: loop_outcome_def pauses_left_nonneg polled_start)
  next
    case True
    show ?thesis
    proof (cases "active_job_count E w")
      case None
      with True have "drain_loop E deadline events w = None" by (subst drain_loop.simps) simp
      moreover have "count_hangs E w"
        by (rule count_hangsI[OF polled_start None])
      ultimately show ?thesis by blast
    next
      case (Some rw)
      then obtain r w1 where count: "active_job_count E w = Some (r, w1)" by (cases rw) auto
      note later = count_takes_time[OF assms(1) count]
      show ?thesis
      proof (cases "\<exists>active. r = Inr active \<and> active \<noteq> 0")
        case False
        then have "drain_loop E deadline events w =
            (case r of Inl e \<Rightarrow> Some (Failed e, events, w1) | Inr _ \<Rightarrow> Some (Idle, events @ [Polled 0], w1))"
          using True count by (subst drain_loop.simps) (auto split: sum.split)
        with less.prems show ?thesis
          by (cases r) (auto simp: loop_outcome_def pauses_left_nonneg)
      next
        case more: True
        then obtain active where r: "r = Inr active" "active \<noteq> 0" by blast
        let ?w2 = "dr_delay E poll_interval_ms w1" and ?es = "events @ [Polled active, Paused poll_interval_ms]"
        have step: "drain_loop E deadline events w = drain_loop E deadline ?es ?w2"
          using True count r by (subst drain_loop.simps) simp
        have clock: "dr_now E w + poll_interval_ms \<le> dr_now E ?w2"
          using assms(1) later unfolding time_passes_def by (smt (verit))
        have shorter: "nat (deadline - dr_now E ?w2) < n"
          using clock True less.prems(2) by (simp add: poll_interval_ms_def)
        have "worked ?es" using less.prems(1) r(2) by simp
        from less.IH[OF shorter this order_refl] show ?thesis
        proof
          assume "drain_loop E deadline ?es ?w2 = None \<and> count_hangs E ?w2"
          with step count_hangs_again[OF count[unfolded r(1)] r(2)] show ?thesis by simp
        next
          assume "\<exists>how es w'. drain_loop E deadline ?es ?w2 = Some (how, es, w') \<and>
            loop_outcome E deadline how es w' \<and> (how = Window_over \<longrightarrow> polled E ?w2 w') \<and>
            int (pauses es) \<le> int (pauses ?es) + pauses_left (deadline - dr_now E ?w2)"
          then obtain how es w' where rest: "drain_loop E deadline ?es ?w2 = Some (how, es, w')"
            "loop_outcome E deadline how es w'" "how = Window_over \<longrightarrow> polled E ?w2 w'"
            "int (pauses es) \<le> int (pauses ?es) + pauses_left (deadline - dr_now E ?w2)" by blast
          have "int (pauses es) \<le> int (pauses events) + pauses_left (deadline - dr_now E w)"
            using rest(4) clock True pauses_left_step[of "deadline - dr_now E w" "deadline - dr_now E ?w2"] by simp
          with rest(1-3) step polled_again[OF count[unfolded r(1)] r(2)] show ?thesis by auto
        qed
      qed
    qed
  qed
qed

section \<open>Property\<close>

text \<open>What a finished shutdown looks like: idle and left alone, or all three queues disconnected at the end.\<close>

definition shutdown_outcome :: "'w drain_env \<Rightarrow> int \<Rightarrow> 'w \<Rightarrow> drain_event list \<Rightarrow> bool" where
  "shutdown_outcome E drainMs w events \<longleftrightarrow>
     (\<exists>pre. worked pre \<and>
        (events = pre @ [Polled 0] \<or>
         (\<exists>note. events = pre @ note @ map Disconnected drained_queues \<and>
            (note = [] \<or> (\<exists>n > 0. note = [Still_active n]) \<or> (\<exists>m. note = [Interrupted m])))))"

text \<open>
  C40. The shutdown ends, as far as the queues answer. When a delay lasts at least its time and
  the clock does not run backwards, \<open>onApplicationShutdown\<close> returns for every window, after at
  most as many pauses of 200 ms as the window holds (rounded up; none for a window of zero),
  whatever the queues report and whichever of their calls fail. It leaves idle queues alone when
  a poll found no active job; otherwise it ends by disconnecting the three queues, after at most
  one note of the jobs that remained or of the error that interrupted it. The only way not to
  return is an await that never settles: of the counts, asked for after polls that all saw work,
  or of a disconnect. The window does not bound that wait; the lemma \<open>silent_queues_hang\<close> is the
  case of queues that do not answer.
\<close>

theorem shutdown_drain_ends:
  assumes "time_passes E"
  shows "case on_application_shutdown E drainMs w of
      Some (events, w') \<Rightarrow> int (pauses events) \<le> pauses_left drainMs \<and> shutdown_outcome E drainMs w events
    | None \<Rightarrow> count_hangs E w \<or> disconnect_hangs E"
proof -
  let ?deadline = "dr_now E w + drainMs"
  consider (hangs) "drain_loop E ?deadline [] w = None" "count_hangs E w"
    | (ends) how es w1 where "drain_loop E ?deadline [] w = Some (how, es, w1)"
      "loop_outcome E ?deadline how es w1" "how = Window_over \<longrightarrow> polled E w w1" "int (pauses es) \<le> pauses_left drainMs"
    using drain_loop_ends[OF assms worked_simps(1) order_refl, of ?deadline w] by auto
  then show ?thesis
  proof cases
    case hangs
    then show ?thesis by (simp add: on_application_shutdown_def)
  next
    case ends
    note tail = disconnect_none disconnect_some
    show ?thesis
    proof (cases how)
      case Idle
      with ends show ?thesis
        by (auto simp: on_application_shutdown_def loop_outcome_def shutdown_outcome_def)
    next
      case (Failed e)
      with ends show ?thesis
        by (auto simp: on_application_shutdown_def loop_outcome_def shutdown_outcome_def drained_queues_def
            dest!: tail split: option.split)
    next
      case Window_over
      show ?thesis
      proof (cases "active_job_count E w1")
        case None
        have "count_hangs E w"
          by (rule count_hangsI[OF _ None]) (use Window_over ends(3) in simp)
        with None Window_over ends(1) show ?thesis by (simp add: on_application_shutdown_def)
      next
        case (Some rw)
        then obtain r w2 where "active_job_count E w1 = Some (r, w2)" by (cases rw) auto
        with Window_over ends show ?thesis
          by (auto simp: on_application_shutdown_def loop_outcome_def shutdown_outcome_def drained_queues_def
              Let_def dest!: tail split: option.split)
      qed
    qed
  qed
qed

text \<open>Five jobs, one done every 150 milliseconds, and counting takes ten.\<close>

definition demo_drain :: "int drain_env" where
  "demo_drain =
     \<lparr>dr_now = (\<lambda>t. t),
      dr_counts = (\<lambda>qs t. Some (Inr [Inr (max 0 (5 - t div 150)), Inl (OtherExn ''closed''), Inr 0], t + 10)),
      dr_delay = (\<lambda>ms t. t + ms), dr_disconnect = (\<lambda>q t. Some t)\<rparr>"

lemma demo_drain_settles: "\<not> count_hangs demo_drain t" "\<not> disconnect_hangs demo_drain"
  by (simp_all add: count_hangs_def disconnect_hangs_def demo_drain_def)

theorem shutdown_drain_ends_witness:
  "\<exists>events w'. on_application_shutdown demo_drain 500 0 = Some (events, w') \<and>
     int (pauses events) \<le> pauses_left 500 \<and> shutdown_outcome demo_drain 500 0 events"
proof -
  have "time_passes demo_drain" by (simp add: time_passes_def demo_drain_def)
  from shutdown_drain_ends[OF this, where drainMs = 500 and w = 0] show ?thesis
    by (auto simp: demo_drain_settles split: option.splits)
qed

text \<open>Queues that do not answer the first poll keep the process, whatever the window.\<close>

lemma silent_queues_hang:
  assumes "0 < drainMs" and "dr_counts E drained_queues w = None"
  shows "on_application_shutdown E drainMs w = None"
  using assms by (simp add: on_application_shutdown_def drain_loop.simps active_job_count_def)

end
