(* ===== verification/Metrics.thy ===== *)
theory Metrics
  imports HttpBoundary ConfigNamespaces Credits
begin

text \<open>
  The counters of the process (\<open>src/modules/metrics\<close>) and the side channel of the
  rate-limit observations (\<open>src/modules/admin/rate-limit-observations.service.ts\<close>).

  prom-client is a library: a counter is the list of its labels with their values, the text of
  a scrape is an argument. The histogram keeps the durations observed, in nanoseconds.
\<close>

section \<open>The registry\<close>

type_synonym http_labels = "string \<times> string \<times> string"

record metrics_registry =
  mt_http :: "(http_labels \<times> int) list"
  mt_durations :: "(http_labels \<times> int) list"
  mt_429 :: "(error_code \<times> int) list"
  mt_credits :: "(ledger_type \<times> int) list"
  mt_tools :: "((string \<times> string) \<times> int) list"

definition count_up :: "'l \<Rightarrow> ('l \<times> int) list \<Rightarrow> ('l \<times> int) list" where
  "count_up labels rows = obj_put labels ((case map_of rows labels of Some n \<Rightarrow> n | None \<Rightarrow> 0) + 1) rows"

definition record_http_request :: "string \<Rightarrow> string \<Rightarrow> int \<Rightarrow> int \<Rightarrow> metrics_registry \<Rightarrow> metrics_registry" where
  "record_http_request method_name route status nanos m =
     (let labels = (method_name, route, show_int status)
      in m\<lparr>mt_http := count_up labels (mt_http m), mt_durations := mt_durations m @ [(labels, nanos)]\<rparr>)"

definition record_429 :: "error_code \<Rightarrow> metrics_registry \<Rightarrow> metrics_registry" where
  "record_429 code m = m\<lparr>mt_429 := count_up code (mt_429 m)\<rparr>"

definition record_credit_mutation :: "ledger_type \<Rightarrow> metrics_registry \<Rightarrow> metrics_registry" where
  "record_credit_mutation t m = m\<lparr>mt_credits := count_up t (mt_credits m)\<rparr>"

definition record_mcp_tool_invocation :: "string \<Rightarrow> string \<Rightarrow> metrics_registry \<Rightarrow> metrics_registry" where
  "record_mcp_tool_invocation tool outcome m = m\<lparr>mt_tools := count_up (tool, outcome) (mt_tools m)\<rparr>"

record pressure_summary =
  ps_httpRequestsTotal :: int
  ps_rateLimitedTotal :: int
  ps_usageLimitExceededTotal :: int

definition sum_values :: "('l \<Rightarrow> bool) \<Rightarrow> ('l \<times> int) list \<Rightarrow> int" where
  "sum_values P rows = foldl (\<lambda>acc r. acc + snd r) 0 (filter (\<lambda>r. P (fst r)) rows)"

text \<open>\<open>requestPressureSummary\<close>: a reading of the counters that throws gives zeros.\<close>

definition request_pressure_summary :: "exn + metrics_registry \<Rightarrow> pressure_summary" where
  "request_pressure_summary reading =
     (case reading of
        Inl e \<Rightarrow> \<lparr>ps_httpRequestsTotal = 0, ps_rateLimitedTotal = 0, ps_usageLimitExceededTotal = 0\<rparr>
      | Inr m \<Rightarrow>
          \<lparr>ps_httpRequestsTotal = sum_values (\<lambda>_. True) (mt_http m),
           ps_rateLimitedTotal = sum_values (\<lambda>c. c = RATE_LIMITED) (mt_429 m),
           ps_usageLimitExceededTotal = sum_values (\<lambda>c. c = USAGE_LIMIT_EXCEEDED) (mt_429 m)\<rparr>)"

section \<open>The interceptor\<close>

definition resolve_route_template :: "string option \<Rightarrow> string option \<Rightarrow> http_request \<Rightarrow> string" where
  "resolve_route_template cls handler rq =
     (case truthy (matched_route_path rq) of
        Some p \<Rightarrow> (if starts_with ''/'' p then p else ''/api/'' @ p)
      | None \<Rightarrow>
          (case cls of Some c \<Rightarrow> c | None \<Rightarrow> ''UnknownController'') @ ''.'' @
          (case handler of Some h \<Rightarrow> h | None \<Rightarrow> ''unknown''))"

text \<open>
  \<open>MetricsHttpInterceptor.intercept\<close>, after the handler: whether it failed, the status that the
  response has at that moment and the time the handler took.
\<close>

definition metrics_intercept ::
  "string option \<Rightarrow> string option \<Rightarrow> http_request \<Rightarrow> bool \<Rightarrow> int \<Rightarrow> int \<Rightarrow> metrics_registry \<Rightarrow> metrics_registry" where
  "metrics_intercept cls handler rq failed statusCode nanos m =
     (if is_health_path (request_path rq) \<or> is_metrics_path (request_path rq) \<or>
         is_mcp_path (request_path rq) default_mcp_path
      then m
      else
        (let status = (if failed then (if statusCode \<ge> 400 then statusCode else 500) else statusCode)
         in record_http_request (hq_method rq) (resolve_route_template cls handler rq) status nanos m))"

section \<open>The scrape\<close>

definition plain_not_found :: exn where
  "plain_not_found = HttpExn 404 (RespObj (JObj [(''message'', JStr ''Not Found''), (''statusCode'', JNum 404)])) ''Not Found''"

definition plain_unauthorized :: exn where
  "plain_unauthorized = HttpExn 401 (RespObj (JObj [(''message'', JStr ''Unauthorized''), (''statusCode'', JNum 401)])) ''Unauthorized''"

definition scrape ::
  "observability_config \<Rightarrow> (metrics_registry \<Rightarrow> exn + string) \<Rightarrow> string option \<Rightarrow> metrics_registry \<Rightarrow> exn + string" where
  "scrape config render authorization m =
     (if \<not> oc_metricsEnabled config then Inl plain_not_found
      else
        (case truthy (oc_metricsBearerToken config) of
           None \<Rightarrow> render m
         | Some expected \<Rightarrow>
             (let provided = (case authorization of
                                Some a \<Rightarrow> (if starts_with ''Bearer '' a then Some (drop 7 a) else None)
                              | None \<Rightarrow> None)
              in if provided \<noteq> Some expected then Inl plain_unauthorized else render m)))"

section \<open>Observations of refused requests\<close>

definition zset_ttl_seconds :: int where "zset_ttl_seconds = 48 * 60 * 60"
definition max_top_n :: int where "max_top_n = 100"

datatype zset_command = Zincrby string int string | Zexpire string int

text \<open>\<open>toISOString().slice(0, 13)\<close> without the dashes, colons and the T.\<close>

definition hour_stamp :: "int \<Rightarrow> string" where
  "hour_stamp now = filter (\<lambda>c. c \<notin> {CHR ''-'', CHR '':'', CHR ''T''}) (take 13 (iso_string now))"

definition hour_key :: "string \<Rightarrow> string \<Rightarrow> int \<Rightarrow> string" where
  "hour_key code dimension now = ''obs:429:'' @ code @ '':'' @ dimension @ '':'' @ hour_stamp now"

text \<open>\<open>onLimitExceeded\<close>: the pipeline is sent whole; a failure of it is only logged.\<close>

definition observation_commands :: "(error_code \<Rightarrow> string) \<Rightarrow> limit_event \<Rightarrow> int \<Rightarrow> zset_command list" where
  "observation_commands name p now =
     (let subjectKey = hour_key (name (le_code p)) ''subject'' now;
          routeKey = hour_key (name (le_code p)) ''route'' now
      in [Zincrby subjectKey 1 (le_subject p), Zexpire subjectKey zset_ttl_seconds,
          Zincrby routeKey 1 (if le_route p = [] then ''unknown'' else le_route p),
          Zexpire routeKey zset_ttl_seconds])"

definition on_limit_exceeded ::
  "(error_code \<Rightarrow> string) \<Rightarrow> (zset_command list \<Rightarrow> 's \<Rightarrow> (exn + unit) \<times> 's) \<Rightarrow> limit_event \<Rightarrow> int \<Rightarrow>
     metrics_registry \<times> 's \<Rightarrow> metrics_registry \<times> 's" where
  "on_limit_exceeded name exec p now = (\<lambda>(m, s).
     (record_429 (le_code p) m, snd (exec (observation_commands name p now) s)))"

definition clamp_top_n :: "observability_config \<Rightarrow> int option \<Rightarrow> int" where
  "clamp_top_n config limit =
     (let requested = (case limit of Some n \<Rightarrow> n | None \<Rightarrow> oc_adminUsageTopN config)
      in min (max 1 requested) max_top_n)"

fun parse_zset :: "string list \<Rightarrow> (string \<times> js_number) list" where
  "parse_zset [] = []"
| "parse_zset [subject] = [(subject, JInt 0)]"
| "parse_zset (subject # score # rows) = (subject, number_of score) # parse_zset rows"

text \<open>\<open>topSubjects\<close> and \<open>topRoutes\<close>, over \<open>ZREVRANGE key 0 stop WITHSCORES\<close>.\<close>

definition top_of ::
  "(string \<Rightarrow> int \<Rightarrow> int \<Rightarrow> 's \<Rightarrow> (exn + string list) \<times> 's) \<Rightarrow> observability_config \<Rightarrow> string \<Rightarrow> string \<Rightarrow>
     int option \<Rightarrow> int \<Rightarrow> 's \<Rightarrow> (exn + (string \<times> js_number) list) \<times> 's" where
  "top_of zrevrange config dimension code limit now s =
     (case zrevrange (hour_key code dimension now) 0 (clamp_top_n config limit - 1) s of
        (Inl e, s') \<Rightarrow> (Inl e, s')
      | (Inr rows, s') \<Rightarrow> (Inr (parse_zset rows), s'))"

section \<open>Laws\<close>

lemma foldl_plus: "foldl (\<lambda>acc r. acc + f r) (a :: int) xs = a + sum_list (map f xs)"
  by (induction xs arbitrary: a) auto

lemma sum_values_Cons [simp]:
  "sum_values P [] = 0" "sum_values P ((l, n) # rows) = (if P l then n else 0) + sum_values P rows"
  by (simp_all add: sum_values_def foldl_plus)

text \<open>A counter grows by one under the labels it is given, and by nothing elsewhere.\<close>

lemma sum_values_obj_put:
  "distinct (map fst rows) \<Longrightarrow>
   sum_values P (obj_put l n rows) =
     sum_values P rows + (if P l then n - (case map_of rows l of Some k \<Rightarrow> k | None \<Rightarrow> 0) else 0)"
proof (induction rows)
  case (Cons r rows)
  then show ?case by (cases r) auto
qed simp

lemma sum_values_count_up:
  "distinct (map fst rows) \<Longrightarrow> sum_values P (count_up l rows) = sum_values P rows + (if P l then 1 else 0)"
  by (simp add: count_up_def sum_values_obj_put)

lemma distinct_obj_put: "distinct (map fst rows) \<Longrightarrow> distinct (map fst (obj_put l n rows))"
proof -
  have "fst ` set (obj_put l n rows) = insert l (fst ` set rows)" for rows :: "('a \<times> 'b) list"
    by (induction l n rows rule: obj_put.induct) auto
  then show "distinct (map fst rows) \<Longrightarrow> distinct (map fst (obj_put l n rows))"
    by (induction l n rows rule: obj_put.induct) auto
qed

text \<open>The pressure summary counts the requests that reached a handler, one each.\<close>

definition served :: "http_request \<Rightarrow> bool" where
  "served rq \<longleftrightarrow> \<not> (is_health_path (request_path rq) \<or> is_metrics_path (request_path rq) \<or>
     is_mcp_path (request_path rq) default_mcp_path)"

lemma requests_counted:
  assumes "distinct (map fst (mt_http m))"
  shows "ps_httpRequestsTotal (request_pressure_summary (Inr
           (foldl (\<lambda>m (rq, failed, status, nanos). metrics_intercept cls handler rq failed status nanos m) m calls)))
         = ps_httpRequestsTotal (request_pressure_summary (Inr m)) + int (length (filter (\<lambda>c. served (fst c)) calls))"
  using assms
proof (induction calls arbitrary: m)
  case (Cons c calls)
  obtain rq failed status nanos where c: "c = (rq, failed, status, nanos)" by (cases c)
  let ?m = "metrics_intercept cls handler rq failed status nanos m"
  have "distinct (map fst (mt_http ?m))"
    using Cons.prems by (simp add: metrics_intercept_def record_http_request_def count_up_def distinct_obj_put Let_def)
  moreover have "sum_values (\<lambda>_. True) (mt_http ?m) = sum_values (\<lambda>_. True) (mt_http m) + (if served rq then 1 else 0)"
    using Cons.prems
    by (simp add: metrics_intercept_def record_http_request_def served_def sum_values_count_up Let_def)
  ultimately show ?case using Cons.IH[of ?m] c by (simp add: request_pressure_summary_def)
qed simp

text \<open>
  The filter sets the status of an error after the interceptor has seen it: a handler that
  throws under the default status is counted as a 500, whatever the client is told.
\<close>

lemma errors_are_counted_as_500:
  assumes "served rq" and "statusCode < 400"
  shows "metrics_intercept cls handler rq True statusCode nanos m =
    record_http_request (hq_method rq) (resolve_route_template cls handler rq) 500 nanos m"
  using assms by (simp add: metrics_intercept_def served_def)

text \<open>A scrape under a token needs exactly that token.\<close>

lemma scrape_needs_token:
  assumes "oc_metricsBearerToken config = Some secret" and "secret \<noteq> []" and "\<forall>r. render r \<noteq> Inl plain_unauthorized"
  shows "scrape config render authorization m = Inl plain_unauthorized \<longleftrightarrow>
    oc_metricsEnabled config \<and> authorization \<noteq> Some (''Bearer '' @ secret)"
proof -
  have "(starts_with ''Bearer '' a \<and> drop 7 a = secret) = (a = ''Bearer '' @ secret)" for a
    by (auto simp: starts_with_prefix prefix_def)
  then show ?thesis
    using assms by (auto simp: scrape_def truthy_def plain_not_found_def plain_unauthorized_def Let_def split: option.split)
qed

lemma top_n_bounds: "1 \<le> clamp_top_n config limit \<and> clamp_top_n config limit \<le> max_top_n"
  by (simp add: clamp_top_n_def max_top_n_def Let_def)

end
