(* ===== verification/Admin.thy ===== *)
theory Admin
  imports Metrics StripeTopup CreditTrace McpServer
begin

text \<open>
  The administration surface (\<open>src/modules/admin\<close>): the audit log, the views and mutations of
  a user's credits, the usage and rate-limit views. The permissions are the guards' part
  (\<open>Authorization\<close>); the validation decorators are the predicates named \<open>_ok\<close>.
\<close>

section \<open>The audit log\<close>

definition action_grant :: string where "action_grant = ''credits.grant''"
definition action_adjust :: string where "action_adjust = ''credits.adjust''"

record audit_row =
  au_id :: string
  au_actorUserId :: string
  au_action :: string
  au_targetType :: "string option"
  au_targetId :: "string option"
  au_summary :: string
  au_metadata :: "json option"
  au_requestId :: "string option"
  au_createdAt :: int

record audit_params =
  wp_actor :: string
  wp_action :: string
  wp_targetType :: "string option"
  wp_targetId :: "string option"
  wp_summary :: string
  wp_details :: "json option"
  wp_requestId :: "string option"

record audit_env =
  av_id :: "audit_row list \<Rightarrow> string"
  av_now :: int
  av_users :: "string list"

definition audit_write :: "audit_env \<Rightarrow> audit_params \<Rightarrow> audit_row list \<Rightarrow> exn + (audit_row \<times> audit_row list)" where
  "audit_write env p rows =
     (if wp_actor p \<notin> set (av_users env) then Inl foreign_key_violation
      else
        (let r = \<lparr>au_id = av_id env rows, au_actorUserId = wp_actor p, au_action = wp_action p,
                  au_targetType = wp_targetType p, au_targetId = wp_targetId p, au_summary = wp_summary p,
                  au_metadata = wp_details p, au_requestId = wp_requestId p, au_createdAt = av_now env\<rparr>
         in Inr (r, rows @ [r])))"

text \<open>\<open>writeSafe\<close> logs a failure and goes on.\<close>

definition write_safe :: "audit_env \<Rightarrow> tx_fault \<Rightarrow> audit_params \<Rightarrow> audit_row list \<Rightarrow> audit_row list" where
  "write_safe env fault p rows = snd (run_tx fault (audit_write env p) rows)"

record audit_query =
  aq_action :: "string option"
  aq_actorUserId :: "string option"
  aq_targetId :: "string option"
  aq_from :: "int option"
  aq_to :: "int option"
  aq_limit :: "int option"
  aq_offset :: "int option"

definition audit_where :: "audit_query \<Rightarrow> audit_row \<Rightarrow> bool" where
  "audit_where q r \<longleftrightarrow>
     (case truthy (aq_action q) of Some a \<Rightarrow> au_action r = a | None \<Rightarrow> True) \<and>
     (case truthy (aq_actorUserId q) of Some u \<Rightarrow> au_actorUserId r = u | None \<Rightarrow> True) \<and>
     (case truthy (aq_targetId q) of Some t \<Rightarrow> au_targetId r = Some t | None \<Rightarrow> True) \<and>
     (case aq_from q of Some t \<Rightarrow> t \<le> au_createdAt r | None \<Rightarrow> True) \<and>
     (case aq_to q of Some t \<Rightarrow> au_createdAt r \<le> t | None \<Rightarrow> True)"

definition page_limit :: "audit_query \<Rightarrow> int" where
  "page_limit q = min (max (case aq_limit q of Some n \<Rightarrow> n | None \<Rightarrow> 20) 1) 100"

definition page_offset :: "audit_query \<Rightarrow> int" where
  "page_offset q = max (case aq_offset q of Some n \<Rightarrow> n | None \<Rightarrow> 0) 0"

definition audit_list :: "audit_query \<Rightarrow> audit_row list \<Rightarrow> audit_row list \<times> int \<times> int" where
  "audit_list q rows =
     (take (nat (page_limit q)) (drop (nat (page_offset q))
        (sort_key (\<lambda>r. - au_createdAt r) (filter (audit_where q) rows))), page_limit q, page_offset q)"

text \<open>\<open>AdminAuditController.list\<close>, with the dates of its query read by \<open>new Date\<close>.\<close>

record audit_list_dto =
  ad_query :: audit_query
  ad_from :: "string option"
  ad_to :: "string option"

definition admin_audit_list ::
  "(string \<Rightarrow> int) \<Rightarrow> audit_list_dto \<Rightarrow> audit_row list \<Rightarrow> audit_row list \<times> int \<times> int" where
  "admin_audit_list date dto rows =
     audit_list ((ad_query dto)\<lparr>aq_from := map_option date (truthy (ad_from dto)),
                               aq_to := map_option date (truthy (ad_to dto))\<rparr>) rows"

section \<open>Credits and subscriptions of a user\<close>

record admin_world =
  aw_credit :: credit_world
  aw_audit :: "audit_row list"

definition user_not_found :: exn where
  "user_not_found = api_error 404 NOT_FOUND ''User not found.''"

text \<open>\<open>requireUser\<close>, given what the lookup answers.\<close>

definition require_user :: "exn + bool \<Rightarrow> exn + unit" where
  "require_user found = (case found of Inl e \<Rightarrow> Inl e | Inr b \<Rightarrow> (if \<not> b then Inl user_not_found else Inr ()))"

definition admin_subscription ::
  "plan_cache \<Rightarrow> plan_db \<Rightarrow> int \<Rightarrow> exn + bool \<Rightarrow> string \<Rightarrow> exn + string \<times> current_plan_view" where
  "admin_subscription c db now found userId =
     (case require_user found of
        Inl e \<Rightarrow> Inl e
      | Inr _ \<Rightarrow> (case current_plan c db now userId of Inl e \<Rightarrow> Inl e | Inr v \<Rightarrow> Inr (userId, v)))"

record admin_entry_view =
  ev_id :: string
  ev_type :: ledger_type
  ev_amount :: int
  ev_balanceAfter :: int
  ev_feature :: "string option"
  ev_idempotencyKey :: string
  ev_createdAt :: int

definition to_entry_view :: "ledger_entry \<Rightarrow> admin_entry_view" where
  "to_entry_view e =
     \<lparr>ev_id = e_id e, ev_type = e_type e, ev_amount = e_amount e, ev_balanceAfter = e_balanceAfter e,
      ev_feature = e_feature e, ev_idempotencyKey = e_idempotencyKey e, ev_createdAt = e_createdAt e\<rparr>"

definition ledger_query_ok :: "int option \<Rightarrow> bool" where
  "ledger_query_ok limit \<longleftrightarrow> (case limit of Some n \<Rightarrow> 1 \<le> n \<and> n \<le> 100 | None \<Rightarrow> True)"

definition credits_view ::
  "exn + bool \<Rightarrow> string \<Rightarrow> int option \<Rightarrow> credit_db \<Rightarrow> exn + string \<times> int \<times> admin_entry_view list" where
  "credits_view found userId limit db =
     (case require_user found of
        Inl e \<Rightarrow> Inl e
      | Inr _ \<Rightarrow>
          Inr (userId, get_balance (Inr userId) db,
               map to_entry_view (list_ledger (Inr userId) (case limit of Some n \<Rightarrow> n | None \<Rightarrow> 20) db)))"

record credit_grant_dto =
  cg_amount :: js_number
  cg_idempotencyKey :: string
  cg_reason :: string

definition credit_grant_ok :: "credit_grant_dto \<Rightarrow> bool" where
  "credit_grant_ok b \<longleftrightarrow>
     (case cg_amount b of JInt n \<Rightarrow> 1 \<le> n | JOther \<Rightarrow> False) \<and> cg_idempotencyKey b \<noteq> [] \<and> cg_reason b \<noteq> []"

record credit_adjust_dto =
  ca_delta :: js_number
  ca_idempotencyKey :: string
  ca_reason :: string

definition credit_adjust_ok :: "credit_adjust_dto \<Rightarrow> bool" where
  "credit_adjust_ok b \<longleftrightarrow> is_integer (ca_delta b) \<and> ca_idempotencyKey b \<noteq> [] \<and> ca_reason b \<noteq> []"

record admin_result =
  ar_userId :: string
  ar_balance :: int
  ar_replayed :: bool
  ar_entryId :: string
  ar_entryType :: ledger_type
  ar_entryAmount :: int
  ar_entryBalanceAfter :: int

definition to_admin_result :: "string \<Rightarrow> mutation_result \<Rightarrow> admin_result" where
  "to_admin_result userId r =
     \<lparr>ar_userId = userId, ar_balance = mr_balance r, ar_replayed = mr_replayed r,
      ar_entryId = e_id (mr_entry r), ar_entryType = e_type (mr_entry r),
      ar_entryAmount = e_amount (mr_entry r), ar_entryBalanceAfter = e_balanceAfter (mr_entry r)\<rparr>"

definition number_text :: "js_number \<Rightarrow> string" where
  "number_text n = (case n of JInt i \<Rightarrow> show_int i | JOther \<Rightarrow> ''NaN'')"

definition operator_metadata :: "string \<Rightarrow> string \<Rightarrow> json" where
  "operator_metadata actor reason = JObj [(''actorUserId'', JStr actor), (''reason'', JStr reason)]"

text \<open>The environment of a mutation: the credit service, the audit log and the faults of their transactions.\<close>

record admin_env =
  an_credit :: credit_env
  an_creditFault :: tx_fault
  an_audit :: audit_env
  an_auditFault :: tx_fault
  an_found :: "exn + bool"
  an_requestId :: "string option"

text \<open>The audit row of a mutation that was not a replay.\<close>

definition audit_mutation ::
  "admin_env \<Rightarrow> string \<Rightarrow> string \<Rightarrow> string \<Rightarrow> string \<Rightarrow> (string \<times> json) \<Rightarrow> string \<Rightarrow> mutation_result \<Rightarrow>
     audit_row list \<Rightarrow> audit_row list" where
  "audit_mutation env actor action userId summary amount k r rows =
     (if mr_replayed r then rows
      else write_safe (an_audit env) (an_auditFault env)
             \<lparr>wp_actor = actor, wp_action = action, wp_targetType = Some ''user'', wp_targetId = Some userId,
              wp_summary = summary,
              wp_details = Some (JObj [amount, (''idempotencyKey'', JStr k), (''balanceAfter'', JNum (mr_balance r))]),
              wp_requestId = an_requestId env\<rparr> rows)"

definition number_json :: "js_number \<Rightarrow> json" where
  "number_json n = (case n of JInt i \<Rightarrow> JNum i | JOther \<Rightarrow> JNull)"

definition admin_grant ::
  "admin_env \<Rightarrow> string \<Rightarrow> string \<Rightarrow> credit_grant_dto \<Rightarrow> admin_world \<Rightarrow> (exn + admin_result) \<times> admin_world" where
  "admin_grant env actor userId b w =
     (case require_user (an_found env) of
        Inl e \<Rightarrow> (Inl e, w)
      | Inr _ \<Rightarrow>
          (case run_credit_op (an_credit env) (an_creditFault env)
                  (Op_Grant \<lparr>si_subject = None, si_userId = Some userId\<rparr> (cg_amount b) (cg_idempotencyKey b)
                     (Some (operator_metadata actor (cg_reason b)))) (aw_credit w) of
             (Inl e, c) \<Rightarrow> (Inl e, w\<lparr>aw_credit := c\<rparr>)
           | (Inr r, c) \<Rightarrow>
               (Inr (to_admin_result userId r),
                \<lparr>aw_credit = c,
                 aw_audit = audit_mutation env actor action_grant userId
                   (''Granted '' @ number_text (cg_amount b) @ '' credits: '' @ cg_reason b)
                   (''amount'', number_json (cg_amount b)) (cg_idempotencyKey b) r (aw_audit w)\<rparr>)))"

definition bad_delta :: exn where
  "bad_delta = api_error 400 BAD_REQUEST ''delta must be a non-zero integer.''"

definition admin_adjust ::
  "admin_env \<Rightarrow> string \<Rightarrow> string \<Rightarrow> credit_adjust_dto \<Rightarrow> admin_world \<Rightarrow> (exn + admin_result) \<times> admin_world" where
  "admin_adjust env actor userId b w =
     (case require_user (an_found env) of
        Inl e \<Rightarrow> (Inl e, w)
      | Inr _ \<Rightarrow>
          (if \<not> is_integer (ca_delta b) \<or> ca_delta b = JInt 0 then (Inl bad_delta, w)
           else
             (case run_credit_op (an_credit env) (an_creditFault env)
                     (Op_Adjust \<lparr>si_subject = None, si_userId = Some userId\<rparr> (ca_delta b) (ca_idempotencyKey b)
                        (Some (operator_metadata actor (ca_reason b)))) (aw_credit w) of
                (Inl e, c) \<Rightarrow> (Inl e, w\<lparr>aw_credit := c\<rparr>)
              | (Inr r, c) \<Rightarrow>
                  (Inr (to_admin_result userId r),
                   \<lparr>aw_credit = c,
                    aw_audit = audit_mutation env actor action_adjust userId
                      (''Adjusted credits by '' @ number_text (ca_delta b) @ '': '' @ ca_reason b)
                      (''delta'', number_json (ca_delta b)) (ca_idempotencyKey b) r (aw_audit w)\<rparr>))))"

section \<open>Usage views\<close>

definition unknown_feature :: "string \<Rightarrow> exn" where
  "unknown_feature f = api_error 400 BAD_REQUEST (''Unknown usage feature \"'' @ f @ ''\".'')"

definition user_usage ::
  "'s usage_env \<Rightarrow> string \<Rightarrow> string option \<Rightarrow> 's usage_world \<Rightarrow>
     (exn + string \<times> usage_snapshot list) \<times> 's usage_world" where
  "user_usage env userId feature w =
     (case truthy feature of
        Some f \<Rightarrow>
          (if \<not> is_usage_feature f then (Inl (unknown_feature f), w)
           else (case snapshots_for_user env userId (Some f) w of
                   (Inl e, w') \<Rightarrow> (Inl e, w') | (Inr ss, w') \<Rightarrow> (Inr (userId, ss), w')))
      | None \<Rightarrow>
          (case snapshots_for_user env userId None w of
             (Inl e, w') \<Rightarrow> (Inl e, w') | (Inr ss, w') \<Rightarrow> (Inr (userId, ss), w')))"

text \<open>\<open>top429\<close>: both reads are issued; the first that fails is the answer.\<close>

definition top_429 ::
  "(string \<Rightarrow> int \<Rightarrow> int \<Rightarrow> 's \<Rightarrow> (exn + string list) \<times> 's) \<Rightarrow> observability_config \<Rightarrow> string option \<Rightarrow>
     int option \<Rightarrow> int \<Rightarrow> 's \<Rightarrow> (exn + string \<times> (string \<times> js_number) list \<times> (string \<times> js_number) list) \<times> 's" where
  "top_429 zrevrange config code limit now s =
     (let c = (case code of Some x \<Rightarrow> x | None \<Rightarrow> ''RATE_LIMITED'')
      in case top_of zrevrange config ''subject'' c limit now s of
           (subjects, s1) \<Rightarrow>
             (case top_of zrevrange config ''route'' c limit now s1 of
                (routes, s2) \<Rightarrow>
                  (case subjects of
                     Inl e \<Rightarrow> (Inl e, s2)
                   | Inr xs \<Rightarrow> (case routes of Inl e \<Rightarrow> (Inl e, s2) | Inr ys \<Rightarrow> (Inr (c, xs, ys), s2)))))"

section \<open>Laws\<close>

text \<open>A page of the audit log: at most a hundred rows, all as asked, the newest first; pages follow on.\<close>

lemma audit_page:
  "length (fst (audit_list q rows)) \<le> 100"
  "r \<in> set (fst (audit_list q rows)) \<Longrightarrow> r \<in> set rows \<and> audit_where q r"
  "sorted (map (\<lambda>r. - au_createdAt r) (fst (audit_list q rows)))"
proof -
  show "length (fst (audit_list q rows)) \<le> 100" by (simp add: audit_list_def page_limit_def)
  show "r \<in> set (fst (audit_list q rows)) \<Longrightarrow> r \<in> set rows \<and> audit_where q r"
    by (auto simp: audit_list_def dest!: in_set_takeD in_set_dropD)
  show "sorted (map (\<lambda>r. - au_createdAt r) (fst (audit_list q rows)))"
    by (simp add: audit_list_def take_map[symmetric] drop_map[symmetric] sorted_wrt_take sorted_wrt_drop)
qed

lemma audit_pages_join:
  assumes "aq_offset q = Some n" and "0 \<le> n"
  shows "fst (audit_list q rows) @ fst (audit_list (q\<lparr>aq_offset := Some (n + page_limit q)\<rparr>) rows) =
    take (nat (2 * page_limit q)) (drop (nat n) (sort_key (\<lambda>r. - au_createdAt r) (filter (audit_where q) rows)))"
proof -
  have same: "audit_where (q\<lparr>aq_offset := Some m\<rparr>) = audit_where q" "page_limit (q\<lparr>aq_offset := Some m\<rparr>) = page_limit q" for m
    by (simp_all add: fun_eq_iff audit_where_def page_limit_def)
  have "1 \<le> page_limit q" by (simp add: page_limit_def)
  then have "nat (n + page_limit q) = nat (page_limit q) + nat n" "nat (2 * page_limit q) = nat (page_limit q) + nat (page_limit q)"
    using assms(2) by (simp_all add: nat_add_distrib[symmetric])
  moreover have "page_offset q = n" "page_offset (q\<lparr>aq_offset := Some (n + page_limit q)\<rparr>) = n + page_limit q"
    using assms \<open>1 \<le> page_limit q\<close> by (simp_all add: page_offset_def)
  ultimately show ?thesis
    by (simp add: audit_list_def same take_add drop_drop)
qed

text \<open>A mutation that took place is in the log once, a replay not again, when the log can be written.\<close>

lemma audit_mutation_once:
  assumes "an_auditFault env = Tx_ok" and "actor \<in> set (av_users (an_audit env))"
  shows "audit_mutation env actor action userId summary amount k r rows =
    rows @ (if mr_replayed r then []
            else [\<lparr>au_id = av_id (an_audit env) rows, au_actorUserId = actor, au_action = action,
                   au_targetType = Some ''user'', au_targetId = Some userId, au_summary = summary,
                   au_metadata = Some (JObj [amount, (''idempotencyKey'', JStr k), (''balanceAfter'', JNum (mr_balance r))]),
                   au_requestId = an_requestId env, au_createdAt = av_now (an_audit env)\<rparr>])"
  using assms by (simp add: audit_mutation_def write_safe_def audit_write_def Let_def)

lemma audit_never_loses_rows: "\<exists>more. audit_mutation env actor action userId summary amount k r rows = rows @ more"
proof -
  have "snd (run_tx fault (audit_write e p) rows) = rows \<or> (\<exists>x. snd (run_tx fault (audit_write e p) rows) = rows @ [x])" for fault e p
  proof -
    have "d = rows @ [r]" if "audit_write e p rows = Inr (r, d)" for r d
      using that by (auto simp: audit_write_def Let_def split: if_splits)
    with run_tx_after[of fault "audit_write e p" rows] show ?thesis by metis
  qed
  then show ?thesis unfolding audit_mutation_def write_safe_def by (metis append_Nil2)
qed

text \<open>
  A grant whose commit was not acknowledged is reported as failed. The operator's retry finds
  it done, as a replay, and a replay writes no audit row: the mutation stays out of the log.
\<close>

lemma unacknowledged_grant_is_never_audited:
  assumes "an_creditFault env = Tx_unreported e"
    and "admin_grant env actor userId b w = (Inl e', w1)"
    and "cw_db (aw_credit w1) \<noteq> cw_db (aw_credit w)"
    and "an_creditFault env' = Tx_ok" and "an_found env' = Inr True"
  shows "\<exists>r. admin_grant env' actor userId b w1 = (Inr r, w1) \<and> ar_replayed r \<and> aw_audit w1 = aw_audit w"
proof -
  let ?op = "Op_Grant \<lparr>si_subject = None, si_userId = Some userId\<rparr> (cg_amount b) (cg_idempotencyKey b)
     (Some (operator_metadata actor (cg_reason b)))"
  obtain res c where op: "run_credit_op (an_credit env) (Tx_unreported e) ?op (aw_credit w) = (res, c)" by fastforce
  obtain u where "require_user (an_found env) = Inr u"
    using assms(2,3) by (cases "require_user (an_found env)") (auto simp: admin_grant_def)
  with assms(1,2) op have run: "run_credit_op (an_credit env) (Tx_unreported e) ?op (aw_credit w) = (Inl e', c)"
    and w1: "w1 = w\<lparr>aw_credit := c\<rparr>"
    by (cases res; simp add: admin_grant_def del: run_credit_op.simps)+
  have moved: "cw_db c \<noteq> cw_db (aw_credit w)" using assms(3) w1 by simp
  then obtain p where p: "op_params ?op = Some p"
    using run_credit_op_params[where op = ?op and env = "an_credit env" and fault = "Tx_unreported e" and w = "aw_credit w"] run
    by (cases "op_params ?op") (auto simp del: run_credit_op.simps)
  have same: "run_credit_op n f ?op v = apply_mutation n f p v" for n f v
    using run_credit_op_params[where op = ?op and env = n and fault = f and w = v] p by (simp del: run_credit_op.simps)
  have "apply_mutation (an_credit env) (Tx_unreported e) p (aw_credit w) = (Inl e', c)" using run same by simp
  with moved obtain r0 db where tx: "apply_tx (an_credit env) p (cw_db (aw_credit w)) = Inr (r0, db)" and c: "c = (aw_credit w)\<lparr>cw_db := db\<rparr>"
    by (auto simp: apply_mutation_def run_tx_def Let_def split: sum.splits prod.splits)
  have "apply_mutation n Tx_ok p c =
      (Inr \<lparr>mr_entry = mr_entry r0, mr_balance = e_balanceAfter (mr_entry r0), mr_replayed = True\<rparr>, c)" for n
    using apply_mutation_replay[of p c "mr_entry r0" n] apply_tx_writes[OF tx] c by simp
  then show ?thesis
    using assms(4,5) w1
    by (simp add: admin_grant_def require_user_def same audit_mutation_def to_admin_result_def del: run_credit_op.simps)
qed

text \<open>
  The operator's key and the key of a checkout are of one namespace: a grant made under the
  key of a checkout, for another amount, makes the paid checkout fail for good.
\<close>

lemma operator_key_blocks_checkout:
  assumes "find_entry (checkout_grant_key s) (cw_db c) = Some ex" and "e_amount ex \<noteq> cp_credits pack"
    and "has_settled s" and "session_order (se_config env) s = Some (u, Own_pack pack)" and "u \<noteq> []" and "0 < cp_credits pack"
    and "se_grantFault env = Tx_ok"
  shows "grant_from_checkout env s c = (Inl (replay_conflict ex), c)"
proof -
  let ?op = "Op_Grant \<lparr>si_subject = None, si_userId = Some u\<rparr> (JInt (cp_credits pack)) (checkout_grant_key s)
     (Some (grant_metadata s (Own_pack pack)))"
  obtain p where p: "op_params ?op = Some p" "ap_amount p = cp_credits pack" "ap_idempotencyKey p = checkout_grant_key s"
    using assms(5,6) by (auto simp: op_params_def resolve_subject_def)
  have "\<not> replay_matches ex p" using p(2) assms(2) by (simp add: replay_matches_def Let_def)
  with run_credit_op_params[where op = ?op and env = "se_credits env" and fault = Tx_ok and w = c] p(1,3) assms(1)
  have "run_credit_op (se_credits env) Tx_ok ?op c = (Inl (replay_conflict ex), c)"
    by (simp add: apply_mutation_conflict del: run_credit_op.simps)
  with assms show ?thesis by (simp add: grant_from_checkout_def del: run_credit_op.simps)
qed

end
