(* ===== verification/AuthHooks.thy ===== *)
theory AuthHooks
  imports Lockout Mail Authorization ConfigNamespaces
begin

text \<open>
  The program's side of Better Auth (\<open>src/modules/auth\<close>): the options and hooks of
  \<open>auth.factory.ts\<close>, the middleware in front of its router, the client address, and the
  account and two-factor controllers. Better Auth itself, its sessions and its cryptography
  are arguments. A dash of the texts is written \<open>--\<close>.
\<close>

section \<open>Options\<close>

definition sign_in_paths :: "string list" where
  "sign_in_paths = [''/sign-in/email'']"

definition strict_rate_limit_paths :: "string list" where
  "strict_rate_limit_paths =
     [''/sign-in/email'', ''/sign-up/email'', ''/request-password-reset'', ''/forget-password'',
      ''/reset-password'', ''/two-factor/verify-totp'', ''/two-factor/verify-backup-code'',
      ''/two-factor/verify-otp'']"

text \<open>\<open>Math.max(1, Math.round(seconds / 60))\<close>; halves are rounded up.\<close>

definition minutes :: "int \<Rightarrow> int" where
  "minutes seconds = max 1 ((seconds + 30) div 60)"

definition client_ip_header :: string where
  "client_ip_header = ''x-real-client-ip''"

record rate_rule =
  rr_window :: int
  rr_max :: int

record auth_options =
  xo_secret :: string
  xo_baseURL :: string
  xo_basePath :: string
  xo_trustedOrigins :: "string list"
  xo_expiresIn :: int
  xo_updateAge :: int
  xo_storeSessionInDatabase :: bool
  xo_preserveSessionInDatabase :: bool
  xo_requireEmailVerification :: bool
  xo_minPasswordLength :: int
  xo_maxPasswordLength :: int
  xo_resetTokenExpiresIn :: int
  xo_revokeSessionsOnPasswordReset :: bool
  xo_sendOnSignUp :: bool
  xo_verificationExpiresIn :: int
  xo_autoSignInAfterVerification :: bool
  xo_socialProviders :: "(string \<times> provider_credentials) list"
  xo_totpIssuer :: string
  xo_storeBackupCodes :: string
  xo_rateLimit :: rate_rule
  xo_customRules :: "(string \<times> rate_rule) list"
  xo_useSecureCookies :: bool
  xo_httpOnly :: bool
  xo_sameSite :: string
  xo_cookiePrefix :: string
  xo_ipAddressHeaders :: "string list"

text \<open>\<open>createAuth\<close>, given whether the secondary storage has an \<open>increment\<close>.\<close>

definition no_increment :: exn where
  "no_increment = OtherExn ''RedisSecondaryStorage must implement `increment` -- without it Better Auth falls back to a non-atomic limiter that fails open when Redis is unavailable. See redis-secondary-storage.ts and the auth-rate-limiting capability.''"

definition create_auth :: "bool \<Rightarrow> auth_config \<Rightarrow> security_config \<Rightarrow> exn + auth_options" where
  "create_auth has_increment auth security =
     (if \<not> has_increment then Inl no_increment
      else Inr
        \<lparr>xo_secret = ac_secret auth, xo_baseURL = ac_appUrl auth, xo_basePath = ac_basePath auth,
         xo_trustedOrigins = sec_corsOrigins security,
         xo_expiresIn = ac_expiresInSeconds auth, xo_updateAge = ac_updateAgeSeconds auth,
         xo_storeSessionInDatabase = True, xo_preserveSessionInDatabase = False,
         xo_requireEmailVerification = True,
         xo_minPasswordLength = ac_minLength auth, xo_maxPasswordLength = ac_maxLength auth,
         xo_resetTokenExpiresIn = ac_resetTtlSeconds auth, xo_revokeSessionsOnPasswordReset = True,
         xo_sendOnSignUp = True, xo_verificationExpiresIn = ac_verificationTtlSeconds auth,
         xo_autoSignInAfterVerification = False, xo_socialProviders = ac_socialProviders auth,
         xo_totpIssuer = ac_totpIssuer auth, xo_storeBackupCodes = ''encrypted'',
         xo_rateLimit = \<lparr>rr_window = rl_windowSeconds (ac_rateLimit auth), rr_max = rl_max (ac_rateLimit auth)\<rparr>,
         xo_customRules =
           foldl (\<lambda>o' p. obj_put p \<lparr>rr_window = rl_strictWindowSeconds (ac_rateLimit auth),
                                    rr_max = rl_strictMax (ac_rateLimit auth)\<rparr> o') [] strict_rate_limit_paths,
         xo_useSecureCookies = sec_servesHttps security, xo_httpOnly = True, xo_sameSite = ''lax'',
         xo_cookiePrefix = ''app'', xo_ipAddressHeaders = [client_ip_header]\<rparr>)"

section \<open>Mails\<close>

fun join_lines :: "string list \<Rightarrow> string" where
  "join_lines [] = []"
| "join_lines [l] = l"
| "join_lines (l # ls) = l @ [CHR 0x0A] @ join_lines ls"

definition once_within :: "int \<Rightarrow> string" where
  "once_within ttl = ''The link can be used once and expires in '' @ show_int (minutes ttl) @ '' minutes.''"

definition reset_mail :: "auth_config \<Rightarrow> string \<Rightarrow> string \<Rightarrow> mail_message" where
  "reset_mail auth email url =
     \<lparr>ml_to = email, ml_subject = ''Reset your password'',
      ml_text = join_lines
        [''We received a request to reset your password.'', [], ''Open this link to choose a new one:'', url, [],
         once_within (ac_resetTtlSeconds auth), [],
         ''If you did not request this, you can ignore this message -- your'', ''password has not changed.'']\<rparr>"

definition verification_mail :: "auth_config \<Rightarrow> string \<Rightarrow> string \<Rightarrow> string \<Rightarrow> mail_message" where
  "verification_mail auth email name url =
     \<lparr>ml_to = email, ml_subject = ''Verify your email address'',
      ml_text = join_lines
        [''Welcome'' @ (if name = [] then [] else '', '' @ name) @ ''.'', [],
         ''Confirm your email address by opening this link:'', url, [],
         once_within (ac_verificationTtlSeconds auth), [],
         ''If you did not create this account, you can ignore this message.'']\<rparr>"

section \<open>Hooks\<close>

record hook_ctx =
  hk_path :: string
  hk_body :: "json option"

text \<open>The identifier that both hooks look for: an address of a sign-in, when it is a text.\<close>

definition hook_identifier :: "hook_ctx \<Rightarrow> string option" where
  "hook_identifier ctx =
     (if hk_path ctx \<notin> set sign_in_paths then None
      else
        (case Option.bind (hk_body ctx) (member ''email'') of
           Some (JStr s) \<Rightarrow> (if s = [] then None else Some s)
         | _ \<Rightarrow> None))"

text \<open>An \<open>APIError\<close> of the library: its status, its body and its headers.\<close>

record library_error =
  lx_status :: int
  lx_code :: string
  lx_message :: string
  lx_retryAfter :: "int option"
  lx_headers :: "(string \<times> string) list"

definition lockout_store_unavailable :: library_error where
  "lockout_store_unavailable =
     \<lparr>lx_status = 503, lx_code = ''LOCKOUT_STORE_UNAVAILABLE'',
      lx_message = ''Sign-in is temporarily unavailable. Please try again in a moment.'', lx_retryAfter = None, lx_headers = []\<rparr>"

definition account_locked :: "int \<Rightarrow> library_error" where
  "account_locked seconds =
     \<lparr>lx_status = 429, lx_code = ''ACCOUNT_LOCKED'',
      lx_message = ''Too many failed sign-in attempts. Try again shortly -- no action is needed on your part.'',
      lx_retryAfter = Some seconds,
      lx_headers = [(''X-Retry-After'', show_int seconds)]\<rparr>"

definition before_hook ::
  "'s lockout_env \<Rightarrow> hook_ctx \<Rightarrow> 's lockout_world \<Rightarrow> (library_error + unit) \<times> 's lockout_world" where
  "before_hook env ctx w =
     (case hook_identifier ctx of
        None \<Rightarrow> (Inr (), w)
      | Some identifier \<Rightarrow>
          (case lockout_check env identifier w of
             (Inl e, w') \<Rightarrow> (Inl lockout_store_unavailable, w')
           | (Inr d, w') \<Rightarrow>
               (if ld_locked d then (Inl (account_locked (ld_retryAfterSeconds d)), w') else (Inr (), w'))))"

text \<open>What the endpoint returned counts as 200 when it has no status that is a number.\<close>

definition after_hook ::
  "'s lockout_env \<Rightarrow> hook_ctx \<Rightarrow> int option \<Rightarrow> 's lockout_world \<Rightarrow> (exn + unit) \<times> 's lockout_world" where
  "after_hook env ctx returned w =
     (case hook_identifier ctx of
        None \<Rightarrow> (Inr (), w)
      | Some identifier \<Rightarrow>
          (let status = (case returned of Some n \<Rightarrow> n | None \<Rightarrow> 200)
           in if status = 429 then (Inr (), w)
              else if status \<ge> 400 then
                (case record_failure env identifier w of (Inl e, w') \<Rightarrow> (Inl e, w') | (Inr _, w') \<Rightarrow> (Inr (), w'))
              else (Inr (), lockout_clear env identifier w)))"

section \<open>The middleware\<close>

record mount_request =
  mo_url :: string
  mo_originalUrl :: string
  mo_baseUrl :: string
  mo_ip :: "string option"
  mo_remoteAddress :: "string option"
  mo_headers :: "string \<rightharpoonup> string"

record mount_response =
  mo_status :: int
  mo_replyHeaders :: "string \<rightharpoonup> string"
  mo_body :: "json option"
  mo_headersSent :: bool

definition stamp_client_ip :: "mount_request \<Rightarrow> mount_request" where
  "stamp_client_ip rq =
     rq\<lparr>mo_headers := (mo_headers rq)(client_ip_header :=
          (case mo_ip rq of Some a \<Rightarrow> Some a | None \<Rightarrow> mo_remoteAddress rq))\<rparr>"

definition restore_original_url :: "mount_request \<Rightarrow> mount_request" where
  "restore_original_url rq = rq\<lparr>mo_url := mo_originalUrl rq, mo_baseUrl := []\<rparr>"

text \<open>The wrapped \<open>writeHead\<close>: the last change of the headers before they are sent.\<close>

definition mirror_retry_after :: "(string \<rightharpoonup> string) \<Rightarrow> string \<rightharpoonup> string" where
  "mirror_retry_after hs =
     (case hs ''x-retry-after'' of
        Some v \<Rightarrow> (if hs ''retry-after'' = None then hs(''retry-after'' \<mapsto> v) else hs)
      | None \<Rightarrow> hs)"

definition send_response :: "int \<Rightarrow> json \<Rightarrow> mount_response \<Rightarrow> mount_response" where
  "send_response status body rs =
     \<lparr>mo_status = status, mo_replyHeaders = mirror_retry_after (mo_replyHeaders rs),
      mo_body = Some body, mo_headersSent = True\<rparr>"

text \<open>What was thrown, as far as the middleware looks at it.\<close>

record thrown =
  tn_name :: "string option"
  tn_statusCode :: "js_number option"
  tn_code :: "string option"
  tn_message :: "string option"

definition is_service_condition_error :: "thrown \<Rightarrow> int option" where
  "is_service_condition_error e =
     (if tn_name e \<noteq> Some ''APIError'' then None
      else (case tn_statusCode e of Some (JInt n) \<Rightarrow> (if n \<ge> 500 then Some n else None) | _ \<Rightarrow> None))"

definition reported_as_service_condition :: "mount_response \<Rightarrow> thrown \<Rightarrow> mount_response option" where
  "reported_as_service_condition rs e =
     (if mo_headersSent rs then None
      else
        (case is_service_condition_error e of
           None \<Rightarrow> None
         | Some status \<Rightarrow>
             Some (send_response status
               (JObj [(''code'', JStr (case tn_code e of Some c \<Rightarrow> c | None \<Rightarrow> ''SERVICE_UNAVAILABLE'')),
                      (''message'', JStr (case tn_message e of Some m \<Rightarrow> m
                                          | None \<Rightarrow> ''The service is temporarily unavailable.''))]) rs)))"

text \<open>
  \<open>BetterAuthMiddleware.use\<close>: the handler is given the wrapped \<open>writeHead\<close>; the result is the
  response and the error handed to \<open>next\<close>, when there is one.
\<close>

definition better_auth_use ::
  "(((string \<rightharpoonup> string) \<Rightarrow> string \<rightharpoonup> string) \<Rightarrow> mount_request \<Rightarrow> mount_response \<Rightarrow> thrown option \<times> mount_response) \<Rightarrow>
     mount_request \<Rightarrow> mount_response \<Rightarrow> thrown option \<times> mount_response" where
  "better_auth_use handler rq rs =
     (case handler mirror_retry_after (restore_original_url (stamp_client_ip rq)) rs of
        (None, rs') \<Rightarrow> (None, rs')
      | (Some e, rs') \<Rightarrow>
          (case reported_as_service_condition rs' e of Some r \<Rightarrow> (None, r) | None \<Rightarrow> (Some e, rs')))"

section \<open>The account\<close>

record principal_view =
  pvw_user :: auth_principal
  pvw_roles :: "string list"
  pvw_permissions :: "string list"

definition account_me ::
  "(string \<Rightarrow> 's \<Rightarrow> (exn + effective_access) \<times> 's) \<Rightarrow> auth_principal \<Rightarrow> 's \<Rightarrow> (exn + principal_view) \<times> 's" where
  "account_me resolve user s =
     (case resolve (apr_id user) s of
        (Inl e, s') \<Rightarrow> (Inl e, s')
      | (Inr a, s') \<Rightarrow>
          (Inr \<lparr>pvw_user = user, pvw_roles = ea_roles a, pvw_permissions = ea_permissions a\<rparr>, s'))"

record library_session =
  ls_id :: string
  ls_token :: string
  ls_createdAt :: int
  ls_expiresAt :: int
  ls_ipAddress :: "string option"
  ls_userAgent :: "string option"

record session_view =
  vw_id :: string
  vw_current :: bool
  vw_createdAt :: int
  vw_expiresAt :: int
  vw_ipAddress :: "string option"
  vw_userAgent :: "string option"

text \<open>Of two failures the resolution's is reported; the code reports the first to arrive.\<close>

definition account_sessions ::
  "exn + resolved_session option \<Rightarrow> exn + library_session list \<Rightarrow> exn + session_view list" where
  "account_sessions current listed =
     (case current of
        Inl e \<Rightarrow> Inl e
      | Inr cur \<Rightarrow>
          (case listed of
             Inl e \<Rightarrow> Inl e
           | Inr ss \<Rightarrow>
               Inr (map (\<lambda>s. \<lparr>vw_id = ls_id s, vw_current = (Some (ls_id s) = map_option ses_sessionId cur),
                             vw_createdAt = ls_createdAt s, vw_expiresAt = ls_expiresAt s,
                             vw_ipAddress = ls_ipAddress s, vw_userAgent = ls_userAgent s\<rparr>) ss)))"

text \<open>\<open>revokeSession\<close>; the library lists and revokes by the caller's headers.\<close>

definition account_revoke ::
  "('w \<Rightarrow> (exn + library_session list) \<times> 'w) \<Rightarrow> (string \<Rightarrow> 'w \<Rightarrow> (exn + unit) \<times> 'w) \<Rightarrow> string \<Rightarrow> 'w \<Rightarrow>
     (exn + bool) \<times> 'w" where
  "account_revoke listSessions revoke sid w =
     (case listSessions w of
        (Inl e, w1) \<Rightarrow> (Inl e, w1)
      | (Inr ss, w1) \<Rightarrow>
          (case List.find (\<lambda>s. ls_id s = sid) ss of
             None \<Rightarrow> (Inr True, w1)
           | Some target \<Rightarrow>
               (case revoke (ls_token target) w1 of
                  (Inl e, w2) \<Rightarrow> (Inl e, w2)
                | (Inr _, w2) \<Rightarrow> (Inr True, w2))))"

text \<open>\<open>forwardingCookies\<close>: the cookies a call sets are appended to the response's own.\<close>

definition forwarding_cookies ::
  "('h \<Rightarrow> 'w \<Rightarrow> (exn + string list \<times> 'r) \<times> 'w) \<Rightarrow> 'h \<Rightarrow> string list \<Rightarrow> 'w \<Rightarrow> (exn + 'r) \<times> string list \<times> 'w" where
  "forwarding_cookies call headers cookies w =
     (case call headers w of
        (Inl e, w') \<Rightarrow> (Inl e, cookies, w')
      | (Inr (set_cookies, r), w') \<Rightarrow> (Inr r, foldl (\<lambda>cs c. cs @ [c]) cookies set_cookies, w'))"

definition account_revoke_others ::
  "('h \<Rightarrow> 'w \<Rightarrow> (exn + string list \<times> unit) \<times> 'w) \<Rightarrow> 'h \<Rightarrow> string list \<Rightarrow> 'w \<Rightarrow> (exn + bool) \<times> string list \<times> 'w" where
  "account_revoke_others revokeOthers headers cookies w =
     (case forwarding_cookies revokeOthers headers cookies w of
        (Inl e, cs, w') \<Rightarrow> (Inl e, cs, w')
      | (Inr _, cs, w') \<Rightarrow> (Inr True, cs, w'))"

section \<open>Two factors\<close>

record two_factor_status =
  tf_enabled :: bool
  tf_backupCodesRemaining :: int

definition count_backup_codes :: "(string \<Rightarrow> exn + string list) \<Rightarrow> string \<Rightarrow> int" where
  "count_backup_codes viewBackupCodes userId =
     (case viewBackupCodes userId of Inr codes \<Rightarrow> int (length codes) | Inl _ \<Rightarrow> 0)"

definition two_factor_state :: "(string \<Rightarrow> exn + string list) \<Rightarrow> auth_principal \<Rightarrow> two_factor_status" where
  "two_factor_state viewBackupCodes user =
     (if \<not> apr_twoFactorEnabled user then \<lparr>tf_enabled = False, tf_backupCodesRemaining = 0\<rparr>
      else \<lparr>tf_enabled = True, tf_backupCodesRemaining = count_backup_codes viewBackupCodes (apr_id user)\<rparr>)"

definition two_factor_enable ::
  "('h \<Rightarrow> 'w \<Rightarrow> (exn + string list \<times> string \<times> string list) \<times> 'w) \<Rightarrow> 'h \<Rightarrow> string list \<Rightarrow> 'w \<Rightarrow>
     (exn + string \<times> string list) \<times> string list \<times> 'w" where
  "two_factor_enable enableTwoFactor headers cookies w = forwarding_cookies enableTwoFactor headers cookies w"

definition two_factor_verify ::
  "('h \<Rightarrow> 'w \<Rightarrow> (exn + string list \<times> unit) \<times> 'w) \<Rightarrow> 'h \<Rightarrow> string list \<Rightarrow> 'w \<Rightarrow> (exn + bool) \<times> string list \<times> 'w" where
  "two_factor_verify verifyTOTP headers cookies w =
     (case forwarding_cookies verifyTOTP headers cookies w of
        (Inl e, cs, w') \<Rightarrow> (Inl e, cs, w') | (Inr _, cs, w') \<Rightarrow> (Inr True, cs, w'))"

definition regenerate_backup_codes ::
  "('h \<Rightarrow> 'w \<Rightarrow> (exn + string list \<times> string list) \<times> 'w) \<Rightarrow> 'h \<Rightarrow> string list \<Rightarrow> 'w \<Rightarrow>
     (exn + string list) \<times> string list \<times> 'w" where
  "regenerate_backup_codes generateBackupCodes headers cookies w =
     forwarding_cookies generateBackupCodes headers cookies w"

definition two_factor_disable ::
  "('h \<Rightarrow> 'w \<Rightarrow> (exn + string list \<times> unit) \<times> 'w) \<Rightarrow> 'h \<Rightarrow> string list \<Rightarrow> 'w \<Rightarrow> (exn + bool) \<times> string list \<times> 'w" where
  "two_factor_disable disableTwoFactor headers cookies w =
     (case forwarding_cookies disableTwoFactor headers cookies w of
        (Inl e, cs, w') \<Rightarrow> (Inl e, cs, w') | (Inr _, cs, w') \<Rightarrow> (Inr False, cs, w'))"

section \<open>Laws\<close>

text \<open>Every credential path has the strict rule.\<close>

lemma map_of_foldl_same:
  "map_of (foldl (\<lambda>o' p. obj_put p v o') o0 ps) q = (if q \<in> set ps then Some v else map_of o0 q)"
  by (induction ps arbitrary: o0) auto

lemma strict_paths_are_strict:
  assumes "create_auth True auth security = Inr x" and "p \<in> set strict_rate_limit_paths"
  shows "map_of (xo_customRules x) p =
    Some \<lparr>rr_window = rl_strictWindowSeconds (ac_rateLimit auth), rr_max = rl_strictMax (ac_rateLimit auth)\<rparr>"
  using assms by (auto simp: create_auth_def map_of_foldl_same)

text \<open>A mail may announce up to half a minute more than its link lasts, and a minute for any shorter one.\<close>

lemma minutes_announced: "60 * minutes s > s \<longleftrightarrow> s < 60 \<or> 30 \<le> s mod 60"
proof -
  define m where "m = s mod 60"
  have m: "0 \<le> m" "m < 60" "s = 60 * (s div 60) + m" by (simp_all add: m_def)
  have "(s + 30) div 60 = s div 60 + (if 30 \<le> m then 1 else 0)"
  proof (cases "30 \<le> m")
    case True
    then show ?thesis using m by (simp add: int_div_pos_eq[of "s + 30" 60 "s div 60 + 1" "m - 30"])
  next
    case False
    then show ?thesis using m by (simp add: int_div_pos_eq[of "s + 30" 60 "s div 60" "m + 30"])
  qed
  then have "minutes s = max 1 (s div 60 + (if 30 \<le> m then 1 else 0))" by (simp add: minutes_def)
  moreover define q where "q = s div 60"
  ultimately have "minutes s = max 1 (q + (if 30 \<le> m then 1 else 0))" "s = 60 * q + m"
    using m(3) by simp_all
  with m(1,2) show ?thesis unfolding m_def[symmetric] by (auto simp: max_def)
qed

text \<open>A lock, and a lockout store that cannot be read, both refuse before the password is looked at.\<close>

lemma locked_is_refused:
  assumes "hook_identifier ctx = Some identifier"
  shows "fst (before_hook env ctx w) = Inr () \<longleftrightarrow>
    (\<exists>d. fst (lockout_check env identifier w) = Inr d \<and> \<not> ld_locked d)"
  using assms by (auto simp: before_hook_def split: sum.splits prod.splits)

text \<open>A refusal of a limiter counts nothing; an error of the server counts against the account as a wrong password does.\<close>

lemma refusals_are_not_counted: "after_hook env ctx (Some 429) w = (Inr (), w)"
  by (simp add: after_hook_def split: option.split)

lemma server_errors_count_as_failures:
  assumes "hook_identifier ctx = Some identifier" and "500 \<le> status"
  shows "snd (after_hook env ctx (Some status) w) = snd (record_failure env identifier w)"
  using assms by (simp add: after_hook_def split: sum.split prod.split)

text \<open>No client chooses the address the limits are keyed on.\<close>

lemma address_is_not_forged:
  "stamp_client_ip (rq\<lparr>mo_headers := (mo_headers rq)(client_ip_header := forged)\<rparr>) = stamp_client_ip rq"
  "mo_ip rq = Some a \<Longrightarrow> mo_headers (stamp_client_ip rq) client_ip_header = Some a"
  by (simp_all add: stamp_client_ip_def split: option.split)

lemma handler_sees_whole_url:
  "mo_url (restore_original_url (stamp_client_ip rq)) = mo_originalUrl rq"
  "mo_baseUrl (restore_original_url (stamp_client_ip rq)) = []"
  by (simp_all add: restore_original_url_def stamp_client_ip_def)

lemma retry_after_mirrored:
  "hs ''x-retry-after'' = Some v \<Longrightarrow> mirror_retry_after hs ''retry-after'' \<noteq> None"
  "h \<noteq> ''retry-after'' \<Longrightarrow> mirror_retry_after hs h = hs h"
  "hs ''retry-after'' = Some v \<Longrightarrow> mirror_retry_after hs = hs"
  by (auto simp: mirror_retry_after_def split: option.splits)

text \<open>Only a service condition of the library on an unsent response is answered here; every other error goes on.\<close>

lemma other_errors_go_on:
  assumes "handler mirror_retry_after (restore_original_url (stamp_client_ip rq)) rs = (Some e, rs')"
  shows "fst (better_auth_use handler rq rs) = None \<longleftrightarrow> \<not> mo_headersSent rs' \<and> (\<exists>n\<ge>500. tn_name e = Some ''APIError'' \<and> tn_statusCode e = Some (JInt n))"
  using assms
  by (auto simp: better_auth_use_def reported_as_service_condition_def is_service_condition_error_def
      split: option.splits js_number.splits if_splits)

text \<open>Nothing but a session of the caller is revoked, and the answer does not tell whether the id exists.\<close>

lemma foreign_sessions_are_untouched:
  assumes "listSessions w = (Inr ss, w1)" and "sid \<notin> ls_id ` set ss"
  shows "account_revoke listSessions revoke sid w = (Inr True, w1)"
proof -
  have "List.find (\<lambda>s. ls_id s = sid) ss = None" using assms(2) by (auto simp: find_None_conv)
  with assms(1) show ?thesis by (simp add: account_revoke_def)
qed

lemma cookies_are_forwarded:
  assumes "call headers w = (Inr (set_cookies, r), w')"
  shows "forwarding_cookies call headers cookies w = (Inr r, cookies @ set_cookies, w')"
proof -
  have "foldl (\<lambda>cs c. cs @ [c]) xs ys = xs @ ys" for xs ys :: "string list"
    by (induction ys arbitrary: xs) auto
  with assms show ?thesis by (simp add: forwarding_cookies_def)
qed

text \<open>An outage of the store reads as a user without backup codes.\<close>

lemma outage_counts_no_codes:
  "apr_twoFactorEnabled user \<Longrightarrow> two_factor_state (\<lambda>_. Inl e) user = \<lparr>tf_enabled = True, tf_backupCodesRemaining = 0\<rparr>"
  by (simp add: two_factor_state_def count_backup_codes_def)

end
