(* ===== verification/Storage.thy ===== *)
theory Storage
  imports ConfigNamespaces
begin

text \<open>
  The object store (\<open>src/infrastructure/storage\<close>): the local adapter with its confinement of
  keys under a root, the S3 adapter, and the choice between them.

  \<open>path.resolve\<close> is POSIX's, on absolute paths as lists of segments. The file system and the
  S3 client are arguments; links of the file system are outside the model.
\<close>

section \<open>Paths\<close>

fun segments :: "string \<Rightarrow> string list" where
  "segments [] = [[]]"
| "segments (c # cs) =
     (if c = CHR ''/'' then [] # segments cs
      else (case segments cs of s # ss \<Rightarrow> (c # s) # ss | [] \<Rightarrow> [[c]]))"

definition walk :: "string list \<Rightarrow> string \<Rightarrow> string list" where
  "walk st s = (if s = [] \<or> s = ''.'' then st else if s = ''..'' then butlast st else st @ [s])"

definition normal_segments :: "string \<Rightarrow> string list" where
  "normal_segments p = foldl walk [] (segments p)"

fun slash_join :: "string list \<Rightarrow> string" where
  "slash_join [] = []"
| "slash_join [s] = s"
| "slash_join (s # ss) = s @ ''/'' @ slash_join ss"

definition path_text :: "string list \<Rightarrow> string" where
  "path_text ss = ''/'' @ slash_join ss"

text \<open>\<open>path.resolve(base, p)\<close> for an absolute \<open>base\<close>.\<close>

definition path_resolve :: "string \<Rightarrow> string \<Rightarrow> string" where
  "path_resolve base p = path_text (normal_segments (if starts_with ''/'' p then p else base @ ''/'' @ p))"

section \<open>The local adapter\<close>

definition empty_key :: exn where
  "empty_key = api_error 400 BAD_REQUEST ''Storage key must not be empty.''"

definition escaping_key :: "string \<Rightarrow> exn" where
  "escaping_key key =
     api_error_details 400 BAD_REQUEST ''Storage key must not escape the storage root.'' (JObj [(''key'', JStr key)])"

definition object_not_found :: "string \<Rightarrow> exn" where
  "object_not_found key = api_error_details 404 NOT_FOUND ''Object not found.'' (JObj [(''key'', JStr key)])"

definition resolve_key :: "string \<Rightarrow> string \<Rightarrow> string \<Rightarrow> exn + string" where
  "resolve_key cwd rootDir key =
     (if trim key = [] then Inl empty_key
      else
        (let resolvedRoot = path_resolve cwd rootDir;
             resolved = path_resolve resolvedRoot key
         in if resolved \<noteq> resolvedRoot \<and> \<not> starts_with (resolvedRoot @ ''/'') resolved
            then Inl (escaping_key key)
            else Inr resolved))"

text \<open>What the adapter calls of \<open>node:fs\<close>; an absent file is an error of its own.\<close>

datatype 'e fs_error = Enoent | Fs_error 'e

record ('c, 'w) file_system =
  fs_mkdir :: "string \<Rightarrow> 'w \<Rightarrow> (exn + unit) \<times> 'w"
  fs_write :: "string \<Rightarrow> 'c \<Rightarrow> 'w \<Rightarrow> (exn + unit) \<times> 'w"
  fs_read :: "string \<Rightarrow> 'w \<Rightarrow> (exn fs_error + 'c) \<times> 'w"
  fs_remove :: "string \<Rightarrow> 'w \<Rightarrow> (exn + unit) \<times> 'w"

text \<open>A body is in memory or still to be read.\<close>

datatype ('c, 'w) put_body = Buffer 'c | Readable "'w \<Rightarrow> (exn + 'c) \<times> 'w"

fun body_bytes :: "('c, 'w) put_body \<Rightarrow> 'w \<Rightarrow> (exn + 'c) \<times> 'w" where
  "body_bytes (Buffer c) w = (Inr c, w)"
| "body_bytes (Readable read) w = read w"

text \<open>\<open>path.dirname\<close> of a path that \<open>path.resolve\<close> made.\<close>

definition dirname :: "string \<Rightarrow> string" where
  "dirname p = path_text (butlast (normal_segments p))"

definition local_put ::
  "('c, 'w) file_system \<Rightarrow> string \<Rightarrow> string \<Rightarrow> string \<Rightarrow> ('c, 'w) put_body \<Rightarrow> 'w \<Rightarrow> (exn + unit) \<times> 'w" where
  "local_put fs cwd rootDir key body w =
     (case resolve_key cwd rootDir key of
        Inl e \<Rightarrow> (Inl e, w)
      | Inr filePath \<Rightarrow>
          (case fs_mkdir fs (dirname filePath) w of
             (Inl e, w1) \<Rightarrow> (Inl e, w1)
           | (Inr _, w1) \<Rightarrow>
               (case body_bytes body w1 of
                  (Inl e, w2) \<Rightarrow> (Inl e, w2)
                | (Inr c, w2) \<Rightarrow> fs_write fs filePath c w2)))"

definition local_get :: "('c, 'w) file_system \<Rightarrow> string \<Rightarrow> string \<Rightarrow> string \<Rightarrow> 'w \<Rightarrow> (exn + 'c) \<times> 'w" where
  "local_get fs cwd rootDir key w =
     (case resolve_key cwd rootDir key of
        Inl e \<Rightarrow> (Inl e, w)
      | Inr filePath \<Rightarrow>
          (case fs_read fs filePath w of
             (Inr c, w') \<Rightarrow> (Inr c, w')
           | (Inl Enoent, w') \<Rightarrow> (Inl (object_not_found key), w')
           | (Inl (Fs_error e), w') \<Rightarrow> (Inl e, w')))"

definition local_delete :: "('c, 'w) file_system \<Rightarrow> string \<Rightarrow> string \<Rightarrow> string \<Rightarrow> 'w \<Rightarrow> (exn + unit) \<times> 'w" where
  "local_delete fs cwd rootDir key w =
     (case resolve_key cwd rootDir key of Inl e \<Rightarrow> (Inl e, w) | Inr filePath \<Rightarrow> fs_remove fs filePath w)"

section \<open>The S3 adapter\<close>

text \<open>What the client is sent; an answer to a read may lack its body.\<close>

datatype 'c s3_command =
    S3_put string string 'c "string option"
  | S3_get string string
  | S3_delete string string

record s3_failure =
  sf_name :: "string option"
  sf_Code :: "string option"
  sf_exn :: exn

definition is_no_such_key :: "s3_failure \<Rightarrow> bool" where
  "is_no_such_key e \<longleftrightarrow> sf_name e = Some ''NoSuchKey'' \<or> sf_Code e = Some ''NoSuchKey''"

definition s3_adapter :: "storage_config \<Rightarrow> exn + string" where
  "s3_adapter c =
     (case (truthy (stc_bucket c), truthy (stc_region c), truthy (stc_accessKeyId c), truthy (stc_secretAccessKey c)) of
        (Some bucket, Some _, Some _, Some _) \<Rightarrow> Inr bucket
      | _ \<Rightarrow> Inl (OtherExn ''S3StorageAdapter requires bucket, region, and credentials -- check STORAGE_S3_* env vars.''))"

definition s3_put ::
  "('c s3_command \<Rightarrow> 'w \<Rightarrow> (s3_failure + 'c option) \<times> 'w) \<Rightarrow> string \<Rightarrow> string \<Rightarrow> 'c \<Rightarrow> string option \<Rightarrow> 'w \<Rightarrow>
     (exn + unit) \<times> 'w" where
  "s3_put send bucket key body contentType w =
     (case send (S3_put bucket key body contentType) w of
        (Inl e, w') \<Rightarrow> (Inl (sf_exn e), w') | (Inr _, w') \<Rightarrow> (Inr (), w'))"

text \<open>The error of a missing body is thrown inside the \<open>try\<close>, is no \<open>NoSuchKey\<close> and goes on as it is.\<close>

definition s3_get ::
  "('c s3_command \<Rightarrow> 'w \<Rightarrow> (s3_failure + 'c option) \<times> 'w) \<Rightarrow> string \<Rightarrow> string \<Rightarrow> 'w \<Rightarrow> (exn + 'c) \<times> 'w" where
  "s3_get send bucket key w =
     (case send (S3_get bucket key) w of
        (Inl e, w') \<Rightarrow> (Inl (if is_no_such_key e then object_not_found key else sf_exn e), w')
      | (Inr None, w') \<Rightarrow> (Inl (object_not_found key), w')
      | (Inr (Some c), w') \<Rightarrow> (Inr c, w'))"

definition s3_delete ::
  "('c s3_command \<Rightarrow> 'w \<Rightarrow> (s3_failure + 'c option) \<times> 'w) \<Rightarrow> string \<Rightarrow> string \<Rightarrow> 'w \<Rightarrow> (exn + unit) \<times> 'w" where
  "s3_delete send bucket key w =
     (case send (S3_delete bucket key) w of
        (Inl e, w') \<Rightarrow> (Inl (sf_exn e), w') | (Inr _, w') \<Rightarrow> (Inr (), w'))"

text \<open>Only the S3 adapter signs; \<open>presign\<close> is the SDK's.\<close>

definition s3_signed_url :: "('c s3_command \<Rightarrow> int \<Rightarrow> exn + string) \<Rightarrow> string \<Rightarrow> string \<Rightarrow> int \<Rightarrow> exn + string" where
  "s3_signed_url presign bucket key expiresInSeconds = presign (S3_get bucket key) expiresInSeconds"

text \<open>The provider of \<open>ObjectStorage\<close>: the bucket of S3, or the root of the local store.\<close>

definition storage_provider :: "storage_config \<Rightarrow> exn + (string + string)" where
  "storage_provider c =
     (if stc_driver c = ''s3'' then (case s3_adapter c of Inl e \<Rightarrow> Inl e | Inr bucket \<Rightarrow> Inr (Inl bucket))
      else Inr (Inr (stc_localRoot c)))"

section \<open>Laws\<close>

definition plain_segment :: "string \<Rightarrow> bool" where
  "plain_segment s \<longleftrightarrow> s \<noteq> [] \<and> s \<noteq> ''.'' \<and> s \<noteq> ''..'' \<and> CHR ''/'' \<notin> set s"

lemma segments_nonempty: "segments p \<noteq> []"
  by (induction p) (auto split: list.split)

lemma segments_slash_free: "s \<in> set (segments p) \<Longrightarrow> CHR ''/'' \<notin> set s"
proof (induction p arbitrary: s)
  case (Cons c cs)
  obtain t ts where split: "segments cs = t # ts" using segments_nonempty[of cs] by (cases "segments cs") auto
  from Cons.prems Cons.IH show ?case by (auto simp: split split: if_splits)
qed simp

lemma walked_plain:
  assumes "list_all plain_segment st" and "\<forall>s\<in>set ss. CHR ''/'' \<notin> set s"
  shows "list_all plain_segment (foldl walk st ss)"
  using assms
proof (induction ss arbitrary: st)
  case (Cons s ss)
  have "list_all plain_segment (walk st s)"
    using Cons.prems by (auto simp: walk_def plain_segment_def list_all_iff dest: in_set_butlastD)
  then show ?case using Cons by simp
qed simp

lemma normal_segments_plain: "list_all plain_segment (normal_segments p)"
  unfolding normal_segments_def by (rule walked_plain) (use segments_slash_free in auto)

text \<open>
  Whatever the key, a path that the adapter uses is the root or lies under it, and has no dot
  segment that could lead out of it again.
\<close>

lemma keys_are_confined:
  assumes "resolve_key cwd rootDir key = Inr p"
  shows "(p = path_resolve cwd rootDir \<or> starts_with (path_resolve cwd rootDir @ ''/'') p) \<and>
    (\<exists>ss. p = path_text ss \<and> list_all plain_segment ss)"
proof -
  have "p = path_resolve (path_resolve cwd rootDir) key"
    using assms by (auto simp: resolve_key_def Let_def split: if_splits)
  then have "\<exists>ss. p = path_text ss \<and> list_all plain_segment ss"
    unfolding path_resolve_def using normal_segments_plain by blast
  then show ?thesis using assms by (auto simp: resolve_key_def Let_def split: if_splits)
qed

text \<open>Under a root of the whole file system every key but the root's own is refused.\<close>

lemma slash_join_head: "list_all plain_segment ss \<Longrightarrow> \<not> starts_with ''/'' (slash_join ss)"
proof (cases ss rule: slash_join.cases)
  case (2 s)
  assume "list_all plain_segment ss"
  with 2 show ?thesis by (cases s) (auto simp: plain_segment_def starts_with_prefix prefix_def)
next
  case (3 s t ts)
  assume "list_all plain_segment ss"
  with 3 show ?thesis by (cases s) (auto simp: plain_segment_def starts_with_prefix prefix_def)
qed (simp add: starts_with_prefix)

lemma root_store_refuses:
  assumes "path_resolve cwd rootDir = ''/''" and "trim key \<noteq> []" and "path_resolve ''/'' key \<noteq> ''/''"
  shows "resolve_key cwd rootDir key = Inl (escaping_key key)"
proof -
  obtain ss where "path_resolve ''/'' key = path_text ss" "list_all plain_segment ss"
    unfolding path_resolve_def using normal_segments_plain by blast
  then have "\<not> starts_with ''//'' (path_resolve ''/'' key)"
    using slash_join_head[of ss] by (auto simp: path_text_def starts_with_prefix prefix_def)
  with assms show ?thesis by (simp add: resolve_key_def Let_def)
qed

text \<open>What was put is what is got, on a file system that keeps what is written.\<close>

lemma local_round_trip:
  assumes "local_put fs cwd rootDir key (Buffer body) w = (Inr (), w')"
    and "\<And>p c v v'. fs_write fs p c v = (Inr (), v') \<Longrightarrow> fs_read fs p v' = (Inr c, v')"
  shows "local_get fs cwd rootDir key w' = (Inr body, w')"
  using assms(1) by (auto simp: local_put_def local_get_def dest!: assms(2) split: sum.splits prod.splits)

text \<open>A stream that fails while it is read leaves the file unwritten, but its directory made.\<close>

lemma failed_stream_writes_nothing:
  assumes "resolve_key cwd rootDir key = Inr p" and "fs_mkdir fs (dirname p) w = (Inr (), w1)"
    and "read w1 = (Inl e, w2)"
  shows "local_put fs cwd rootDir key (Readable read) w = (Inl e, w2)"
  using assms by (simp add: local_put_def)

text \<open>A missing object is the same 404 for both adapters.\<close>

lemma missing_object:
  "resolve_key cwd rootDir key = Inr p \<Longrightarrow> fs_read fs p w = (Inl Enoent, w) \<Longrightarrow>
     local_get fs cwd rootDir key w = (Inl (object_not_found key), w)"
  "send (S3_get bucket key) v = (Inl e, v) \<Longrightarrow> is_no_such_key e \<Longrightarrow>
     s3_get send bucket key v = (Inl (object_not_found key), v)"
  by (simp_all add: local_get_def s3_get_def)

text \<open>A key that climbs back names the root itself and is not refused.\<close>

lemma root_key_accepted: "resolve_key ''/srv'' ''data'' ''a/..'' = Inr ''/srv/data''"
  by code_simp

lemma traversal_refused: "resolve_key ''/srv'' ''data'' ''../data2/x'' = Inl (escaping_key ''../data2/x'')"
  by code_simp

end
