(* ===== verification/GuardChain.thy ===== *)
theory GuardChain
  imports AuthorizationProperties ThrottleContract Organizations Plans UsageLimits CreditFlow
begin

text \<open>
  The guards of a request as one chain, in the order in which the modules register them
  (\<open>src/modules/authorization/authorization.module.ts\<close>, \<open>src/app.module.ts\<close>): who calls, what
  they may do, for which organization, under which plan, how often, how much of the quota, for
  how many credits. Each stage is the model of its guard, over one state of the request.

  Nest runs the guards one after the other and ends at the first that throws or says no.
\<close>

section \<open>The state of a request\<close>

text \<open>The metadata of the handler and its class, as the decorators set it.\<close>

record route_meta =
  mt_public :: "bool option \<times> bool option"
  mt_permissions :: "string list option \<times> string list option"
  mt_roles :: "string list option \<times> string list option"
  mt_entitlements :: "string list option \<times> string list option"
  mt_plan :: "string option \<times> string option"
  mt_strict :: "bool option \<times> bool option"
  mt_skipThrottle :: "string list"
  mt_usage :: "string option \<times> string option"
  mt_cost :: "string option \<times> string option"

record ('rq, 's) chain_env =
  cv_getSession :: "'rq \<Rightarrow> exn + (library_user \<times> string \<times> int) option"
  cv_orgHeader :: "'rq \<Rightarrow> header"
  cv_ip :: "'rq \<Rightarrow> string option"
  cv_redis :: "'s redis"
  cv_now :: int
  cv_permissions :: "string \<Rightarrow> exn + effective_access"
  cv_orgs :: org_db
  cv_flagDefaults :: "(string \<times> bool) list"
  cv_flags :: "exn + flag_override list"
  cv_planCache :: plan_cache
  cv_planDb :: plan_db
  cv_throttle :: throttle_config
  cv_super :: "'s base_handler"
  cv_isThrottlerException :: "exn \<Rightarrow> bool"
  cv_usage :: "'s usage_env"
  cv_credits :: credit_env
  cv_creditFault :: tx_fault

text \<open>What the guards leave on the request, in its store, in Redis and in the wallets.\<close>

record 's call_state =
  kx_principal :: "auth_principal option"
  kx_ctx :: request_context
  kx_access :: "effective_access option"
  kx_plan :: "effective_plan option"
  kx_marker :: "spend_marker option"
  kx_conn :: 's
  kx_headers :: "(string \<times> string) list"
  kx_reads :: nat
  kx_lostRollbacks :: "string list"
  kx_credits :: credit_world

type_synonym 's guard = "'s call_state \<Rightarrow> (exn + bool) \<times> 's call_state"

section \<open>The stages\<close>

definition caller_id :: "'s call_state \<Rightarrow> string option" where
  "caller_id s = map_option apr_id (kx_principal s)"

definition billing_of :: "('rq, 's) chain_env \<Rightarrow> 's call_state \<Rightarrow> string \<Rightarrow> exn + billing_subject" where
  "billing_of E s u = resolve_billing (cv_orgs E) (cv_flagDefaults E) (cv_flags E) (kx_ctx s) None u"

definition authenticate :: "('rq, 's) chain_env \<Rightarrow> route_meta \<Rightarrow> 'rq \<Rightarrow> 's guard" where
  "authenticate E m rq s =
     (case auth_guard (cv_getSession E) True (mt_public m) rq (kx_ctx s) of
        (r, p, ctx) \<Rightarrow> (r, s\<lparr>kx_principal := p, kx_ctx := ctx\<rparr>))"

definition permit :: "('rq, 's) chain_env \<Rightarrow> route_meta \<Rightarrow> 's guard" where
  "permit E m s =
     (case permissions_guard (\<lambda>u. resolve_access (cv_redis E) (cv_now E) (cv_permissions E u) u) True
             (mt_public m) (mt_permissions m) (mt_roles m) (kx_principal s) (kx_access s) (kx_conn s) of
        (r, a, c) \<Rightarrow> (r, s\<lparr>kx_access := a, kx_conn := c\<rparr>))"

definition bind_organization :: "('rq, 's) chain_env \<Rightarrow> route_meta \<Rightarrow> 'rq \<Rightarrow> 's guard" where
  "bind_organization E m rq s =
     (case org_context_guard (cv_orgs E) True (mt_public m) (cv_orgHeader E rq) (caller_id s) (kx_ctx s) of
        (r, ctx) \<Rightarrow> (r, s\<lparr>kx_ctx := ctx\<rparr>))"

definition entitle :: "('rq, 's) chain_env \<Rightarrow> route_meta \<Rightarrow> 's guard" where
  "entitle E m s =
     (case entitlements_can_activate (cv_planCache E) (cv_planDb E) (cv_now E)
             \<lparr>rt_http = True, rt_public = mt_public m, rt_entitlements = mt_entitlements m, rt_plan = mt_plan m\<rparr>
             \<lparr>rq_principalId = caller_id s, rq_plan = kx_plan s\<rparr> of
        (r, rq) \<Rightarrow> (r, s\<lparr>kx_plan := rq_plan rq\<rparr>))"

text \<open>The library asks every named throttler the route does not skip, and all must agree.\<close>

fun throttle_each ::
  "('rq, 's) chain_env \<Rightarrow> route_meta \<Rightarrow> string \<Rightarrow> named_throttler list \<Rightarrow> 's throttle_world \<Rightarrow>
     (exn + bool) \<times> 's throttle_world" where
  "throttle_each E m tracker [] w = (Inr True, w)"
| "throttle_each E m tracker (t # ts) w =
     (if nt_name t \<in> set (mt_skipThrottle m) then throttle_each E m tracker ts w
      else
        (case handle_request (cv_super E) (cv_isThrottlerException E) (cv_redis E) (cv_throttle E) (mt_strict m)
                tracker \<lparr>tp_limit = nt_limit t, tp_ttl = nt_ttl t, tp_blockDuration = nt_ttl t, tp_name = nt_name t\<rparr> w of
           (Inl e, w1) \<Rightarrow> (Inl e, w1)
         | (Inr b, w1) \<Rightarrow>
             (case throttle_each E m tracker ts w1 of
                (Inl e, w2) \<Rightarrow> (Inl e, w2)
              | (Inr b2, w2) \<Rightarrow> (Inr (b \<and> b2), w2))))"

definition throttle :: "('rq, 's) chain_env \<Rightarrow> route_meta \<Rightarrow> 'rq \<Rightarrow> 's guard" where
  "throttle E m rq s =
     (case throttle_each E m (get_tracker (caller_id s) (cv_ip E rq)) (named_throttlers (cv_throttle E))
             \<lparr>th_conn = kx_conn s, th_headers = kx_headers s\<rparr> of
        (r, w) \<Rightarrow> (r, s\<lparr>kx_conn := th_conn w, kx_headers := th_headers w\<rparr>))"

definition meter :: "('rq, 's) chain_env \<Rightarrow> route_meta \<Rightarrow> 's guard" where
  "meter E m s =
     (case usage_guard (cv_usage E) True (mt_usage m) (caller_id s) (billing_of E s)
             \<lparr>uw_conn = kx_conn s, uw_reads = kx_reads s, uw_lostRollbacks = kx_lostRollbacks s\<rparr> of
        (r, w) \<Rightarrow> (r, s\<lparr>kx_conn := uw_conn w, kx_reads := uw_reads w, kx_lostRollbacks := uw_lostRollbacks w\<rparr>))"

definition charge :: "('rq, 's) chain_env \<Rightarrow> route_meta \<Rightarrow> 's guard" where
  "charge E m s =
     (case credits_guard (cv_credits E) (cv_creditFault E) True (mt_public m) (mt_cost m) (caller_id s)
             (billing_of E s) (kx_ctx s) (kx_credits s) of
        (r, marker, c) \<Rightarrow> (r, s\<lparr>kx_marker := marker, kx_credits := c\<rparr>))"

section \<open>The chain\<close>

definition forbidden_resource :: exn where
  "forbidden_resource =
     HttpExn 403 (RespObj (JObj [(''message'', JStr ''Forbidden resource''), (''error'', JStr ''Forbidden''),
       (''statusCode'', JNum 403)])) ''Forbidden resource''"

fun run_guards :: "'s guard list \<Rightarrow> 's guard" where
  "run_guards [] s = (Inr True, s)"
| "run_guards (g # gs) s =
     (case g s of
        (Inl e, s1) \<Rightarrow> (Inl e, s1)
      | (Inr b, s1) \<Rightarrow> (if b then run_guards gs s1 else (Inl forbidden_resource, s1)))"

definition guard_chain :: "('rq, 's) chain_env \<Rightarrow> route_meta \<Rightarrow> 'rq \<Rightarrow> 's guard list" where
  "guard_chain E m rq =
     [authenticate E m rq, permit E m, bind_organization E m rq, entitle E m, throttle E m rq, meter E m, charge E m]"

definition admit :: "('rq, 's) chain_env \<Rightarrow> route_meta \<Rightarrow> 'rq \<Rightarrow> 's guard" where
  "admit E m rq = run_guards (guard_chain E m rq)"

text \<open>A request as it enters the chain, in the store that the first middleware opened.\<close>

definition entering :: "'s call_state \<Rightarrow> bool" where
  "entering s \<longleftrightarrow>
     kx_principal s = None \<and> kx_access s = None \<and> kx_plan s = None \<and> kx_marker s = None \<and> kx_ctx s \<noteq> None"

section \<open>What the stages let through\<close>

definition named_organization :: "header \<Rightarrow> string option" where
  "named_organization h = truthy (case h of Header_many (v # _) \<Rightarrow> Some v | Header_one v \<Rightarrow> Some v | _ \<Rightarrow> None)"

definition is_open :: "route_meta \<Rightarrow> bool" where
  "is_open m \<longleftrightarrow> case_prod get_all_and_override (mt_public m) = Some True"

text \<open>What the tables must say of a caller for a route.\<close>

definition planned_for :: "('rq, 's) chain_env \<Rightarrow> route_meta \<Rightarrow> string \<Rightarrow> bool" where
  "planned_for E m u \<longleftrightarrow>
     (listed (mt_entitlements m) = [] \<and> case_prod get_all_and_override (mt_plan m) = None) \<or>
     (\<exists>plan. resolve_plan (cv_planCache E) (cv_planDb E) (Inr u) (cv_now E) = Inr plan \<and>
        (\<forall>k\<in>set (listed (mt_entitlements m)). has_entitlement plan k) \<and>
        (\<forall>slug. case_prod get_all_and_override (mt_plan m) = Some slug \<longrightarrow>
           meets_minimum_plan (cv_planCache E) plan slug))"

definition permitted_by :: "access_db \<Rightarrow> route_meta \<Rightarrow> string \<Rightarrow> bool" where
  "permitted_by db m u \<longleftrightarrow>
     (\<forall>p\<in>set (listed (mt_permissions m)). holds_permission db u p) \<and>
     (listed (mt_roles m) = [] \<or> (\<exists>n\<in>set (listed (mt_roles m)). role_named db u n))"

definition entitled_caller ::
  "('rq, 's) chain_env \<Rightarrow> access_db \<Rightarrow> route_meta \<Rightarrow> 'rq \<Rightarrow> string \<Rightarrow> bool" where
  "entitled_caller E db m rq u \<longleftrightarrow>
     (\<exists>lu sid expires. cv_getSession E rq = Inr (Some (lu, sid, expires)) \<and> lu_id lu = u \<and> lu_emailVerified lu) \<and>
     permitted_by db m u \<and>
     (\<forall>g. named_organization (cv_orgHeader E rq) = Some g \<longrightarrow> get_membership g u (cv_orgs E) \<noteq> None) \<and>
     planned_for E m u"

text \<open>Who is refused at the first gate has touched nothing.\<close>

lemma authenticate_effect:
  assumes "\<not> is_open m" and "authenticate E m rq s = (r, s1)" and "entering s"
  shows "kx_access s1 = None \<and> kx_plan s1 = None \<and> kx_marker s1 = None \<and> kx_conn s1 = kx_conn s \<and>
    kx_headers s1 = kx_headers s \<and> kx_reads s1 = kx_reads s \<and> kx_lostRollbacks s1 = kx_lostRollbacks s \<and>
    kx_credits s1 = kx_credits s \<and>
    (case r of
       Inl e \<Rightarrow> kx_ctx s1 = kx_ctx s
     | Inr b \<Rightarrow> b \<and> (\<exists>lu sid expires. cv_getSession E rq = Inr (Some (lu, sid, expires)) \<and> lu_emailVerified lu \<and>
         kx_principal s1 = Some (to_principal lu) \<and> kx_ctx s1 = set_user_id (lu_id lu) (kx_ctx s)))"
  using assms
  by (auto simp: authenticate_def auth_guard_def resolve_session_def is_open_def entering_def to_principal_def
      split: if_splits sum.splits option.splits)

lemma entered_caller [simp]: "kx_principal s = Some (to_principal lu) \<Longrightarrow> caller_id s = Some (lu_id lu)"
  by (simp add: caller_id_def to_principal_def)

lemma permit_frame:
  assumes "permit E m s = (r, s1)"
  shows "kx_principal s1 = kx_principal s \<and> kx_ctx s1 = kx_ctx s \<and> kx_plan s1 = kx_plan s \<and>
    kx_marker s1 = kx_marker s \<and> kx_reads s1 = kx_reads s \<and> kx_credits s1 = kx_credits s"
  using assms by (auto simp: permit_def split: prod.splits)

lemma permit_passes:
  assumes "redis_store (cv_redis E) view" and "coherent (view (kx_conn s)) db (lu_id lu)"
    and "cv_permissions E = (\<lambda>u. Inr (read_access db u))"
    and "kx_principal s = Some (to_principal lu)" and "kx_access s = None"
    and "\<not> is_open m" and "permit E m s = (Inr b, s1)"
  shows "b \<and> permitted_by db m (lu_id lu)"
proof -
  have res: "fst (resolve_access (cv_redis E) (cv_now E) (Inr (read_access db (lu_id lu))) (lu_id lu) (kx_conn s)) =
      Inr (read_access db (lu_id lu))"
    by (rule redis_store.resolve_is_table[OF assms(1,2)])
  have id: "apr_id (to_principal lu) = lu_id lu" by (simp add: to_principal_def)
  have req: "filter (\<lambda>x. x \<notin> set (ea_permissions (read_access db u))) xs = [] \<longleftrightarrow>
      (\<forall>p\<in>set xs. holds_permission db u p)" for xs u
    by (auto simp: filter_empty_conv read_access_permissions)
  have acc: "list_ex (\<lambda>r. r \<in> set (ea_roles (read_access db u))) xs \<longleftrightarrow> (\<exists>n\<in>set xs. role_named db u n)" for xs u
    by (simp add: list_ex_iff read_access_roles)
  show ?thesis
    using assms(3-7) res
    by (auto simp: permit_def permissions_guard_def access_for_def Let_def is_open_def listed_def[symmetric]
        req acc id permitted_by_def split: prod.splits if_splits sum.splits)
qed

lemma bind_effect:
  assumes "\<not> is_open m" and "bind_organization E m rq s = (r, s1)" and "caller_id s = Some u"
  shows "kx_principal s1 = kx_principal s \<and> kx_access s1 = kx_access s \<and> kx_plan s1 = kx_plan s \<and>
    kx_marker s1 = kx_marker s \<and> kx_conn s1 = kx_conn s \<and> kx_reads s1 = kx_reads s \<and> kx_credits s1 = kx_credits s \<and>
    (\<forall>b. r = Inr b \<longrightarrow> b \<and> (\<forall>g. named_organization (cv_orgHeader E rq) = Some g \<longrightarrow> get_membership g u (cv_orgs E) \<noteq> None))"
  using assms
  by (auto simp: bind_organization_def org_context_guard_def named_organization_def[symmetric] is_open_def
      split: option.splits prod.splits)

lemma entitle_effect:
  assumes "\<not> is_open m" and "entitle E m s = (r, s1)" and "caller_id s = Some u" and "kx_plan s = None"
  shows "kx_principal s1 = kx_principal s \<and> kx_ctx s1 = kx_ctx s \<and> kx_marker s1 = kx_marker s \<and>
    kx_conn s1 = kx_conn s \<and> kx_reads s1 = kx_reads s \<and> kx_credits s1 = kx_credits s \<and>
    (\<forall>b. r = Inr b \<longrightarrow> b \<and> planned_for E m u)"
  using assms
  by (auto simp: entitle_def entitlements_can_activate_def plan_for_def principal_of_def is_open_def planned_for_def
      listed_def filter_empty_conv Let_def split: prod.splits sum.splits option.splits if_splits)

lemma throttle_frame:
  assumes "throttle E m rq s = (r, s1)"
  shows "kx_principal s1 = kx_principal s \<and> kx_ctx s1 = kx_ctx s \<and> kx_marker s1 = kx_marker s \<and>
    kx_reads s1 = kx_reads s \<and> kx_lostRollbacks s1 = kx_lostRollbacks s \<and> kx_credits s1 = kx_credits s"
  using assms by (auto simp: throttle_def split: prod.splits)

lemma meter_frame:
  assumes "meter E m s = (r, s1)"
  shows "kx_principal s1 = kx_principal s \<and> kx_ctx s1 = kx_ctx s \<and> kx_marker s1 = kx_marker s \<and>
    kx_credits s1 = kx_credits s"
  using assms by (auto simp: meter_def split: prod.splits)

section \<open>The chain as a whole\<close>

lemma run_guards_append:
  assumes "run_guards (gs @ hs) s = (r, s')"
  shows "(\<exists>e. run_guards gs s = (Inl e, s') \<and> r = Inl e) \<or>
    (\<exists>s1. run_guards gs s = (Inr True, s1) \<and> run_guards hs s1 = (r, s'))"
  using assms by (induction gs arbitrary: s) (auto split: prod.splits sum.splits if_splits)

lemma run_guards_Cons:
  assumes "run_guards (g # gs) s = (Inr True, s')"
  obtains s1 where "g s = (Inr True, s1)" and "run_guards gs s1 = (Inr True, s')"
  using assms by (auto split: prod.splits sum.splits if_splits)

definition keeps_credits :: "'s guard \<Rightarrow> bool" where
  "keeps_credits g \<longleftrightarrow> (\<forall>s. kx_credits (snd (g s)) = kx_credits s)"

lemma run_guards_keep: "list_all keeps_credits gs \<Longrightarrow> kx_credits (snd (run_guards gs s)) = kx_credits s"
proof (induction gs arbitrary: s)
  case (Cons g gs)
  then have "kx_credits (snd (g s)) = kx_credits s" by (simp add: keeps_credits_def)
  with Cons show ?case by (auto split: prod.splits sum.splits)
qed simp

definition free_gates :: "('rq, 's) chain_env \<Rightarrow> route_meta \<Rightarrow> 'rq \<Rightarrow> 's guard list" where
  "free_gates E m rq =
     [authenticate E m rq, permit E m, bind_organization E m rq, entitle E m, throttle E m rq, meter E m]"

lemma free_gates_keep_credits: "list_all keeps_credits (free_gates E m rq)"
  by (auto simp: free_gates_def keeps_credits_def authenticate_def permit_def bind_organization_def entitle_def
      throttle_def meter_def split: prod.splits)

lemma chain_parts: "guard_chain E m rq = free_gates E m rq @ [charge E m]"
  by (simp add: guard_chain_def free_gates_def)

lemma free_gates_admit:
  assumes R: "redis_store (cv_redis E) view" and co: "\<forall>u. coherent (view (kx_conn s)) db u"
    and tables: "cv_permissions E = (\<lambda>u. Inr (read_access db u))"
    and shut: "\<not> is_open m" and fresh: "entering s"
    and run: "run_guards (free_gates E m rq) s = (Inr True, s6)"
  shows "\<exists>u. entitled_caller E db m rq u \<and> caller_id s6 = Some u \<and> kx_marker s6 = None"
proof -
  obtain s1 s2 s3 s4 s5 where
    1: "authenticate E m rq s = (Inr True, s1)" and 2: "permit E m s1 = (Inr True, s2)" and
    3: "bind_organization E m rq s2 = (Inr True, s3)" and 4: "entitle E m s3 = (Inr True, s4)" and
    5: "throttle E m rq s4 = (Inr True, s5)" and 6: "meter E m s5 = (Inr True, s6)"
    using run unfolding free_gates_def
    by (elim run_guards_Cons) auto
  obtain lu sid expires where lu: "cv_getSession E rq = Inr (Some (lu, sid, expires))" "lu_emailVerified lu"
    and p1: "kx_principal s1 = Some (to_principal lu)" and a1: "kx_access s1 = None" "kx_plan s1 = None"
    "kx_marker s1 = None" "kx_conn s1 = kx_conn s"
    using authenticate_effect[OF shut 1 fresh] by auto
  have perm: "permitted_by db m (lu_id lu)"
    using permit_passes[OF R _ tables p1 a1(1) shut 2] co a1(4) by simp
  have p2: "caller_id s2 = Some (lu_id lu)" "kx_plan s2 = None" "kx_marker s2 = None"
    using permit_frame[OF 2] p1 a1 by (simp_all add: caller_id_def to_principal_def)
  have org: "\<forall>g. named_organization (cv_orgHeader E rq) = Some g \<longrightarrow> get_membership g (lu_id lu) (cv_orgs E) \<noteq> None"
    and p3: "caller_id s3 = Some (lu_id lu)" "kx_plan s3 = None" "kx_marker s3 = None"
    using bind_effect[OF shut 3 p2(1)] p2 by (auto simp: caller_id_def)
  have plan: "planned_for E m (lu_id lu)" and p4: "caller_id s4 = Some (lu_id lu)" "kx_marker s4 = None"
    using entitle_effect[OF shut 4 p3(1,2)] p3 by (auto simp: caller_id_def)
  have "caller_id s6 = Some (lu_id lu)" "kx_marker s6 = None"
    using throttle_frame[OF 5] meter_frame[OF 6] p4 by (simp_all add: caller_id_def)
  then show ?thesis using lu perm org plan by (auto simp: entitled_caller_def)
qed

lemma failed_spend:
  "spend env fault si amount k f md w = (Inl e, w') \<Longrightarrow> w' = w \<or> (\<exists>e'. fault = Tx_unreported e')"
  by (auto simp: spend_def apply_mutation_def run_tx_def Let_def split: sum.splits prod.splits tx_fault.splits)

text \<open>The price of a route, and the entry that pays it.\<close>

definition priced :: "route_meta \<Rightarrow> string option" where
  "priced m = truthy (case_prod get_all_and_override (mt_cost m))"

definition pays :: "billing_subject \<Rightarrow> string \<Rightarrow> ledger_entry \<Rightarrow> bool" where
  "pays subject feature entry \<longleftrightarrow>
     e_type entry = Spend \<and> JInt (e_amount entry) = credit_cost feature \<and> e_feature entry = Some feature \<and>
     (case subject of Org_Subject g \<Rightarrow> e_organizationId entry = Some g | User_Subject u \<Rightarrow> e_userId entry = Some u)"

definition request_spend_key :: "'s call_state \<Rightarrow> string \<Rightarrow> string" where
  "request_spend_key s feature =
     spend_key (case get_request_id (kx_ctx s) of Some r \<Rightarrow> r | None \<Rightarrow> ''unknown'') feature"

lemma paid_spend:
  assumes "spend env fault (subject_given subject) (credit_cost f) k (Some f) md w = (Inr v, w')"
  shows "\<exists>entry. find_entry k (cw_db w') = Some entry \<and> pays subject f entry"
proof -
  obtain n where n: "credit_cost f = JInt n" and
    am: "apply_mutation env fault
           \<lparr>ap_subject = subject, ap_type = Spend, ap_amount = n, ap_delta = - n, ap_idempotencyKey = k,
            ap_feature = Some f, ap_metadata = md, ap_failIfInsufficient = True\<rparr> w = (Inr v, w')"
    using assms
    by (cases "credit_cost f") (auto simp: spend_def subject_given_def resolve_subject_def split: if_splits)
  let ?p = "\<lparr>ap_subject = subject, ap_type = Spend, ap_amount = n, ap_delta = - n, ap_idempotencyKey = k,
            ap_feature = Some f, ap_metadata = md, ap_failIfInsufficient = True\<rparr>"
  have "run_tx fault (apply_tx env ?p) (cw_db w) = (Inr v, cw_db w')"
    using apply_mutation_result[of env fault ?p w] apply_mutation_db[of env fault ?p w] am
    by (simp add: prod_eq_iff)
  note tx = run_tx_return[OF this]
  show ?thesis
    using apply_tx_writes(1,2)[OF tx] n
    by (auto simp: pays_def replay_matches_def Let_def split: billing_subject.splits)
qed

lemma charge_effect:
  assumes "\<not> is_open m" and "caller_id s = Some u" and "kx_marker s = None" and "charge E m s = (r, s1)"
  shows "caller_id s1 = Some u \<and> kx_ctx s1 = kx_ctx s \<and>
    (case r of
       Inl e \<Rightarrow> kx_marker s1 = None \<and> (kx_credits s1 = kx_credits s \<or> (\<exists>e. cv_creditFault E = Tx_unreported e))
     | Inr b \<Rightarrow> b \<and>
         (case priced m of
            None \<Rightarrow> kx_credits s1 = kx_credits s
          | Some f \<Rightarrow> \<exists>subject entry. billing_of E s1 u = Inr subject \<and>
              find_entry (request_spend_key s1 f) (cw_db (kx_credits s1)) = Some entry \<and> pays subject f entry))"
  using assms
  by (auto simp: charge_def credits_guard_def priced_def is_open_def caller_id_def billing_of_def request_spend_key_def
      Let_def dest: failed_spend paid_spend split: option.splits sum.splits prod.splits)

definition signed_in :: "('rq, 's) chain_env \<Rightarrow> 'rq \<Rightarrow> bool" where
  "signed_in E rq \<longleftrightarrow>
     (case cv_getSession E rq of Inr (Some (lu, _, _)) \<Rightarrow> lu_emailVerified lu | _ \<Rightarrow> False)"

lemma stranger_touches_nothing:
  assumes "\<not> is_open m" and "entering s" and "\<not> signed_in E rq" and "admit E m rq s = (r, s')"
  shows "r \<noteq> Inr True \<and> kx_conn s' = kx_conn s \<and> kx_reads s' = kx_reads s \<and> kx_credits s' = kx_credits s"
proof -
  obtain r1 s1 where 1: "authenticate E m rq s = (r1, s1)" by fastforce
  note eff = authenticate_effect[OF assms(1) 1 assms(2)]
  then obtain e where "r1 = Inl e" using assms(3) by (auto simp: signed_in_def split: sum.splits)
  with eff 1 assms(4) show ?thesis by (auto simp: admit_def guard_chain_def)
qed

lemma refusal_keeps_the_quota_spent:
  assumes "run_guards (free_gates E m rq) s = (Inr True, s6)" and "charge E m s6 = (Inl e, s7)"
  shows "admit E m rq s = (Inl e, s7) \<and> kx_conn s7 = kx_conn s6 \<and> kx_reads s7 = kx_reads s6"
proof -
  have "run_guards (gs @ hs) t = run_guards hs t'" if "run_guards gs t = (Inr True, t')" for gs hs t t'
    using that by (induction gs arbitrary: t) (auto split: prod.splits sum.splits if_splits)
  from this[OF assms(1)] show ?thesis
    using assms(2) by (auto simp: admit_def chain_parts charge_def split: prod.splits)
qed

text \<open>The plan that counts is the caller's own, whatever organization the request is bound to.\<close>

lemma entitle_ignores_the_organization: "fst (entitle E m (s\<lparr>kx_ctx := c\<rparr>)) = fst (entitle E m s)"
  by (simp add: entitle_def caller_id_def split: prod.split)

text \<open>C18.
  The seven guards together, on a route that is not public, over any Redis client and any
  library throttler, with a permission cache that only holds the table's answers. Who reaches
  the handler, or moves a credit, is a signed-in and verified user who holds the permissions
  and one of the roles that the route asks for, is a member of the organization the request
  names, and has a plan that grants what the route requires. Behind each admitted call of a
  priced route stands a ledger entry under the key of the request, over exactly the price of
  the feature and in the name of the subject that the request bills; an admitted call of any
  other route leaves the credits alone. A refused call moves no credit, unless the charge was
  committed and only its answer was lost. Who is not signed in leaves no trace: no counter and
  no cache entry in Redis and no credit.
\<close>

theorem charged_only_behind_every_gate:
  assumes "redis_store (cv_redis E) view" and "\<forall>u. coherent (view (kx_conn s)) db u"
    and "cv_permissions E = (\<lambda>u. Inr (read_access db u))"
    and "\<not> is_open m" and "entering s" and "admit E m rq s = (r, s')"
  shows "(r = Inr True \<or> kx_credits s' \<noteq> kx_credits s \<longrightarrow>
           (\<exists>u. entitled_caller E db m rq u \<and> caller_id s' = Some u \<and>
              (r = Inr True \<longrightarrow>
                 (case priced m of
                    None \<Rightarrow> kx_credits s' = kx_credits s
                  | Some f \<Rightarrow> \<exists>subject entry. billing_of E s' u = Inr subject \<and>
                      find_entry (request_spend_key s' f) (cw_db (kx_credits s')) = Some entry \<and>
                      pays subject f entry)))) \<and>
         (r \<noteq> Inr True \<and> kx_credits s' \<noteq> kx_credits s \<longrightarrow> (\<exists>e. cv_creditFault E = Tx_unreported e)) \<and>
         (\<not> signed_in E rq \<longrightarrow> r \<noteq> Inr True \<and> kx_conn s' = kx_conn s \<and> kx_reads s' = kx_reads s \<and>
            kx_credits s' = kx_credits s)"
proof -
  have stranger: "\<not> signed_in E rq \<Longrightarrow>
      r \<noteq> Inr True \<and> kx_conn s' = kx_conn s \<and> kx_reads s' = kx_reads s \<and> kx_credits s' = kx_credits s"
    using stranger_touches_nothing[OF assms(4,5) _ assms(6)] .
  from run_guards_append[OF assms(6)[unfolded admit_def chain_parts]]
  consider (refused) e where "run_guards (free_gates E m rq) s = (Inl e, s')" "r = Inl e"
    | (reached) s6 where "run_guards (free_gates E m rq) s = (Inr True, s6)" "run_guards [charge E m] s6 = (r, s')"
    by blast
  then show ?thesis
  proof cases
    case refused
    then have "kx_credits s' = kx_credits s"
      using run_guards_keep[OF free_gates_keep_credits, of E m rq s] by simp
    with refused stranger show ?thesis by simp
  next
    case reached
    obtain u where u: "entitled_caller E db m rq u" "caller_id s6 = Some u" "kx_marker s6 = None"
      using free_gates_admit[OF assms(1-5) reached(1)] by blast
    have c6: "kx_credits s6 = kx_credits s"
      using run_guards_keep[OF free_gates_keep_credits, of E m rq s] reached(1) by simp
    obtain r7 s7 where 7: "charge E m s6 = (r7, s7)" by fastforce
    note eff = charge_effect[OF assms(4) u(2,3) 7]
    then have "r7 = r \<and> s7 = s'" using reached(2) 7 by (auto split: sum.splits if_splits)
    with eff u c6 stranger show ?thesis by (cases r; cases "priced m") auto
  qed
qed

definition demo_chain_env :: "(unit, mem_conn) chain_env" where
  "demo_chain_env =
     \<lparr>cv_getSession = demo_session, cv_orgHeader = (\<lambda>_. Header_absent), cv_ip = (\<lambda>_. None),
      cv_redis = mem_redis, cv_now = 7, cv_permissions = (\<lambda>u. Inr (read_access demo_access u)),
      cv_orgs = empty_org_db, cv_flagDefaults = [], cv_flags = Inr [], cv_planCache = empty_cache,
      cv_planDb = \<lparr>pd_plans = [], pd_entitlements = [], pd_usage = [], pd_subscriptions = [], pd_down = None\<rparr>,
      cv_throttle =
        \<lparr>tc_burst = \<lparr>tw_windowSeconds = 10, tw_max = 20\<rparr>, tc_minute = \<lparr>tw_windowSeconds = 60, tw_max = 60\<rparr>,
         tc_strict = \<lparr>tws_burst = \<lparr>tw_windowSeconds = 5, tw_max = 5\<rparr>, tws_minute = \<lparr>tw_windowSeconds = 60, tw_max = 20\<rparr>\<rparr>\<rparr>,
      cv_super = (\<lambda>inc gen trk thr p w. (Inr True, w)), cv_isThrottlerException = (\<lambda>_. False),
      cv_usage = \<lparr>ue_redis = mem_redis, ue_config = \<lparr>uc_default = \<lparr>pc_daily = 1, pc_weekly = 1\<rparr>, uc_features = []\<rparr>,
         ue_plans = None, ue_clock = (\<lambda>_. 0)\<rparr>,
      cv_credits = sample_env, cv_creditFault = Tx_ok\<rparr>"

definition demo_paid_route :: route_meta where
  "demo_paid_route =
     \<lparr>mt_public = (None, None), mt_permissions = (Some [''account:read''], None), mt_roles = (None, None),
      mt_entitlements = (None, None), mt_plan = (None, None), mt_strict = (None, None), mt_skipThrottle = [],
      mt_usage = (None, None), mt_cost = (Some ''demo.paid'', None)\<rparr>"

definition demo_entry :: "mem_conn call_state" where
  "demo_entry =
     \<lparr>kx_principal = None, kx_ctx = Some \<lparr>rs_requestId = ''r9'', rs_userId = None, rs_organizationId = None\<rparr>,
      kx_access = None, kx_plan = None, kx_marker = None, kx_conn = failing_redis, kx_headers = [],
      kx_reads = 0, kx_lostRollbacks = [], kx_credits = sample_world\<rparr>"

lemma demo_coherent: "\<forall>u. coherent (mc_view (kx_conn demo_entry)) demo_access u"
  by (simp add: coherent_def rv_text_def rv_lookup_def failing_redis_def demo_entry_def)

lemma demo_is_admitted: "fst (admit demo_chain_env demo_paid_route () demo_entry) = Inr True"
proof -
  let ?E = demo_chain_env and ?m = demo_paid_route
  let ?lu = "\<lparr>apr_id = ''u'', apr_email = ''u@x'', apr_name = ''U'', apr_emailVerified = True, apr_twoFactorEnabled = False\<rparr>"
  let ?ctx = "Some \<lparr>rs_requestId = ''r9'', rs_userId = Some ''u'', rs_organizationId = None\<rparr>"
  note calm = get_all_and_override_def demo_paid_route_def demo_chain_env_def
  have 1: "authenticate ?E ?m () demo_entry = (Inr True, demo_entry\<lparr>kx_principal := Some ?lu, kx_ctx := ?ctx\<rparr>)"
    by (simp add: authenticate_def auth_guard_def resolve_session_def to_principal_def demo_session_def demo_entry_def
        set_user_id_def calm)
  obtain c where 2: "resolve_access mem_redis 7 (Inr (read_access demo_access ''u'')) ''u'' failing_redis =
      (Inr (read_access demo_access ''u''), c)"
    using mem.resolve_is_table[of failing_redis demo_access "''u''" 7] demo_coherent
    by (cases "resolve_access mem_redis 7 (Inr (read_access demo_access ''u'')) ''u'' failing_redis")
      (simp add: demo_entry_def)
  have perms: "ea_permissions (read_access demo_access ''u'') = [''account:read'']" by code_simp
  define s2 where "s2 = demo_entry\<lparr>kx_principal := Some ?lu, kx_ctx := ?ctx,
      kx_access := Some (read_access demo_access ''u''), kx_conn := c\<rparr>"
  have p: "permit ?E ?m (demo_entry\<lparr>kx_principal := Some ?lu, kx_ctx := ?ctx\<rparr>) = (Inr True, s2)"
    using 2 perms
    by (simp add: permit_def permissions_guard_def access_for_def Let_def calm demo_entry_def s2_def)
  have rest: "bind_organization ?E ?m () s2 = (Inr True, s2)" "entitle ?E ?m s2 = (Inr True, s2)"
    "throttle ?E ?m () s2 = (Inr True, s2)" "meter ?E ?m s2 = (Inr True, s2)"
    by (simp_all add: bind_organization_def org_context_guard_def entitle_def entitlements_can_activate_def
        throttle_def named_throttlers_def handle_request_def policy_for_def meter_def usage_guard_def truthy_def calm
        s2_def demo_entry_def)
  have "fst (charge ?E ?m s2) = Inr True"
    by (simp add: charge_def credits_guard_def calm truthy_def billing_of_def resolve_billing_def caller_id_def s2_def
        demo_entry_def get_organization_id_def get_request_id_def credit_cost_def credit_costs_def subject_given_def
        spend_key_def sample_world_def sample_ops_def credit_eval user_subject_def)
  then show ?thesis
    using 1 p rest by (auto simp: admit_def guard_chain_def split: prod.splits sum.splits)
qed

theorem charged_only_behind_every_gate_witness:
  "\<exists>s' entry. admit demo_chain_env demo_paid_route () demo_entry = (Inr True, s') \<and>
     find_entry (request_spend_key s' ''demo.paid'') (cw_db (kx_credits s')) = Some entry \<and>
     e_type entry = Spend \<and> e_amount entry = 1"
proof -
  obtain s' where run: "admit demo_chain_env demo_paid_route () demo_entry = (Inr True, s')"
    using demo_is_admitted by (cases "admit demo_chain_env demo_paid_route () demo_entry") auto
  have price: "priced demo_paid_route = Some ''demo.paid''" "credit_cost ''demo.paid'' = JInt 1"
    by (simp_all add: priced_def demo_paid_route_def get_all_and_override_def truthy_def credit_cost_def credit_costs_def)
  have "redis_store (cv_redis demo_chain_env) mc_view" "cv_permissions demo_chain_env = (\<lambda>u. Inr (read_access demo_access u))"
    by (simp_all add: demo_chain_env_def mem.redis_store_axioms)
  moreover have "\<not> is_open demo_paid_route" "entering demo_entry"
    by (simp_all add: is_open_def demo_paid_route_def get_all_and_override_def entering_def demo_entry_def)
  ultimately show ?thesis
    using charged_only_behind_every_gate[where view = mc_view and db = demo_access, OF _ demo_coherent _ _ _ run] run price by (auto simp: pays_def)
qed

end
