(* ===== verification/Platform.thy ===== *)
theory Platform
  imports ConfigNamespaces
begin

text \<open>
  How the process is put together: the routing surface of \<open>src/bootstrap.ts\<close>, the middleware
  of \<open>src/app.module.ts\<close>, the logger's options, and the life of the Redis and Prisma
  clients (\<open>src/infrastructure\<close>). The libraries that take these settings are not modelled;
  how a route pattern matches a path is an argument.
\<close>

section \<open>The application's settings\<close>

definition api_prefix :: string where "api_prefix = ''api''"
definition default_api_version :: string where "default_api_version = ''1''"

record app_options =
  po_bodyParser :: bool

definition app_options :: app_options where
  "app_options = \<lparr>po_bodyParser = False\<rparr>"

record hsts_setting =
  hs_maxAge :: int
  hs_includeSubDomains :: bool

record app_settings =
  as_trustProxy :: bool
  as_cspDirectives :: "(string \<times> string list) list"
  as_referrerPolicy :: string
  as_crossOriginResourcePolicy :: string
  as_hsts :: "hsts_setting option"
  as_poweredBy :: bool
  as_corsOrigins :: "string list"
  as_corsCredentials :: bool
  as_corsMethods :: "string list"
  as_corsAllowedHeaders :: "string list"
  as_corsMaxAge :: int
  as_globalPrefix :: string
  as_prefixExcludes :: "string list"
  as_versionDefault :: string
  as_shutdownHooks :: bool

definition strip_slash :: "string \<Rightarrow> string" where
  "strip_slash p = (if starts_with ''/'' p then drop 1 p else p)"

definition configure_app :: "security_config \<Rightarrow> mcp_config \<Rightarrow> app_settings" where
  "configure_app security mcp =
     \<lparr>as_trustProxy = sec_trustProxy security,
      as_cspDirectives =
        [(''default-src'', [[CHR 0x27] @ ''none'' @ [CHR 0x27]]), (''frame-ancestors'', [[CHR 0x27] @ ''none'' @ [CHR 0x27]]),
         (''base-uri'', [[CHR 0x27] @ ''none'' @ [CHR 0x27]]), (''form-action'', [[CHR 0x27] @ ''none'' @ [CHR 0x27]])],
      as_referrerPolicy = ''no-referrer'', as_crossOriginResourcePolicy = ''same-site'',
      as_hsts = (if sec_servesHttps security then Some \<lparr>hs_maxAge = 15552000, hs_includeSubDomains = True\<rparr> else None),
      as_poweredBy = False, as_corsOrigins = sec_corsOrigins security, as_corsCredentials = True,
      as_corsMethods = [''GET'', ''HEAD'', ''PUT'', ''PATCH'', ''POST'', ''DELETE'', ''OPTIONS''],
      as_corsAllowedHeaders = [''Content-Type'', ''Authorization'', ''Idempotency-Key'', ''X-Organization-Id''],
      as_corsMaxAge = 600, as_globalPrefix = api_prefix,
      as_prefixExcludes = map strip_slash (health_paths @ [''/metrics''] @ [mc_path mcp]),
      as_versionDefault = default_api_version, as_shutdownHooks = True\<rparr>"

section \<open>The middleware\<close>

datatype http_verb = Verb_post

datatype middleware =
    Request_context_middleware
  | Better_auth_middleware
  | Raw_parser string
  | Json_parser string
  | Urlencoded_parser bool

record registration =
  rg_apply :: "middleware list"
  rg_exclude :: "string list"
  rg_routes :: "(string \<times> http_verb option) list"

text \<open>\<open>AUTH_BASE_PATH.replace('/api/', '')\<close>: the first occurrence.\<close>

fun remove_first :: "string \<Rightarrow> string \<Rightarrow> string" where
  "remove_first p [] = []"
| "remove_first p (c # cs) = (if starts_with p (c # cs) then drop (length p) (c # cs) else c # remove_first p cs)"

definition auth_route_pattern :: string where
  "auth_route_pattern = remove_first (''/'' @ api_prefix @ ''/'') auth_base_path @ ''/{*splat}''"

definition stripe_webhook_path :: string where
  "stripe_webhook_path = ''v1/billing/webhook''"

definition configure :: "registration list" where
  "configure =
     [\<lparr>rg_apply = [Request_context_middleware], rg_exclude = [], rg_routes = [(''{*splat}'', None)]\<rparr>,
      \<lparr>rg_apply = [Better_auth_middleware], rg_exclude = [], rg_routes = [(auth_route_pattern, None)]\<rparr>,
      \<lparr>rg_apply = [Raw_parser ''application/json''], rg_exclude = [], rg_routes = [(stripe_webhook_path, Some Verb_post)]\<rparr>,
      \<lparr>rg_apply = [Json_parser ''1mb'', Urlencoded_parser True],
       rg_exclude = [auth_route_pattern, stripe_webhook_path], rg_routes = [(''{*splat}'', None)]\<rparr>]"

text \<open>The middleware a request runs through, in order, when a pattern matches as \<open>matches\<close> says.\<close>

definition middleware_of :: "(string \<Rightarrow> 'p \<Rightarrow> bool) \<Rightarrow> bool \<Rightarrow> 'p \<Rightarrow> middleware list" where
  "middleware_of matches is_post path =
     concat (map (\<lambda>r. if list_ex (\<lambda>(pat, verb). matches pat path \<and> (verb = None \<or> is_post)) (rg_routes r) \<and>
                        \<not> list_ex (\<lambda>pat. matches pat path) (rg_exclude r)
                     then rg_apply r else []) configure)"

text \<open>The modules in the order of their import, which is the order of their global guards.\<close>

definition app_modules :: "string list" where
  "app_modules =
     [''EventEmitterModule'', ''LoggerModule'', ''PrismaModule'', ''RedisModule'', ''MailModule'', ''StorageModule'',
      ''FeatureFlagsModule'', ''QueuesModule'', ''AuthModule'', ''AuthorizationModule'', ''OrganizationsModule'',
      ''PlansModule'', ''ThrottlingModule'', ''UsageLimitsModule'', ''CreditsModule'', ''BillingModule'',
      ''ApiKeysModule'', ''McpModule'', ''MetricsModule'', ''AdminModule'', ''HealthModule'', ''IdempotencyModule'',
      ''CommonModule'']"

section \<open>The logger\<close>

definition sensitive_keys :: "string list" where
  "sensitive_keys =
     [''password'', ''token'', ''secret'', ''apiKey'', ''accessToken'', ''sessionToken'', ''refreshToken'',
      ''idToken'', ''clientSecret'', ''backupCodes'', ''totpCode'', ''otp'', ''code'', ''newPassword'',
      ''currentPassword'']"

definition redaction_paths :: "string list" where
  "redaction_paths =
     [''req.headers.authorization'', ''req.headers.cookie'', ''res.headers[\"set-cookie\"]''] @
     concat (map (\<lambda>k. [k, ''*.'' @ k, ''*.*.'' @ k]) sensitive_keys)"

definition use_pretty :: "bool \<Rightarrow> bool \<Rightarrow> bool" where
  "use_pretty configured available \<longleftrightarrow> configured \<and> available"

definition gen_req_id :: "request_context \<Rightarrow> string \<Rightarrow> header \<Rightarrow> string" where
  "gen_req_id ctx uuid inbound =
     (case get_request_id ctx of Some r \<Rightarrow> r | None \<Rightarrow> resolve_request_id uuid inbound)"

definition log_mixin :: "request_context \<Rightarrow> (string \<times> string) list" where
  "log_mixin ctx =
     (case truthy (get_request_id ctx) of Some r \<Rightarrow> [(''requestId'', r)] | None \<Rightarrow> []) @
     (case truthy (get_user_id ctx) of Some u \<Rightarrow> [(''userId'', u)] | None \<Rightarrow> [])"

definition custom_props :: "http_request \<Rightarrow> (string \<times> string) list" where
  "custom_props rq = (case hq_id rq of Some i \<Rightarrow> [(''requestId'', i)] | None \<Rightarrow> [])"

definition log_ignored :: "http_request \<Rightarrow> bool" where
  "log_ignored rq \<longleftrightarrow> is_health_path (request_path rq) \<or> is_metrics_path (request_path rq)"

definition success_message :: "int \<Rightarrow> int \<Rightarrow> string" where
  "success_message status responseTime =
     ''request completed '' @ show_int status @ '' in '' @ show_int responseTime @ ''ms''"

section \<open>The clients\<close>

record redis_options =
  ro_url :: string
  ro_maxRetriesPerRequest :: int
  ro_enableOfflineQueue :: bool
  ro_connectTimeout :: int

definition redis_options_of :: "string \<Rightarrow> int \<Rightarrow> redis_options" where
  "redis_options_of url healthTimeoutMs =
     \<lparr>ro_url = url, ro_maxRetriesPerRequest = 1, ro_enableOfflineQueue = False, ro_connectTimeout = healthTimeoutMs\<rparr>"

definition retry_strategy :: "int \<Rightarrow> int" where
  "retry_strategy attempt = min (attempt * 200) 2000"

text \<open>\<open>RedisModule.onApplicationShutdown\<close>: a failing \<open>quit\<close> is ignored.\<close>

definition redis_shutdown ::
  "('w \<Rightarrow> string) \<Rightarrow> ('w \<Rightarrow> (exn + unit) \<times> 'w) \<Rightarrow> ('w \<Rightarrow> 'w) \<Rightarrow> 'w \<Rightarrow> 'w" where
  "redis_shutdown status quit disconnect w =
     (if status w = ''end'' then w else disconnect (snd (quit w)))"

definition prisma_init ::
  "('w \<Rightarrow> (exn + unit) \<times> 'w) \<Rightarrow> ('w \<Rightarrow> (exn + unit) \<times> 'w) \<Rightarrow> 'w \<Rightarrow> (exn + unit) \<times> 'w" where
  "prisma_init connect select_one w =
     (case connect w of
        (Inl e, w1) \<Rightarrow> (Inl e, w1)
      | (Inr _, w1) \<Rightarrow> (case select_one w1 of (Inl e, w2) \<Rightarrow> (Inl e, w2) | (Inr _, w2) \<Rightarrow> (Inr (), w2)))"

section \<open>Laws\<close>

lemma auth_pattern: "auth_route_pattern = ''auth/{*splat}''"
  by code_simp

text \<open>
  No parser touches an authentication request or, but for the raw one, the Stripe webhook;
  every request has its context first.
\<close>

lemma bodies_are_left_alone:
  assumes "\<And>p. matches ''{*splat}'' p"
  shows "matches auth_route_pattern p \<Longrightarrow> \<not> matches stripe_webhook_path p \<Longrightarrow>
      middleware_of matches is_post p = [Request_context_middleware, Better_auth_middleware]"
    and "\<not> matches auth_route_pattern p \<Longrightarrow> matches stripe_webhook_path p \<Longrightarrow>
      middleware_of matches True p = [Request_context_middleware, Raw_parser ''application/json'']"
    and "\<not> matches auth_route_pattern p \<Longrightarrow> \<not> matches stripe_webhook_path p \<Longrightarrow>
      middleware_of matches is_post p = [Request_context_middleware, Json_parser ''1mb'', Urlencoded_parser True]"
  using assms by (simp_all add: middleware_of_def configure_def)

text \<open>The guards run from the identity of the caller to what the call costs.\<close>

lemma guard_order:
  "filter (\<lambda>m. m \<in> set [''AuthModule'', ''AuthorizationModule'', ''OrganizationsModule'', ''PlansModule'',
                       ''ThrottlingModule'', ''UsageLimitsModule'', ''CreditsModule'']) app_modules =
     [''AuthModule'', ''AuthorizationModule'', ''OrganizationsModule'', ''PlansModule'',
      ''ThrottlingModule'', ''UsageLimitsModule'', ''CreditsModule'']"
  by code_simp

lemma retry_strategy_bounds: "0 < attempt \<Longrightarrow> 200 \<le> retry_strategy attempt \<and> retry_strategy attempt \<le> 2000"
  by (simp add: retry_strategy_def)

text \<open>The id of the log is that of the context, whichever of the two middlewares runs first.\<close>

lemma one_request_id: "get_request_id ctx = Some r \<Longrightarrow> gen_req_id ctx uuid inbound = r"
  by (simp add: gen_req_id_def)

lemma boot_needs_database:
  "fst (prisma_init connect select_one w) = Inr () \<longleftrightarrow>
     (\<exists>w1. connect w = (Inr (), w1) \<and> (\<exists>w2. select_one w1 = (Inr (), w2)))"
  by (auto simp: prisma_init_def split: prod.splits sum.splits)

end
