(* ===== verification/Routes.thy ===== *)
theory Routes
  imports GuardChain Platform Idempotency ApiKeys
begin

text \<open>
  The routes of the controllers with the metadata of their decorators, as one table: what each
  demands of its caller, and what the table as a whole promises. Class metadata is the second
  component of each pair. The swagger decorators carry no behaviour and are left out.
\<close>

section \<open>A route\<close>

record route =
  rr_verb :: string
  rr_path :: string
  rr_neutral :: bool
  rr_meta :: route_meta
  rr_idempotent :: "bool option \<times> bool option"
  rr_noEnvelope :: "bool option \<times> bool option"
  rr_httpCode :: "int option \<times> int option"

definition bare :: route_meta where
  "bare = \<lparr>mt_public = (None, None), mt_permissions = (None, None), mt_roles = (None, None),
     mt_entitlements = (None, None), mt_plan = (None, None), mt_strict = (None, None), mt_skipThrottle = [],
     mt_usage = (None, None), mt_cost = (None, None)\<rparr>"

definition endpoint :: "string \<Rightarrow> string \<Rightarrow> route" where
  "endpoint verb path =
     \<lparr>rr_verb = verb, rr_path = path, rr_neutral = False, rr_meta = bare, rr_idempotent = (None, None),
      rr_noEnvelope = (None, None), rr_httpCode = (None, None)\<rparr>"

definition class_meta :: "(route_meta \<Rightarrow> route_meta) \<Rightarrow> route list \<Rightarrow> route list" where
  "class_meta f rs = map (\<lambda>r. r\<lparr>rr_meta := f (rr_meta r)\<rparr>) rs"

definition neutral :: "route list \<Rightarrow> route list" where
  "neutral rs = map (\<lambda>r. r\<lparr>rr_neutral := True\<rparr>) rs"

definition strict_class :: "route_meta \<Rightarrow> route_meta" where
  "strict_class m = m\<lparr>mt_strict := (fst (mt_strict m), Some True)\<rparr>"

definition open_class :: "route_meta \<Rightarrow> route_meta" where
  "open_class m = m\<lparr>mt_public := (fst (mt_public m), Some True), mt_skipThrottle := [''burst'', ''minute'']\<rparr>"

definition demands_class :: "string \<Rightarrow> route_meta \<Rightarrow> route_meta" where
  "demands_class p m = m\<lparr>mt_permissions := (fst (mt_permissions m), Some [p])\<rparr>"

definition demands :: "string \<Rightarrow> route \<Rightarrow> route" where
  "demands p r = r\<lparr>rr_meta := (rr_meta r)\<lparr>mt_permissions := (Some [p], snd (mt_permissions (rr_meta r)))\<rparr>\<rparr>"

definition idempotent :: "route \<Rightarrow> route" where
  "idempotent r = r\<lparr>rr_idempotent := (Some True, snd (rr_idempotent r))\<rparr>"

definition no_envelope :: "route \<Rightarrow> route" where
  "no_envelope r = r\<lparr>rr_noEnvelope := (Some True, snd (rr_noEnvelope r))\<rparr>"

definition answers :: "int \<Rightarrow> route \<Rightarrow> route" where
  "answers n r = r\<lparr>rr_httpCode := (Some n, snd (rr_httpCode r))\<rparr>"

definition strictly :: "route \<Rightarrow> route" where
  "strictly r = r\<lparr>rr_meta := (rr_meta r)\<lparr>mt_strict := (Some True, snd (mt_strict (rr_meta r)))\<rparr>\<rparr>"

definition openly :: "route \<Rightarrow> route" where
  "openly r = r\<lparr>rr_meta := (rr_meta r)\<lparr>mt_public := (Some True, snd (mt_public (rr_meta r)))\<rparr>\<rparr>"

definition costs :: "string \<Rightarrow> route \<Rightarrow> route" where
  "costs f r = r\<lparr>rr_meta := (rr_meta r)\<lparr>mt_cost := (Some f, snd (mt_cost (rr_meta r)))\<rparr>\<rparr>"

section \<open>The controllers\<close>

definition health_routes :: "route list" where
  "health_routes =
     neutral (class_meta open_class
       [no_envelope (endpoint ''GET'' ''health/live''), no_envelope (endpoint ''GET'' ''health/ready'')])"

definition metrics_routes :: "route list" where
  "metrics_routes = neutral (class_meta open_class [no_envelope (endpoint ''GET'' ''metrics'')])"

definition mcp_routes :: "route list" where
  "mcp_routes =
     map (\<lambda>r. r\<lparr>rr_noEnvelope := (None, Some True)\<rparr>)
       (neutral (class_meta open_class [endpoint ''ALL'' ''mcp'']))"

definition webhook_routes :: "route list" where
  "webhook_routes = [answers 200 (no_envelope (openly (endpoint ''POST'' ''billing/webhook'')))]"

definition account_routes :: "route list" where
  "account_routes =
     class_meta strict_class
       [endpoint ''GET'' ''account/me'', endpoint ''GET'' ''account/sessions'',
        endpoint ''DELETE'' ''account/sessions/:id'', endpoint ''POST'' ''account/sessions/revoke-others'']"

definition two_factor_routes :: "route list" where
  "two_factor_routes =
     class_meta strict_class
       [endpoint ''GET'' ''account/two-factor'', endpoint ''POST'' ''account/two-factor/enable'',
        endpoint ''POST'' ''account/two-factor/verify'', endpoint ''POST'' ''account/two-factor/backup-codes'',
        endpoint ''POST'' ''account/two-factor/disable'']"

definition api_key_routes :: "route list" where
  "api_key_routes =
     class_meta (strict_class \<circ> demands_class ''api-keys:manage'')
       [endpoint ''POST'' ''account/api-keys'', endpoint ''GET'' ''account/api-keys'',
        answers 200 (endpoint ''DELETE'' ''account/api-keys/:id'')]"

definition organization_routes :: "route list" where
  "organization_routes =
     [idempotent (endpoint ''POST'' ''organizations''), endpoint ''GET'' ''organizations'',
      endpoint ''GET'' ''organizations/:organizationId/members'',
      endpoint ''POST'' ''organizations/:organizationId/members'',
      answers 200 (endpoint ''DELETE'' ''organizations/:organizationId/members/:userId'')]"

definition plan_routes :: "route list" where
  "plan_routes = [endpoint ''GET'' ''billing/plan'']"

definition checkout_routes :: "route list" where
  "checkout_routes = [idempotent (endpoint ''POST'' ''billing/checkout'')]"

definition credit_routes :: "route list" where
  "credit_routes = [endpoint ''GET'' ''billing/credits'', endpoint ''GET'' ''billing/credits/ledger'']"

definition credit_demo_routes :: "route list" where
  "credit_demo_routes = [costs ''demo.paid'' (endpoint ''POST'' ''billing/demo/paid'')]"

definition admin_billing_routes :: "route list" where
  "admin_billing_routes =
     [demands ''admin:subscriptions:read'' (endpoint ''GET'' ''admin/users/:userId/subscription''),
      demands ''admin:credits:read'' (endpoint ''GET'' ''admin/users/:userId/credits''),
      demands ''admin:credits:adjust'' (strictly (answers 200 (endpoint ''POST'' ''admin/users/:userId/credits/grant''))),
      demands ''admin:credits:adjust''
        (strictly (idempotent (answers 200 (endpoint ''POST'' ''admin/users/:userId/credits/adjust''))))]"

definition admin_audit_routes :: "route list" where
  "admin_audit_routes = class_meta (demands_class ''admin:audit:read'') [endpoint ''GET'' ''admin/audit'']"

definition admin_usage_routes :: "route list" where
  "admin_usage_routes =
     class_meta (demands_class ''admin:metrics:read'')
       [endpoint ''GET'' ''admin/usage/pressure'', endpoint ''GET'' ''admin/usage/top-429'',
        endpoint ''GET'' ''admin/usage/users/:userId'']"

definition routes :: "route list" where
  "routes =
     account_routes @ two_factor_routes @ organization_routes @ plan_routes @ credit_routes @ credit_demo_routes @
     checkout_routes @ webhook_routes @ api_key_routes @ mcp_routes @ metrics_routes @
     admin_usage_routes @ admin_billing_routes @ admin_audit_routes @ health_routes"

text \<open>
  The URL that Nest serves a route at: under the global prefix, and under the version unless the
  controller is neutral; a path among the exclusions goes without the prefix.
\<close>

definition route_url :: "app_settings \<Rightarrow> route \<Rightarrow> string" where
  "route_url c r =
     (if rr_path r \<in> set (as_prefixExcludes c) then [] else ''/'' @ as_globalPrefix c) @
     (if rr_neutral r then [] else ''/v'' @ as_versionDefault c) @ ''/'' @ rr_path r"

section \<open>Thin handlers\<close>

text \<open>\<open>@CurrentUser()\<close>: the principal that the guard left, or a programming error.\<close>

definition current_user :: "auth_principal option \<Rightarrow> exn + auth_principal" where
  "current_user principal' =
     (case principal' of
        None \<Rightarrow> Inl (OtherExn (''@CurrentUser() used on a route with no authenticated principal. '' @
                  ''Remove @Public() from the route, or stop injecting the principal.''))
      | Some p \<Rightarrow> Inr p)"

text \<open>The body of a webhook call as Express leaves it: the bytes, or what a parser made of them.\<close>

datatype express_body = Body_bytes string | Body_value json | Body_absent

definition webhook_bytes :: "string option \<Rightarrow> express_body \<Rightarrow> string" where
  "webhook_bytes rawBody body =
     (case rawBody of
        Some b \<Rightarrow> b
      | None \<Rightarrow>
          (case body of
             Body_bytes b \<Rightarrow> b
           | Body_value v \<Rightarrow> to_json (if v = JNull then JObj [] else v)
           | Body_absent \<Rightarrow> to_json (JObj [])))"

definition receive_webhook ::
  "(string \<Rightarrow> string option \<Rightarrow> 'w \<Rightarrow> (exn + unit) \<times> 'w) \<Rightarrow> string option \<Rightarrow> express_body \<Rightarrow> string option \<Rightarrow> 'w \<Rightarrow>
     (exn + json) \<times> 'w" where
  "receive_webhook handle rawBody body signature w =
     (case handle (webhook_bytes rawBody body) signature w of
        (Inl e, w') \<Rightarrow> (Inl e, w')
      | (Inr _, w') \<Rightarrow> (Inr (JObj [(''received'', JBool True)]), w'))"

definition create_key_call ::
  "api_key_env \<Rightarrow> auth_principal \<Rightarrow> string \<Rightarrow> api_key_row list \<Rightarrow> (exn + created_api_key) \<times> api_key_row list" where
  "create_key_call env user name rows = create_api_key env (apr_id user) name rows"

definition list_keys_call :: "auth_principal \<Rightarrow> api_key_row list \<Rightarrow> api_key_view list" where
  "list_keys_call user rows = list_api_keys (apr_id user) rows"

definition revoke_key_call ::
  "api_key_env \<Rightarrow> auth_principal \<Rightarrow> string \<Rightarrow> api_key_row list \<Rightarrow> (exn + api_key_view) \<times> api_key_row list" where
  "revoke_key_call env user i rows = revoke_api_key env (apr_id user) i rows"

definition paid_demo :: "auth_principal \<Rightarrow> json" where
  "paid_demo user =
     JObj [(''ok'', JBool True), (''userId'', JStr (apr_id user)), (''feature'', JStr ''demo.paid'')]"

section \<open>Bodies\<close>

text \<open>The validators of the bodies, over the values that they see after the pipe's conversion.\<close>

fun text_between :: "nat \<Rightarrow> nat option \<Rightarrow> json option \<Rightarrow> bool" where
  "text_between least most (Some (JStr s)) \<longleftrightarrow>
     least \<le> length s \<and> (case most of None \<Rightarrow> True | Some n \<Rightarrow> length s \<le> n)"
| "text_between least most v \<longleftrightarrow> False"

definition create_key_ok :: "json option \<Rightarrow> bool" where
  "create_key_ok name \<longleftrightarrow> text_between 1 (Some 100) name"

text \<open>\<open>/^[a-z0-9]+(-[a-z0-9]+)*$/\<close>: no empty part between hyphens.\<close>

definition slug_char :: "char \<Rightarrow> bool" where
  "slug_char c \<longleftrightarrow>
     (let n = of_char c :: nat in 97 \<le> n \<and> n \<le> 122 \<or> 48 \<le> n \<and> n \<le> 57)"

definition slug_ok :: "string \<Rightarrow> bool" where
  "slug_ok s \<longleftrightarrow> list_all (\<lambda>part. part \<noteq> [] \<and> list_all slug_char part) (split_at CHR ''-'' s)"

definition create_organization_ok :: "json option \<Rightarrow> json option \<Rightarrow> bool" where
  "create_organization_ok name slug \<longleftrightarrow>
     text_between 1 (Some 100) name \<and> text_between 2 (Some 60) slug \<and>
     (case slug of Some (JStr s) \<Rightarrow> slug_ok s | _ \<Rightarrow> False)"

definition assignable_roles :: "string list" where
  "assignable_roles = [''owner'', ''admin'', ''member'']"

definition add_member_ok :: "json option \<Rightarrow> json option \<Rightarrow> bool" where
  "add_member_ok userId role \<longleftrightarrow>
     text_between 1 None userId \<and>
     (case role of None \<Rightarrow> True | Some JNull \<Rightarrow> True | Some (JStr r) \<Rightarrow> r \<in> set assignable_roles | _ \<Rightarrow> False)"

section \<open>What the table promises\<close>

lemmas route_tables =
  routes_def account_routes_def two_factor_routes_def organization_routes_def plan_routes_def credit_routes_def
  credit_demo_routes_def checkout_routes_def webhook_routes_def api_key_routes_def mcp_routes_def metrics_routes_def
  admin_usage_routes_def admin_billing_routes_def admin_audit_routes_def health_routes_def

text \<open>The open surface: probes, scrape, agent transport and webhook, and nothing else.\<close>

lemma open_surface:
  "map rr_path (filter (\<lambda>r. is_open (rr_meta r)) routes) =
     [''billing/webhook'', ''mcp'', ''metrics'', ''health/live'', ''health/ready'']"
  by code_simp

text \<open>Exactly the open routes answer without the envelope.\<close>

lemma raw_routes_are_open:
  "list_all (\<lambda>r. (case_prod get_all_and_override (rr_noEnvelope r) = Some True) = is_open (rr_meta r)) routes"
  by code_simp

text \<open>Every admin route demands a declared permission that of the baseline roles only admin grants.\<close>

lemma admin_routes_demand:
  "list_all (\<lambda>r. starts_with ''admin/'' (rr_path r) \<longrightarrow>
      listed (mt_permissions (rr_meta r)) \<noteq> [] \<and>
      list_all (\<lambda>p. is_permission p \<and> starts_with ''admin:'' p \<and>
          map fst (filter (\<lambda>(_, _, grants). p \<in> set grants) baseline_roles) = [role_admin])
        (listed (mt_permissions (rr_meta r)))) routes"
  by code_simp

text \<open>So whoever gets through the guards of an admin route holds an operator's permission.\<close>

lemma admin_routes_are_guarded: "list_all (\<lambda>r. starts_with ''admin/'' (rr_path r) \<longrightarrow> \<not> is_open (rr_meta r)) routes"
  by code_simp

lemma admin_call_needs_an_operator:
  assumes "r \<in> set routes" and "starts_with ''admin/'' (rr_path r)"
    and "redis_store (cv_redis E) view" and "\<forall>u. coherent (view (kx_conn s)) db u"
    and "cv_permissions E = (\<lambda>u. Inr (read_access db u))" and "entering s"
    and "admit E (rr_meta r) rq s = (Inr True, s')"
  shows "\<exists>u p. holds_permission db u p \<and> starts_with ''admin:'' p \<and>
    (\<exists>lu sid expires. cv_getSession E rq = Inr (Some (lu, sid, expires)) \<and> lu_id lu = u)"
proof -
  let ?m = "rr_meta r"
  have shut: "\<not> is_open ?m" using admin_routes_are_guarded assms(1,2) by (auto simp: list_all_iff)
  obtain p where p: "p \<in> set (listed (mt_permissions ?m))" "starts_with ''admin:'' p"
    using admin_routes_demand assms(1,2) by (fastforce simp: list_all_iff neq_Nil_conv)
  obtain s6 where "run_guards (free_gates E ?m rq) s = (Inr True, s6)"
    using run_guards_append[OF assms(7)[unfolded admit_def chain_parts]] by auto
  from free_gates_admit[OF assms(3,4,5) shut assms(6) this]
  obtain u where "entitled_caller E db ?m rq u" by blast
  with p show ?thesis unfolding entitled_caller_def permitted_by_def by blast
qed

text \<open>Credentials and operators' mutations are under the strict windows.\<close>

lemma strict_routes:
  "list_all (\<lambda>r. (starts_with ''account/'' (rr_path r) \<longrightarrow> policy_for (mt_strict (rr_meta r)) = ''strict'') \<and>
      (starts_with ''admin/'' (rr_path r) \<and> rr_verb r = ''POST'' \<longrightarrow> policy_for (mt_strict (rr_meta r)) = ''strict'')) routes"
  by code_simp

text \<open>What costs or is remembered has a known caller, who pays and whose key it is.\<close>

lemma charged_routes_know_their_caller:
  "list_all (\<lambda>r. (priced (rr_meta r) \<noteq> None \<or> rr_idempotent r \<noteq> (None, None) \<longrightarrow>
      \<not> is_open (rr_meta r) \<and> rr_verb r = ''POST'')) routes"
  by code_simp

text \<open>No handler injects the principal on an open route, and a guarded one always has it.\<close>

lemma admitted_call_has_a_user:
  assumes "entering s" and "\<not> is_open m" and "authenticate E m rq s = (Inr b, s1)"
  shows "\<exists>p. current_user (kx_principal s1) = Inr p"
  using authenticate_effect[OF assms(2,3,1)] by (auto simp: current_user_def)

lemma distinct_routes: "distinct (map (\<lambda>r. (rr_verb r, rr_path r, rr_neutral r)) routes)"
  by code_simp

text \<open>The URLs of the probes are the ones of the exclusions; the webhook is where its parser is.\<close>

lemma probe_urls: "map (route_url (configure_app sec mcp)) health_routes = health_paths"
  by (simp add: health_routes_def neutral_def class_meta_def no_envelope_def endpoint_def route_url_def configure_app_def
      health_paths_def strip_slash_def starts_with_prefix prefix_def)

lemma webhook_url:
  assumes "mc_path mcp \<noteq> ''billing/webhook''" and "mc_path mcp \<noteq> ''/billing/webhook''"
  shows "map (route_url (configure_app sec mcp)) webhook_routes = [''/api/'' @ stripe_webhook_path]"
  using assms
  by (auto simp: webhook_routes_def answers_def no_envelope_def openly_def endpoint_def route_url_def configure_app_def
      stripe_webhook_path_def api_prefix_def default_api_version_def health_paths_def strip_slash_def starts_with_prefix
      prefix_def)

text \<open>
  The transport's controller is fixed at \<open>mcp\<close>: under any other configured path it is served
  below the prefix, where no carve-out expects it.
\<close>

lemma moved_transport_is_under_the_prefix:
  assumes "strip_slash (mc_path mcp) \<noteq> ''mcp''"
  shows "map (route_url (configure_app sec mcp)) mcp_routes = [''/api/mcp'']"
  using assms
  by (simp add: mcp_routes_def neutral_def class_meta_def endpoint_def route_url_def configure_app_def api_prefix_def
      health_paths_def strip_slash_def starts_with_prefix prefix_def)

text \<open>The webhook is open but not spared: deliveries from one address share its windows.\<close>

lemma webhook_is_throttled_by_address:
  "list_all (\<lambda>r. mt_skipThrottle (rr_meta r) = [] \<and> policy_for (mt_strict (rr_meta r)) = ''default'') webhook_routes"
  "get_tracker None (Some ip) = ''ip:'' @ ip"
  by code_simp (simp add: get_tracker_def)

text \<open>A body that is no JSON by its type reaches the signature check as the empty object.\<close>

lemma unparsed_webhook: "webhook_bytes None Body_absent = ''{}''"
  by code_simp

text \<open>A name of blanks is valid and stored empty.\<close>

lemma blank_key_name:
  "create_key_ok (Some (JStr ''  ''))"
  "create_key_call env user ''  '' rows = (Inr k, rows') \<Longrightarrow> ck_name k = []"
proof -
  have "trim ''  '' = []" by code_simp
  then show "create_key_call env user ''  '' rows = (Inr k, rows') \<Longrightarrow> ck_name k = []"
    by (auto simp: create_key_call_def create_api_key_def Let_def split: if_splits)
qed (simp add: create_key_ok_def)

lemma slug_examples: "slug_ok ''acme-corp''" "\<not> slug_ok ''acme--corp''" "\<not> slug_ok ''-acme''" "\<not> slug_ok ''Acme''"
  by code_simp+

end
