(* ===== verification/Scripts.thy ===== *)
theory Scripts
  imports Configuration "HOL-Library.Char_ord" "HOL-Library.List_Lexorder"
begin

text \<open>
  The two scripts of \<open>scripts/\<close>: the comparison of \<open>.env.example\<close> with the environment schema,
  and the smoke test that boots the build and shuts it down. The file, the child process and
  the clock are arguments.
\<close>

section \<open>The documented variables\<close>

definition upper_char :: "char \<Rightarrow> bool" where
  "upper_char c \<longleftrightarrow> (let n = of_char c :: nat in 65 \<le> n \<and> n \<le> 90)"

definition variable_char :: "char \<Rightarrow> bool" where
  "variable_char c \<longleftrightarrow> upper_char c \<or> (let n = of_char c :: nat in 48 \<le> n \<and> n \<le> 57) \<or> c = CHR ''_''"

text \<open>\<open>/^\s*([A-Z][A-Z0-9_]*)\s*=/\<close>: the first group, when a line matches.\<close>

definition assigned_name :: "string \<Rightarrow> string option" where
  "assigned_name line =
     (let rest = dropWhile is_space line; name = takeWhile variable_char rest
      in case name of
           [] \<Rightarrow> None
         | c # _ \<Rightarrow>
             (if upper_char c \<and> starts_with ''='' (dropWhile is_space (dropWhile variable_char rest))
              then Some name else None))"

definition documented_variables :: "string \<Rightarrow> string list" where
  "documented_variables contents = remdups (List.map_filter assigned_name (split_at (CHR 0x0A) contents))"

definition missing_variables :: "string list \<Rightarrow> string list \<Rightarrow> string list" where
  "missing_variables declared documented = sort (filter (\<lambda>x. x \<notin> set documented) declared)"

text \<open>The exit code of the script: what is missing and what is extra, if anything.\<close>

definition check_env_example :: "string list \<Rightarrow> string \<Rightarrow> (string list \<times> string list) option" where
  "check_env_example declared contents =
     (let documented = documented_variables contents;
          missing = missing_variables declared documented;
          extra = missing_variables documented declared
      in if missing = [] \<and> extra = [] then None else Some (missing, extra))"

lemma no_missing: "missing_variables xs ys = [] \<longleftrightarrow> set xs \<subseteq> set ys"
  by (metis (no_types, lifting) filter_empty_conv missing_variables_def set_empty2 set_sort subsetI subset_code(1))

lemma in_sync_iff:
  "check_env_example declared contents = None \<longleftrightarrow> set declared = set (documented_variables contents)"
  by (auto simp: check_env_example_def no_missing Let_def)

lemma comment_documents_nothing: "assigned_name (CHR ''#'' # rest) = None"
proof -
  have "\<not> is_space CHR ''#''" "\<not> variable_char CHR ''#''" by code_simp+
  then show ?thesis by (simp add: assigned_name_def)
qed

section \<open>The smoke test\<close>

definition boot_timeout_ms :: int where "boot_timeout_ms = 30000"
definition shutdown_timeout_ms :: int where "shutdown_timeout_ms = 10000"

text \<open>\<open>bt_exit ms\<close> waits for the child's end, its code and signal, for as long.\<close>

record 'w boot_env =
  bt_now :: "'w \<Rightarrow> int"
  bt_exitCode :: "'w \<Rightarrow> int option"
  bt_fetch :: "'w \<Rightarrow> (exn + bool) \<times> 'w"
  bt_sleep :: "int \<Rightarrow> 'w \<Rightarrow> 'w"
  bt_kill :: "string \<Rightarrow> 'w \<Rightarrow> 'w"
  bt_exit :: "int \<Rightarrow> 'w \<Rightarrow> (int option \<times> string option) option \<times> 'w"

partial_function (option) wait_for_liveness :: "'w boot_env \<Rightarrow> int \<Rightarrow> 'w \<Rightarrow> ((exn + unit) \<times> 'w) option" where
  "wait_for_liveness E deadline w =
     (if bt_now E w < deadline then
        (case bt_exitCode E w of
           Some c \<Rightarrow> Some (Inl (OtherExn (''Application exited during boot with code '' @ show_int c @ ''.'')), w)
         | None \<Rightarrow>
             (case bt_fetch E w of
                (response, w1) \<Rightarrow>
                  (if response = Inr True then Some (Inr (), w1)
                   else wait_for_liveness E deadline (bt_sleep E 300 w1))))
      else Some (Inl (OtherExn (''Liveness endpoint not ready within '' @ show_int boot_timeout_ms @ ''ms.'')), w))"

definition exit_code_of :: "int option \<times> string option \<Rightarrow> int" where
  "exit_code_of ended =
     (case fst ended of Some c \<Rightarrow> c | None \<Rightarrow> (if snd ended = Some ''SIGTERM'' then 0 else 1))"

definition shutdown_child :: "'w boot_env \<Rightarrow> 'w \<Rightarrow> (exn + int) \<times> 'w" where
  "shutdown_child E w =
     (case bt_exit E shutdown_timeout_ms (bt_kill E ''SIGTERM'' w) of
        (None, w1) \<Rightarrow>
          (Inl (OtherExn (''Process did not exit within '' @ show_int shutdown_timeout_ms @ ''ms of SIGTERM.'')),
           bt_kill E ''SIGKILL'' w1)
      | (Some ended, w1) \<Rightarrow> (Inr (exit_code_of ended), w1))"

definition smoke_boot :: "'w boot_env \<Rightarrow> 'w \<Rightarrow> ((exn + unit) \<times> 'w) option" where
  "smoke_boot E w =
     (let failed = (\<lambda>e w1. (Inl e, if bt_exitCode E w1 = None then bt_kill E ''SIGKILL'' w1 else w1))
      in case wait_for_liveness E (bt_now E w + boot_timeout_ms) w of
           None \<Rightarrow> None
         | Some (Inl e, w1) \<Rightarrow> Some (failed e w1)
         | Some (Inr _, w1) \<Rightarrow>
             (case shutdown_child E w1 of
                (Inl e, w2) \<Rightarrow> Some (failed e w2)
              | (Inr code, w2) \<Rightarrow>
                  (if code \<noteq> 0 then
                     Some (failed (OtherExn (''Expected a clean exit on SIGTERM, got code '' @ show_int code @ ''.'')) w2)
                   else Some (Inr (), w2))))"

text \<open>With a clock that a fetch does not set back and a sleep sets forward, the wait ends.\<close>

lemma wait_ends:
  assumes "\<And>w. bt_now E w \<le> bt_now E (snd (bt_fetch E w))" and "\<And>w. bt_now E w + 300 \<le> bt_now E (bt_sleep E 300 w)"
  shows "\<exists>y. wait_for_liveness E deadline w = Some y"
proof (induction "nat (deadline - bt_now E w)" arbitrary: w rule: less_induct)
  case less
  show ?case
  proof (cases "bt_now E w < deadline \<and> bt_exitCode E w = None \<and> fst (bt_fetch E w) \<noteq> Inr True")
    case False
    then show ?thesis
      by (subst wait_for_liveness.simps) (auto split: option.split prod.split sum.split bool.split)
  next
    case True
    obtain r w1 where f: "bt_fetch E w = (r, w1)" by fastforce
    let ?w2 = "bt_sleep E 300 w1"
    have "bt_now E w + 300 \<le> bt_now E ?w2" using assms(1)[of w] assms(2)[of w1] f by simp
    with True obtain y where "wait_for_liveness E deadline ?w2 = Some y" using less[of ?w2] by auto
    moreover have "wait_for_liveness E deadline w = wait_for_liveness E deadline ?w2"
      using True f by (subst wait_for_liveness.simps) (auto split: sum.split bool.split)
    ultimately show ?thesis by simp
  qed
qed

text \<open>A test that passes has seen the child live and then end cleanly.\<close>

lemma passed_smoke_test:
  assumes "smoke_boot E w = Some (Inr (), w')"
  shows "\<exists>w1 ended. wait_for_liveness E (bt_now E w + boot_timeout_ms) w = Some (Inr (), w1) \<and>
    bt_exit E shutdown_timeout_ms (bt_kill E ''SIGTERM'' w1) = (Some ended, w') \<and> exit_code_of ended = 0"
  using assms
  by (auto simp: smoke_boot_def shutdown_child_def Let_def split: option.splits prod.splits sum.splits if_splits)

text \<open>A test that fails leaves no child that could still be stopped.\<close>

lemma failed_smoke_test_kills:
  assumes "smoke_boot E w = Some (Inl e, w')"
  shows "bt_exitCode E w' \<noteq> None \<or> (\<exists>w1. w' = bt_kill E ''SIGKILL'' w1)"
  using assms
  by (auto simp: smoke_boot_def Let_def split: option.splits prod.splits sum.splits if_splits)

text \<open>An end by SIGTERM counts as clean, one by another signal does not.\<close>

lemma exit_codes:
  "exit_code_of (None, Some ''SIGTERM'') = 0" "exit_code_of (None, Some ''SIGKILL'') = 1"
  "exit_code_of (Some c, sig) = c"
  by (simp_all add: exit_code_of_def)

end
