(* ===== verification/Spec2Isabelle.thy ===== *)
theory Spec2Isabelle
  imports CreditEvents CreditRace UsageProperties OrgProperties CreditFlowProperties ThrottleProperties
    LockoutProperties BoundaryProperties IdempotencyProperties AuthorizationProperties ApiKeys ConfigProperties
    StripeProperties AgentProperties SeedProperties Shutdown Admin AuthHooks Storage GuardChain Routes Scripts
begin

text \<open>
  Verification library of the NestJS starter.

  \<^bold>\<open>The program\<close> is an HTTP service with plans, credits, organizations, admission control and a
  transport for agents, on PostgreSQL (through Prisma), Redis, BullMQ, Stripe and Better Auth. A
  request opens a context, passes seven global guards (who calls, what they may do, for which
  organization, under which plan, how often, how much of the quota, for how many credits), then
  the interceptors (metrics, refund, idempotency, envelope), the handler and, on an error, the
  filter. Agents come in over MCP with an API key and pass the same stages inside one pipeline.
  Stripe's webhook grants what was paid. Workers send mail, count usage and retry refunds.

  \<^bold>\<open>Conventions.\<close> Paths are below \<open>src/src\<close> unless they start with \<open>prisma\<close> or \<open>scripts\<close>. A
  table is the list of its rows in insertion order; each write checks the unique and foreign
  keys of \<open>prisma/schema.prisma\<close> that the code relies on. An operation takes its state and
  returns \<open>exn + 'a\<close> and the new state, so that every throw of the source is a value. Integers
  of JavaScript are \<open>int\<close>, and \<open>js_number\<close> where a value need not be an integer; a column of
  32 bits is checked by \<open>int4\<close>. Texts are char lists, and a dash in a message is written as two
  hyphens. A \<open>tx_fault\<close> says what happens to one transaction or statement: it goes well, it is
  lost, or it commits and its answer is lost.

  \<^bold>\<open>What is not the program's own is an argument\<close>: the Redis client, of which the locale
  \<open>redis_store\<close> states that each command does what Redis documents or fails, with or without
  effect, and of which \<open>mem_redis\<close> is an executable instance; the job queue (\<open>job_queue\<close>); the
  base class of the throttler (\<open>throttler_base\<close>); Better Auth, the Stripe client, BullMQ, the
  mail transport, the file system, S3, the clocks, the hashes and the random values.

  \<^bold>\<open>Foundations.\<close> \<open>Prelude\<close> (JSON values, numbers, texts, rows), \<open>Errors\<close>
  (\<open>common/errors\<close>), \<open>Database\<close> (client errors, transactions), \<open>Redis\<close> (commands and client),
  \<open>Json\<close> (print and parse, with their round trip), \<open>Calendar\<close> (UTC dates and ISO weeks),
  \<open>RequestContext\<close> (\<open>common/context\<close>), \<open>Subject\<close> (the owner of a wallet), \<open>CounterRuns\<close> (runs
  on shared counters), \<open>Statements\<close> (programs of single statements).

  \<^bold>\<open>Credits\<close> (\<open>modules/credits\<close>). \<open>Credits\<close> is the service; \<open>CreditLedger\<close> its invariant,
  \<open>CreditService\<close> its operations as one alphabet, \<open>CreditContract\<close> the abstract account that
  it refines, \<open>CreditProperties\<close> and \<open>CreditEvents\<close> the claims (books balance, spends are
  exact, replays and retries are exactly once, keys conflict, low-balance events are exact),
  \<open>CreditTrace\<close> what callers learn; \<open>CreditRace\<close> the transaction cut at its statements, under
  the row lock and the unique keys, and that its interleavings are serial. \<open>CreditFlow\<close> is the
  guard, the refund interceptor and the compensation queue; \<open>CreditFlowProperties\<close> shows that a
  failed handler costs nothing once one of its refunds reaches the ledger, and what is left when
  neither the inline refund nor a queued one does.

  \<^bold>\<open>Plans and usage\<close> (\<open>modules/plans\<close>, \<open>modules/usage-limits\<close>). \<open>Plans\<close> and \<open>PlanProperties\<close>
  resolve the plan in force and decide entitlements by the tables. \<open>UsagePeriods\<close> (stamps and
  lifetimes, against the civil calendar and the ISO rule for weeks), \<open>UsageLimits\<close>, \<open>UsageLemmas\<close> and \<open>UsageContract\<close> are the meter and its effect on the
  counters; \<open>UsageRace\<close> its interleavings; \<open>UsageProperties\<close> the claims.

  \<^bold>\<open>Organizations and flags\<close> (\<open>modules/organizations\<close>, \<open>modules/feature-flags\<close>):
  \<open>Organizations\<close>, \<open>FeatureFlags\<close>, \<open>OrgProperties\<close>.

  \<^bold>\<open>Admission\<close> (\<open>modules/throttling\<close>, \<open>modules/mcp/mcp-throttle\<close>, \<open>modules/auth\<close>): \<open>Throttling\<close>,
  \<open>ThrottleContract\<close>, \<open>ThrottleProperties\<close>; \<open>Lockout\<close>, \<open>LockoutProperties\<close>.

  \<^bold>\<open>Boundary\<close> (\<open>common\<close>): \<open>HttpBoundary\<close>, \<open>BoundaryProperties\<close> (paths, envelope, filter,
  validation); \<open>Idempotency\<close>, \<open>IdempotencyRace\<close>, \<open>IdempotencyProperties\<close> (retries within the
  lifetime of a record, and that nothing ends it).

  \<^bold>\<open>Access\<close> (\<open>modules/auth\<close>, \<open>modules/authorization\<close>, \<open>modules/api-keys\<close>): \<open>Authorization\<close>,
  \<open>PermissionRace\<close>, \<open>AuthorizationProperties\<close>; \<open>ApiKeys\<close>; \<open>AuthHooks\<close> (the options, hooks and
  middleware around Better Auth, the account and two-factor controllers).

  \<^bold>\<open>Requests as a whole.\<close> \<open>GuardChain\<close> runs the seven guards over one state of the request and
  shows that nobody is charged or admitted but through all of them; \<open>Routes\<close> is the table of
  the routes with their metadata and what the table promises (the open surface, the permissions
  of the operators, the strict windows); \<open>Platform\<close> is \<open>bootstrap.ts\<close>, \<open>app.module.ts\<close>, the
  logger's options and the clients.

  \<^bold>\<open>Money and agents.\<close> \<open>StripeTopup\<close>, \<open>StripeProperties\<close> (\<open>modules/billing\<close>): a paid session is
  credited exactly once. \<open>AgentPipeline\<close>, \<open>McpServer\<close>, \<open>AgentProperties\<close> (\<open>modules/mcp\<close>): what a
  call of a tool costs and records under any fault of its charge, refund and log.

  \<^bold>\<open>Operation.\<close> \<open>Configuration\<close>, \<open>ConfigRules\<close>, \<open>ConfigNamespaces\<close>, \<open>ConfigProperties\<close>
  (\<open>config\<close>); \<open>Seed\<close>, \<open>SeedProperties\<close> (\<open>prisma/seed.ts\<close>); \<open>Queues\<close>, \<open>Mail\<close>, \<open>Shutdown\<close>,
  \<open>Metrics\<close>, \<open>Admin\<close>, \<open>Storage\<close>, \<open>Scripts\<close> (\<open>modules/queues\<close>, \<open>infrastructure\<close>,
  \<open>modules/metrics\<close>, \<open>modules/admin\<close>, \<open>scripts\<close>).

  \<^bold>\<open>Concurrency.\<close> \<open>UsageRace\<close>, \<open>IdempotencyRace\<close>, \<open>PermissionRace\<close> and \<open>CreditRace\<close> are step
  relations in which any number of threads do one command or statement at a time; their claims
  are invariants by rule induction. That of \<open>CreditRace\<close> is why elsewhere a mutation of credits
  is one step: what is committed is always the result of whole calls one after the other.

  \<^bold>\<open>Loops and bounds.\<close> \<open>parse_json\<close> takes fuel of twice the length of the text, which the round
  trip shows to be enough for every printed document. The drain of the queues, the scan of the
  rollup and the wait of the smoke test are partial functions, \<open>None\<close> where the source would
  not return. The wait is shown to return when time passes; so is the drain, within as many
  pauses as the window holds, unless the queue library leaves one of its promises unsettled,
  which the source waits for without a bound.

  \<^bold>\<open>Not modelled.\<close> The OpenAPI document, which only feeds the documentation; \<open>main.ts\<close> and the
  module classes, which are dependency injection, except for the orders they fix; the generated
  Prisma client, except for the tables and constraints used; log lines. Of JavaScript: numbers
  beyond the exact integers, surrogate pairs of texts, and the microtasks between two
  statements of one handler.
\<close>

end
